(* ===== verification/Silius_Prelude.thy ===== *)
theory Silius_Prelude
  imports Main "HOL-Library.Word" "HOL-Library.AList" "HOL-Library.Multiset"
begin

text \<open>
  Shared vocabulary of the development: the outcome of a Rust computation (\<open>Ok\<close>, \<open>Err\<close>, or a
  panic that unwinds), state passing computations over an explicit store, the integer types the
  sources use with their overflow behaviour, and the model of \<open>HashMap\<close> and \<open>HashSet\<close> as
  association lists and lists without repetition.

  \<^item> \<open>u64\<close> and \<open>usize\<close> arithmetic is that of the release profile the README builds with: it wraps.
  \<^item> \<open>U256\<close> is the 256 bit unsigned integer of the ethers library. Its documented operations that
    the sources use are: \<open>saturating_*\<close>, which stop at the bounds; \<open>checked_*\<close>, which give nothing
    on a zero divisor; the plain operators, which panic on overflow; and \<open>as_u64\<close>, which panics
    when the value does not fit.
  \<^item> The list order of a map or set is the order in which Rust happens to iterate over it. That
    order is unspecified, so the properties are stated for every list, never for one order only.
\<close>

section \<open>Outcomes\<close>

named_theorems outcome_simps \<open>unfolding of the outcome and store combinators\<close>

datatype ('e, 'a) outcome = Ok 'a | Err 'e | Panic

text \<open>The question mark operator on a result, \<open>map_err\<close> and \<open>is_err\<close>.\<close>

definition bind_ok :: "('e, 'a) outcome \<Rightarrow> ('a \<Rightarrow> ('e, 'b) outcome) \<Rightarrow> ('e, 'b) outcome" where
  "bind_ok r f = (case r of Ok x \<Rightarrow> f x | Err e \<Rightarrow> Err e | Panic \<Rightarrow> Panic)"

definition map_err :: "('e \<Rightarrow> 'f) \<Rightarrow> ('e, 'a) outcome \<Rightarrow> ('f, 'a) outcome" where
  "map_err g r = (case r of Ok x \<Rightarrow> Ok x | Err e \<Rightarrow> Err (g e) | Panic \<Rightarrow> Panic)"

fun is_ok :: "('e, 'a) outcome \<Rightarrow> bool" where
  "is_ok (Ok x) = True"
| "is_ok (Err e) = False"
| "is_ok Panic = False"

fun is_err :: "('e, 'a) outcome \<Rightarrow> bool" where
  "is_err (Ok x) = False"
| "is_err (Err e) = True"
| "is_err Panic = False"

definition ok_or :: "'e \<Rightarrow> 'a option \<Rightarrow> ('e, 'a) outcome" where
  "ok_or e m = (case m of Some x \<Rightarrow> Ok x | None \<Rightarrow> Err e)"

definition expect :: "'a option \<Rightarrow> ('e, 'a) outcome" where
  "expect m = (case m of Some x \<Rightarrow> Ok x | None \<Rightarrow> Panic)"

lemma bind_ok_simps [simp]:
  "bind_ok (Ok x) f = f x"
  "bind_ok (Err e) f = Err e"
  "bind_ok Panic f = Panic"
  by (simp_all add: bind_ok_def)

lemma map_err_simps [simp]:
  "map_err g (Ok x) = Ok x"
  "map_err g (Err e) = Err (g e)"
  "map_err g Panic = Panic"
  by (simp_all add: map_err_def)

lemma ok_or_simps [simp]:
  "ok_or e (Some x) = Ok x"
  "ok_or e None = Err e"
  by (simp_all add: ok_or_def)

lemma expect_simps [simp]:
  "expect (Some x) = Ok x"
  "expect None = Panic"
  by (simp_all add: expect_def)

lemma bind_ok_eq_Ok:
  "bind_ok r f = Ok y \<longleftrightarrow> (\<exists>x. r = Ok x \<and> f x = Ok y)"
  by (cases r) auto

lemma bind_ok_cong: "(\<And>x. f x = g x) \<Longrightarrow> bind_ok r f = bind_ok r g"
  by (cases r) simp_all

lemma map_err_eq_Ok [simp]: "map_err g r = Ok y \<longleftrightarrow> r = Ok y"
  by (cases r) auto

lemma ok_or_eq_Ok [simp]: "ok_or e m = Ok x \<longleftrightarrow> m = Some x"
  by (cases m) auto

lemma is_ok_iff: "is_ok r \<longleftrightarrow> (\<exists>x. r = Ok x)"
  by (cases r) auto

lemma is_err_iff: "is_err r \<longleftrightarrow> (\<exists>e. r = Err e)"
  by (cases r) auto

text \<open>
  Running a check on every element in order, stopping at the first that does not pass: the
  shape of the \<open>for\<close> loops whose body ends in \<open>?\<close> or an early \<open>return Err\<close>.
\<close>

fun check_all :: "('a \<Rightarrow> ('e, unit) outcome) \<Rightarrow> 'a list \<Rightarrow> ('e, unit) outcome" where
  "check_all c [] = Ok ()"
| "check_all c (x # xs) = bind_ok (c x) (\<lambda>_. check_all c xs)"

lemma check_all_Ok: "check_all c xs = Ok u \<longleftrightarrow> (\<forall>x \<in> set xs. c x = Ok ())"
  by (induction xs) (auto simp: bind_ok_eq_Ok)

lemma check_all_append:
  "check_all c (xs @ ys) = bind_ok (check_all c xs) (\<lambda>_. check_all c ys)"
proof (induction xs)
  case Nil
  then show ?case by simp
next
  case (Cons x xs)
  then show ?case by (cases "c x") simp_all
qed

section \<open>Computations over a store\<close>

text \<open>
  A method that takes \<open>&mut self\<close> is a function from the store to an outcome and the store
  after it. The store is returned on every branch: a Rust method that fails half way keeps the
  writes it has already made.
\<close>

type_synonym ('s, 'e, 'a) op = "'s \<Rightarrow> ('e, 'a) outcome \<times> 's"

definition ret :: "'a \<Rightarrow> ('s, 'e, 'a) op" where
  "ret x = (\<lambda>s. (Ok x, s))"

definition fail :: "'e \<Rightarrow> ('s, 'e, 'a) op" where
  "fail e = (\<lambda>s. (Err e, s))"

definition bind_op ::
  "('s, 'e, 'a) op \<Rightarrow> ('a \<Rightarrow> ('s, 'e, 'b) op) \<Rightarrow> ('s, 'e, 'b) op" where
  "bind_op m f = (\<lambda>s. case m s of
       (Ok x, t) \<Rightarrow> f x t
     | (Err e, t) \<Rightarrow> (Err e, t)
     | (Panic, t) \<Rightarrow> (Panic, t))"

definition map_err_op :: "('e \<Rightarrow> 'f) \<Rightarrow> ('s, 'e, 'a) op \<Rightarrow> ('s, 'f, 'a) op" where
  "map_err_op g m = (\<lambda>s. case m s of (r, t) \<Rightarrow> (map_err g r, t))"

text \<open>Reading without writing: a method that takes \<open>&self\<close>.\<close>

definition query :: "('s \<Rightarrow> ('e, 'a) outcome) \<Rightarrow> ('s, 'e, 'a) op" where
  "query f = (\<lambda>s. (f s, s))"

fun for_each :: "('a \<Rightarrow> ('s, 'e, unit) op) \<Rightarrow> 'a list \<Rightarrow> ('s, 'e, unit) op" where
  "for_each f [] = ret ()"
| "for_each f (x # xs) = bind_op (f x) (\<lambda>_. for_each f xs)"

lemma ret_apply [simp]: "ret x s = (Ok x, s)"
  by (simp add: ret_def)

lemma fail_apply [simp]: "fail e s = (Err e, s)"
  by (simp add: fail_def)

lemma query_apply [simp]: "query f s = (f s, s)"
  by (simp add: query_def)

lemma bind_op_simps [outcome_simps]:
  "m s = (Ok x, t) \<Longrightarrow> bind_op m f s = f x t"
  "m s = (Err e, t) \<Longrightarrow> bind_op m f s = (Err e, t)"
  "m s = (Panic, t) \<Longrightarrow> bind_op m f s = (Panic, t)"
  by (simp_all add: bind_op_def)

lemma bind_op_ret [simp]: "bind_op (ret x) f = f x"
  by (rule ext) (simp add: bind_op_def)

lemma bind_op_query [outcome_simps]:
  "bind_op (query f) g s =
     (case f s of Ok x \<Rightarrow> g x s | Err e \<Rightarrow> (Err e, s) | Panic \<Rightarrow> (Panic, s))"
  by (simp add: bind_op_def)

lemma bind_op_eq_Ok:
  "bind_op m f s = (Ok y, t) \<longleftrightarrow> (\<exists>x u. m s = (Ok x, u) \<and> f x u = (Ok y, t))"
  by (auto simp: bind_op_def split: prod.splits outcome.splits)

lemma map_err_op_simps [outcome_simps]:
  "m s = (r, t) \<Longrightarrow> map_err_op g m s = (map_err g r, t)"
  by (simp add: map_err_op_def)

definition when_some :: "'a option \<Rightarrow> ('a \<Rightarrow> ('s, 'e, unit) op) \<Rightarrow> ('s, 'e, unit) op" where
  "when_some m f = (case m of Some x \<Rightarrow> f x | None \<Rightarrow> ret ())"

lemma when_some_simps [simp]:
  "when_some (Some x) f = f x"
  "when_some None f = ret ()"
  by (simp_all add: when_some_def)

text \<open>An invariant that every step keeps holds after the loop.\<close>

lemma for_each_total:
  assumes "\<And>x s. x \<in> set xs \<Longrightarrow> P s \<Longrightarrow> \<exists>t. f x s = (Ok (), t) \<and> P t \<and> R x s t"
    and "\<And>s. P s \<Longrightarrow> Q [] s s"
    and "\<And>x xs s t u. P s \<Longrightarrow> R x s t \<Longrightarrow> P t \<Longrightarrow> Q xs t u \<Longrightarrow> Q (x # xs) s u"
    and "P s"
  shows "\<exists>t. for_each f xs s = (Ok (), t) \<and> P t \<and> Q xs s t"
  using assms(1,4)
proof (induction xs arbitrary: s)
  case Nil
  then show ?case using assms(2) by simp
next
  case (Cons x xs)
  obtain t where t: "f x s = (Ok (), t)" "P t" "R x s t"
    using Cons.prems by (meson list.set_intros(1))
  obtain u where "for_each f xs t = (Ok (), u)" "P u" "Q xs t u"
    using Cons.IH [OF _ t(2)] Cons.prems(1) by (meson list.set_intros(2))
  then show ?case
    using t Cons.prems(2) assms(3) by (auto simp: outcome_simps)
qed

text \<open>
  Reasoning about what an operation leaves behind, whatever it returns: from a state with \<open>I\<close> it ends
  in a state with \<open>J\<close>.
\<close>

definition ensures :: "('s \<Rightarrow> bool) \<Rightarrow> ('s, 'e, 'a) op \<Rightarrow> ('s \<Rightarrow> bool) \<Rightarrow> bool" where
  "ensures I f J = (\<forall>s. I s \<longrightarrow> J (snd (f s)))"

abbreviation keeps :: "('s \<Rightarrow> bool) \<Rightarrow> ('s, 'e, 'a) op \<Rightarrow> bool" where
  "keeps I f \<equiv> ensures I f I"

named_theorems keeps_intros \<open>operations that keep an invariant\<close>

lemma ensuresI: "(\<And>s. I s \<Longrightarrow> J (snd (f s))) \<Longrightarrow> ensures I f J"
  by (simp add: ensures_def)

lemma ensuresD: "ensures I f J \<Longrightarrow> I s \<Longrightarrow> f s = (r, t) \<Longrightarrow> J t"
  unfolding ensures_def by (metis snd_conv)

lemma ensures_bind_op:
  assumes "ensures I f J" and "\<And>x. ensures J (g x) L" and "\<And>s. J s \<Longrightarrow> L s"
  shows "ensures I (bind_op f g) L"
  using assms unfolding ensures_def bind_op_def by (fastforce split: prod.split outcome.split)

lemma keeps_bind_op [keeps_intros]: "keeps I f \<Longrightarrow> (\<And>x. keeps I (g x)) \<Longrightarrow> keeps I (bind_op f g)"
  by (rule ensures_bind_op)

lemma keeps_basic [keeps_intros]: "keeps I (ret x)" "keeps I (fail e)" "keeps I (query f)"
  by (simp_all add: ensures_def)

lemma keeps_map_err_op [keeps_intros]: "ensures I f J \<Longrightarrow> ensures I (map_err_op g f) J"
  by (simp add: ensures_def map_err_op_def case_prod_beta)

lemma keeps_when_some [keeps_intros]: "(\<And>x. m = Some x \<Longrightarrow> keeps I (f x)) \<Longrightarrow> keeps I (when_some m f)"
  by (cases m) (simp_all add: keeps_basic)

lemma keeps_for_each [keeps_intros]: "(\<And>x. x \<in> set xs \<Longrightarrow> keeps I (f x)) \<Longrightarrow> keeps I (for_each f xs)"
  by (induction xs) (auto intro!: keeps_intros)

section \<open>Sorting and selecting\<close>

text \<open>
  \<open>sort_by\<close> is the stable sort of the standard library; a stable sort is determined by its
  comparison, so insertion from the right is an exact model. \<open>max_by_key\<close> keeps the last of
  several greatest elements.
\<close>

datatype ordering = Less | Equal | Greater

definition ord_cmp :: "'a::linorder \<Rightarrow> 'a \<Rightarrow> ordering" where
  "ord_cmp a b = (if a < b then Less else if a = b then Equal else Greater)"

fun insert_by :: "('a \<Rightarrow> 'a \<Rightarrow> ordering) \<Rightarrow> 'a \<Rightarrow> 'a list \<Rightarrow> 'a list" where
  "insert_by cmp x [] = [x]"
| "insert_by cmp x (y # ys) =
     (if cmp x y = Greater then y # insert_by cmp x ys else x # y # ys)"

definition sort_by :: "('a \<Rightarrow> 'a \<Rightarrow> ordering) \<Rightarrow> 'a list \<Rightarrow> 'a list" where
  "sort_by cmp xs = foldr (insert_by cmp) xs []"

fun max_by_key :: "('a \<Rightarrow> 'k::linorder) \<Rightarrow> 'a list \<Rightarrow> 'a option" where
  "max_by_key f [] = None"
| "max_by_key f (x # xs) = Some (fold (\<lambda>y m. if f m \<le> f y then y else m) xs x)"

lemma ord_cmp_iffs [simp]:
  "ord_cmp a b = Less \<longleftrightarrow> a < b"
  "ord_cmp a b = Equal \<longleftrightarrow> a = b"
  "ord_cmp a b = Greater \<longleftrightarrow> b < a"
  by (auto simp: ord_cmp_def)

lemma mset_insert_by [simp]: "mset (insert_by cmp x ys) = add_mset x (mset ys)"
  by (induction ys) auto

lemma mset_sort_by [simp]: "mset (sort_by cmp xs) = mset xs"
  by (induction xs) (simp_all add: sort_by_def)

lemma set_sort_by [simp]: "set (sort_by cmp xs) = set xs"
  by (metis mset_sort_by set_mset_mset)

lemma distinct_map_sort_by [simp]: "distinct (map f (sort_by cmp xs)) = distinct (map f xs)"
  by (metis mset_map mset_sort_by mset_eq_imp_distinct_iff)

lemma set_insert_by [simp]: "set (insert_by cmp x ys) = insert x (set ys)"
  by (metis mset_insert_by set_mset_add_mset_insert set_mset_mset)

lemma sorted_insert_by:
  assumes total: "\<And>x y. cmp x y = Greater \<Longrightarrow> cmp y x \<noteq> Greater"
    and trans: "\<And>x y z. cmp x y \<noteq> Greater \<Longrightarrow> cmp y z \<noteq> Greater \<Longrightarrow> cmp x z \<noteq> Greater"
  shows "sorted_wrt (\<lambda>a b. cmp a b \<noteq> Greater) ys \<Longrightarrow>
         sorted_wrt (\<lambda>a b. cmp a b \<noteq> Greater) (insert_by cmp x ys)"
proof (induction ys)
  case Nil
  then show ?case by simp
next
  case (Cons y ys)
  then show ?case using total [of x y] trans [of x y] by auto
qed

lemma sorted_sort_by:
  assumes "\<And>x y. cmp x y = Greater \<Longrightarrow> cmp y x \<noteq> Greater"
    and "\<And>x y z. cmp x y \<noteq> Greater \<Longrightarrow> cmp y z \<noteq> Greater \<Longrightarrow> cmp x z \<noteq> Greater"
  shows "sorted_wrt (\<lambda>a b. cmp a b \<noteq> Greater) (sort_by cmp xs)"
  by (induction xs) (simp_all add: sort_by_def sorted_insert_by [OF assms])

lemma fold_max_in:
  "fold (\<lambda>y m. if f m \<le> (f y :: 'k::linorder) then y else m) xs x \<in> insert x (set xs)"
  by (induction xs arbitrary: x) auto

lemma fold_max_ge:
  "z \<in> insert x (set xs) \<Longrightarrow>
   f z \<le> f (fold (\<lambda>y m. if f m \<le> (f y :: 'k::linorder) then y else m) xs x)"
proof (induction xs arbitrary: x z)
  case Nil
  then show ?case by simp
next
  case (Cons y ys)
  let ?x = "if f x \<le> f y then y else x"
  have "f x \<le> f ?x" "f y \<le> f ?x" by auto
  then show ?case using Cons.IH [of z ?x] Cons.IH [of ?x ?x] Cons.prems by fastforce
qed

lemma max_by_key_None [simp]: "max_by_key f xs = None \<longleftrightarrow> xs = []"
  by (cases xs) auto

lemma max_by_key_Some:
  assumes "max_by_key f xs = Some m"
  shows "m \<in> set xs" and "\<And>z. z \<in> set xs \<Longrightarrow> f z \<le> f m"
  using assms fold_max_in [of f] fold_max_ge [of _ _ _ f] by (cases xs; force)+

section \<open>Machine integers\<close>

named_theorems int_simps \<open>values of the saturating and checked operations\<close>

type_synonym u8 = "8 word"
type_synonym u64 = "64 word"
type_synonym U256 = "256 word"

definition sat_add :: "'a::len word \<Rightarrow> 'a word \<Rightarrow> 'a word" where
  "sat_add a b = (if unat a + unat b < 2 ^ LENGTH('a) then a + b else - 1)"

definition sat_sub :: "'a::len word \<Rightarrow> 'a word \<Rightarrow> 'a word" where
  "sat_sub a b = (if b \<le> a then a - b else 0)"

definition sat_mul :: "'a::len word \<Rightarrow> 'a word \<Rightarrow> 'a word" where
  "sat_mul a b = (if unat a * unat b < 2 ^ LENGTH('a) then a * b else - 1)"

definition checked_div :: "'a::len word \<Rightarrow> 'a word \<Rightarrow> 'a word option" where
  "checked_div a b = (if b = 0 then None else Some (a div b))"

definition checked_rem :: "'a::len word \<Rightarrow> 'a word \<Rightarrow> 'a word option" where
  "checked_rem a b = (if b = 0 then None else Some (a mod b))"

text \<open>The plain operators of \<open>U256\<close>: overflow panics.\<close>

definition u256_add :: "U256 \<Rightarrow> U256 \<Rightarrow> ('e, U256) outcome" where
  "u256_add a b = (if unat a + unat b < 2 ^ 256 then Ok (a + b) else Panic)"

definition u256_sub :: "U256 \<Rightarrow> U256 \<Rightarrow> ('e, U256) outcome" where
  "u256_sub a b = (if b \<le> a then Ok (a - b) else Panic)"

definition as_u64 :: "U256 \<Rightarrow> ('e, u64) outcome" where
  "as_u64 a = (if unat a < 2 ^ 64 then Ok (ucast a) else Panic)"

definition unwrap_or_default :: "'a::zero option \<Rightarrow> 'a" where
  "unwrap_or_default m = (case m of Some x \<Rightarrow> x | None \<Rightarrow> 0)"

lemma unwrap_or_default_simps [simp]:
  "unwrap_or_default (Some x) = x"
  "unwrap_or_default None = 0"
  by (simp_all add: unwrap_or_default_def)

lemma unat_sat_add [int_simps]:
  "unat (sat_add a (b :: 'a::len word)) = min (unat a + unat b) (2 ^ LENGTH('a) - 1)"
proof (cases "unat a + unat b < 2 ^ LENGTH('a)")
  case True
  then have "unat (a + b) = unat a + unat b"
    by (simp add: unat_word_ariths)
  with True show ?thesis by (simp add: sat_add_def)
next
  case False
  then show ?thesis by (simp add: sat_add_def unsigned_minus_1_eq_mask mask_eq_exp_minus_1)
qed

lemma unat_sat_sub [int_simps]: "unat (sat_sub a b) = unat a - unat b"
  by (simp add: sat_sub_def word_le_nat_alt unat_sub)

lemma unat_sat_mul [int_simps]:
  "unat (sat_mul a (b :: 'a::len word)) = min (unat a * unat b) (2 ^ LENGTH('a) - 1)"
proof (cases "unat a * unat b < 2 ^ LENGTH('a)")
  case True
  then have "unat (a * b) = unat a * unat b"
    by (simp add: unat_word_ariths)
  with True show ?thesis by (simp add: sat_mul_def)
next
  case False
  then show ?thesis by (simp add: sat_mul_def unsigned_minus_1_eq_mask mask_eq_exp_minus_1)
qed

lemma unat_ucast_up:
  assumes "LENGTH('a) \<le> LENGTH('b)"
  shows "unat (ucast (w :: 'a::len word) :: 'b::len word) = unat w"
proof -
  have "unat w < 2 ^ LENGTH('a)" by (rule unsigned_less)
  also have "\<dots> \<le> 2 ^ LENGTH('b)" using assms by (simp add: power_increasing)
  finally show ?thesis by (simp add: unsigned_ucast_eq take_bit_nat_eq_self)
qed

lemma unat_ucast_small:
  "unat (w :: 'a::len word) < 2 ^ LENGTH('b) \<Longrightarrow> unat (ucast w :: 'b::len word) = unat w"
  by (simp add: unsigned_ucast_eq take_bit_nat_eq_self)

lemma unat_of_nat_small: "n < 2 ^ LENGTH('a) \<Longrightarrow> unat (of_nat n :: 'a::len word) = n"
  by (simp add: unat_of_nat)

section \<open>Words as bytes\<close>

text \<open>The \<open>n\<close> low bytes of a word, most significant first, and the word that bytes denote.\<close>

fun to_be_bytes :: "nat \<Rightarrow> 'a::len word \<Rightarrow> u8 list" where
  "to_be_bytes 0 w = []"
| "to_be_bytes (Suc n) w = ucast (drop_bit (8 * n) w) # to_be_bytes n w"

definition from_be_bytes :: "u8 list \<Rightarrow> 'a::len word" where
  "from_be_bytes bs = fold (\<lambda>b acc. acc * 256 + ucast b) bs 0"

lemma length_to_be_bytes [simp]: "length (to_be_bytes n w) = n"
  by (induction n) auto

lemma ucast_ucast_byte: "8 \<le> LENGTH('a) \<Longrightarrow> ucast (ucast w :: u8) = take_bit 8 (w :: 'a::len word)"
  by (rule bit_word_eqI) (auto simp: bit_simps)

lemma take_bit_split:
  "take_bit (m + n) w = take_bit m (drop_bit n w) * 2 ^ n + take_bit n (w :: 'a::len word)"
proof -
  have "push_bit n (drop_bit n (take_bit (m + n) w)) + take_bit n (take_bit (m + n) w)
      = take_bit (m + n) w"
    by (rule bits_ident)
  then show ?thesis by (simp add: push_bit_eq_mult drop_bit_take_bit)
qed

lemma fold_to_be_bytes:
  assumes "8 \<le> LENGTH('a)"
  shows "fold (\<lambda>b acc. acc * 256 + ucast b) (to_be_bytes n w) acc
       = acc * 256 ^ n + take_bit (8 * n) (w :: 'a::len word)"
proof (induction n arbitrary: acc)
  case 0
  then show ?case by simp
next
  case (Suc n)
  have "take_bit (8 * Suc n) w = take_bit 8 (drop_bit (8 * n) w) * 2 ^ (8 * n) + take_bit (8 * n) w"
    using take_bit_split [of 8 "8 * n" w] by (simp add: add.commute)
  moreover have "(2 :: 'a word) ^ (8 * n) = 256 ^ n"
    by (simp add: power_mult)
  moreover have "fold (\<lambda>b acc. acc * 256 + ucast b) (to_be_bytes (Suc n) w) acc
      = (acc * 256 + take_bit 8 (drop_bit (8 * n) w)) * 256 ^ n + take_bit (8 * n) w"
    by (simp add: Suc.IH ucast_ucast_byte [OF assms])
  ultimately show ?case
    by (simp only: power_Suc) (simp add: algebra_simps)
qed

lemma from_to_be_bytes:
  assumes "8 * n = LENGTH('a)" and "0 < n"
  shows "from_be_bytes (to_be_bytes n w) = (w :: 'a::len word)"
proof -
  have "8 \<le> LENGTH('a)" using assms by linarith
  then show ?thesis
    by (simp add: from_be_bytes_def fold_to_be_bytes assms(1) take_bit_word_eq_self)
qed

lemma to_be_bytes_inj:
  assumes "8 * n = LENGTH('a)" and "0 < n"
  shows "to_be_bytes n v = to_be_bytes n w \<longleftrightarrow> v = (w :: 'a::len word)"
  by (metis assms from_to_be_bytes)

lemma to_be_bytes_snoc: "to_be_bytes (Suc n) w = to_be_bytes n (drop_bit 8 w) @ [ucast w]"
proof (induction n)
  case 0
  then show ?case by simp
next
  case (Suc n)
  have "to_be_bytes (Suc (Suc n)) w = ucast (drop_bit (8 * Suc n) w) # to_be_bytes (Suc n) w"
    by simp
  also have "\<dots> = ucast (drop_bit (8 * n) (drop_bit 8 w)) # to_be_bytes n (drop_bit 8 w) @ [ucast w]"
    unfolding Suc.IH by (simp add: add.commute)
  finally show ?case by simp
qed

lemma from_be_bytes_Nil [simp]: "from_be_bytes [] = 0"
  by (simp add: from_be_bytes_def)

lemma from_be_bytes_snoc: "from_be_bytes (bs @ [b]) = from_be_bytes bs * 256 + ucast b"
  by (simp add: from_be_bytes_def)

lemma unat_from_be_bytes_snoc:
  assumes "8 * Suc (length bs) \<le> LENGTH('a)"
    and "unat (from_be_bytes bs :: 'a::len word) < 256 ^ length bs"
  shows "unat (from_be_bytes (bs @ [b]) :: 'a word) = unat (from_be_bytes bs :: 'a word) * 256 + unat b"
proof -
  have b: "unat (ucast b :: 'a word) = unat b" "unat b < 256"
    using assms(1) unsigned_less [of b] by (simp_all add: unat_ucast_up)
  have "unat (from_be_bytes bs :: 'a word) * 256 + unat b < 256 ^ Suc (length bs)"
    using assms(2) b(2) by simp
  also have "(256::nat) ^ Suc (length bs) = 2 ^ (8 * Suc (length bs))"
    by (simp only: power_mult) simp
  also have "\<dots> \<le> 2 ^ LENGTH('a)"
    using assms(1) by (intro power_increasing) simp_all
  finally have small: "unat (from_be_bytes bs :: 'a word) * 256 + unat b < 2 ^ LENGTH('a)" .
  have "unat (256 :: 'a word) = 256 mod 2 ^ LENGTH('a)"
    by (metis of_nat_numeral unat_of_nat)
  then have "unat (from_be_bytes (bs @ [b]) :: 'a word) =
      (unat (from_be_bytes bs :: 'a word) * 256 + unat b) mod 2 ^ LENGTH('a)"
    by (simp add: from_be_bytes_snoc unat_word_ariths b(1) mod_simps)
  with small show ?thesis by simp
qed

lemma unat_from_be_bytes_less:
  assumes "8 * length bs \<le> LENGTH('a)"
  shows "unat (from_be_bytes bs :: 'a::len word) < 256 ^ length bs"
  using assms
proof (induction bs rule: rev_induct)
  case Nil
  then show ?case by simp
next
  case (snoc b bs)
  have "unat b < 256" using unsigned_less [of b] by simp
  then show ?case
    using snoc unat_from_be_bytes_snoc [where 'a = 'a, of bs b] by simp
qed

lemma to_from_be_bytes:
  assumes "8 * length bs \<le> LENGTH('a)"
  shows "to_be_bytes (length bs) (from_be_bytes bs :: 'a::len word) = bs"
  using assms
proof (induction bs rule: rev_induct)
  case Nil
  then show ?case by simp
next
  case (snoc b bs)
  let ?x = "from_be_bytes bs :: 'a word" and ?y = "from_be_bytes (bs @ [b]) :: 'a word"
  have y: "unat ?y = unat ?x * 256 + unat b"
    using snoc.prems unat_from_be_bytes_less [of bs, where 'a = 'a]
    by (intro unat_from_be_bytes_snoc) simp_all
  have b: "unat b < 256" using unsigned_less [of b] by simp
  have "unat (drop_bit 8 ?y) = unat ?y div 256"
    by (subst unsigned_drop_bit_eq) (simp add: drop_bit_eq_div take_bit_nat_eq_self unsigned_less)
  then have "unat (drop_bit 8 ?y) = unat ?x" using y b by simp
  then have "drop_bit 8 ?y = ?x" by (simp only: word_unat_eq_iff)
  moreover have "unat (ucast ?y :: u8) = unat b"
    using y b by (simp add: unsigned_ucast_eq take_bit_eq_mod)
  then have "ucast ?y = b" by (simp only: word_unat_eq_iff)
  ultimately show ?case
    using snoc by (simp add: to_be_bytes_snoc del: to_be_bytes.simps)
qed

lemma from_be_bytes_append:
  "8 * length cs \<le> LENGTH('a) \<Longrightarrow>
   from_be_bytes (bs @ cs) = (from_be_bytes bs * 2 ^ (8 * length cs) + from_be_bytes cs :: 'a::len word)"
proof (induction cs rule: rev_induct)
  case Nil
  then show ?case by simp
next
  case (snoc c cs)
  then show ?case
    by (simp add: from_be_bytes_snoc append_assoc [symmetric] power_add algebra_simps
        del: append_assoc)
qed

section \<open>Hash maps and hash sets\<close>

type_synonym ('k, 'v) hash_map = "('k \<times> 'v) list"
type_synonym 'a hash_set = "'a list"

definition hm_get :: "('k, 'v) hash_map \<Rightarrow> 'k \<Rightarrow> 'v option" where
  "hm_get m = map_of m"

definition hm_insert :: "'k \<Rightarrow> 'v \<Rightarrow> ('k, 'v) hash_map \<Rightarrow> ('k, 'v) hash_map" where
  "hm_insert k v m = AList.update k v m"

definition hm_remove :: "'k \<Rightarrow> ('k, 'v) hash_map \<Rightarrow> ('k, 'v) hash_map" where
  "hm_remove k m = AList.delete k m"

definition hm_contains :: "('k, 'v) hash_map \<Rightarrow> 'k \<Rightarrow> bool" where
  "hm_contains m k = (hm_get m k \<noteq> None)"

abbreviation hm_keys :: "('k, 'v) hash_map \<Rightarrow> 'k list" where
  "hm_keys m \<equiv> map fst m"

text \<open>A map is well formed when no key occurs twice; every operation keeps that.\<close>

definition hm_wf :: "('k, 'v) hash_map \<Rightarrow> bool" where
  "hm_wf m = distinct (hm_keys m)"

lemma hm_get_insert [simp]: "hm_get (hm_insert k v m) = (hm_get m)(k \<mapsto> v)"
  by (rule ext) (simp add: hm_get_def hm_insert_def update_conv')

lemma hm_get_remove [simp]: "hm_get (hm_remove k m) = (hm_get m)(k := None)"
  by (rule ext) (simp add: hm_get_def hm_remove_def delete_conv')

lemma hm_get_Nil [simp]: "hm_get [] = Map.empty"
  by (rule ext) (simp add: hm_get_def)

lemma hm_wf_Nil [simp]: "hm_wf []"
  by (simp add: hm_wf_def)

lemma hm_wf_insert [simp, intro]: "hm_wf m \<Longrightarrow> hm_wf (hm_insert k v m)"
  by (simp add: hm_wf_def hm_insert_def distinct_update)

lemma hm_wf_remove [simp, intro]: "hm_wf m \<Longrightarrow> hm_wf (hm_remove k m)"
  by (simp add: hm_wf_def hm_remove_def distinct_delete)

lemma hm_contains_iff [simp]: "hm_contains m k \<longleftrightarrow> k \<in> dom (hm_get m)"
  by (auto simp: hm_contains_def)

lemma hm_get_Some_iff: "hm_wf m \<Longrightarrow> hm_get m k = Some v \<longleftrightarrow> (k, v) \<in> set m"
  by (simp add: hm_wf_def hm_get_def)

lemma hm_keys_set: "set (hm_keys m) = dom (hm_get m)"
  by (simp add: hm_get_def dom_map_of_conv_image_fst)

lemma hm_remove_split:
  assumes "hm_wf m" "hm_get m k = Some v"
  obtains xs ys where "m = xs @ (k, v) # ys" "hm_remove k m = xs @ ys"
proof -
  obtain xs ys where m: "m = xs @ (k, v) # ys"
    using assms by (auto simp: hm_get_Some_iff in_set_conv_decomp)
  have "k \<notin> fst ` set xs" "k \<notin> fst ` set ys" using assms(1) by (auto simp: m hm_wf_def)
  then have "AList.delete k xs = xs" "AList.delete k ys = ys" by (simp_all add: AList.delete_idem)
  moreover have "AList.delete k m = AList.delete k xs @ AList.delete k ys" by (simp add: m AList.delete_eq)
  ultimately have "hm_remove k m = xs @ ys" by (simp add: hm_remove_def)
  then show thesis using that m by blast
qed

lemma length_hm_insert: "length (hm_insert k v m) = (if k \<in> dom (hm_get m) then length m else Suc (length m))"
  by (induction m) (auto simp: hm_insert_def hm_get_def)

lemma length_hm_remove:
  assumes "hm_wf m" "hm_get m k = Some v"
  shows "length m = Suc (length (hm_remove k m))"
  by (rule hm_remove_split [OF assms]) simp

text \<open>\<open>collect\<close> into a map: a later pair replaces an earlier one with the same key.\<close>

definition hm_collect :: "('k \<times> 'v) list \<Rightarrow> ('k, 'v) hash_map" where
  "hm_collect xs = fold (\<lambda>(k, v) m. hm_insert k v m) xs []"

lemma dom_fold_insert:
  "dom (hm_get (fold (\<lambda>(k, v) m. hm_insert k v m) xs m)) = dom (hm_get m) \<union> fst ` set xs"
  by (induction xs arbitrary: m) auto

lemma dom_collect: "dom (hm_get (hm_collect xs)) = fst ` set xs"
  by (simp add: hm_collect_def dom_fold_insert)

definition hs_insert :: "'a \<Rightarrow> 'a hash_set \<Rightarrow> bool \<times> 'a hash_set" where
  "hs_insert x s = (x \<notin> set s, List.insert x s)"

definition hs_remove :: "'a \<Rightarrow> 'a hash_set \<Rightarrow> bool \<times> 'a hash_set" where
  "hs_remove x s = (x \<in> set s, removeAll x s)"

section \<open>Strings and byte strings\<close>

definition starts_with :: "'a list \<Rightarrow> 'a list \<Rightarrow> bool" where
  "starts_with s p = (take (length p) s = p)"

definition str_contains :: "string \<Rightarrow> string \<Rightarrow> bool" where
  "str_contains s p = list_ex (\<lambda>i. starts_with (drop i s) p) [0..<Suc (length s)]"

end
