(* ===== verification/Primitives.thy ===== *)
theory Primitives
  imports Silius_Prelude
begin

text \<open>
  The data of the crate \<open>silius-primitives\<close>: addresses and byte strings, user operations with and
  without their hash, the request with optional fields, the hash of an operation, reputation
  entries and statuses, stake information, code hashes, storage maps, the validation
  configuration and the constants of the validation rules.
\<close>

section \<open>Addresses and byte strings\<close>

type_synonym address = "160 word"
type_synonym bytes = "u8 list"
type_synonym h256 = "256 word"
type_synonym user_operation_hash = h256
type_synonym chain_id = u64

text \<open>
  \<open>Address::from_slice\<close> and \<open>to_fixed_bytes\<close> read and write an address as 20 bytes, most
  significant first.
\<close>

definition address_from_slice :: "bytes \<Rightarrow> address" where
  "address_from_slice bs = from_be_bytes bs"

definition to_fixed_bytes :: "address \<Rightarrow> bytes" where
  "to_fixed_bytes a = to_be_bytes 20 a"

definition get_address :: "bytes \<Rightarrow> address option" where
  "get_address buf =
     (if 20 \<le> length buf then Some (address_from_slice (take 20 buf)) else None)"

section \<open>User operations\<close>

record user_operation_signed =
  sender :: address
  nonce :: U256
  init_code :: bytes
  call_data :: bytes
  call_gas_limit :: U256
  verification_gas_limit :: U256
  pre_verification_gas :: U256
  max_fee_per_gas :: U256
  max_priority_fee_per_gas :: U256
  paymaster_and_data :: bytes
  signature :: bytes

record user_operation =
  hash :: user_operation_hash
  user_operation :: user_operation_signed

definition from_user_operation_signed ::
  "user_operation_hash \<Rightarrow> user_operation_signed \<Rightarrow> user_operation" where
  "from_user_operation_signed h uo = \<lparr>hash = h, user_operation = uo\<rparr>"

definition get_entities ::
  "user_operation_signed \<Rightarrow> address \<times> address option \<times> address option" where
  "get_entities uo =
     (sender uo, get_address (init_code uo), get_address (paymaster_and_data uo))"

lemma from_user_operation_signed_simps [simp]:
  "hash (from_user_operation_signed h uo) = h"
  "user_operation (from_user_operation_signed h uo) = uo"
  by (simp_all add: from_user_operation_signed_def)

lemma from_user_operation_signed_eta [simp]:
  "from_user_operation_signed (hash uo) (user_operation uo) = uo"
  by (simp add: from_user_operation_signed_def)

text \<open>The factory and the paymaster of an operation, the entities the mempool indexes.\<close>

definition entities_of :: "user_operation_signed \<Rightarrow> address set" where
  "entities_of uo =
     set_option (get_address (init_code uo)) \<union> set_option (get_address (paymaster_and_data uo))"

section \<open>The request with optional fields\<close>

record user_operation_request =
  req_sender :: address
  req_nonce :: U256
  req_init_code :: bytes
  req_call_data :: bytes
  req_call_gas_limit :: "U256 option"
  req_verification_gas_limit :: "U256 option"
  req_pre_verification_gas :: "U256 option"
  req_max_fee_per_gas :: "U256 option"
  req_max_priority_fee_per_gas :: "U256 option"
  req_paymaster_and_data :: bytes
  req_signature :: "bytes option"

definition signed_of_request :: "user_operation_request \<Rightarrow> user_operation_signed" where
  "signed_of_request r = \<lparr>
     sender = req_sender r,
     nonce = req_nonce r,
     init_code = req_init_code r,
     call_data = req_call_data r,
     call_gas_limit = (case req_call_gas_limit r of Some g \<Rightarrow> g | None \<Rightarrow> 0),
     verification_gas_limit = (case req_verification_gas_limit r of Some g \<Rightarrow> g | None \<Rightarrow> 0),
     pre_verification_gas = (case req_pre_verification_gas r of Some g \<Rightarrow> g | None \<Rightarrow> 0),
     max_fee_per_gas = (case req_max_fee_per_gas r of Some g \<Rightarrow> g | None \<Rightarrow> 0),
     max_priority_fee_per_gas =
       (case req_max_priority_fee_per_gas r of Some g \<Rightarrow> g | None \<Rightarrow> 0),
     paymaster_and_data = req_paymaster_and_data r,
     signature = (case req_signature r of Some s \<Rightarrow> s | None \<Rightarrow> [])\<rparr>"

definition request_of_signed :: "user_operation_signed \<Rightarrow> user_operation_request" where
  "request_of_signed uo = \<lparr>
     req_sender = sender uo,
     req_nonce = nonce uo,
     req_init_code = init_code uo,
     req_call_data = call_data uo,
     req_call_gas_limit = Some (call_gas_limit uo),
     req_verification_gas_limit = Some (verification_gas_limit uo),
     req_pre_verification_gas = Some (pre_verification_gas uo),
     req_max_fee_per_gas = Some (max_fee_per_gas uo),
     req_max_priority_fee_per_gas = Some (max_priority_fee_per_gas uo),
     req_paymaster_and_data = paymaster_and_data uo,
     req_signature = Some (signature uo)\<rparr>"

lemma signed_of_request_of_signed: "signed_of_request (request_of_signed uo) = uo"
  by (simp add: signed_of_request_def request_of_signed_def)

section \<open>The hash of a user operation\<close>

text \<open>
  \<open>keccak256\<close> and the ABI encoders come from libraries; they are the fields of a record of
  parameters. The encoder of a whole signed operation is the one \<open>pack\<close> calls.
\<close>

record user_operation_no_signature =
  ns_sender :: address
  ns_nonce :: U256
  ns_init_code :: h256
  ns_call_data :: h256
  ns_call_gas_limit :: U256
  ns_verification_gas_limit :: U256
  ns_pre_verification_gas :: U256
  ns_max_fee_per_gas :: U256
  ns_max_priority_fee_per_gas :: U256
  ns_paymaster_and_data :: h256

record abi =
  keccak256 :: "bytes \<Rightarrow> h256"
  encode_signed :: "user_operation_signed \<Rightarrow> bytes"
  encode_no_signature :: "user_operation_no_signature \<Rightarrow> bytes"
  encode_address :: "address \<Rightarrow> bytes"
  encode_u256 :: "U256 \<Rightarrow> bytes"
  encode_checksum :: "address \<Rightarrow> bytes"

definition no_signature_of :: "abi \<Rightarrow> user_operation_signed \<Rightarrow> user_operation_no_signature" where
  "no_signature_of A uo = \<lparr>
     ns_sender = sender uo,
     ns_nonce = nonce uo,
     ns_init_code = keccak256 A (init_code uo),
     ns_call_data = keccak256 A (call_data uo),
     ns_call_gas_limit = call_gas_limit uo,
     ns_verification_gas_limit = verification_gas_limit uo,
     ns_pre_verification_gas = pre_verification_gas uo,
     ns_max_fee_per_gas = max_fee_per_gas uo,
     ns_max_priority_fee_per_gas = max_priority_fee_per_gas uo,
     ns_paymaster_and_data = keccak256 A (paymaster_and_data uo)\<rparr>"

definition pack :: "abi \<Rightarrow> user_operation_signed \<Rightarrow> bytes" where
  "pack A uo = encode_signed A uo"

definition pack_without_signature :: "abi \<Rightarrow> user_operation_signed \<Rightarrow> bytes" where
  "pack_without_signature A uo = encode_no_signature A (no_signature_of A uo)"

definition user_operation_hash ::
  "abi \<Rightarrow> user_operation_signed \<Rightarrow> address \<Rightarrow> chain_id \<Rightarrow> user_operation_hash" where
  "user_operation_hash A uo entry_point chain =
     keccak256 A (to_be_bytes 32 (keccak256 A (pack_without_signature A uo)) @
                  encode_address A entry_point @
                  encode_u256 A (ucast chain))"

section \<open>Reputation and stake\<close>

type_synonym reputation_status = u64

datatype status = OK | THROTTLED | BANNED

fun status_to_u64 :: "status \<Rightarrow> reputation_status" where
  "status_to_u64 OK = 0"
| "status_to_u64 THROTTLED = 1"
| "status_to_u64 BANNED = 2"

definition status_from_u64 :: "reputation_status \<Rightarrow> status" where
  "status_from_u64 s =
     (if s = 0 then OK else if s = 1 then THROTTLED else if s = 2 then BANNED else OK)"

lemma status_from_to [simp]: "status_from_u64 (status_to_u64 s) = s"
  by (cases s) (simp_all add: status_from_u64_def)

record reputation_entry =
  re_address :: address
  uo_seen :: u64
  uo_included :: u64
  re_status :: reputation_status

definition default_with_addr :: "address \<Rightarrow> reputation_entry" where
  "default_with_addr a =
     \<lparr>re_address = a, uo_seen = 0, uo_included = 0, re_status = status_to_u64 OK\<rparr>"

record stake_info =
  si_address :: address
  stake :: U256
  unstake_delay :: U256

definition is_staked :: "stake_info \<Rightarrow> bool" where
  "is_staked si = (0 < stake si \<and> 0 < unstake_delay si)"

record stake_info_response =
  sir_stake_info :: stake_info
  sir_is_staked :: bool

section \<open>Simulation data\<close>

record validation_config =
  vc_min_stake :: "U256 option"
  vc_min_unstake_delay :: "U256 option"
  vc_topic :: "string option"
  ignore_prev :: bool

definition default_validation_config :: validation_config where
  "default_validation_config =
     \<lparr>vc_min_stake = None, vc_min_unstake_delay = None, vc_topic = None, ignore_prev = False\<rparr>"

record code_hash =
  ch_address :: address
  ch_hash :: h256

record storage_map =
  root_hashes :: "(address, h256) hash_map"
  slots :: "(address, (string, string) hash_map) hash_map"

definition default_storage_map :: storage_map where
  "default_storage_map = \<lparr>root_hashes = [], slots = []\<rparr>"

datatype uopool_mode = Standard | Unsafe

section \<open>Constants\<close>

definition GAS_INCREASE_PERC :: u64 where "GAS_INCREASE_PERC = 10"
definition NUMBER_OF_LEVELS :: nat where "NUMBER_OF_LEVELS = 3"
definition FACTORY :: string where "FACTORY = ''factory''"
definition SENDER :: string where "SENDER = ''account''"
definition PAYMASTER :: string where "PAYMASTER = ''paymaster''"
definition FACTORY_LEVEL :: nat where "FACTORY_LEVEL = 0"
definition SENDER_LEVEL :: nat where "SENDER_LEVEL = 1"
definition PAYMASTER_LEVEL :: nat where "PAYMASTER_LEVEL = 2"
definition LEVEL_TO_ENTITY :: "string list" where
  "LEVEL_TO_ENTITY = [FACTORY, SENDER, PAYMASTER]"
definition SAME_SENDER_MEMPOOL_COUNT :: nat where "SAME_SENDER_MEMPOOL_COUNT = 4"
definition SAME_UNSTAKED_ENTITY_MEMPOOL_COUNT :: nat where
  "SAME_UNSTAKED_ENTITY_MEMPOOL_COUNT = 10"
definition THROTTLED_ENTITY_MEMPOOL_COUNT :: nat where "THROTTLED_ENTITY_MEMPOOL_COUNT = 4"
definition THROTTLED_ENTITY_BUNDLE_COUNT :: nat where "THROTTLED_ENTITY_BUNDLE_COUNT = 4"
definition MIN_INCLUSION_RATE_DENOMINATOR :: u64 where "MIN_INCLUSION_RATE_DENOMINATOR = 10"
definition INCLUSION_RATE_FACTOR :: u64 where "INCLUSION_RATE_FACTOR = 10"
definition THROTTLING_SLACK :: u64 where "THROTTLING_SLACK = 10"
definition BAN_SLACK :: u64 where "BAN_SLACK = 50"
definition MIN_EXTRA_GAS :: u64 where "MIN_EXTRA_GAS = 2000"
definition EXPIRATION_TIMESTAMP_DIFF :: u64 where "EXPIRATION_TIMESTAMP_DIFF = 30"
definition CREATE2_OPCODE :: string where "CREATE2_OPCODE = ''CREATE2''"
definition RETURN_OPCODE :: string where "RETURN_OPCODE = ''RETURN''"
definition REVERT_OPCODE :: string where "REVERT_OPCODE = ''REVERT''"
definition CREATE_OPCODE :: string where "CREATE_OPCODE = ''CREATE''"
definition VALIDATE_PAYMASTER_USER_OP_FUNCTION :: string where
  "VALIDATE_PAYMASTER_USER_OP_FUNCTION = ''validatePaymasterUserOp''"
definition FORBIDDEN_OPCODES :: "string list" where
  "FORBIDDEN_OPCODES =
     [''GASPRICE'', ''GASLIMIT'', ''DIFFICULTY'', ''TIMESTAMP'', ''BASEFEE'', ''BLOCKHASH'',
      ''NUMBER'', ''SELFBALANCE'', ''BALANCE'', ''ORIGIN'', ''GAS'', ''CREATE'', ''COINBASE'',
      ''SELFDESTRUCT'', ''RANDOM'', ''PREVRANDAO'']"

lemmas entity_names = FACTORY_def SENDER_def PAYMASTER_def LEVEL_TO_ENTITY_def

section \<open>A sample operation\<close>

text \<open>A small operation with a factory and a paymaster, for evaluating the definitions.\<close>

definition sample_signed :: user_operation_signed where
  "sample_signed = \<lparr>
     sender = 7, nonce = 1, init_code = replicate 20 1, call_data = [],
     call_gas_limit = 100000, verification_gas_limit = 200000, pre_verification_gas = 60000,
     max_fee_per_gas = 100, max_priority_fee_per_gas = 10,
     paymaster_and_data = replicate 20 2, signature = []\<rparr>"

definition sample_uo :: user_operation where
  "sample_uo = \<lparr>hash = 42, user_operation = sample_signed\<rparr>"

lemma replicate_20: "replicate 20 x = [x,x,x,x,x,x,x,x,x,x,x,x,x,x,x,x,x,x,x,x]"
  by (simp add: numeral_eq_Suc)

lemma sample_entities [simp]:
  "get_entities sample_signed =
     (7, Some 0x0101010101010101010101010101010101010101, Some 0x0202020202020202020202020202020202020202)"
  "entities_of sample_signed =
     {0x0101010101010101010101010101010101010101, 0x0202020202020202020202020202020202020202}"
  by (simp_all add: sample_signed_def get_entities_def entities_of_def get_address_def
      address_from_slice_def from_be_bytes_def replicate_20 insert_commute)

lemma sample_uo_simps [simp]: "hash sample_uo = 42" "user_operation sample_uo = sample_signed"
  by (simp_all add: sample_uo_def)

definition sample_abi :: abi where
  "sample_abi = \<lparr>
     keccak256 = from_be_bytes, encode_signed = (\<lambda>_. [0, 1]), encode_no_signature = (\<lambda>_. []),
     encode_address = to_be_bytes 20, encode_u256 = to_be_bytes 32,
     encode_checksum = to_be_bytes 20\<rparr>"

end
