(* ===== verification/Entry_Point.thy ===== *)
theory Entry_Point
  imports Primitives
begin

text \<open>
  The crate \<open>silius-contracts\<close>: the results and errors of the entry point contract, how a failed
  contract call is turned into a result (the contract reports through reverts), and the trace
  frames the validation rules read. The contract bindings, the JSON RPC client and the decoders
  the build generates are the fields of the record \<open>eth\<close>; what the crate does with their
  answers is defined here.
\<close>

section \<open>Results and errors\<close>

record failed_op =
  op_index :: U256
  reason :: string

record return_info =
  pre_op_gas :: U256
  prefund :: U256
  sig_failed :: bool
  ri_valid_after :: u64
  ri_valid_until :: u64
  paymaster_context :: bytes

record validation_result =
  return_info :: return_info
  sender_info :: "U256 \<times> U256"
  factory_info :: "U256 \<times> U256"
  paymaster_info :: "U256 \<times> U256"

record execution_result =
  er_pre_op_gas :: U256
  paid :: U256
  er_valid_after :: u64
  er_valid_until :: u64
  target_success :: bool
  target_result :: bytes

record deposit_info =
  deposit :: "128 word"
  staked :: bool
  di_stake :: "128 word"
  unstake_delay_sec :: "32 word"
  withdraw_time :: u64

datatype simulate_validation_result =
    ValidationResult validation_result
  | ValidationResultWithAggregation validation_result

datatype entry_point_api_errors =
    ApiFailedOp failed_op
  | ApiValidationResult validation_result
  | ApiValidationResultWithAggregation validation_result
  | ApiExecutionResult execution_result
  | ApiSenderAddressResult address
  | ApiRevertString string
  | ApiOtherError string

datatype entry_point_error =
    FailedOp failed_op
  | ExecutionReverted string
  | NoRevert string
  | EpProvider string
  | ABI string
  | Decode string
  | EpOther string

datatype json = JString string | JOther string

datatype geth_trace = Known string | Unknown json

record json_rpc_error =
  jre_data :: "json option"
  jre_debug :: string

datatype provider_error =
    JsonRpcClientError "json_rpc_error option" string
  | HTTPError string
  | OtherProviderError string

record middleware_error =
  as_error_response :: "json_rpc_error option"
  as_provider_error :: "provider_error option"
  mw_debug :: string

datatype contract_error =
    DecodingError string
  | AbiError string
  | MiddlewareError middleware_error
  | ProviderError provider_error
  | Revert bytes
  | OtherContractError string

section \<open>Trace frames\<close>

record reads_and_writes =
  reads :: "(string, string) hash_map"
  writes :: "(string, u64) hash_map"

record contract_size_info =
  csi_opcode :: string
  csi_contract_size :: u64

record top_level_call_info =
  top_level_method_sig :: bytes
  top_level_target_address :: bytes
  access :: "(address, reads_and_writes) hash_map"
  opcodes :: "(string, u64) hash_map"
  contract_size :: "(address, contract_size_info) hash_map"
  ext_code_access_info :: "(address, string) hash_map"
  oog :: "bool option"

record call =
  call_typ :: string
  call_gas_used :: "u64 option"
  call_data_ret :: "bytes option"
  call_from :: "address option"
  call_to :: "address option"
  call_method :: "bytes option"
  call_gas :: "u64 option"
  call_value :: "U256 option"

record call_entry =
  ce_typ :: string
  ce_from :: "address option"
  ce_to :: "address option"
  ce_method :: "string option"
  ce_ret :: "bytes option"
  ce_rev :: "bytes option"
  ce_value :: "U256 option"

record log =
  log_topics :: "string list"
  log_data :: bytes

record js_tracer_frame =
  calls_from_entry_point :: "top_level_call_info list"
  keccak :: "bytes list"
  logs :: "log list"
  calls :: "call list"
  debug :: "string list"

record log_info =
  li_topics :: "string list"
  li_data :: string

record executor_tracer_result =
  reverts :: "string list"
  validation_oog :: bool
  execution_oog :: bool
  execution_gas_limit :: u64
  user_op_event :: "log_info option"
  user_op_revert_event :: "log_info option"
  etr_output :: string
  etr_error :: string

record user_operation_event =
  ev_user_op_hash :: h256
  ev_sender :: address
  ev_nonce :: U256
  ev_success :: bool
  ev_actual_gas_cost :: U256
  ev_actual_gas_used :: U256

record revert_reason_event =
  rr_user_op_hash :: h256
  rr_sender :: address
  rr_nonce :: U256
  rr_revert_reason :: bytes

text \<open>Logs, receipts, transactions and the position of an event, as the library has them.\<close>

record eth_log =
  el_address :: address
  el_topics :: "h256 list"
  el_data :: bytes
  el_block_hash :: "h256 option"
  el_block_number :: "u64 option"
  el_transaction_hash :: "h256 option"
  el_transaction_index :: "u64 option"
  el_log_index :: "U256 option"
  el_transaction_log_index :: "U256 option"
  el_log_type :: "string option"
  el_removed :: "bool option"

record eth_receipt =
  er_transaction_hash :: h256
  er_transaction_index :: u64
  er_block_hash :: "h256 option"
  er_block_number :: "u64 option"
  er_from :: address
  er_to :: "address option"
  er_cumulative_gas_used :: U256
  er_gas_used :: "U256 option"
  er_contract_address :: "address option"
  er_logs :: "eth_log list"
  er_status :: "u64 option"
  er_root :: "h256 option"
  er_logs_bloom :: bytes
  er_transaction_type :: "u64 option"
  er_effective_gas_price :: "U256 option"

record transaction =
  tx_to :: "address option"
  tx_input :: bytes

record log_meta =
  lm_transaction_hash :: h256
  lm_block_hash :: h256
  lm_block_number :: u64

record block =
  base_fee_per_gas :: "U256 option"
  block_hash :: "h256 option"

section \<open>The Ethereum client and the generated bindings\<close>

text \<open>The operation as the bindings have it; the crate converts in both directions.\<close>

record api_user_operation =
  api_sender :: address
  api_nonce :: U256
  api_init_code :: bytes
  api_call_data :: bytes
  api_call_gas_limit :: U256
  api_verification_gas_limit :: U256
  api_pre_verification_gas :: U256
  api_max_fee_per_gas :: U256
  api_max_priority_fee_per_gas :: U256
  api_paymaster_and_data :: bytes
  api_signature :: bytes

datatype api_calls = HandleOps "api_user_operation list" address | OtherCall string

datatype api_call =
    AddStakeCall | BalanceOfCall | DepositToCall | GetDepositInfoCall | GetSenderAddressCall
  | GetUserOpHashCall | HandleAggregatedOpsCall | HandleOpsCall | SimulateHandleOpCall
  | SimulateValidationCall | UnlockStakeCall | WithdrawStakeCall | WithdrawToCall
  | CreateSenderCall | ValidateUserOpCall | ValidatePaymasterUserOpCall

text \<open>
  The record \<open>eth\<close> holds everything the crate calls and this repository does not contain: the
  contract bindings, the generated decoders, the execution client and the clock (whose answers are
  functions of the query while one request is served; \<open>join_order\<close> is the order in which concurrent
  requests complete) and the rendering of values in messages.
\<close>

record contract_api =
  api_simulate_validation :: "api_user_operation \<Rightarrow> (contract_error, unit) outcome"
  api_simulate_handle_op :: "api_user_operation \<Rightarrow> (contract_error, unit) outcome"
  api_handle_ops :: "api_user_operation list \<Rightarrow> address \<Rightarrow> (contract_error, unit) outcome"
  api_get_sender_address :: "bytes \<Rightarrow> (contract_error, unit) outcome"
  api_get_nonce :: "address \<Rightarrow> U256 \<Rightarrow> (string, U256) outcome"
  api_get_deposit_info :: "address \<Rightarrow> (string, deposit_info) outcome"
  api_balance_of :: "address \<Rightarrow> (string, U256) outcome"

record codec =
  api_decode_errors :: "bytes \<Rightarrow> (string, entry_point_api_errors) outcome"
  api_decode_calls :: "bytes \<Rightarrow> (string, api_calls) outcome"
  api_decode_string :: "bytes \<Rightarrow> string option"
  api_decode_paymaster_return :: "bytes \<Rightarrow> (string, bytes) outcome"
  api_selector :: "api_call \<Rightarrow> bytes"
  api_function_name :: "api_call \<Rightarrow> string"
  regex_find_hex :: "string \<Rightarrow> string option"
  bytes_from_str :: "string \<Rightarrow> (string, bytes) outcome"
  u256_from_str_radix :: "string \<Rightarrow> U256 option"
  serde_js_tracer_frame :: "json \<Rightarrow> (string, js_tracer_frame) outcome"
  serde_executor_tracer_result :: "json \<Rightarrow> (string, executor_tracer_result) outcome"

text \<open>The decoders the gas estimation uses.\<close>

record trace_codec =
  hex_decode :: "string \<Rightarrow> (string, bytes) outcome"
  decode_execution_result :: "bytes \<Rightarrow> execution_result option"
  decode_failed_op :: "bytes \<Rightarrow> failed_op option"
  decode_user_op_event :: "h256 list \<Rightarrow> bytes \<Rightarrow> (string, user_operation_event) outcome"
  decode_revert_event :: "h256 list \<Rightarrow> bytes \<Rightarrow> (string, revert_reason_event) outcome"
  debug_failed_op :: "failed_op \<Rightarrow> string"
  debug_reverted_with :: "string \<Rightarrow> revert_reason_event \<Rightarrow> string"
  debug_execution_failure ::
    "string \<Rightarrow> execution_result \<Rightarrow> user_operation_event \<Rightarrow> revert_reason_event option \<Rightarrow> string"

text \<open>The queries for past events and transactions.\<close>

record history =
  hist_block_number :: "(string, u64) outcome"
  hist_events :: "u64 \<Rightarrow> h256 \<Rightarrow> (string, (user_operation_event \<times> log_meta) list) outcome"
  hist_transaction :: "h256 \<Rightarrow> (string, transaction option) outcome"
  hist_receipt :: "h256 \<Rightarrow> (string, eth_receipt option) outcome"

record eth_client =
  client_call :: "address \<Rightarrow> address \<Rightarrow> bytes \<Rightarrow> (string, bytes) outcome"
  client_trace_validation :: "api_user_operation \<Rightarrow> (middleware_error, geth_trace) outcome"
  client_trace_handle_op :: "api_user_operation \<Rightarrow> (middleware_error, geth_trace) outcome"
  client_get_code :: "address \<Rightarrow> (string, bytes) outcome"
  client_get_block :: "(string, block option) outcome"
  system_now :: "(string, u64) outcome"
  join_order :: "address list \<Rightarrow> address list"

record display =
  show_address :: "address \<Rightarrow> string"
  show_bytes :: "bytes \<Rightarrow> string"
  show_u256 :: "U256 \<Rightarrow> string"
  show_u64 :: "u64 \<Rightarrow> string"
  show_failed_op :: "failed_op \<Rightarrow> string"
  debug_api_error :: "entry_point_api_errors \<Rightarrow> string"
  debug_ep_error :: "entry_point_error \<Rightarrow> string"
  debug_str :: "string \<Rightarrow> string"
  debug_json :: "json \<Rightarrow> string"

record eth =
  ep_address :: address
  api :: contract_api
  codec :: codec
  client :: eth_client
  fmt :: display
  eth_abi :: abi
  tcodec :: trace_codec
  past :: history

definition api_of_signed :: "user_operation_signed \<Rightarrow> api_user_operation" where
  "api_of_signed uo = \<lparr>
     api_sender = sender uo,
     api_nonce = nonce uo,
     api_init_code = init_code uo,
     api_call_data = call_data uo,
     api_call_gas_limit = call_gas_limit uo,
     api_verification_gas_limit = verification_gas_limit uo,
     api_pre_verification_gas = pre_verification_gas uo,
     api_max_fee_per_gas = max_fee_per_gas uo,
     api_max_priority_fee_per_gas = max_priority_fee_per_gas uo,
     api_paymaster_and_data = paymaster_and_data uo,
     api_signature = signature uo\<rparr>"

definition signed_of_api :: "api_user_operation \<Rightarrow> user_operation_signed" where
  "signed_of_api uo = \<lparr>
     sender = api_sender uo,
     nonce = api_nonce uo,
     init_code = api_init_code uo,
     call_data = api_call_data uo,
     call_gas_limit = api_call_gas_limit uo,
     verification_gas_limit = api_verification_gas_limit uo,
     pre_verification_gas = api_pre_verification_gas uo,
     max_fee_per_gas = api_max_fee_per_gas uo,
     max_priority_fee_per_gas = api_max_priority_fee_per_gas uo,
     paymaster_and_data = api_paymaster_and_data uo,
     signature = api_signature uo\<rparr>"

definition parse_from_input_data :: "eth \<Rightarrow> bytes \<Rightarrow> user_operation_signed list option" where
  "parse_from_input_data E d =
     (case api_decode_calls (codec E) d of
        Ok (HandleOps ops _) \<Rightarrow> Some (map signed_of_api ops)
      | _ \<Rightarrow> None)"

text \<open>The selector tables: the pairs are inserted in this order.\<close>

definition SELECTORS_NAMES :: "eth \<Rightarrow> (bytes, string) hash_map" where
  "SELECTORS_NAMES E =
     fold (\<lambda>c. hm_insert (api_selector (codec E) c) (api_function_name (codec E) c))
       [AddStakeCall, BalanceOfCall, DepositToCall, GetDepositInfoCall, GetSenderAddressCall,
        GetUserOpHashCall, HandleAggregatedOpsCall, HandleOpsCall, SimulateHandleOpCall,
        SimulateValidationCall, UnlockStakeCall, WithdrawStakeCall, WithdrawToCall,
        CreateSenderCall, ValidateUserOpCall, ValidatePaymasterUserOpCall] []"

definition SELECTORS_INDICES :: "eth \<Rightarrow> (bytes, nat) hash_map" where
  "SELECTORS_INDICES E =
     hm_insert (api_selector (codec E) ValidatePaymasterUserOpCall) 2
       (hm_insert (api_selector (codec E) ValidateUserOpCall) 1
         (hm_insert (api_selector (codec E) CreateSenderCall) 0 []))"

text \<open>Reading the frames out of a trace.\<close>

fun js_tracer_frame_of :: "eth \<Rightarrow> geth_trace \<Rightarrow> (string, js_tracer_frame) outcome" where
  "js_tracer_frame_of E (Known v) = Err (''Invalid geth trace: '' @ v)"
| "js_tracer_frame_of E (Unknown v) =
     map_err (\<lambda>e. ''Failed to parse geth trace: '' @ e @ '', '' @ debug_json (fmt E) v)
       (serde_js_tracer_frame (codec E) v)"

fun executor_tracer_result_of ::
  "eth \<Rightarrow> geth_trace \<Rightarrow> (string, executor_tracer_result) outcome" where
  "executor_tracer_result_of E (Known v) = Err (''Invalid geth trace: '' @ v)"
| "executor_tracer_result_of E (Unknown v) =
     map_err (\<lambda>e. ''Failed to parse geth trace: '' @ e @ '', '' @ debug_json (fmt E) v)
       (serde_executor_tracer_result (codec E) v)"

section \<open>Decoding what a failed call reports\<close>

text \<open>\<open>to_string\<close> of an entry point error, from its display attributes.\<close>

fun entry_point_error_to_string :: "eth \<Rightarrow> entry_point_error \<Rightarrow> string" where
  "entry_point_error_to_string E (FailedOp f) = show_failed_op (fmt E) f"
| "entry_point_error_to_string E (ExecutionReverted s) = ''execution reverted: '' @ s"
| "entry_point_error_to_string E (NoRevert f) = f @ '' should revert''"
| "entry_point_error_to_string E (EpProvider i) = ''provider error: '' @ i"
| "entry_point_error_to_string E (ABI i) = ''abi error: '' @ i"
| "entry_point_error_to_string E (Decode i) = ''decode error: '' @ i"
| "entry_point_error_to_string E (EpOther i) = ''other error: '' @ i"

text \<open>\<open>split_at(4)\<close> panics on fewer than four bytes.\<close>

definition decode_revert_string :: "eth \<Rightarrow> bytes \<Rightarrow> ('e, string option) outcome" where
  "decode_revert_string E d =
     (if length d < 4 then Panic
      else if take 4 d = [0x08, 0xc3, 0x79, 0xa0] then Ok (api_decode_string (codec E) (drop 4 d))
      else Ok None)"

definition decode_revert_error ::
  "eth \<Rightarrow> bytes \<Rightarrow> (entry_point_error, entry_point_api_errors) outcome" where
  "decode_revert_error E d =
     (case api_decode_errors (codec E) d of
        Ok res \<Rightarrow> Ok res
      | Err e \<Rightarrow>
          bind_ok (decode_revert_string E d) (\<lambda>m. case m of
              Some s \<Rightarrow> Ok (ApiRevertString s)
            | None \<Rightarrow> Err (Decode
                (''data field can't be deserialized to EntryPointAPIErrors error: '' @ e)))
      | Panic \<Rightarrow> Panic)"

definition from_json_rpc_error ::
  "eth \<Rightarrow> json_rpc_error \<Rightarrow> (entry_point_error, entry_point_api_errors) outcome" where
  "from_json_rpc_error E err =
     (case jre_data err of
        Some (JString d) \<Rightarrow>
          (case regex_find_hex (codec E) d of
             None \<Rightarrow> Err (Decode (''hex string not found in '' @ debug_str (fmt E) d))
           | Some hex \<Rightarrow>
               (case bytes_from_str (codec E) hex of
                  Ok bs \<Rightarrow>
                    (case decode_revert_error E bs of
                       Ok res \<Rightarrow> Ok res
                     | Err e \<Rightarrow> Err (EpProvider
                         (''failed to decode revert error: '' @ debug_ep_error (fmt E) e))
                     | Panic \<Rightarrow> Panic)
                | Err e \<Rightarrow> Err (Decode
                    (''string '' @ debug_str (fmt E) d @ '' could not be converted to bytes: '' @ e))
                | Panic \<Rightarrow> Panic))
      | Some (JOther other) \<Rightarrow>
          Err (Decode (''json-rpc return data is not a string: '' @ other))
      | None \<Rightarrow>
          Err (EpProvider (''json-rpc error doesn't contain data field: '' @ jre_debug err)))"

fun from_provider_error ::
  "eth \<Rightarrow> provider_error \<Rightarrow> (entry_point_error, entry_point_api_errors) outcome" where
  "from_provider_error E (JsonRpcClientError r dbg) =
     (case r of
        Some err \<Rightarrow> from_json_rpc_error E err
      | None \<Rightarrow> Err (EpProvider (''unknwon json-rpc client error: '' @ dbg)))"
| "from_provider_error E (HTTPError dbg) = Err (EpProvider (''HTTP error: '' @ dbg))"
| "from_provider_error E (OtherProviderError dbg) =
     Err (EpProvider (''unknown provider error: '' @ dbg))"

definition from_middleware_error ::
  "eth \<Rightarrow> middleware_error \<Rightarrow> (entry_point_error, entry_point_api_errors) outcome" where
  "from_middleware_error E err =
     (case as_error_response err of
        Some e \<Rightarrow> from_json_rpc_error E e
      | None \<Rightarrow>
          (case as_provider_error err of
             Some e \<Rightarrow> from_provider_error E e
           | None \<Rightarrow> Err (EpProvider (''middleware error: '' @ mw_debug err))))"

fun deserialize_error_msg ::
  "eth \<Rightarrow> contract_error \<Rightarrow> (entry_point_error, entry_point_api_errors) outcome" where
  "deserialize_error_msg E (DecodingError e) = Err (Decode e)"
| "deserialize_error_msg E (AbiError e) = Err (ABI e)"
| "deserialize_error_msg E (MiddlewareError e) = from_middleware_error E e"
| "deserialize_error_msg E (ProviderError e) = from_provider_error E e"
| "deserialize_error_msg E (Revert d) = decode_revert_error E d"
| "deserialize_error_msg E (OtherContractError e) = Err (EpOther e)"

section \<open>The methods of the entry point handle\<close>

definition simulate_validation ::
  "eth \<Rightarrow> user_operation_signed \<Rightarrow> (entry_point_error, simulate_validation_result) outcome" where
  "simulate_validation E uo =
     (case api_simulate_validation (api E) (api_of_signed uo) of
        Ok _ \<Rightarrow> Err (NoRevert ''simulate_validation'')
      | Err e \<Rightarrow>
          bind_ok (deserialize_error_msg E e) (\<lambda>op. case op of
              ApiFailedOp err \<Rightarrow> Err (FailedOp err)
            | ApiValidationResult res \<Rightarrow> Ok (ValidationResult res)
            | ApiValidationResultWithAggregation res \<Rightarrow> Ok (ValidationResultWithAggregation res)
            | _ \<Rightarrow> Err (EpOther (''simulate validation error: '' @ debug_api_error (fmt E) op)))
      | Panic \<Rightarrow> Panic)"

definition simulate_handle_op ::
  "eth \<Rightarrow> user_operation_signed \<Rightarrow> (entry_point_error, execution_result) outcome" where
  "simulate_handle_op E uo =
     (case api_simulate_handle_op (api E) (api_of_signed uo) of
        Ok _ \<Rightarrow> Err (NoRevert ''simulate_handle_op'')
      | Err e \<Rightarrow>
          bind_ok (deserialize_error_msg E e) (\<lambda>op. case op of
              ApiFailedOp err \<Rightarrow> Err (FailedOp err)
            | ApiExecutionResult res \<Rightarrow> Ok res
            | _ \<Rightarrow> Err (EpOther (''Simulate handle op error: '' @ debug_api_error (fmt E) op)))
      | Panic \<Rightarrow> Panic)"

text \<open>
  The tracing calls: \<open>expect_err\<close> panics when the client's error decodes to a result of the
  contract.
\<close>

definition trace_result ::
  "eth \<Rightarrow> (middleware_error, geth_trace) outcome \<Rightarrow> (entry_point_error, geth_trace) outcome" where
  "trace_result E r =
     (case r of
        Ok res \<Rightarrow> Ok res
      | Err e \<Rightarrow>
          (case from_middleware_error E e of
             Ok _ \<Rightarrow> Panic
           | Err err \<Rightarrow> Err err
           | Panic \<Rightarrow> Panic)
      | Panic \<Rightarrow> Panic)"

definition simulate_validation_trace ::
  "eth \<Rightarrow> user_operation_signed \<Rightarrow> (entry_point_error, geth_trace) outcome" where
  "simulate_validation_trace E uo =
     trace_result E (client_trace_validation (client E) (api_of_signed uo))"

definition simulate_handle_op_trace ::
  "eth \<Rightarrow> user_operation_signed \<Rightarrow> (entry_point_error, geth_trace) outcome" where
  "simulate_handle_op_trace E uo =
     trace_result E (client_trace_handle_op (client E) (api_of_signed uo))"

definition handle_ops ::
  "eth \<Rightarrow> user_operation_signed list \<Rightarrow> address \<Rightarrow> (entry_point_error, unit) outcome" where
  "handle_ops E uos beneficiary =
     (case api_handle_ops (api E) (map api_of_signed uos) beneficiary of
        Ok _ \<Rightarrow> Ok ()
      | Err e \<Rightarrow>
          bind_ok (deserialize_error_msg E e) (\<lambda>op. case op of
              ApiFailedOp err \<Rightarrow> Err (FailedOp err)
            | _ \<Rightarrow> Err (EpOther (''handle ops error: '' @ debug_api_error (fmt E) op)))
      | Panic \<Rightarrow> Panic)"

definition get_deposit_info :: "eth \<Rightarrow> address \<Rightarrow> (entry_point_error, deposit_info) outcome" where
  "get_deposit_info E a =
     map_err (\<lambda>e. EpOther (''get deposit info error: '' @ e)) (api_get_deposit_info (api E) a)"

definition balance_of :: "eth \<Rightarrow> address \<Rightarrow> (entry_point_error, U256) outcome" where
  "balance_of E a = map_err (\<lambda>e. EpOther (''balance of error: '' @ e)) (api_balance_of (api E) a)"

definition get_nonce :: "eth \<Rightarrow> address \<Rightarrow> U256 \<Rightarrow> (entry_point_error, U256) outcome" where
  "get_nonce E a key = map_err (\<lambda>e. EpOther (''get nonce error: '' @ e)) (api_get_nonce (api E) a key)"

definition get_sender_address :: "eth \<Rightarrow> bytes \<Rightarrow> (entry_point_error, address) outcome" where
  "get_sender_address E code =
     (case api_get_sender_address (api E) code of
        Ok _ \<Rightarrow> Err (NoRevert ''get_sender_address'')
      | Err e \<Rightarrow>
          bind_ok (deserialize_error_msg E e) (\<lambda>op. case op of
              ApiSenderAddressResult res \<Rightarrow> Ok res
            | ApiFailedOp err \<Rightarrow> Err (FailedOp err)
            | _ \<Rightarrow> Err (EpOther (''get sender address error: '' @ debug_api_error (fmt E) op)))
      | Panic \<Rightarrow> Panic)"

definition simulate_execution ::
  "eth \<Rightarrow> user_operation_signed \<Rightarrow> (entry_point_error, bytes) outcome" where
  "simulate_execution E uo =
     map_err EpProvider (client_call (client E) (ep_address E) (sender uo) (call_data uo))"

section \<open>What decoding guarantees\<close>

lemma signed_of_api_of_signed [simp]: "signed_of_api (api_of_signed uo) = uo"
  by (simp add: signed_of_api_def api_of_signed_def)

lemma api_of_signed_of_api [simp]: "api_of_signed (signed_of_api uo) = uo"
  by (simp add: signed_of_api_def api_of_signed_def)

lemma decode_revert_error_panic:
  assumes "api_decode_errors (codec E) d \<noteq> Panic"
  shows "decode_revert_error E d = Panic \<longleftrightarrow> is_err (api_decode_errors (codec E) d) \<and> length d < 4"
  using assms by (cases "api_decode_errors (codec E) d")
    (auto simp: decode_revert_error_def decode_revert_string_def split: option.splits)

lemma simulate_validation_Ok:
  "simulate_validation E uo = Ok r \<longleftrightarrow>
     (\<exists>e. api_simulate_validation (api E) (api_of_signed uo) = Err e \<and>
        (case r of
           ValidationResult v \<Rightarrow> deserialize_error_msg E e = Ok (ApiValidationResult v)
         | ValidationResultWithAggregation v \<Rightarrow>
             deserialize_error_msg E e = Ok (ApiValidationResultWithAggregation v)))"
proof (cases "api_simulate_validation (api E) (api_of_signed uo)")
  case (Err e)
  show ?thesis
  proof (cases "deserialize_error_msg E e")
    case (Ok x)
    with Err show ?thesis by (cases x; cases r) (auto simp: simulate_validation_def)
  qed (use Err in \<open>auto simp: simulate_validation_def split: simulate_validation_result.splits\<close>)
qed (auto simp: simulate_validation_def)

section \<open>A sample chain\<close>

text \<open>
  A chain on which every paymaster is well funded, the address 7 has no code and every other address
  has, and every simulation succeeds; for evaluating the definitions.
\<close>

definition sample_validation_result :: validation_result where
  "sample_validation_result = \<lparr>
     return_info = \<lparr>pre_op_gas = 100000, prefund = 1000, sig_failed = False, ri_valid_after = 0,
       ri_valid_until = 5000, paymaster_context = []\<rparr>,
     sender_info = (5, 5), factory_info = (5, 5), paymaster_info = (5, 5)\<rparr>"

definition sample_api :: contract_api where
  "sample_api = \<lparr>
     api_simulate_validation = (\<lambda>_. Err (Revert [])), api_simulate_handle_op = (\<lambda>_. Err (Revert [])),
     api_handle_ops = (\<lambda>_ _. Ok ()), api_get_sender_address = (\<lambda>_. Err (Revert [])),
     api_get_nonce = (\<lambda>_ _. Ok 0),
     api_get_deposit_info = (\<lambda>_. Ok \<lparr>deposit = 1000000, staked = True, di_stake = 1000000,
       unstake_delay_sec = 100, withdraw_time = 0\<rparr>),
     api_balance_of = (\<lambda>_. Ok 1000000)\<rparr>"

definition sample_codec :: codec where
  "sample_codec = \<lparr>
     api_decode_errors = (\<lambda>_. Ok (ApiValidationResult sample_validation_result)),
     api_decode_calls = (\<lambda>_. Err []), api_decode_string = (\<lambda>_. None),
     api_decode_paymaster_return = (\<lambda>_. Err []), api_selector = (\<lambda>_. []),
     api_function_name = (\<lambda>_. []), regex_find_hex = (\<lambda>_. None), bytes_from_str = (\<lambda>_. Err []),
     u256_from_str_radix = (\<lambda>_. None),
     serde_js_tracer_frame = (\<lambda>_. Ok \<lparr>calls_from_entry_point = [], keccak = [], logs = [], calls = [],
       debug = []\<rparr>),
     serde_executor_tracer_result = (\<lambda>_. Err [])\<rparr>"

definition sample_client :: eth_client where
  "sample_client = \<lparr>
     client_call = (\<lambda>_ _ _. Ok []), client_trace_validation = (\<lambda>_. Ok (Unknown (JOther []))),
     client_trace_handle_op = (\<lambda>_. Ok (Unknown (JOther []))),
     client_get_code = (\<lambda>a. Ok (if a = 7 then [] else [1])),
     client_get_block = Ok (Some \<lparr>base_fee_per_gas = Some 50, block_hash = Some 99\<rparr>),
     system_now = Ok 1000, join_order = id\<rparr>"

definition sample_display :: display where
  "sample_display = \<lparr>
     show_address = (\<lambda>_. []), show_bytes = (\<lambda>_. []), show_u256 = (\<lambda>_. []), show_u64 = (\<lambda>_. []),
     show_failed_op = reason, debug_api_error = (\<lambda>_. []), debug_ep_error = (\<lambda>_. []),
     debug_str = id, debug_json = (\<lambda>_. [])\<rparr>"

definition sample_trace_codec :: trace_codec where
  "sample_trace_codec = \<lparr>
     hex_decode = (\<lambda>_. Err []), decode_execution_result = (\<lambda>_. None), decode_failed_op = (\<lambda>_. None),
     decode_user_op_event = (\<lambda>_ _. Err []), decode_revert_event = (\<lambda>_ _. Err []),
     debug_failed_op = (\<lambda>_. []), debug_reverted_with = (\<lambda>_ _. []),
     debug_execution_failure = (\<lambda>_ _ _ _. [])\<rparr>"

definition sample_history :: history where
  "sample_history = \<lparr>
     hist_block_number = Ok 100, hist_events = (\<lambda>_ _. Ok []), hist_transaction = (\<lambda>_. Ok None),
     hist_receipt = (\<lambda>_. Ok None)\<rparr>"

definition sample_eth :: eth where
  "sample_eth = \<lparr>
     ep_address = 1000, api = sample_api, codec = sample_codec, client = sample_client,
     fmt = sample_display, eth_abi = sample_abi, tcodec = sample_trace_codec, past = sample_history\<rparr>"

lemmas sample_eth_defs = sample_eth_def sample_api_def sample_codec_def sample_client_def
  sample_display_def sample_abi_def sample_trace_codec_def sample_history_def

end
