(* ===== verification/Mempool_Errors.thy ===== *)
theory Mempool_Errors
  imports Entry_Point
begin

text \<open>
  The error types of the mempool crate (\<open>error.rs\<close> and the database error of
  \<open>database/env.rs\<close>) with their fields, and the conversions between them that the question mark
  operator applies. An error value of a library is its message.
\<close>

datatype database_error = Internal string | NotFound

datatype reputation_error =
    BannedEntity (entity: string) (address_of: address)
  | ThrottledEntity (entity: string) (address_of: address)
  | StakeTooLow (entity: string) (address_of: address) U256 U256
  | UnstakeDelayTooLow (address_of: address) (entity: string) U256 U256
  | UnstakedEntity (entity: string) (address_of: address)
  | RepDatabase database_error

datatype sanity_error =
    VerificationGasLimitTooHigh U256 U256
  | PreVerificationGasTooLow U256 U256
  | CallGasLimitTooLow U256 U256
  | MaxFeePerGasTooLow U256 U256
  | MaxPriorityFeePerGasTooHigh U256 U256
  | MaxPriorityFeePerGasTooLow U256 U256
  | SanPaymaster string
  | SanSender string
  | EntityRoles string address string
  | SanReputation reputation_error
  | SanProvider string
  | SanDatabase database_error
  | SanOther string

datatype simulation_error =
    SimSignature
  | Timestamp string
  | SimValidation string
  | SimExecution string
  | Opcode string string
  | StorageAccess string
  | Unstaked string address string
  | CallStack string
  | CodeHashes
  | OutOfGas
  | SimReputation reputation_error
  | SimProvider string
  | SimDatabase database_error
  | SimOther string

datatype invalid_mempool_user_operation_error =
    InvReputation reputation_error
  | InvSanity sanity_error
  | InvSimulation simulation_error

datatype mempool_error_kind =
    InvalidUserOperation invalid_mempool_user_operation_error
  | MekProvider string
  | MekDatabase database_error
  | MekOther string

record mempool_error =
  me_hash :: user_operation_hash
  me_kind :: mempool_error_kind

section \<open>Conversions\<close>

definition kind_of_reputation :: "reputation_error \<Rightarrow> mempool_error_kind" where
  "kind_of_reputation e = InvalidUserOperation (InvReputation e)"

definition kind_of_sanity :: "sanity_error \<Rightarrow> mempool_error_kind" where
  "kind_of_sanity e = InvalidUserOperation (InvSanity e)"

definition kind_of_simulation :: "simulation_error \<Rightarrow> mempool_error_kind" where
  "kind_of_simulation e = InvalidUserOperation (InvSimulation e)"

definition kind_of_db :: "string \<Rightarrow> mempool_error_kind" where
  "kind_of_db e = MekDatabase (Internal e)"

definition reputation_of_db :: "string \<Rightarrow> reputation_error" where
  "reputation_of_db e = RepDatabase (Internal e)"

definition sanity_of_entry_point :: "eth \<Rightarrow> entry_point_error \<Rightarrow> sanity_error" where
  "sanity_of_entry_point E err =
     (case err of
        EpProvider i \<Rightarrow> SanProvider i
      | _ \<Rightarrow> SanOther (entry_point_error_to_string E err))"

definition simulation_of_entry_point :: "eth \<Rightarrow> entry_point_error \<Rightarrow> simulation_error" where
  "simulation_of_entry_point E err =
     (case err of
        FailedOp op \<Rightarrow> SimExecution (show_failed_op (fmt E) op)
      | EpProvider i \<Rightarrow> SimProvider i
      | _ \<Rightarrow> SimOther (entry_point_error_to_string E err))"

end
