(* ===== verification/Mempool_Store.thy ===== *)
theory Mempool_Store
  imports Mempool_Errors
begin

text \<open>
  The mempool of the crate \<open>silius-mempool\<close> (\<open>mempool.rs\<close>) over its trait objects.

  A boxed trait object is a record of its methods over the store that holds all tables. The
  laws its callers rely on are the locales \<open>uo_store\<close>, \<open>addr_index\<close> and \<open>code_store\<close>, combined in
  \<open>growing_pool\<close> (adding and reading) and \<open>mempool_contract\<close> (removing as well); there the mempool is shown to refine a map from hashes to operations.
\<close>

section \<open>The traits\<close>

record 's user_operation_act =
  uo_add :: "user_operation \<Rightarrow> ('s, mempool_error_kind, user_operation_hash) op"
  uo_remove_by_uo_hash :: "user_operation_hash \<Rightarrow> ('s, mempool_error_kind, bool) op"
  uo_get_by_uo_hash ::
    "user_operation_hash \<Rightarrow> 's \<Rightarrow> (mempool_error_kind, user_operation option) outcome"
  uo_get_sorted :: "'s \<Rightarrow> (mempool_error_kind, user_operation list) outcome"
  uo_get_all :: "'s \<Rightarrow> (mempool_error_kind, user_operation list) outcome"
  uo_clear :: "('s, mempool_error_kind, unit) op"

record 's user_operation_addr_act =
  addr_add :: "address \<Rightarrow> user_operation_hash \<Rightarrow> ('s, mempool_error_kind, unit) op"
  addr_remove_uo_hash :: "address \<Rightarrow> user_operation_hash \<Rightarrow> ('s, mempool_error_kind, bool) op"
  get_all_by_address :: "address \<Rightarrow> 's \<Rightarrow> user_operation_hash list"
  addr_clear :: "('s, mempool_error_kind, unit) op"

record 's user_operation_code_hash_act =
  ch_has_code_hashes :: "user_operation_hash \<Rightarrow> 's \<Rightarrow> (mempool_error_kind, bool) outcome"
  ch_set_code_hashes ::
    "user_operation_hash \<Rightarrow> code_hash list \<Rightarrow> ('s, mempool_error_kind, unit) op"
  ch_get_code_hashes :: "user_operation_hash \<Rightarrow> 's \<Rightarrow> (mempool_error_kind, code_hash list) outcome"
  ch_remove_code_hashes :: "user_operation_hash \<Rightarrow> ('s, mempool_error_kind, bool) op"
  ch_clear :: "('s, mempool_error_kind, unit) op"

definition get_number_by_address :: "'s user_operation_addr_act \<Rightarrow> address \<Rightarrow> 's \<Rightarrow> nat" where
  "get_number_by_address A a s = length (get_all_by_address A a s)"

record 's mempool =
  user_operations :: "'s user_operation_act"
  user_operations_by_sender :: "'s user_operation_addr_act"
  user_operations_by_entity :: "'s user_operation_addr_act"
  user_operations_code_hashes :: "'s user_operation_code_hash_act"

section \<open>The mempool\<close>

text \<open>\<open>encode_checksum\<close> renders an address with \<open>to_checksum\<close> and encodes the text.\<close>

definition mempool_id :: "abi \<Rightarrow> address \<Rightarrow> u64 \<Rightarrow> h256" where
  "mempool_id A ep chain = keccak256 A (encode_checksum A ep @ encode_u256 A (ucast chain))"

definition mempool_add ::
  "'s mempool \<Rightarrow> user_operation \<Rightarrow> ('s, mempool_error_kind, user_operation_hash) op" where
  "mempool_add M uo =
     (case get_entities (user_operation uo) of (account, factory, paymaster) \<Rightarrow>
        bind_op (uo_add (user_operations M) uo) (\<lambda>_.
        bind_op (addr_add (user_operations_by_sender M) account (hash uo)) (\<lambda>_.
        bind_op (when_some factory
          (\<lambda>f. addr_add (user_operations_by_entity M) f (hash uo))) (\<lambda>_.
        bind_op (when_some paymaster
          (\<lambda>p. addr_add (user_operations_by_entity M) p (hash uo))) (\<lambda>_.
        ret (hash uo))))))"

definition mempool_get ::
  "'s mempool \<Rightarrow> user_operation_hash \<Rightarrow> 's \<Rightarrow> (mempool_error_kind, user_operation option) outcome"
  where
  "mempool_get M h s = uo_get_by_uo_hash (user_operations M) h s"

text \<open>
  \<open>flat_map(|h| get(h)).flatten()\<close>: failed lookups and missing operations are skipped.
\<close>

definition lookup_all ::
  "'s mempool \<Rightarrow> user_operation_hash list \<Rightarrow> 's \<Rightarrow> user_operation list" where
  "lookup_all M hs s =
     concat (map (\<lambda>h. case mempool_get M h s of Ok (Some uo) \<Rightarrow> [uo] | _ \<Rightarrow> []) hs)"

definition get_all_by_sender :: "'s mempool \<Rightarrow> address \<Rightarrow> 's \<Rightarrow> user_operation list" where
  "get_all_by_sender M a s =
     lookup_all M (get_all_by_address (user_operations_by_sender M) a s) s"

definition get_number_by_sender :: "'s mempool \<Rightarrow> address \<Rightarrow> 's \<Rightarrow> nat" where
  "get_number_by_sender M a s = get_number_by_address (user_operations_by_sender M) a s"

definition get_number_by_entity :: "'s mempool \<Rightarrow> address \<Rightarrow> 's \<Rightarrow> nat" where
  "get_number_by_entity M a s = get_number_by_address (user_operations_by_entity M) a s"

definition get_prev_by_sender ::
  "'s mempool \<Rightarrow> user_operation \<Rightarrow> 's \<Rightarrow> user_operation option" where
  "get_prev_by_sender M uo s =
     max_by_key (\<lambda>p. max_priority_fee_per_gas (user_operation p))
       (filter (\<lambda>p. nonce (user_operation p) = nonce (user_operation uo))
         (lookup_all M
           (get_all_by_address (user_operations_by_sender M) (sender (user_operation uo)) s) s))"

definition mempool_has_code_hashes ::
  "'s mempool \<Rightarrow> user_operation_hash \<Rightarrow> 's \<Rightarrow> (mempool_error_kind, bool) outcome" where
  "mempool_has_code_hashes M h s = ch_has_code_hashes (user_operations_code_hashes M) h s"

definition mempool_set_code_hashes ::
  "'s mempool \<Rightarrow> user_operation_hash \<Rightarrow> code_hash list \<Rightarrow> ('s, mempool_error_kind, unit) op" where
  "mempool_set_code_hashes M h hs = ch_set_code_hashes (user_operations_code_hashes M) h hs"

definition mempool_get_code_hashes ::
  "'s mempool \<Rightarrow> user_operation_hash \<Rightarrow> 's \<Rightarrow> (mempool_error_kind, code_hash list) outcome" where
  "mempool_get_code_hashes M h s = ch_get_code_hashes (user_operations_code_hashes M) h s"

definition mempool_remove ::
  "'s mempool \<Rightarrow> user_operation_hash \<Rightarrow> ('s, mempool_error_kind, bool) op" where
  "mempool_remove M h =
     bind_op (query (uo_get_by_uo_hash (user_operations M) h)) (\<lambda>found. case found of
         None \<Rightarrow> ret False
       | Some uo \<Rightarrow>
           (case get_entities (user_operation uo) of (account, factory, paymaster) \<Rightarrow>
              bind_op (uo_remove_by_uo_hash (user_operations M) h) (\<lambda>_.
              bind_op (addr_remove_uo_hash (user_operations_by_sender M) account h) (\<lambda>_.
              bind_op (when_some factory (\<lambda>f.
                bind_op (addr_remove_uo_hash (user_operations_by_entity M) f h)
                  (\<lambda>_. ret ()))) (\<lambda>_.
              bind_op (when_some paymaster (\<lambda>p.
                bind_op (addr_remove_uo_hash (user_operations_by_entity M) p h)
                  (\<lambda>_. ret ()))) (\<lambda>_.
              bind_op (ch_remove_code_hashes (user_operations_code_hashes M) h) (\<lambda>_.
              ret True)))))))"

definition mempool_remove_by_entity ::
  "'s mempool \<Rightarrow> address \<Rightarrow> ('s, mempool_error_kind, unit) op" where
  "mempool_remove_by_entity M a s =
     for_each (\<lambda>h. bind_op (mempool_remove M h) (\<lambda>_. ret ()))
       (get_all_by_address (user_operations_by_entity M) a s) s"

definition mempool_get_sorted ::
  "'s mempool \<Rightarrow> 's \<Rightarrow> (mempool_error_kind, user_operation list) outcome" where
  "mempool_get_sorted M s = uo_get_sorted (user_operations M) s"

definition mempool_get_all ::
  "'s mempool \<Rightarrow> 's \<Rightarrow> (mempool_error_kind, user_operation list) outcome" where
  "mempool_get_all M s = uo_get_all (user_operations M) s"

definition mempool_clear :: "'s mempool \<Rightarrow> ('s, mempool_error_kind, unit) op" where
  "mempool_clear M =
     bind_op (uo_clear (user_operations M)) (\<lambda>_.
     bind_op (addr_clear (user_operations_by_sender M)) (\<lambda>_.
     bind_op (addr_clear (user_operations_by_entity M)) (\<lambda>_.
     ch_clear (user_operations_code_hashes M))))"

text \<open>
  The order in which operations are bundled: higher priority fee first, then lower nonce. Both
  implementations of the trait sort with this comparison.
\<close>

definition cmp_priority :: "user_operation \<Rightarrow> user_operation \<Rightarrow> ordering" where
  "cmp_priority a b =
     (if max_priority_fee_per_gas (user_operation a) \<noteq> max_priority_fee_per_gas (user_operation b)
      then ord_cmp (max_priority_fee_per_gas (user_operation b))
             (max_priority_fee_per_gas (user_operation a))
      else ord_cmp (nonce (user_operation a)) (nonce (user_operation b)))"

section \<open>What the mempool relies on\<close>

text \<open>
  Each locale states the laws of one trait object: \<open>ok\<close> is the well-formedness of the store,
  \<open>rest\<close> is whatever the table must leave alone.
\<close>

locale uo_store =
  fixes A :: "'s user_operation_act"
    and ok :: "'s \<Rightarrow> bool"
    and ops :: "'s \<Rightarrow> user_operation_hash \<Rightarrow> user_operation_signed option"
    and rest :: "'s \<Rightarrow> 'r"
  assumes add_law: "ok s \<Longrightarrow> \<exists>t. uo_add A uo s = (Ok (hash uo), t) \<and> ok t \<and>
      ops t = (ops s)(hash uo \<mapsto> user_operation uo) \<and> rest t = rest s"
    and remove_law: "ok s \<Longrightarrow> \<exists>t. uo_remove_by_uo_hash A h s = (Ok (h \<in> dom (ops s)), t) \<and> ok t \<and>
      ops t = (ops s)(h := None) \<and> rest t = rest s"
    and get_law: "ok s \<Longrightarrow>
      uo_get_by_uo_hash A h s = Ok (map_option (from_user_operation_signed h) (ops s h))"
    and all_law: "ok s \<Longrightarrow> \<exists>xs. uo_get_all A s = Ok xs \<and> distinct (map hash xs) \<and>
      set xs = {uo. ops s (hash uo) = Some (user_operation uo)}"
    and sorted_law: "ok s \<Longrightarrow> \<exists>xs. uo_get_sorted A s = Ok xs \<and> distinct (map hash xs) \<and>
      set xs = {uo. ops s (hash uo) = Some (user_operation uo)} \<and>
      sorted_wrt (\<lambda>a b. cmp_priority a b \<noteq> Greater) xs"
    and clear_law: "ok s \<Longrightarrow> \<exists>t. uo_clear A s = (Ok (), t) \<and> ok t \<and>
      ops t = Map.empty \<and> rest t = rest s"

locale growing_index =
  fixes A :: "'s user_operation_addr_act"
    and ok :: "'s \<Rightarrow> bool"
    and idx :: "'s \<Rightarrow> address \<Rightarrow> user_operation_hash set"
    and rest :: "'s \<Rightarrow> 'r"
  assumes idx_add_law: "ok s \<Longrightarrow> \<exists>t. addr_add A a h s = (Ok (), t) \<and> ok t \<and>
      idx t = (idx s)(a := insert h (idx s a)) \<and> rest t = rest s"
    and idx_get_law: "ok s \<Longrightarrow> distinct (get_all_by_address A a s) \<and>
      set (get_all_by_address A a s) = idx s a"
    and idx_clear_law: "ok s \<Longrightarrow> \<exists>t. addr_clear A s = (Ok (), t) \<and> ok t \<and>
      idx t = (\<lambda>_. {}) \<and> rest t = rest s"

locale addr_index = growing_index +
  assumes idx_remove_law: "ok s \<Longrightarrow> \<exists>b t. addr_remove_uo_hash A a h s = (Ok b, t) \<and> ok t \<and>
      idx t = (idx s)(a := idx s a - {h}) \<and> rest t = rest s"

locale growing_codes =
  fixes A :: "'s user_operation_code_hash_act"
    and ok :: "'s \<Rightarrow> bool"
    and codes :: "'s \<Rightarrow> user_operation_hash \<Rightarrow> code_hash list option"
    and rest :: "'s \<Rightarrow> 'r"
  assumes code_has_law: "ok s \<Longrightarrow> ch_has_code_hashes A h s = Ok (h \<in> dom (codes s))"
    and code_set_law: "ok s \<Longrightarrow> \<exists>t. ch_set_code_hashes A h hs s = (Ok (), t) \<and> ok t \<and>
      codes t = (codes s)(h \<mapsto> hs) \<and> rest t = rest s"
    and code_get_law: "ok s \<Longrightarrow>
      ch_get_code_hashes A h s = Ok (case codes s h of Some hs \<Rightarrow> hs | None \<Rightarrow> [])"
    and code_clear_law: "ok s \<Longrightarrow> \<exists>t. ch_clear A s = (Ok (), t) \<and> ok t \<and>
      codes t = Map.empty \<and> rest t = rest s"

locale code_store = growing_codes +
  assumes code_remove_law: "ok s \<Longrightarrow> \<exists>b t. ch_remove_code_hashes A h s = (Ok b, t) \<and> ok t \<and>
      codes t = (codes s)(h := None) \<and> rest t = rest s"

text \<open>The two indices are determined by the operations: what a consistent store looks like.\<close>

definition sender_index ::
  "(user_operation_hash \<Rightarrow> user_operation_signed option) \<Rightarrow> address \<Rightarrow> user_operation_hash set" where
  "sender_index m a = {h. \<exists>uo. m h = Some uo \<and> sender uo = a}"

definition entity_index ::
  "(user_operation_hash \<Rightarrow> user_operation_signed option) \<Rightarrow> address \<Rightarrow> user_operation_hash set" where
  "entity_index m a = {h. \<exists>uo. m h = Some uo \<and> a \<in> entities_of uo}"

text \<open>
  Adding an operation under a hash that is taken keeps the indices right only when the two
  operations have the same entities, which they have when the hash function does not collide.
\<close>

definition same_entities ::
  "(user_operation_hash \<Rightarrow> user_operation_signed option) \<Rightarrow> user_operation \<Rightarrow> bool" where
  "same_entities m uo =
     (case m (hash uo) of
        None \<Rightarrow> True
      | Some old \<Rightarrow> get_entities old = get_entities (user_operation uo))"

lemma same_entitiesD:
  assumes "same_entities m uo" and "m (hash uo) = Some old"
  shows "sender old = sender (user_operation uo)"
    and "entities_of old = entities_of (user_operation uo)"
  using assms by (auto simp: same_entities_def get_entities_def entities_of_def)

lemma sender_index_update:
  assumes "same_entities m uo"
  shows "sender_index (m(hash uo \<mapsto> user_operation uo)) =
    (sender_index m)(sender (user_operation uo) :=
       insert (hash uo) (sender_index m (sender (user_operation uo))))"
  by (rule ext) (auto simp: sender_index_def dest: same_entitiesD(1) [OF assms])

lemma entity_index_update:
  assumes "same_entities m uo"
  shows "entity_index (m(hash uo \<mapsto> user_operation uo)) a =
    (if a \<in> entities_of (user_operation uo) then insert (hash uo) (entity_index m a)
     else entity_index m a)"
  by (auto simp: entity_index_def dest: same_entitiesD(2) [OF assms])

lemma sender_index_delete:
  "m h = Some uo \<Longrightarrow>
   sender_index (m(h := None)) = (sender_index m)(sender uo := sender_index m (sender uo) - {h})"
  by (rule ext) (auto simp: sender_index_def)

lemma entity_index_delete: "entity_index (m(h := None)) a = entity_index m a - {h}"
  by (auto simp: entity_index_def)

lemma entity_index_iff:
  "m h = Some uo \<Longrightarrow> h \<in> entity_index m a \<longleftrightarrow> a \<in> entities_of uo"
  by (auto simp: entity_index_def)

lemma index_empty [simp]:
  "sender_index Map.empty = (\<lambda>_. {})"
  "entity_index Map.empty = (\<lambda>_. {})"
  by (auto simp: sender_index_def entity_index_def)

text \<open>A pooled operation that competes with \<open>uo\<close>: same sender and same nonce.\<close>

definition same_slot ::
  "(user_operation_hash \<Rightarrow> user_operation_signed option) \<Rightarrow> user_operation \<Rightarrow> user_operation \<Rightarrow> bool"
  where
  "same_slot m uo p =
     (m (hash p) = Some (user_operation p) \<and>
      sender (user_operation p) = sender (user_operation uo) \<and>
      nonce (user_operation p) = nonce (user_operation uo))"

definition consistent ::
  "('s \<Rightarrow> bool) \<Rightarrow> ('s \<Rightarrow> user_operation_hash \<Rightarrow> user_operation_signed option) \<Rightarrow>
   ('s \<Rightarrow> address \<Rightarrow> user_operation_hash set) \<Rightarrow> ('s \<Rightarrow> address \<Rightarrow> user_operation_hash set) \<Rightarrow>
   's \<Rightarrow> bool" where
  "consistent ok ops snds ents s =
     (ok s \<and> snds s = sender_index (ops s) \<and> ents s = entity_index (ops s))"

section \<open>The mempool over its contract\<close>

text \<open>
  Adding and reading need less of the two tables they do not look things up in than removing does:
  an implementation whose entity index or code hashes only grow still satisfies \<open>growing_pool\<close>.
\<close>

locale growing_pool =
  us: uo_store "user_operations M" ok ops "\<lambda>s. (snds s, ents s, codes s)" +
  bs: addr_index "user_operations_by_sender M" ok snds "\<lambda>s. (ops s, ents s, codes s)" +
  be: growing_index "user_operations_by_entity M" ok ents "\<lambda>s. (ops s, snds s, codes s)" +
  cs: growing_codes "user_operations_code_hashes M" ok codes "\<lambda>s. (ops s, snds s, ents s)"
  for M :: "'s mempool" and ok ops snds ents codes
begin

lemma entity_add_step:
  assumes "ok s"
  shows "\<exists>t. when_some f (\<lambda>f. addr_add (user_operations_by_entity M) f h) s = (Ok (), t) \<and> ok t \<and>
    ents t = (\<lambda>a. if a \<in> set_option f then insert h (ents s a) else ents s a) \<and>
    ops t = ops s \<and> snds t = snds s \<and> codes t = codes s"
proof (cases f)
  case None
  then show ?thesis using assms by simp
next
  case (Some a)
  obtain t where t: "addr_add (user_operations_by_entity M) a h s = (Ok (), t)" "ok t"
      "ents t = (ents s)(a := insert h (ents s a))" "ops t = ops s" "snds t = snds s" "codes t = codes s"
    using be.idx_add_law [OF assms, of a h] by blast
  moreover have "ents t = (\<lambda>b. if b \<in> set_option f then insert h (ents s b) else ents s b)"
    by (rule ext) (simp add: Some t(3))
  ultimately show ?thesis using Some by auto
qed

lemma add_refines:
  assumes con: "consistent ok ops snds ents s" and same: "same_entities (ops s) uo"
  shows "\<exists>t. mempool_add M uo s = (Ok (hash uo), t) \<and> consistent ok ops snds ents t \<and>
    ops t = (ops s)(hash uo \<mapsto> user_operation uo) \<and> codes t = codes s"
proof -
  obtain f p where e: "get_entities (user_operation uo) = (sender (user_operation uo), f, p)"
    and fp: "entities_of (user_operation uo) = set_option f \<union> set_option p"
    by (auto simp: get_entities_def entities_of_def)
  have "ok s" using con by (simp add: consistent_def)
  then obtain t1 where 1: "uo_add (user_operations M) uo s = (Ok (hash uo), t1)" "ok t1"
      "ops t1 = (ops s)(hash uo \<mapsto> user_operation uo)"
      "snds t1 = snds s" "ents t1 = ents s" "codes t1 = codes s"
    using us.add_law by blast
  obtain t2 where 2: "addr_add (user_operations_by_sender M) (sender (user_operation uo)) (hash uo) t1
        = (Ok (), t2)" "ok t2"
      "snds t2 = (snds t1)(sender (user_operation uo) :=
         insert (hash uo) (snds t1 (sender (user_operation uo))))"
      "ops t2 = ops t1" "ents t2 = ents t1" "codes t2 = codes t1"
    using bs.idx_add_law [OF 1(2)] by blast
  obtain t3 where 3: "when_some f (\<lambda>f. addr_add (user_operations_by_entity M) f (hash uo)) t2 = (Ok (), t3)"
      "ok t3" "ents t3 = (\<lambda>a. if a \<in> set_option f then insert (hash uo) (ents t2 a) else ents t2 a)"
      "ops t3 = ops t2" "snds t3 = snds t2" "codes t3 = codes t2"
    using entity_add_step [OF 2(2)] by blast
  obtain t4 where 4: "when_some p (\<lambda>p. addr_add (user_operations_by_entity M) p (hash uo)) t3 = (Ok (), t4)"
      "ok t4" "ents t4 = (\<lambda>a. if a \<in> set_option p then insert (hash uo) (ents t3 a) else ents t3 a)"
      "ops t4 = ops t3" "snds t4 = snds t3" "codes t4 = codes t3"
    using entity_add_step [OF 3(2)] by blast
  have "mempool_add M uo s = (Ok (hash uo), t4)"
    using 1(1) 2(1) 3(1) 4(1) by (simp add: mempool_add_def e outcome_simps)
  moreover have "snds t4 = sender_index (ops t4)"
    using con
    by (simp add: consistent_def sender_index_update [OF same] 4(4,5) 3(4,5) 2(3,4) 1(3,4))
  moreover have "ents t4 = entity_index (ops t4)"
  proof (rule ext)
    fix a
    have "ents s = entity_index (ops s)" using con by (simp add: consistent_def)
    then have "ents t4 a = (if a \<in> set_option p \<or> a \<in> set_option f
        then insert (hash uo) (entity_index (ops s) a) else entity_index (ops s) a)"
      by (simp add: 4(3) 3(3) 2(5) 1(5))
    then show "ents t4 a = entity_index (ops t4) a"
      by (auto simp: 4(4) 3(4) 2(4) 1(3) entity_index_update [OF same] fp)
  qed
  ultimately show ?thesis
    using 4(2) by (auto simp: consistent_def 4(4,6) 3(4,6) 2(4,6) 1(3,6))
qed

lemma clear_refines:
  assumes "ok s"
  shows "\<exists>t. mempool_clear M s = (Ok (), t) \<and> consistent ok ops snds ents t \<and>
    ops t = Map.empty \<and> codes t = Map.empty"
proof -
  obtain t1 where 1: "uo_clear (user_operations M) s = (Ok (), t1)" "ok t1" "ops t1 = Map.empty"
    using us.clear_law [OF assms] by blast
  obtain t2 where 2: "addr_clear (user_operations_by_sender M) t1 = (Ok (), t2)" "ok t2"
      "snds t2 = (\<lambda>_. {})" "ops t2 = ops t1"
    using bs.idx_clear_law [OF 1(2)] by blast
  obtain t3 where 3: "addr_clear (user_operations_by_entity M) t2 = (Ok (), t3)" "ok t3"
      "ents t3 = (\<lambda>_. {})" "ops t3 = ops t2" "snds t3 = snds t2"
    using be.idx_clear_law [OF 2(2)] by blast
  obtain t4 where 4: "ch_clear (user_operations_code_hashes M) t3 = (Ok (), t4)" "ok t4"
      "codes t4 = Map.empty" "ops t4 = ops t3" "snds t4 = snds t3" "ents t4 = ents t3"
    using cs.code_clear_law [OF 3(2)] by blast
  show ?thesis using 1 2 3 4 by (simp add: mempool_clear_def outcome_simps consistent_def)
qed

lemma set_code_hashes_refines:
  assumes "consistent ok ops snds ents s"
  shows "\<exists>t. mempool_set_code_hashes M h hs s = (Ok (), t) \<and> consistent ok ops snds ents t \<and>
    ops t = ops s \<and> codes t = (codes s)(h \<mapsto> hs)"
proof -
  have "ok s" using assms by (simp add: consistent_def)
  then obtain t where "ch_set_code_hashes (user_operations_code_hashes M) h hs s = (Ok (), t)"
      "ok t" "codes t = (codes s)(h \<mapsto> hs)" "ops t = ops s" "snds t = snds s" "ents t = ents s"
    using cs.code_set_law by blast
  then show ?thesis using assms by (simp add: mempool_set_code_hashes_def consistent_def)
qed

lemma get_refines:
  assumes "ok s"
  shows "mempool_get M h s = Ok (map_option (from_user_operation_signed h) (ops s h))"
  using us.get_law [OF assms] by (simp add: mempool_get_def)

lemma lookup_all_filter:
  assumes "ok s"
  shows "lookup_all M hs s =
    map (\<lambda>h. from_user_operation_signed h (the (ops s h))) (filter (\<lambda>h. h \<in> dom (ops s)) hs)"
  by (induction hs) (auto simp: lookup_all_def get_refines [OF assms] split: option.splits)

lemma get_all_by_sender_refines:
  assumes "consistent ok ops snds ents s"
  shows "distinct (map hash (get_all_by_sender M a s)) \<and>
    set (get_all_by_sender M a s) =
      {uo. ops s (hash uo) = Some (user_operation uo) \<and> sender (user_operation uo) = a}"
proof -
  let ?hs = "get_all_by_address (user_operations_by_sender M) a s"
  have "ok s" and hs: "distinct ?hs" "set ?hs = sender_index (ops s) a"
    using assms bs.idx_get_law by (simp_all add: consistent_def)
  have eq: "get_all_by_sender M a s =
      map (\<lambda>h. from_user_operation_signed h (the (ops s h))) (filter (\<lambda>h. h \<in> dom (ops s)) ?hs)"
    by (simp add: get_all_by_sender_def lookup_all_filter [OF \<open>ok s\<close>])
  have "map hash (get_all_by_sender M a s) = filter (\<lambda>h. h \<in> dom (ops s)) ?hs"
    by (simp add: eq comp_def)
  moreover have "set (get_all_by_sender M a s) =
      {uo. ops s (hash uo) = Some (user_operation uo) \<and> sender (user_operation uo) = a}"
    unfolding eq set_map set_filter hs(2) sender_index_def
    by (force simp: from_user_operation_signed_def)
  ultimately show ?thesis using hs(1) by simp
qed

lemma number_by_sender_refines:
  assumes "consistent ok ops snds ents s"
  shows "get_number_by_sender M a s = card (sender_index (ops s) a)"
  using assms bs.idx_get_law [of s a] distinct_card
  by (fastforce simp: get_number_by_sender_def get_number_by_address_def consistent_def)

lemma number_by_entity_refines:
  assumes "consistent ok ops snds ents s"
  shows "get_number_by_entity M a s = card (entity_index (ops s) a)"
  using assms be.idx_get_law [of s a] distinct_card
  by (fastforce simp: get_number_by_entity_def get_number_by_address_def consistent_def)

lemma number_zero_refines:
  assumes "consistent ok ops snds ents s"
  shows "get_number_by_sender M a s = 0 \<longleftrightarrow> (\<forall>h uo. ops s h = Some uo \<longrightarrow> sender uo \<noteq> a)"
    and "get_number_by_entity M a s = 0 \<longleftrightarrow> (\<forall>h uo. ops s h = Some uo \<longrightarrow> a \<notin> entities_of uo)"
proof -
  have "set (get_all_by_address (user_operations_by_sender M) a s) = sender_index (ops s) a"
    and "set (get_all_by_address (user_operations_by_entity M) a s) = entity_index (ops s) a"
    using assms bs.idx_get_law be.idx_get_law by (simp_all add: consistent_def)
  then show "get_number_by_sender M a s = 0 \<longleftrightarrow> (\<forall>h uo. ops s h = Some uo \<longrightarrow> sender uo \<noteq> a)"
    and "get_number_by_entity M a s = 0 \<longleftrightarrow> (\<forall>h uo. ops s h = Some uo \<longrightarrow> a \<notin> entities_of uo)"
    by (auto simp: get_number_by_sender_def get_number_by_entity_def get_number_by_address_def
        sender_index_def entity_index_def simp flip: set_empty)
qed

lemma get_prev_by_sender_refines:
  assumes con: "consistent ok ops snds ents s"
  shows "case get_prev_by_sender M uo s of
      None \<Rightarrow> \<forall>p. \<not> same_slot (ops s) uo p
    | Some p \<Rightarrow> same_slot (ops s) uo p \<and> (\<forall>q. same_slot (ops s) uo q \<longrightarrow>
        max_priority_fee_per_gas (user_operation q) \<le> max_priority_fee_per_gas (user_operation p))"
proof -
  define xs where "xs = filter (\<lambda>p. nonce (user_operation p) = nonce (user_operation uo))
    (get_all_by_sender M (sender (user_operation uo)) s)"
  have prev: "get_prev_by_sender M uo s =
      max_by_key (\<lambda>p. max_priority_fee_per_gas (user_operation p)) xs"
    by (simp add: get_prev_by_sender_def get_all_by_sender_def xs_def)
  have mem: "p \<in> set xs \<longleftrightarrow> same_slot (ops s) uo p" for p
    using get_all_by_sender_refines [OF con, of "sender (user_operation uo)"]
    by (auto simp: same_slot_def xs_def)
  show ?thesis
  proof (cases "get_prev_by_sender M uo s")
    case None
    then have "xs = []" by (simp add: prev)
    then have "\<not> same_slot (ops s) uo p" for p using mem [of p] by simp
    with None show ?thesis by simp
  next
    case (Some p)
    then have "max_by_key (\<lambda>p. max_priority_fee_per_gas (user_operation p)) xs = Some p"
      by (simp add: prev)
    note m = max_by_key_Some [OF this]
    have "same_slot (ops s) uo p" using m(1) mem by blast
    moreover have "max_priority_fee_per_gas (user_operation q) \<le> max_priority_fee_per_gas (user_operation p)"
      if "same_slot (ops s) uo q" for q
      using m(2) that mem by blast
    ultimately show ?thesis using Some by simp
  qed
qed

end

locale mempool_contract = growing_pool M ok ops snds ents codes +
  be: addr_index "user_operations_by_entity M" ok ents "\<lambda>s. (ops s, snds s, codes s)" +
  cs: code_store "user_operations_code_hashes M" ok codes "\<lambda>s. (ops s, snds s, ents s)"
  for M :: "'s mempool" and ok ops snds ents codes
begin

lemma entity_remove_step:
  assumes "ok s"
  shows "\<exists>t. when_some f (\<lambda>f. bind_op (addr_remove_uo_hash (user_operations_by_entity M) f h)
      (\<lambda>_. ret ())) s = (Ok (), t) \<and> ok t \<and>
    ents t = (\<lambda>a. if a \<in> set_option f then ents s a - {h} else ents s a) \<and>
    ops t = ops s \<and> snds t = snds s \<and> codes t = codes s"
proof (cases f)
  case None
  then show ?thesis using assms by simp
next
  case (Some a)
  obtain b t where t: "addr_remove_uo_hash (user_operations_by_entity M) a h s = (Ok b, t)" "ok t"
      "ents t = (ents s)(a := ents s a - {h})" "ops t = ops s" "snds t = snds s" "codes t = codes s"
    using be.idx_remove_law [OF assms, of a h] by blast
  moreover have "ents t = (\<lambda>b. if b \<in> set_option f then ents s b - {h} else ents s b)"
    by (rule ext) (simp add: Some t(3))
  ultimately show ?thesis using Some by (auto simp: outcome_simps)
qed

lemma remove_absent:
  assumes "ok s" and "ops s h = None"
  shows "mempool_remove M h s = (Ok False, s)"
  using us.get_law [OF assms(1), of h] assms(2)
  by (simp add: mempool_remove_def outcome_simps)

lemma remove_refines:
  assumes con: "consistent ok ops snds ents s" and uo: "ops s h = Some uo"
  shows "\<exists>t. mempool_remove M h s = (Ok True, t) \<and> consistent ok ops snds ents t \<and>
    ops t = (ops s)(h := None) \<and> codes t = (codes s)(h := None)"
proof -
  obtain f p where e: "get_entities uo = (sender uo, f, p)"
    and fp: "entities_of uo = set_option f \<union> set_option p"
    by (auto simp: get_entities_def entities_of_def)
  have "ok s" using con by (simp add: consistent_def)
  have g: "uo_get_by_uo_hash (user_operations M) h s = Ok (Some (from_user_operation_signed h uo))"
    using us.get_law [OF \<open>ok s\<close>, of h] uo by simp
  obtain b1 t1 where 1: "uo_remove_by_uo_hash (user_operations M) h s = (Ok b1, t1)" "ok t1"
      "ops t1 = (ops s)(h := None)" "snds t1 = snds s" "ents t1 = ents s" "codes t1 = codes s"
    using us.remove_law [OF \<open>ok s\<close>, of h] by blast
  obtain b2 t2 where 2: "addr_remove_uo_hash (user_operations_by_sender M) (sender uo) h t1
        = (Ok b2, t2)" "ok t2"
      "snds t2 = (snds t1)(sender uo := snds t1 (sender uo) - {h})"
      "ops t2 = ops t1" "ents t2 = ents t1" "codes t2 = codes t1"
    using bs.idx_remove_law [OF 1(2), of "sender uo" h] by blast
  obtain t3 where 3: "when_some f (\<lambda>f. bind_op (addr_remove_uo_hash (user_operations_by_entity M) f h)
        (\<lambda>_. ret ())) t2 = (Ok (), t3)"
      "ok t3" "ents t3 = (\<lambda>a. if a \<in> set_option f then ents t2 a - {h} else ents t2 a)"
      "ops t3 = ops t2" "snds t3 = snds t2" "codes t3 = codes t2"
    using entity_remove_step [OF 2(2)] by blast
  obtain t4 where 4: "when_some p (\<lambda>p. bind_op (addr_remove_uo_hash (user_operations_by_entity M) p h)
        (\<lambda>_. ret ())) t3 = (Ok (), t4)"
      "ok t4" "ents t4 = (\<lambda>a. if a \<in> set_option p then ents t3 a - {h} else ents t3 a)"
      "ops t4 = ops t3" "snds t4 = snds t3" "codes t4 = codes t3"
    using entity_remove_step [OF 3(2)] by blast
  obtain b5 t5 where 5: "ch_remove_code_hashes (user_operations_code_hashes M) h t4 = (Ok b5, t5)"
      "ok t5" "codes t5 = (codes t4)(h := None)" "ops t5 = ops t4" "snds t5 = snds t4" "ents t5 = ents t4"
    using cs.code_remove_law [OF 4(2), of h] by blast
  have "mempool_remove M h s = (Ok True, t5)"
    using g 1(1) 2(1) 3(1) 4(1) 5(1) by (simp add: mempool_remove_def e outcome_simps)
  moreover have "snds t5 = sender_index (ops t5)"
    using con uo
    by (simp add: consistent_def sender_index_delete 5(4,5) 4(4,5) 3(4,5) 2(3,4) 1(3,4))
  moreover have "ents t5 = entity_index (ops t5)"
  proof (rule ext)
    fix a
    have "ents s = entity_index (ops s)" using con by (simp add: consistent_def)
    then have "ents t5 a = (if a \<in> set_option p \<or> a \<in> set_option f
        then entity_index (ops s) a - {h} else entity_index (ops s) a)"
      by (simp add: 5(6) 4(3) 3(3) 2(5) 1(5))
    then show "ents t5 a = entity_index (ops t5) a"
      using entity_index_iff [where m = "ops s" and h = h and uo = uo and a = a, OF uo]
      by (auto simp: 5(4) 4(4) 3(4) 2(4) 1(3) entity_index_delete fp)
  qed
  ultimately show ?thesis
    using 5(2) by (auto simp: consistent_def 5(3,4) 4(4,6) 3(4,6) 2(4,6) 1(3,6))
qed

lemma remove_total:
  assumes "consistent ok ops snds ents s"
  shows "\<exists>t. mempool_remove M h s = (Ok (h \<in> dom (ops s)), t) \<and> consistent ok ops snds ents t \<and>
    ops t = (ops s)(h := None) \<and>
    codes t = (if h \<in> dom (ops s) then (codes s)(h := None) else codes s)"
proof (cases "ops s h")
  case None
  then have "mempool_remove M h s = (Ok False, s)"
    using assms remove_absent by (simp add: consistent_def)
  moreover have "(ops s)(h := None) = ops s" using None by (rule fun_upd_idem)
  ultimately show ?thesis using None assms by (simp add: domIff)
next
  case (Some uo)
  then have "h \<in> dom (ops s)" by (rule domI)
  then show ?thesis using remove_refines [OF assms Some] by simp
qed

lemma remove_all_refines:
  assumes "consistent ok ops snds ents s"
  shows "\<exists>t. for_each (\<lambda>h. bind_op (mempool_remove M h) (\<lambda>_. ret ())) hs s = (Ok (), t) \<and>
    consistent ok ops snds ents t \<and> ops t = ops s |` (- set hs)"
proof (rule for_each_total [where R = "\<lambda>h s t. ops t = (ops s)(h := None)"
      and P = "consistent ok ops snds ents" and Q = "\<lambda>hs s t. ops t = ops s |` (- set hs)"])
  fix h s
  assume "consistent ok ops snds ents s"
  then obtain t where "mempool_remove M h s = (Ok (h \<in> dom (ops s)), t)"
      "consistent ok ops snds ents t" "ops t = (ops s)(h := None)"
    using remove_total by blast
  then show "\<exists>t. bind_op (mempool_remove M h) (\<lambda>_. ret ()) s = (Ok (), t) \<and>
      consistent ok ops snds ents t \<and> ops t = (ops s)(h := None)"
    by (simp add: outcome_simps)
next
  fix h hs s t u
  assume "ops t = (ops s)(h := None)" "ops u = ops t |` (- set hs)"
  then show "ops u = ops s |` (- set (h # hs))" by (auto simp: restrict_map_def)
qed (use assms in \<open>auto simp: restrict_map_def\<close>)

lemma remove_by_entity_refines:
  assumes "consistent ok ops snds ents s"
  shows "\<exists>t. mempool_remove_by_entity M a s = (Ok (), t) \<and> consistent ok ops snds ents t \<and>
    ops t = ops s |` {h. \<forall>uo. ops s h = Some uo \<longrightarrow> a \<notin> entities_of uo}"
proof -
  have "set (get_all_by_address (user_operations_by_entity M) a s) = entity_index (ops s) a"
    using assms be.idx_get_law by (simp add: consistent_def)
  moreover have "- entity_index (ops s) a = {h. \<forall>uo. ops s h = Some uo \<longrightarrow> a \<notin> entities_of uo}"
    by (auto simp: entity_index_def)
  ultimately show ?thesis
    using remove_all_refines [OF assms, of "get_all_by_address (user_operations_by_entity M) a s"]
    by (simp add: mempool_remove_by_entity_def)
qed

end

end
