(* ===== verification/Memory_Store.thy ===== *)
theory Memory_Store
  imports Mempool_Store
begin

text \<open>
  The in-memory implementation of the mempool traits (\<open>memory/mempool.rs\<close>): the methods on the
  four hash maps, the trait objects over them and the proof that they satisfy the contract of
  the mempool.
\<close>

section \<open>The in-memory tables\<close>

text \<open>
  The trait methods on a \<open>HashMap\<close>: each takes the map and returns its result and the map.
\<close>

definition hash_map_add ::
  "user_operation \<Rightarrow>
   ((user_operation_hash, user_operation_signed) hash_map, mempool_error_kind, user_operation_hash) op" where
  "hash_map_add uo m = (Ok (hash uo), hm_insert (hash uo) (user_operation uo) m)"

definition hash_map_remove_by_uo_hash ::
  "user_operation_hash \<Rightarrow> ((user_operation_hash, user_operation_signed) hash_map, mempool_error_kind, bool) op" where
  "hash_map_remove_by_uo_hash h m =
     (case hm_get m h of
        None \<Rightarrow> (Ok False, m)
      | Some _ \<Rightarrow> (Ok True, hm_remove h m))"

definition hash_map_get_by_uo_hash ::
  "user_operation_hash \<Rightarrow> (user_operation_hash, user_operation_signed) hash_map \<Rightarrow>
   (mempool_error_kind, user_operation option) outcome" where
  "hash_map_get_by_uo_hash h m =
     (case hm_get m h of
        Some uo \<Rightarrow> Ok (Some (from_user_operation_signed h uo))
      | None \<Rightarrow> Ok None)"

definition hash_map_get_all ::
  "(user_operation_hash, user_operation_signed) hash_map \<Rightarrow> (mempool_error_kind, user_operation list) outcome" where
  "hash_map_get_all m = Ok (map (\<lambda>(h, uo). from_user_operation_signed h uo) m)"

definition hash_map_get_sorted ::
  "(user_operation_hash, user_operation_signed) hash_map \<Rightarrow> (mempool_error_kind, user_operation list) outcome" where
  "hash_map_get_sorted m =
     Ok (sort_by cmp_priority (map (\<lambda>(h, uo). from_user_operation_signed h uo) m))"

definition hash_map_get_all_by_address ::
  "address \<Rightarrow> (address, user_operation_hash hash_set) hash_map \<Rightarrow> user_operation_hash list" where
  "hash_map_get_all_by_address a m = (case hm_get m a of Some hs \<Rightarrow> hs | None \<Rightarrow> [])"

definition hash_map_add_uo_hash ::
  "address \<Rightarrow> user_operation_hash \<Rightarrow>
   ((address, user_operation_hash hash_set) hash_map, mempool_error_kind, unit) op" where
  "hash_map_add_uo_hash a h m =
     (Ok (), hm_insert a
        (snd (hs_insert h (case hm_get m a of Some hs \<Rightarrow> hs | None \<Rightarrow> []))) m)"

definition hash_map_remove_uo_hash ::
  "address \<Rightarrow> user_operation_hash \<Rightarrow>
   ((address, user_operation_hash hash_set) hash_map, mempool_error_kind, bool) op" where
  "hash_map_remove_uo_hash a h m =
     (case hm_get m a of
        Some hs \<Rightarrow>
          (let uos = snd (hs_remove h hs)
           in (Ok True, if uos = [] then hm_remove a m else hm_insert a uos m))
      | None \<Rightarrow> (Ok False, m))"

definition hash_map_has_code_hashes ::
  "user_operation_hash \<Rightarrow> (user_operation_hash, code_hash list) hash_map \<Rightarrow> (mempool_error_kind, bool) outcome" where
  "hash_map_has_code_hashes h m = Ok (hm_contains m h)"

definition hash_map_set_code_hashes ::
  "user_operation_hash \<Rightarrow> code_hash list \<Rightarrow>
   ((user_operation_hash, code_hash list) hash_map, mempool_error_kind, unit) op" where
  "hash_map_set_code_hashes h hs m = (Ok (), hm_insert h hs m)"

definition hash_map_get_code_hashes ::
  "user_operation_hash \<Rightarrow> (user_operation_hash, code_hash list) hash_map \<Rightarrow>
   (mempool_error_kind, code_hash list) outcome" where
  "hash_map_get_code_hashes h m = (case hm_get m h of Some hs \<Rightarrow> Ok hs | None \<Rightarrow> Ok [])"

definition hash_map_remove_code_hashes ::
  "user_operation_hash \<Rightarrow> ((user_operation_hash, code_hash list) hash_map, mempool_error_kind, bool) op" where
  "hash_map_remove_code_hashes h m = (Ok True, hm_remove h m)"

definition hash_map_clear :: "(('k, 'v) hash_map, 'e, unit) op" where
  "hash_map_clear m = (Ok (), [])"

text \<open>
  The store holds one map per table, each behind its own \<open>Arc<RwLock<..>>\<close>; a method of the
  wrapper takes the lock and runs the method of the map.
\<close>

record memory_tables =
  mt_user_operations :: "(user_operation_hash, user_operation_signed) hash_map"
  mt_by_sender :: "(address, user_operation_hash hash_set) hash_map"
  mt_by_entity :: "(address, user_operation_hash hash_set) hash_map"
  mt_code_hashes :: "(user_operation_hash, code_hash list) hash_map"

definition locked ::
  "('s \<Rightarrow> 't) \<Rightarrow> (('t \<Rightarrow> 't) \<Rightarrow> 's \<Rightarrow> 's) \<Rightarrow> ('t, 'e, 'a) op \<Rightarrow> ('s, 'e, 'a) op" where
  "locked get upd f s = (case f (get s) of (r, t) \<Rightarrow> (r, upd (\<lambda>_. t) s))"

definition memory_user_operations :: "memory_tables user_operation_act" where
  "memory_user_operations = \<lparr>
     uo_add = (\<lambda>uo. locked mt_user_operations mt_user_operations_update (hash_map_add uo)),
     uo_remove_by_uo_hash =
       (\<lambda>h. locked mt_user_operations mt_user_operations_update (hash_map_remove_by_uo_hash h)),
     uo_get_by_uo_hash = (\<lambda>h s. hash_map_get_by_uo_hash h (mt_user_operations s)),
     uo_get_sorted = (\<lambda>s. hash_map_get_sorted (mt_user_operations s)),
     uo_get_all = (\<lambda>s. hash_map_get_all (mt_user_operations s)),
     uo_clear = locked mt_user_operations mt_user_operations_update hash_map_clear\<rparr>"

definition memory_addr_act ::
  "(memory_tables \<Rightarrow> (address, user_operation_hash hash_set) hash_map) \<Rightarrow>
   (((address, user_operation_hash hash_set) hash_map \<Rightarrow>
     (address, user_operation_hash hash_set) hash_map) \<Rightarrow> memory_tables \<Rightarrow> memory_tables) \<Rightarrow>
   memory_tables user_operation_addr_act" where
  "memory_addr_act get upd = \<lparr>
     addr_add = (\<lambda>a h. locked get upd (hash_map_add_uo_hash a h)),
     addr_remove_uo_hash = (\<lambda>a h. locked get upd (hash_map_remove_uo_hash a h)),
     get_all_by_address = (\<lambda>a s. hash_map_get_all_by_address a (get s)),
     addr_clear = locked get upd hash_map_clear\<rparr>"

definition memory_code_hashes :: "memory_tables user_operation_code_hash_act" where
  "memory_code_hashes = \<lparr>
     ch_has_code_hashes = (\<lambda>h s. hash_map_has_code_hashes h (mt_code_hashes s)),
     ch_set_code_hashes =
       (\<lambda>h hs. locked mt_code_hashes mt_code_hashes_update (hash_map_set_code_hashes h hs)),
     ch_get_code_hashes = (\<lambda>h s. hash_map_get_code_hashes h (mt_code_hashes s)),
     ch_remove_code_hashes =
       (\<lambda>h. locked mt_code_hashes mt_code_hashes_update (hash_map_remove_code_hashes h)),
     ch_clear = locked mt_code_hashes mt_code_hashes_update hash_map_clear\<rparr>"

definition memory_mempool :: "memory_tables mempool" where
  "memory_mempool = \<lparr>
     user_operations = memory_user_operations,
     user_operations_by_sender = memory_addr_act mt_by_sender mt_by_sender_update,
     user_operations_by_entity = memory_addr_act mt_by_entity mt_by_entity_update,
     user_operations_code_hashes = memory_code_hashes\<rparr>"

definition empty_tables :: memory_tables where
  "empty_tables =
     \<lparr>mt_user_operations = [], mt_by_sender = [], mt_by_entity = [], mt_code_hashes = []\<rparr>"

section \<open>Well-formed tables and what they hold\<close>

definition idx_ok :: "(address, user_operation_hash hash_set) hash_map \<Rightarrow> bool" where
  "idx_ok m = (hm_wf m \<and> list_all (\<lambda>e. distinct (snd e)) m)"

definition mem_ok :: "memory_tables \<Rightarrow> bool" where
  "mem_ok s =
     (hm_wf (mt_user_operations s) \<and> idx_ok (mt_by_sender s) \<and> idx_ok (mt_by_entity s) \<and>
      hm_wf (mt_code_hashes s))"

definition mem_ops ::
  "memory_tables \<Rightarrow> user_operation_hash \<Rightarrow> user_operation_signed option" where
  "mem_ops s = hm_get (mt_user_operations s)"

definition idx_of ::
  "(address, user_operation_hash hash_set) hash_map \<Rightarrow> address \<Rightarrow> user_operation_hash set" where
  "idx_of m a = set (hash_map_get_all_by_address a m)"

definition mem_snds :: "memory_tables \<Rightarrow> address \<Rightarrow> user_operation_hash set" where
  "mem_snds s = idx_of (mt_by_sender s)"

definition mem_ents :: "memory_tables \<Rightarrow> address \<Rightarrow> user_operation_hash set" where
  "mem_ents s = idx_of (mt_by_entity s)"

definition mem_codes :: "memory_tables \<Rightarrow> user_operation_hash \<Rightarrow> code_hash list option" where
  "mem_codes s = hm_get (mt_code_hashes s)"

text \<open>
  The invariant of the pool: the tables are well formed and each index lists exactly the hashes
  of the operations whose sender, respectively factory or paymaster, it is filed under.
\<close>

definition mem_consistent :: "memory_tables \<Rightarrow> bool" where
  "mem_consistent = consistent mem_ok mem_ops mem_snds mem_ents"

lemmas mem_defs = mem_ok_def mem_ops_def mem_snds_def mem_ents_def mem_codes_def

lemma locked_apply: "f (get s) = (r, t) \<Longrightarrow> locked get upd f s = (r, upd (\<lambda>_. t) s)"
  by (simp add: locked_def)

lemma list_all_hm_insert: "P (k, v) \<Longrightarrow> list_all P m \<Longrightarrow> list_all P (hm_insert k v m)"
  unfolding hm_insert_def by (induction m) auto

lemma list_all_hm_remove: "list_all P m \<Longrightarrow> list_all P (hm_remove k m)"
  by (auto simp: hm_remove_def AList.delete_eq list_all_iff)

lemma idx_ok_get: "idx_ok m \<Longrightarrow> hm_get m a = Some hs \<Longrightarrow> distinct hs"
  by (auto simp: idx_ok_def hm_get_Some_iff list_all_iff)

lemma idx_ok_Nil [simp]: "idx_ok []"
  by (simp add: idx_ok_def)

lemma idx_of_Nil [simp]: "idx_of [] = (\<lambda>_. {})"
  by (rule ext) (simp add: idx_of_def hash_map_get_all_by_address_def)

lemma idx_add:
  assumes "idx_ok m"
  shows "\<exists>t. hash_map_add_uo_hash a h m = (Ok (), t) \<and> idx_ok t \<and>
    idx_of t = (idx_of m)(a := insert h (idx_of m a))"
proof -
  let ?old = "case hm_get m a of Some hs \<Rightarrow> hs | None \<Rightarrow> []"
  have "distinct ?old" using idx_ok_get [OF assms] by (cases "hm_get m a") auto
  then have "idx_ok (hm_insert a (List.insert h ?old) m)"
    using assms by (simp add: idx_ok_def list_all_hm_insert)
  moreover have "idx_of (hm_insert a (List.insert h ?old) m) = (idx_of m)(a := insert h (idx_of m a))"
    by (rule ext) (auto simp: idx_of_def hash_map_get_all_by_address_def split: option.splits)
  ultimately show ?thesis by (simp add: hash_map_add_uo_hash_def hs_insert_def)
qed

lemma idx_remove:
  assumes "idx_ok m"
  shows "\<exists>b t. hash_map_remove_uo_hash a h m = (Ok b, t) \<and> idx_ok t \<and>
    idx_of t = (idx_of m)(a := idx_of m a - {h})"
proof (cases "hm_get m a")
  case None
  then have "(idx_of m)(a := idx_of m a - {h}) = idx_of m"
    by (intro fun_upd_idem) (simp add: idx_of_def hash_map_get_all_by_address_def)
  with None assms show ?thesis by (auto simp: hash_map_remove_uo_hash_def)
next
  case (Some hs)
  let ?t = "if removeAll h hs = [] then hm_remove a m else hm_insert a (removeAll h hs) m"
  have "distinct (removeAll h hs)" using idx_ok_get [OF assms Some] by (simp add: distinct_removeAll)
  then have "idx_ok ?t"
    using assms by (simp add: idx_ok_def list_all_hm_insert list_all_hm_remove)
  moreover have "idx_of ?t = (idx_of m)(a := idx_of m a - {h})"
  proof (rule ext)
    fix b
    have "set (removeAll h hs) = set hs - {h}" by simp
    then show "idx_of ?t b = ((idx_of m)(a := idx_of m a - {h})) b"
      using Some by (cases "removeAll h hs = []"; cases "b = a")
        (auto simp: idx_of_def hash_map_get_all_by_address_def simp del: set_removeAll)
  qed
  ultimately show ?thesis
    using Some by (auto simp: hash_map_remove_uo_hash_def hs_remove_def Let_def)
qed

lemma idx_get:
  "idx_ok m \<Longrightarrow> distinct (hash_map_get_all_by_address a m)"
  using idx_ok_get [of m a] by (auto simp: hash_map_get_all_by_address_def split: option.splits)

lemma cmp_priority_iff:
  "cmp_priority a b \<noteq> Greater \<longleftrightarrow>
     max_priority_fee_per_gas (user_operation b) < max_priority_fee_per_gas (user_operation a) \<or>
     max_priority_fee_per_gas (user_operation a) = max_priority_fee_per_gas (user_operation b) \<and>
     nonce (user_operation a) \<le> nonce (user_operation b)"
  by (auto simp: cmp_priority_def)

lemma sorted_priority:
  "sorted_wrt (\<lambda>a b. cmp_priority a b \<noteq> Greater) (sort_by cmp_priority xs)"
proof (rule sorted_sort_by)
  fix x y
  assume "cmp_priority x y = Greater"
  then have "\<not> cmp_priority x y \<noteq> Greater" by simp
  then show "cmp_priority y x \<noteq> Greater" unfolding cmp_priority_iff by auto
qed (unfold cmp_priority_iff, auto)

lemma pooled_list:
  assumes "hm_wf m"
  defines "xs \<equiv> map (\<lambda>(h, uo). from_user_operation_signed h uo) m"
  shows "distinct (map hash xs)" and "set xs = {uo. hm_get m (hash uo) = Some (user_operation uo)}"
proof -
  have "map hash xs = map fst m" by (auto simp: xs_def)
  then show "distinct (map hash xs)" using assms(1) by (simp add: hm_wf_def)
  show "set xs = {uo. hm_get m (hash uo) = Some (user_operation uo)}"
    unfolding hm_get_Some_iff [OF assms(1)] xs_def
    by (force simp: from_user_operation_signed_def)
qed

section \<open>The in-memory tables satisfy the contract\<close>

interpretation mem_us: uo_store memory_user_operations mem_ok mem_ops
  "\<lambda>s. (mem_snds s, mem_ents s, mem_codes s)"
proof
  fix s uo
  assume "mem_ok s"
  then show "\<exists>t. uo_add memory_user_operations uo s = (Ok (hash uo), t) \<and> mem_ok t \<and>
      mem_ops t = (mem_ops s)(hash uo \<mapsto> user_operation uo) \<and>
      (mem_snds t, mem_ents t, mem_codes t) = (mem_snds s, mem_ents s, mem_codes s)"
    by (simp add: memory_user_operations_def locked_def hash_map_add_def mem_defs)
next
  fix s h
  assume "mem_ok s"
  then show "\<exists>t. uo_remove_by_uo_hash memory_user_operations h s = (Ok (h \<in> dom (mem_ops s)), t) \<and>
      mem_ok t \<and> mem_ops t = (mem_ops s)(h := None) \<and>
      (mem_snds t, mem_ents t, mem_codes t) = (mem_snds s, mem_ents s, mem_codes s)"
    by (cases "hm_get (mt_user_operations s) h")
      (auto simp: memory_user_operations_def locked_def hash_map_remove_by_uo_hash_def mem_defs)
next
  fix s h
  assume "mem_ok s"
  show "uo_get_by_uo_hash memory_user_operations h s =
      Ok (map_option (from_user_operation_signed h) (mem_ops s h))"
    by (simp add: memory_user_operations_def hash_map_get_by_uo_hash_def mem_ops_def
        split: option.splits)
next
  fix s
  assume "mem_ok s"
  then have "hm_wf (mt_user_operations s)" by (simp add: mem_ok_def)
  note p = pooled_list [OF this]
  show "\<exists>xs. uo_get_all memory_user_operations s = Ok xs \<and> distinct (map hash xs) \<and>
      set xs = {uo. mem_ops s (hash uo) = Some (user_operation uo)}"
    using p by (simp add: memory_user_operations_def hash_map_get_all_def mem_ops_def)
  show "\<exists>xs. uo_get_sorted memory_user_operations s = Ok xs \<and> distinct (map hash xs) \<and>
      set xs = {uo. mem_ops s (hash uo) = Some (user_operation uo)} \<and>
      sorted_wrt (\<lambda>a b. cmp_priority a b \<noteq> Greater) xs"
    using p sorted_priority
    by (simp add: memory_user_operations_def hash_map_get_sorted_def mem_ops_def)
next
  fix s
  assume "mem_ok s"
  then show "\<exists>t. uo_clear memory_user_operations s = (Ok (), t) \<and> mem_ok t \<and>
      mem_ops t = Map.empty \<and>
      (mem_snds t, mem_ents t, mem_codes t) = (mem_snds s, mem_ents s, mem_codes s)"
    by (simp add: memory_user_operations_def locked_def hash_map_clear_def mem_defs)
qed

lemmas addr_act_simps = memory_addr_act_def locked_def mem_defs

interpretation mem_bs: addr_index "memory_addr_act mt_by_sender mt_by_sender_update" mem_ok mem_snds
  "\<lambda>s. (mem_ops s, mem_ents s, mem_codes s)"
proof
  fix s a h
  assume "mem_ok s"
  then have i: "idx_ok (mt_by_sender s)" by (simp add: mem_ok_def)
  show "\<exists>t. addr_add (memory_addr_act mt_by_sender mt_by_sender_update) a h s = (Ok (), t) \<and>
      mem_ok t \<and> mem_snds t = (mem_snds s)(a := insert h (mem_snds s a)) \<and>
      (mem_ops t, mem_ents t, mem_codes t) = (mem_ops s, mem_ents s, mem_codes s)"
    using idx_add [OF i, of a h] \<open>mem_ok s\<close> by (auto simp: addr_act_simps)
  show "\<exists>b t. addr_remove_uo_hash (memory_addr_act mt_by_sender mt_by_sender_update) a h s = (Ok b, t) \<and>
      mem_ok t \<and> mem_snds t = (mem_snds s)(a := mem_snds s a - {h}) \<and>
      (mem_ops t, mem_ents t, mem_codes t) = (mem_ops s, mem_ents s, mem_codes s)"
    using idx_remove [OF i, of a h] \<open>mem_ok s\<close> by (auto simp: addr_act_simps)
  show "distinct (get_all_by_address (memory_addr_act mt_by_sender mt_by_sender_update) a s) \<and>
      set (get_all_by_address (memory_addr_act mt_by_sender mt_by_sender_update) a s) = mem_snds s a"
    using idx_get [OF i, of a] by (simp add: addr_act_simps idx_of_def)
  show "\<exists>t. addr_clear (memory_addr_act mt_by_sender mt_by_sender_update) s = (Ok (), t) \<and>
      mem_ok t \<and> mem_snds t = (\<lambda>_. {}) \<and>
      (mem_ops t, mem_ents t, mem_codes t) = (mem_ops s, mem_ents s, mem_codes s)"
    using \<open>mem_ok s\<close> by (simp add: addr_act_simps hash_map_clear_def)
qed

interpretation mem_be: addr_index "memory_addr_act mt_by_entity mt_by_entity_update" mem_ok mem_ents
  "\<lambda>s. (mem_ops s, mem_snds s, mem_codes s)"
proof
  fix s a h
  assume "mem_ok s"
  then have i: "idx_ok (mt_by_entity s)" by (simp add: mem_ok_def)
  show "\<exists>t. addr_add (memory_addr_act mt_by_entity mt_by_entity_update) a h s = (Ok (), t) \<and>
      mem_ok t \<and> mem_ents t = (mem_ents s)(a := insert h (mem_ents s a)) \<and>
      (mem_ops t, mem_snds t, mem_codes t) = (mem_ops s, mem_snds s, mem_codes s)"
    using idx_add [OF i, of a h] \<open>mem_ok s\<close> by (auto simp: addr_act_simps)
  show "\<exists>b t. addr_remove_uo_hash (memory_addr_act mt_by_entity mt_by_entity_update) a h s = (Ok b, t) \<and>
      mem_ok t \<and> mem_ents t = (mem_ents s)(a := mem_ents s a - {h}) \<and>
      (mem_ops t, mem_snds t, mem_codes t) = (mem_ops s, mem_snds s, mem_codes s)"
    using idx_remove [OF i, of a h] \<open>mem_ok s\<close> by (auto simp: addr_act_simps)
  show "distinct (get_all_by_address (memory_addr_act mt_by_entity mt_by_entity_update) a s) \<and>
      set (get_all_by_address (memory_addr_act mt_by_entity mt_by_entity_update) a s) = mem_ents s a"
    using idx_get [OF i, of a] by (simp add: addr_act_simps idx_of_def)
  show "\<exists>t. addr_clear (memory_addr_act mt_by_entity mt_by_entity_update) s = (Ok (), t) \<and>
      mem_ok t \<and> mem_ents t = (\<lambda>_. {}) \<and>
      (mem_ops t, mem_snds t, mem_codes t) = (mem_ops s, mem_snds s, mem_codes s)"
    using \<open>mem_ok s\<close> by (simp add: addr_act_simps hash_map_clear_def)
qed

interpretation mem_cs: code_store memory_code_hashes mem_ok mem_codes
  "\<lambda>s. (mem_ops s, mem_snds s, mem_ents s)"
  by unfold_locales
    (auto simp: memory_code_hashes_def locked_def hash_map_has_code_hashes_def
      hash_map_set_code_hashes_def hash_map_get_code_hashes_def hash_map_remove_code_hashes_def
      hash_map_clear_def mem_defs split: option.splits)

interpretation mem: mempool_contract memory_mempool mem_ok mem_ops mem_snds mem_ents mem_codes
  unfolding memory_mempool_def mempool_contract_def growing_pool_def
  using mem_us.uo_store_axioms mem_bs.addr_index_axioms mem_be.addr_index_axioms
    mem_be.growing_index_axioms mem_cs.code_store_axioms mem_cs.growing_codes_axioms
  by simp

lemmas mem_refinements = mem.add_refines [folded mem_consistent_def]
  mem.remove_total [folded mem_consistent_def] mem.remove_by_entity_refines [folded mem_consistent_def]
  mem.set_code_hashes_refines [folded mem_consistent_def] mem.clear_refines [folded mem_consistent_def]

lemmas mem_queries = mem.get_all_by_sender_refines [folded mem_consistent_def]
  mem.number_by_sender_refines [folded mem_consistent_def]
  mem.number_by_entity_refines [folded mem_consistent_def]
  mem.number_zero_refines [folded mem_consistent_def]
  mem.get_prev_by_sender_refines [folded mem_consistent_def]

lemma mem_consistent_ok: "mem_consistent s \<Longrightarrow> mem_ok s"
  by (simp add: mem_consistent_def consistent_def)

lemma empty_tables_consistent [simp]:
  "mem_consistent empty_tables" "mem_ops empty_tables = Map.empty" "mem_codes empty_tables = Map.empty"
  by (simp_all add: mem_consistent_def consistent_def mem_defs empty_tables_def)

section \<open>The pool as a state machine\<close>

text \<open>
  The writes of the pool, as the steps between the states of its tables, with the operations that a
  step hands to the pool. A reachable state comes with all the operations added on the way.
\<close>

inductive pool_step :: "memory_tables \<Rightarrow> user_operation list \<Rightarrow> memory_tables \<Rightarrow> bool" where
  step_add: "mempool_add memory_mempool uo s = (r, t) \<Longrightarrow> pool_step s [uo] t"
| step_remove: "mempool_remove memory_mempool h s = (r, t) \<Longrightarrow> pool_step s [] t"
| step_remove_by_entity: "mempool_remove_by_entity memory_mempool a s = (r, t) \<Longrightarrow> pool_step s [] t"
| step_set_code_hashes: "mempool_set_code_hashes memory_mempool h hs s = (r, t) \<Longrightarrow> pool_step s [] t"
| step_clear: "mempool_clear memory_mempool s = (r, t) \<Longrightarrow> pool_step s [] t"

inductive pool_reachable :: "user_operation list \<Rightarrow> memory_tables \<Rightarrow> bool" where
  reach_empty: "pool_reachable [] empty_tables"
| reach_step: "pool_reachable us s \<Longrightarrow> pool_step s vs t \<Longrightarrow> pool_reachable (vs @ us) t"

inductive_cases pool_stepE: "pool_step s vs t"

text \<open>No two of the operations have the same hash and different sender, factory or paymaster.\<close>

definition hashes_determine :: "user_operation list \<Rightarrow> bool" where
  "hashes_determine us =
     list_all (\<lambda>u. list_all (\<lambda>v. hash u = hash v \<longrightarrow>
       get_entities (user_operation u) = get_entities (user_operation v)) us) us"

lemma hashes_determine_append: "hashes_determine (vs @ us) \<Longrightarrow> hashes_determine us"
  by (simp add: hashes_determine_def list_all_iff)

text \<open>What the tables hold was added.\<close>

definition held_were_added :: "user_operation list \<Rightarrow> memory_tables \<Rightarrow> bool" where
  "held_were_added us s = (\<forall>h uo. mem_ops s h = Some uo \<longrightarrow> \<lparr>hash = h, user_operation = uo\<rparr> \<in> set us)"

lemma added_same_entities:
  assumes "held_were_added us s" "hashes_determine (uo # us)"
  shows "same_entities (mem_ops s) uo"
proof (cases "mem_ops s (hash uo)")
  case (Some old)
  then have "\<lparr>hash = hash uo, user_operation = old\<rparr> \<in> set us" using assms(1) by (simp add: held_were_added_def)
  with assms(2) Some show ?thesis by (fastforce simp: hashes_determine_def list_all_iff same_entities_def)
qed (simp add: same_entities_def)

lemma held_were_added_mono:
  "held_were_added us s \<Longrightarrow> mem_ops t \<subseteq>\<^sub>m mem_ops s \<Longrightarrow> held_were_added us t"
  unfolding held_were_added_def map_le_def by (metis domI)

lemma pool_step_consistent:
  assumes "pool_step s vs t" "mem_consistent s" "held_were_added us s" "hashes_determine (vs @ us)"
  shows "mem_consistent t \<and> held_were_added (vs @ us) t"
  using assms(1)
proof (cases rule: pool_step.cases)
  case (step_add uo r)
  have "same_entities (mem_ops s) uo" using added_same_entities assms(3,4) step_add(1) by simp
  from mem_refinements(1) [OF assms(2) this] step_add(2) have "mem_consistent t"
      "mem_ops t = (mem_ops s)(hash uo \<mapsto> user_operation uo)" by auto
  then show ?thesis using assms(3) step_add(1) by (auto simp: held_were_added_def)
next
  case (step_remove h r)
  then show ?thesis
    using mem_refinements(2) [OF assms(2), of h] held_were_added_mono [OF assms(3), of t] by (auto simp: map_le_def)
next
  case (step_remove_by_entity a r)
  then have t: "mem_consistent t"
      "mem_ops t = mem_ops s |` {h. \<forall>uo. mem_ops s h = Some uo \<longrightarrow> a \<notin> entities_of uo}"
    using mem_refinements(3) [OF assms(2), of a] by auto
  have "mem_ops t \<subseteq>\<^sub>m mem_ops s" unfolding t(2) map_le_def by (auto simp: restrict_map_def split: if_splits)
  then show ?thesis using t(1) held_were_added_mono [OF assms(3)] step_remove_by_entity(1) by simp
next
  case (step_set_code_hashes h hs r)
  then show ?thesis
    using mem_refinements(4) [OF assms(2), of h hs] held_were_added_mono [OF assms(3), of t] by auto
next
  case (step_clear r)
  then show ?thesis
    using mem_refinements(5) [OF mem_consistent_ok [OF assms(2)]] held_were_added_mono [OF assms(3), of t] by auto
qed

section \<open>Properties of the pool\<close>

text \<open>C1: The indices of the pool in memory are exact. In every state the pool in memory can reach from
  its empty tables by adding, removing (by hash or by entity), recording code hashes and clearing, the
  tables are well formed and the sender and entity indices list exactly the pooled operations with
  that sender, respectively with that factory or paymaster. This holds as long as no two of the
  operations that were added have the same hash and different sender, factory or paymaster, which
  would be a collision of the hash function. (The pool in the database does not keep its index of
  entities exact.)\<close>

theorem pool_index_invariant:
  assumes "pool_reachable us s" "hashes_determine us"
  shows "mem_consistent s"
proof -
  have "mem_consistent s \<and> held_were_added us s"
    using assms
  proof (induction rule: pool_reachable.induct)
    case reach_empty
    then show ?case by (simp add: held_were_added_def)
  next
    case (reach_step us s vs t)
    then show ?case using pool_step_consistent hashes_determine_append by blast
  qed
  then show ?thesis by blast
qed

lemma sample_add:
  "mempool_add memory_mempool sample_uo empty_tables = (Ok 42, \<lparr>
     mt_user_operations = [(42, sample_signed)], mt_by_sender = [(7, [42])],
     mt_by_entity = [(0x0101010101010101010101010101010101010101, [42]), (0x0202020202020202020202020202020202020202, [42])],
     mt_code_hashes = []\<rparr>)"
  by (simp add: mempool_add_def memory_mempool_def memory_user_operations_def memory_addr_act_def
      empty_tables_def locked_def hash_map_add_def hash_map_add_uo_hash_def hm_insert_def hm_get_def
      hs_insert_def bind_op_def)

text \<open>Two operations are added, one under a hash that is taken, and one is removed.\<close>

definition sample_repriced :: user_operation where
  "sample_repriced = \<lparr>hash = 42, user_operation = sample_signed\<lparr>max_fee_per_gas := 110\<rparr>\<rparr>"

definition sample_second :: user_operation where
  "sample_second = \<lparr>hash = 43, user_operation = sample_signed\<lparr>nonce := 2\<rparr>\<rparr>"

definition sample_tables :: memory_tables where
  "sample_tables = snd (mempool_set_code_hashes memory_mempool 42 [\<lparr>ch_address = 7, ch_hash = 8\<rparr>]
     (snd (mempool_add memory_mempool sample_second (snd (mempool_add memory_mempool sample_repriced
     (snd (mempool_add memory_mempool sample_uo empty_tables)))))))"

lemma sample_tables_reachable: "pool_reachable [sample_second, sample_repriced, sample_uo] sample_tables"
proof -
  have "pool_reachable ([] @ [sample_second] @ [sample_repriced] @ [sample_uo] @ []) sample_tables"
    unfolding sample_tables_def
    by (intro reach_step [OF _ step_set_code_hashes [OF prod.collapse [symmetric]]]
        reach_step [OF _ step_add [OF prod.collapse [symmetric]]] reach_empty)
  then show ?thesis by simp
qed

lemma sample_determine: "hashes_determine [sample_second, sample_repriced, sample_uo]"
  by (simp add: hashes_determine_def sample_second_def sample_repriced_def sample_uo_def get_entities_def)

lemma sample_tables_hold:
  "mem_consistent sample_tables" "mem_ops sample_tables = [42 \<mapsto> user_operation sample_repriced, 43 \<mapsto> user_operation sample_second]"
  "mem_codes sample_tables = [42 \<mapsto> [\<lparr>ch_address = 7, ch_hash = 8\<rparr>]]"
proof -
  obtain s1 where 1: "mempool_add memory_mempool sample_uo empty_tables = (Ok 42, s1)" "mem_consistent s1"
      "mem_ops s1 = [42 \<mapsto> sample_signed]" "mem_codes s1 = Map.empty"
    using mem_refinements(1) [of empty_tables sample_uo] by (auto simp: same_entities_def)
  obtain s2 where 2: "mempool_add memory_mempool sample_repriced s1 = (Ok 42, s2)" "mem_consistent s2"
      "mem_ops s2 = [42 \<mapsto> user_operation sample_repriced]" "mem_codes s2 = Map.empty"
    using mem_refinements(1) [OF 1(2), of sample_repriced] 1(3,4)
    by (auto simp: same_entities_def sample_repriced_def get_entities_def)
  obtain s3 where 3: "mempool_add memory_mempool sample_second s2 = (Ok 43, s3)" "mem_consistent s3"
      "mem_ops s3 = [42 \<mapsto> user_operation sample_repriced, 43 \<mapsto> user_operation sample_second]" "mem_codes s3 = Map.empty"
    using mem_refinements(1) [OF 2(2), of sample_second] 2(3,4)
    by (auto simp: same_entities_def sample_second_def)
  obtain s4 where "mempool_set_code_hashes memory_mempool 42 [\<lparr>ch_address = 7, ch_hash = 8\<rparr>] s3 = (Ok (), s4)"
      "mem_consistent s4" "mem_ops s4 = mem_ops s3" "mem_codes s4 = (mem_codes s3)(42 \<mapsto> [\<lparr>ch_address = 7, ch_hash = 8\<rparr>])"
    using mem_refinements(4) [OF 3(2), of 42 "[\<lparr>ch_address = 7, ch_hash = 8\<rparr>]"] by auto
  then show "mem_consistent sample_tables"
    "mem_ops sample_tables = [42 \<mapsto> user_operation sample_repriced, 43 \<mapsto> user_operation sample_second]"
    "mem_codes sample_tables = [42 \<mapsto> [\<lparr>ch_address = 7, ch_hash = 8\<rparr>]]"
    using 1(1) 2(1) 3 by (simp_all add: sample_tables_def)
qed

theorem pool_index_invariant_witness:
  "pool_reachable [sample_second, sample_repriced, sample_uo] sample_tables \<and> mem_consistent sample_tables \<and>
   dom (mem_ops sample_tables) = {42, 43}"
  using pool_index_invariant [OF sample_tables_reachable sample_determine] sample_tables_reachable
  by (auto simp: sample_tables_hold(2))

text \<open>Adding an operation to a consistent pool succeeds with the hash of the operation, leaves the
  pool consistent, and changes what the pool holds exactly by mapping that hash to the operation;
  the recorded code hashes stay.\<close>

theorem pool_add_refines:
  assumes "mem_consistent s" and "same_entities (mem_ops s) uo"
  shows "\<exists>t. mempool_add memory_mempool uo s = (Ok (hash uo), t) \<and> mem_consistent t \<and>
    mem_ops t = (mem_ops s)(hash uo \<mapsto> user_operation uo) \<and> mem_codes t = mem_codes s"
  by (rule mem_refinements(1) [OF assms])

theorem pool_add_refines_witness:
  "mem_consistent empty_tables \<and> same_entities (mem_ops empty_tables) sample_uo \<and>
   (\<exists>t. mempool_add memory_mempool sample_uo empty_tables = (Ok 42, t) \<and> mem_consistent t \<and>
      mem_ops t = [42 \<mapsto> sample_signed])"
  using pool_add_refines [of empty_tables sample_uo] by (auto simp: same_entities_def)

text \<open>Removing by hash from a pool in memory whose indices are exact never fails: it reports whether
  the hash was pooled, and afterwards the indices are exact again and the pool holds exactly the other
  operations; the code hashes of a removed operation are gone.\<close>

theorem pool_remove_refines:
  assumes "mem_consistent s"
  shows "\<exists>t. mempool_remove memory_mempool h s = (Ok (h \<in> dom (mem_ops s)), t) \<and> mem_consistent t \<and>
    mem_ops t = (mem_ops s)(h := None) \<and>
    mem_codes t = (if h \<in> dom (mem_ops s) then (mem_codes s)(h := None) else mem_codes s)"
  by (rule mem_refinements(2) [OF assms])

theorem pool_remove_refines_witness:
  "mem_ops sample_tables = [42 \<mapsto> user_operation sample_repriced, 43 \<mapsto> user_operation sample_second] \<and>
   (\<exists>t. mempool_remove memory_mempool 42 sample_tables = (Ok True, t) \<and> mem_consistent t \<and>
     mem_ops t = [43 \<mapsto> user_operation sample_second] \<and> mem_codes t = Map.empty)"
  using pool_remove_refines [OF sample_tables_hold(1), of 42] sample_tables_hold(2,3)
  by (auto simp: fun_eq_iff)

text \<open>Adding an operation under a fresh hash and then removing it gives back a consistent pool
  that holds exactly what it held before.\<close>

theorem pool_add_remove_roundtrip:
  assumes "mem_consistent s" and "mem_ops s (hash uo) = None"
  shows "\<exists>t u. mempool_add memory_mempool uo s = (Ok (hash uo), t) \<and>
    mempool_remove memory_mempool (hash uo) t = (Ok True, u) \<and>
    mem_consistent u \<and> mem_ops u = mem_ops s"
proof -
  have "same_entities (mem_ops s) uo" using assms(2) by (simp add: same_entities_def)
  then obtain t where t: "mempool_add memory_mempool uo s = (Ok (hash uo), t)" "mem_consistent t"
      "mem_ops t = (mem_ops s)(hash uo \<mapsto> user_operation uo)"
    using mem_refinements(1) [OF assms(1)] by blast
  obtain u where u: "mempool_remove memory_mempool (hash uo) t = (Ok (hash uo \<in> dom (mem_ops t)), u)"
      "mem_consistent u" "mem_ops u = (mem_ops t)(hash uo := None)"
    using mem_refinements(2) [OF t(2)] by blast
  moreover have "mem_ops u = mem_ops s"
    using assms(2) by (auto simp: u(3) t(3) fun_eq_iff)
  ultimately show ?thesis using t(1,3) by auto
qed

theorem pool_add_remove_roundtrip_witness:
  "mem_consistent empty_tables \<and> mem_ops empty_tables (hash sample_uo) = None \<and>
   (\<exists>t u. mempool_add memory_mempool sample_uo empty_tables = (Ok 42, t) \<and>
      mempool_remove memory_mempool 42 t = (Ok True, u) \<and> mem_ops u = Map.empty)"
  using pool_add_remove_roundtrip [of empty_tables sample_uo] by auto

text \<open>Removing by entity removes exactly the operations that have the address as factory or
  paymaster, and keeps the pool consistent.\<close>

theorem pool_remove_by_entity_exact:
  assumes "mem_consistent s"
  shows "\<exists>t. mempool_remove_by_entity memory_mempool a s = (Ok (), t) \<and> mem_consistent t \<and>
    mem_ops t = mem_ops s |` {h. \<forall>uo. mem_ops s h = Some uo \<longrightarrow> a \<notin> entities_of uo}"
  by (rule mem_refinements(3) [OF assms])

theorem pool_remove_by_entity_exact_witness:
  "mem_consistent (snd (mempool_add memory_mempool sample_uo empty_tables)) \<and>
   (\<exists>t. mempool_remove_by_entity memory_mempool 0x0101010101010101010101010101010101010101
       (snd (mempool_add memory_mempool sample_uo empty_tables)) = (Ok (), t) \<and>
     mem_ops t = Map.empty)"
proof -
  obtain s where s: "mempool_add memory_mempool sample_uo empty_tables = (Ok 42, s)"
      "mem_consistent s" "mem_ops s = [42 \<mapsto> sample_signed]"
    using mem_refinements(1) [of empty_tables sample_uo] by (auto simp: same_entities_def)
  have "[42 \<mapsto> sample_signed] |` {h. \<forall>uo. [42 \<mapsto> sample_signed] h = Some uo \<longrightarrow>
      0x0101010101010101010101010101010101010101 \<notin> entities_of uo} = Map.empty"
    by (auto simp: restrict_map_def fun_eq_iff)
  with pool_remove_by_entity_exact [OF s(2), of "0x0101010101010101010101010101010101010101"]
  show ?thesis using s by (auto simp: fun_upd_def)
qed

text \<open>In a consistent pool the listing by sender has no repetition and is exactly the set of pooled
  operations of that sender, and the counts by sender and by entity are the numbers of pooled
  operations filed under the address.\<close>

theorem pool_queries_exact:
  assumes "mem_consistent s"
  shows "distinct (map hash (get_all_by_sender memory_mempool a s)) \<and>
    set (get_all_by_sender memory_mempool a s) =
      {uo. mem_ops s (hash uo) = Some (user_operation uo) \<and> sender (user_operation uo) = a} \<and>
    get_number_by_sender memory_mempool a s =
      card {h. \<exists>uo. mem_ops s h = Some uo \<and> sender uo = a} \<and>
    get_number_by_entity memory_mempool a s =
      card {h. \<exists>uo. mem_ops s h = Some uo \<and> a \<in> entities_of uo}"
  using mem.get_all_by_sender_refines mem.number_by_sender_refines mem.number_by_entity_refines assms
  unfolding mem_consistent_def sender_index_def entity_index_def by auto

theorem pool_queries_exact_witness:
  "mem_consistent empty_tables \<and> get_all_by_sender memory_mempool 7 empty_tables = []"
  using pool_queries_exact [of empty_tables 7] by auto

text \<open>The operation a replacement is compared with: in a consistent pool \<open>get_prev_by_sender\<close> finds
  nothing exactly when no pooled operation has the same sender and nonce, and otherwise finds one of
  those with the greatest priority fee.\<close>

theorem pool_get_prev_by_sender:
  assumes "mem_consistent s"
  shows "case get_prev_by_sender memory_mempool uo s of
      None \<Rightarrow> \<forall>p. \<not> same_slot (mem_ops s) uo p
    | Some p \<Rightarrow> same_slot (mem_ops s) uo p \<and> (\<forall>q. same_slot (mem_ops s) uo q \<longrightarrow>
        max_priority_fee_per_gas (user_operation q) \<le> max_priority_fee_per_gas (user_operation p))"
  using mem.get_prev_by_sender_refines assms unfolding mem_consistent_def .

theorem pool_get_prev_by_sender_witness:
  "mem_consistent (snd (mempool_add memory_mempool sample_uo empty_tables)) \<and>
   get_prev_by_sender memory_mempool sample_uo
     (snd (mempool_add memory_mempool sample_uo empty_tables)) = Some sample_uo"
proof -
  obtain s where s: "mempool_add memory_mempool sample_uo empty_tables = (Ok 42, s)"
      "mem_consistent s" "mem_ops s = [42 \<mapsto> sample_signed]"
    using mem_refinements(1) [of empty_tables sample_uo] by (auto simp: same_entities_def)
  have "same_slot (mem_ops s) sample_uo p \<longleftrightarrow> p = sample_uo" for p
    by (cases p) (auto simp: same_slot_def s(3) sample_uo_def)
  then have "get_prev_by_sender memory_mempool sample_uo s = Some sample_uo"
    using pool_get_prev_by_sender [OF s(2), of sample_uo] by (auto split: option.splits)
  with s show ?thesis by simp
qed

text \<open>\<open>get_sorted\<close> lists every pooled operation exactly once, ordered by decreasing priority fee
  and, among equal fees, by increasing nonce.\<close>

theorem pool_get_sorted:
  assumes "mem_consistent s"
  shows "\<exists>xs. mempool_get_sorted memory_mempool s = Ok xs \<and> distinct (map hash xs) \<and>
    set xs = {uo. mem_ops s (hash uo) = Some (user_operation uo)} \<and>
    sorted_wrt (\<lambda>a b.
      max_priority_fee_per_gas (user_operation b) < max_priority_fee_per_gas (user_operation a) \<or>
      max_priority_fee_per_gas (user_operation a) = max_priority_fee_per_gas (user_operation b) \<and>
      nonce (user_operation a) \<le> nonce (user_operation b)) xs"
  using mem_us.sorted_law [OF mem_consistent_ok [OF assms]]
  by (simp add: mempool_get_sorted_def memory_mempool_def cmp_priority_iff)

theorem pool_get_sorted_witness:
  "mem_consistent empty_tables \<and> mempool_get_sorted memory_mempool empty_tables = Ok []"
  using pool_get_sorted [of empty_tables] by auto

end
