(* ===== verification/Reputation_Model.thy ===== *)
theory Reputation_Model
  imports Memory_Store
begin

text \<open>
  The reputation registry of the mempool crate (\<open>reputation.rs\<close>) over the trait object that holds
  its entries, with the in-memory implementation (\<open>memory/reputation.rs\<close>): counting seen and
  included operations, the status derived from the counters, the hourly decay, the lists and the
  stake check.
\<close>

section \<open>The entries\<close>

text \<open>\<open>get_all\<close> returns a list without a result; its outcome is that list, or a panic on the way.\<close>

record 's reputation_entry_op =
  get_entry :: "address \<Rightarrow> 's \<Rightarrow> (reputation_error, reputation_entry option) outcome"
  set_entry :: "reputation_entry \<Rightarrow> ('s, reputation_error, reputation_entry option) op"
  contains_entry :: "address \<Rightarrow> 's \<Rightarrow> (reputation_error, bool) outcome"
  entries_get_all :: "'s \<Rightarrow> (reputation_error, reputation_entry list) outcome"
  entries_clear :: "('s, reputation_error, unit) op"

text \<open>The default method \<open>update\<close> of the trait: the product wraps at 64 bits.\<close>

definition decay :: "reputation_entry \<Rightarrow> reputation_entry" where
  "decay ent = ent\<lparr>uo_seen := uo_seen ent * 23 div 24, uo_included := uo_included ent * 23 div 24\<rparr>"

definition entries_update :: "'s reputation_entry_op \<Rightarrow> ('s, reputation_error, unit) op" where
  "entries_update A =
     bind_op (query (entries_get_all A)) (\<lambda>ents.
     for_each (\<lambda>ent. bind_op (set_entry A (decay ent)) (\<lambda>_. ret ())) ents)"

section \<open>The registry\<close>

record 's reputation =
  min_inclusion_denominator :: u64
  throttling_slack :: u64
  ban_slack :: u64
  rep_min_stake :: U256
  rep_min_unstake_delay :: U256
  whitelist :: "address hash_set"
  blacklist :: "address hash_set"
  entities :: 's

text \<open>The methods of the entries act on the registry through its field \<open>entities\<close>.\<close>

definition on_entities :: "('s, 'e, 'a) op \<Rightarrow> ('s reputation, 'e, 'a) op" where
  "on_entities f R = (case f (entities R) of (r, t) \<Rightarrow> (r, R\<lparr>entities := t\<rparr>))"

definition add_into_list :: "address \<Rightarrow> address hash_set \<Rightarrow> bool \<times> address hash_set" where
  "add_into_list a l = hs_insert a l"

definition remove_from_list :: "address \<Rightarrow> address hash_set \<Rightarrow> bool \<times> address hash_set" where
  "remove_from_list a l = hs_remove a l"

definition is_in_list :: "address hash_set \<Rightarrow> address \<Rightarrow> bool" where
  "is_in_list l a = (a \<in> set l)"

definition set_default :: "'s reputation_entry_op \<Rightarrow> address \<Rightarrow> ('s, reputation_error, unit) op" where
  "set_default A a =
     bind_op (query (contains_entry A a)) (\<lambda>found.
       if \<not> found then bind_op (set_entry A (default_with_addr a)) (\<lambda>_. ret ()) else ret ())"

definition modify_entry ::
  "'s reputation_entry_op \<Rightarrow> (reputation_entry \<Rightarrow> reputation_entry) \<Rightarrow> address \<Rightarrow>
   ('s, reputation_error, unit) op" where
  "modify_entry A f a =
     bind_op (set_default A a) (\<lambda>_.
     bind_op (query (get_entry A a)) (\<lambda>found. case found of
         Some ent \<Rightarrow> bind_op (set_entry A (f ent)) (\<lambda>_. ret ())
       | None \<Rightarrow> ret ()))"

definition increment_seen ::
  "'s reputation_entry_op \<Rightarrow> address \<Rightarrow> ('s reputation, reputation_error, unit) op" where
  "increment_seen A a =
     on_entities (modify_entry A (\<lambda>ent. ent\<lparr>uo_seen := uo_seen ent + 1\<rparr>) a)"

definition increment_included ::
  "'s reputation_entry_op \<Rightarrow> address \<Rightarrow> ('s reputation, reputation_error, unit) op" where
  "increment_included A a =
     on_entities (modify_entry A (\<lambda>ent. ent\<lparr>uo_included := uo_included ent + 1\<rparr>) a)"

definition update_handle_ops_reverted ::
  "'s reputation_entry_op \<Rightarrow> address \<Rightarrow> ('s reputation, reputation_error, unit) op" where
  "update_handle_ops_reverted A a =
     on_entities (modify_entry A (\<lambda>ent. ent\<lparr>uo_seen := 100, uo_included := 0\<rparr>) a)"

definition update_hourly :: "'s reputation_entry_op \<Rightarrow> ('s reputation, reputation_error, unit) op"
  where
  "update_hourly A = on_entities (entries_update A)"

definition add_whitelist :: "address \<Rightarrow> 's reputation \<Rightarrow> bool \<times> 's reputation" where
  "add_whitelist a R = (case add_into_list a (whitelist R) of (b, l) \<Rightarrow> (b, R\<lparr>whitelist := l\<rparr>))"

definition remove_whitelist :: "address \<Rightarrow> 's reputation \<Rightarrow> bool \<times> 's reputation" where
  "remove_whitelist a R =
     (case remove_from_list a (whitelist R) of (b, l) \<Rightarrow> (b, R\<lparr>whitelist := l\<rparr>))"

definition is_whitelist :: "'s reputation \<Rightarrow> address \<Rightarrow> bool" where
  "is_whitelist R a = is_in_list (whitelist R) a"

definition add_blacklist :: "address \<Rightarrow> 's reputation \<Rightarrow> bool \<times> 's reputation" where
  "add_blacklist a R = (case add_into_list a (blacklist R) of (b, l) \<Rightarrow> (b, R\<lparr>blacklist := l\<rparr>))"

definition remove_blacklist :: "address \<Rightarrow> 's reputation \<Rightarrow> bool \<times> 's reputation" where
  "remove_blacklist a R =
     (case remove_from_list a (blacklist R) of (b, l) \<Rightarrow> (b, R\<lparr>blacklist := l\<rparr>))"

definition is_blacklist :: "'s reputation \<Rightarrow> address \<Rightarrow> bool" where
  "is_blacklist R a = is_in_list (blacklist R) a"

text \<open>The status from the counters: a zero denominator panics, the sums wrap at 64 bits.\<close>

definition status_of_entry ::
  "'s reputation \<Rightarrow> reputation_entry \<Rightarrow> (reputation_error, reputation_status) outcome" where
  "status_of_entry R ent =
     (if min_inclusion_denominator R = 0 then Panic
      else
        let max_seen = uo_seen ent div min_inclusion_denominator R in
        if max_seen > uo_included ent + ban_slack R then Ok (status_to_u64 BANNED)
        else if max_seen > uo_included ent + throttling_slack R then Ok (status_to_u64 THROTTLED)
        else Ok (status_to_u64 OK))"

definition get_status ::
  "'s reputation_entry_op \<Rightarrow> address \<Rightarrow> 's reputation \<Rightarrow>
   (reputation_error, reputation_status) outcome" where
  "get_status A a R =
     (if is_in_list (whitelist R) a then Ok (status_to_u64 OK)
      else if is_in_list (blacklist R) a then Ok (status_to_u64 BANNED)
      else
        bind_ok (get_entry A a (entities R)) (\<lambda>found. case found of
            Some ent \<Rightarrow> status_of_entry R ent
          | None \<Rightarrow> Ok (status_to_u64 OK)))"

definition reputation_get ::
  "'s reputation_entry_op \<Rightarrow> address \<Rightarrow> 's reputation \<Rightarrow>
   (reputation_error, reputation_entry) outcome" where
  "reputation_get A a R =
     bind_ok (get_entry A a (entities R)) (\<lambda>found. case found of
         Some ent \<Rightarrow> bind_ok (get_status A a R) (\<lambda>st. Ok (ent\<lparr>re_status := st\<rparr>))
       | None \<Rightarrow> Ok (default_with_addr a))"

definition get_status_from_bytes ::
  "'s reputation_entry_op \<Rightarrow> bytes \<Rightarrow> 's reputation \<Rightarrow>
   (reputation_error, reputation_status) outcome" where
  "get_status_from_bytes A bs R =
     (case get_address bs of
        Some a \<Rightarrow> get_status A a R
      | None \<Rightarrow> Ok (status_to_u64 OK))"

definition verify_stake ::
  "'s reputation \<Rightarrow> string \<Rightarrow> stake_info option \<Rightarrow> U256 option \<Rightarrow> U256 option \<Rightarrow>
   (reputation_error, unit) outcome" where
  "verify_stake R ent info min_stake min_unstake_delay =
     (case info of
        Some info \<Rightarrow>
          if is_in_list (whitelist R) (si_address info) then Ok ()
          else
            let min_stake = (case min_stake of Some m \<Rightarrow> m | None \<Rightarrow> rep_min_stake R);
                _ = (case min_unstake_delay of Some m \<Rightarrow> m | None \<Rightarrow> rep_min_unstake_delay R)
            in
            if stake info < min_stake then
              Err (StakeTooLow ent (si_address info) (stake info) (rep_min_stake R))
            else if unstake_delay info < 2 then
              Err (UnstakeDelayTooLow (si_address info) ent (unstake_delay info)
                    (rep_min_unstake_delay R))
            else Ok ()
      | None \<Rightarrow> Ok ())"

definition set_entities ::
  "'s reputation_entry_op \<Rightarrow> reputation_entry list \<Rightarrow> ('s reputation, reputation_error, unit) op"
  where
  "set_entities A ents =
     on_entities (for_each (\<lambda>en. bind_op (set_entry A en) (\<lambda>_. ret ())) ents)"

text \<open>Entries whose status cannot be read are skipped (\<open>flat_map\<close>); a panic unwinds.\<close>

fun collect_status ::
  "'s reputation_entry_op \<Rightarrow> 's reputation \<Rightarrow> reputation_entry list \<Rightarrow>
   (reputation_error, reputation_entry list) outcome" where
  "collect_status A R [] = Ok []"
| "collect_status A R (en # ens) =
     (case get_status A (re_address en) R of
        Ok st \<Rightarrow> bind_ok (collect_status A R ens) (\<lambda>xs. Ok (en\<lparr>re_status := st\<rparr> # xs))
      | Err _ \<Rightarrow> collect_status A R ens
      | Panic \<Rightarrow> Panic)"

definition reputation_get_all ::
  "'s reputation_entry_op \<Rightarrow> 's reputation \<Rightarrow> (reputation_error, reputation_entry list) outcome"
  where
  "reputation_get_all A R = bind_ok (entries_get_all A (entities R)) (collect_status A R)"

definition reputation_clear ::
  "'s reputation_entry_op \<Rightarrow> ('s reputation, reputation_error, unit) op" where
  "reputation_clear A = on_entities (entries_clear A)"

section \<open>The in-memory entries\<close>

type_synonym memory_entries = "(address, reputation_entry) hash_map"

definition memory_entries_op :: "memory_entries reputation_entry_op" where
  "memory_entries_op = \<lparr>
     get_entry = (\<lambda>a m. Ok (hm_get m a)),
     set_entry = (\<lambda>en m. (Ok (hm_get m (re_address en)), hm_insert (re_address en) en m)),
     contains_entry = (\<lambda>a m. Ok (hm_contains m a)),
     entries_get_all = (\<lambda>m. Ok (map snd m)),
     entries_clear = (\<lambda>m. (Ok (), []))\<rparr>"

section \<open>What the registry relies on\<close>

text \<open>What an entry reads as before it is changed: missing entries start from the default.\<close>

definition entry_or_default :: "(address \<Rightarrow> reputation_entry option) \<Rightarrow> address \<Rightarrow> reputation_entry" where
  "entry_or_default m a = (case m a of Some en \<Rightarrow> en | None \<Rightarrow> default_with_addr a)"

locale entry_store =
  fixes A :: "'s reputation_entry_op"
    and ok :: "'s \<Rightarrow> bool"
    and ents :: "'s \<Rightarrow> address \<Rightarrow> reputation_entry option"
  assumes get_law: "ok s \<Longrightarrow> get_entry A a s = Ok (ents s a)"
    and set_law: "ok s \<Longrightarrow> \<exists>t. set_entry A en s = (Ok (ents s (re_address en)), t) \<and> ok t \<and>
      ents t = (ents s)(re_address en \<mapsto> en)"
    and contains_law: "ok s \<Longrightarrow> contains_entry A a s = Ok (a \<in> dom (ents s))"
    and all_law: "ok s \<Longrightarrow> \<exists>xs. entries_get_all A s = Ok xs \<and> distinct (map re_address xs) \<and>
      set xs = ran (ents s)"
    and key_law: "ok s \<Longrightarrow> ents s a = Some en \<Longrightarrow> re_address en = a"
    and clear_law: "ok s \<Longrightarrow> \<exists>t. entries_clear A s = (Ok (), t) \<and> ok t \<and> ents t = Map.empty"
begin

lemma modify_entry_refines:
  assumes "ok s" and keeps: "\<And>en. re_address (f en) = re_address en"
  shows "\<exists>t. modify_entry A f a s = (Ok (), t) \<and> ok t \<and>
    ents t = (ents s)(a \<mapsto> f (entry_or_default (ents s) a))"
proof -
  define old where old: "old = entry_or_default (ents s) a"
  note old_def = old entry_or_default_def
  have "\<exists>t. set_default A a s = (Ok (), t) \<and> ok t \<and> ents t = (ents s)(a \<mapsto> old)"
  proof (cases "ents s a")
    case None
    obtain t where t: "set_entry A (default_with_addr a) s = (Ok (ents s a), t)" "ok t"
        "ents t = (ents s)(a \<mapsto> default_with_addr a)"
      using set_law [OF assms(1), of "default_with_addr a"] by (auto simp: default_with_addr_def)
    then have "set_default A a s = (Ok (), t)"
      using None contains_law [OF assms(1), of a]
      by (simp add: set_default_def outcome_simps domIff)
    with t None show ?thesis by (simp add: old_def)
  next
    case (Some en)
    then have "set_default A a s = (Ok (), s)"
      using contains_law [OF assms(1), of a] by (simp add: set_default_def outcome_simps domIff)
    moreover have "ents s = (ents s)(a \<mapsto> old)" using Some by (simp add: old_def fun_upd_idem)
    ultimately show ?thesis using assms(1) by simp
  qed
  then obtain t where t: "set_default A a s = (Ok (), t)" "ok t" "ents t = (ents s)(a \<mapsto> old)"
    by blast
  have "re_address old = a"
    using key_law [OF t(2), of a old] t(3) by simp
  then obtain u where u: "set_entry A (f old) t = (Ok (ents t a), u)" "ok u"
      "ents u = (ents t)(a \<mapsto> f old)"
    using set_law [OF t(2), of "f old"] by (auto simp: keeps)
  have "get_entry A a t = Ok (Some old)" using get_law [OF t(2), of a] t(3) by simp
  then have "modify_entry A f a s = (Ok (), u)"
    using t(1) u(1) by (simp add: modify_entry_def outcome_simps)
  then show ?thesis using u t(3) by (simp add: old)
qed

lemma set_all_refines:
  assumes "ok s"
  shows "\<exists>t. for_each (\<lambda>en. bind_op (set_entry A (f en)) (\<lambda>_. ret ())) xs s = (Ok (), t) \<and> ok t \<and>
    ents t = fold (\<lambda>en m. m(re_address (f en) \<mapsto> f en)) xs (ents s)"
proof (rule for_each_total [where P = ok
      and R = "\<lambda>en s t. ents t = (ents s)(re_address (f en) \<mapsto> f en)"
      and Q = "\<lambda>xs s t. ents t = fold (\<lambda>en m. m(re_address (f en) \<mapsto> f en)) xs (ents s)"])
  fix en s
  assume "ok s"
  then obtain t where "set_entry A (f en) s = (Ok (ents s (re_address (f en))), t)" "ok t"
      "ents t = (ents s)(re_address (f en) \<mapsto> f en)"
    using set_law by blast
  then show "\<exists>t. bind_op (set_entry A (f en)) (\<lambda>_. ret ()) s = (Ok (), t) \<and> ok t \<and>
      ents t = (ents s)(re_address (f en) \<mapsto> f en)"
    by (simp add: outcome_simps)
qed (use assms in auto)

lemma fold_update_entries:
  assumes "distinct (map re_address xs)" and "\<And>en. re_address (f en) = re_address en"
  shows "fold (\<lambda>en m. m(re_address (f en) \<mapsto> f en)) xs m a =
    (case find (\<lambda>en. re_address en = a) xs of Some en \<Rightarrow> Some (f en) | None \<Rightarrow> m a)"
  using assms
proof (induction xs arbitrary: m)
  case Nil
  then show ?case by simp
next
  case (Cons en xs)
  have "find (\<lambda>e. re_address e = a) xs = None" if "re_address en = a"
    using Cons.prems(1) that by (auto simp: find_None_iff image_iff)
  with Cons show ?case by auto
qed

lemma update_refines:
  assumes "ok s"
  shows "\<exists>t. entries_update A s = (Ok (), t) \<and> ok t \<and>
    ents t = (\<lambda>a. map_option decay (ents s a))"
proof -
  obtain xs where all: "entries_get_all A s = Ok xs" and xs: "distinct (map re_address xs)" "set xs = ran (ents s)"
    using all_law [OF assms] by blast
  have mem: "en \<in> set xs \<longleftrightarrow> ents s (re_address en) = Some en" for en
    using key_law [OF assms] unfolding xs(2) ran_def by force
  have find: "find (\<lambda>en. re_address en = a) xs = ents s a" for a
  proof (cases "ents s a")
    case None
    then show ?thesis using mem by (auto simp: find_None_iff)
  next
    case (Some en)
    then have "en \<in> set xs" "re_address en = a" using mem key_law [OF assms] by auto
    then obtain e where e: "find (\<lambda>en. re_address en = a) xs = Some e"
      by (cases "find (\<lambda>en. re_address en = a) xs") (auto simp: find_None_iff)
    then have "e \<in> set xs" "re_address e = a" by (auto simp: find_Some_iff)
    then show ?thesis using e Some mem by auto
  qed
  obtain t where t: "entries_update A s = (Ok (), t)" "ok t"
      "ents t = fold (\<lambda>en m. m(re_address (decay en) \<mapsto> decay en)) xs (ents s)"
    using set_all_refines [OF assms, of decay xs] by (auto simp: entries_update_def bind_op_def query_def all)
  have "ents t = (\<lambda>a. map_option decay (ents s a))"
    unfolding t(3) by (rule ext) (subst fold_update_entries, auto simp: xs(1) find decay_def split: option.splits)
  with t(1,2) show ?thesis by blast
qed

end

definition entries_ok :: "memory_entries \<Rightarrow> bool" where
  "entries_ok m = (hm_wf m \<and> list_all (\<lambda>e. re_address (snd e) = fst e) m)"

interpretation mem_ents: entry_store memory_entries_op entries_ok hm_get
proof
  fix s a en
  assume ok: "entries_ok s"
  then have wf: "hm_wf s" by (simp add: entries_ok_def)
  show "get_entry memory_entries_op a s = Ok (hm_get s a)"
    and "contains_entry memory_entries_op a s = Ok (a \<in> dom (hm_get s))"
    by (simp_all add: memory_entries_op_def)
  show "\<exists>t. set_entry memory_entries_op en s = (Ok (hm_get s (re_address en)), t) \<and> entries_ok t \<and>
      hm_get t = (hm_get s)(re_address en \<mapsto> en)"
    using ok by (simp add: memory_entries_op_def entries_ok_def list_all_hm_insert)
  have "map (re_address \<circ> snd) s = map fst s"
    using ok by (simp add: entries_ok_def list_all_iff)
  moreover have "set (map snd s) = ran (hm_get s)"
    using hm_get_Some_iff [OF wf] by (force simp: ran_def)
  ultimately show "\<exists>xs. entries_get_all memory_entries_op s = Ok xs \<and> distinct (map re_address xs) \<and>
      set xs = ran (hm_get s)"
    using wf by (simp add: memory_entries_op_def hm_wf_def del: map_eq_conv)
  show "re_address en = a" if "hm_get s a = Some en"
    using that ok hm_get_Some_iff [OF wf, of a en] by (auto simp: entries_ok_def list_all_iff)
  show "\<exists>t. entries_clear memory_entries_op s = (Ok (), t) \<and> entries_ok t \<and> hm_get t = Map.empty"
    by (simp add: memory_entries_op_def entries_ok_def)
qed

lemma on_entities_Ok:
  "f (entities R) = (r, t) \<Longrightarrow> on_entities f R = (r, R\<lparr>entities := t\<rparr>)"
  by (simp add: on_entities_def)

section \<open>The hourly decay\<close>

lemma decay_seen_le: "unat (uo_seen (decay en)) \<le> unat (uo_seen en) * 23 div 24"
proof -
  have "unat (uo_seen en * 23) \<le> unat (uo_seen en) * 23"
    by (simp add: unat_word_ariths)
  then show ?thesis by (simp add: decay_def unat_div div_le_mono)
qed

lemma decay_seen_less: "uo_seen en \<noteq> 0 \<Longrightarrow> unat (uo_seen (decay en)) < unat (uo_seen en)"
proof -
  assume "uo_seen en \<noteq> 0"
  then have "0 < unat (uo_seen en)" by (simp add: unat_gt_0)
  then have "unat (uo_seen en) * 23 div 24 < unat (uo_seen en)"
    by (simp add: div_less_iff_less_mult)
  with decay_seen_le [of en] show ?thesis by linarith
qed

lemma decay_power_seen: "unat (uo_seen en) \<le> n \<Longrightarrow> uo_seen ((decay ^^ n) en) = 0"
proof (induction n arbitrary: en)
  case 0
  then show ?case by (simp add: unat_eq_zero)
next
  case (Suc n)
  have "unat (uo_seen (decay en)) \<le> n"
    using decay_seen_less [of en] decay_seen_le [of en] Suc.prems by (cases "uo_seen en = 0") auto
  then show ?case using Suc.IH [of "decay en"] by (simp add: funpow_swap1)
qed

definition hours :: "nat \<Rightarrow> memory_entries reputation \<Rightarrow> memory_entries reputation" where
  "hours n = ((\<lambda>R. snd (update_hourly memory_entries_op R)) ^^ n)"

lemma update_hourly_mem:
  assumes "entries_ok (entities R)"
  shows "\<exists>t. update_hourly memory_entries_op R = (Ok (), R\<lparr>entities := t\<rparr>) \<and> entries_ok t \<and>
    hm_get t = (\<lambda>a. map_option decay (hm_get (entities R) a))"
  using mem_ents.update_refines [OF assms] by (auto simp: update_hourly_def on_entities_Ok)

lemma hours_mem:
  assumes "entries_ok (entities R)"
  shows "\<exists>t. hours n R = R\<lparr>entities := t\<rparr> \<and> entries_ok t \<and>
    hm_get t = (\<lambda>a. map_option (decay ^^ n) (hm_get (entities R) a))"
proof (induction n)
  case 0
  show ?case by (rule exI [of _ "entities R"]) (simp add: hours_def assms option.map_ident)
next
  case (Suc n)
  then obtain t where t: "hours n R = R\<lparr>entities := t\<rparr>" "entries_ok t"
      "hm_get t = (\<lambda>a. map_option (decay ^^ n) (hm_get (entities R) a))" by blast
  obtain u where u: "update_hourly memory_entries_op (hours n R) = (Ok (), (hours n R)\<lparr>entities := u\<rparr>)"
      "entries_ok u" "hm_get u = (\<lambda>a. map_option decay (hm_get t a))"
    using update_hourly_mem [of "hours n R"] t by auto
  have "hours (Suc n) R = R\<lparr>entities := u\<rparr>"
    using u(1) t(1) by (simp add: hours_def)
  then show ?case using u t(3) by (auto simp: option.map_comp comp_def)
qed

section \<open>Properties of the registry\<close>

text \<open>The status of an address that is on neither list, in terms of its counters as natural
  numbers: banned when the seen count divided by the denominator exceeds the included count by more
  than the ban slack, else throttled when it exceeds it by more than the throttling slack, else
  fine; provided the two sums fit in 64 bits and the denominator is not zero.\<close>

theorem get_status_thresholds:
  assumes "hm_get (entities R) a = Some en"
    and "a \<notin> set (whitelist R)" "a \<notin> set (blacklist R)"
    and "min_inclusion_denominator R \<noteq> 0"
    and "unat (uo_included en) + unat (ban_slack R) < 2 ^ 64"
    and "unat (uo_included en) + unat (throttling_slack R) < 2 ^ 64"
  shows "get_status memory_entries_op a R = Ok (status_to_u64
    (if unat (uo_seen en) div unat (min_inclusion_denominator R)
          > unat (uo_included en) + unat (ban_slack R) then BANNED
     else if unat (uo_seen en) div unat (min_inclusion_denominator R)
          > unat (uo_included en) + unat (throttling_slack R) then THROTTLED
     else OK))"
proof -
  have "unat (uo_included en + ban_slack R) = unat (uo_included en) + unat (ban_slack R)"
    "unat (uo_included en + throttling_slack R) = unat (uo_included en) + unat (throttling_slack R)"
    using assms(5,6) by (simp_all add: unat_word_ariths)
  then show ?thesis using assms(1-4)
    by (simp add: get_status_def is_in_list_def memory_entries_op_def status_of_entry_def Let_def
        word_less_nat_alt unat_div del: unat_plus_if')
qed

definition sample_reputation :: "reputation_entry \<Rightarrow> memory_entries reputation" where
  "sample_reputation en = \<lparr>
     min_inclusion_denominator = MIN_INCLUSION_RATE_DENOMINATOR, throttling_slack = THROTTLING_SLACK,
     ban_slack = BAN_SLACK, rep_min_stake = 1, rep_min_unstake_delay = 0,
     whitelist = [], blacklist = [], entities = [(re_address en, en)]\<rparr>"

definition empty_reputation :: "memory_entries reputation" where
  "empty_reputation = \<lparr>
     min_inclusion_denominator = MIN_INCLUSION_RATE_DENOMINATOR, throttling_slack = THROTTLING_SLACK,
     ban_slack = BAN_SLACK, rep_min_stake = 1, rep_min_unstake_delay = 0,
     whitelist = [], blacklist = [], entities = []\<rparr>"

theorem get_status_thresholds_witness:
  "get_status memory_entries_op 5
     (sample_reputation \<lparr>re_address = 5, uo_seen = 510, uo_included = 0, re_status = 0\<rparr>) = Ok 2"
  using get_status_thresholds [of "sample_reputation \<lparr>re_address = 5, uo_seen = 510,
      uo_included = 0, re_status = 0\<rparr>" 5 "\<lparr>re_address = 5, uo_seen = 510, uo_included = 0, re_status = 0\<rparr>"]
  by (simp add: sample_reputation_def hm_get_def MIN_INCLUSION_RATE_DENOMINATOR_def
      THROTTLING_SLACK_def BAN_SLACK_def)

text \<open>C39: Hourly decay forgives: whatever the counters of an address that is not blacklisted, after
  finitely many hourly updates its status is fine and stays fine under further updates. This holds
  for all 64-bit counters, also those whose product with 23 wraps.\<close>

theorem hourly_decay_restores:
  assumes "entries_ok (entities R)" and "a \<notin> set (blacklist R)" and "min_inclusion_denominator R \<noteq> 0"
  shows "\<exists>n. \<forall>k. get_status memory_entries_op a (hours (n + k) R) = Ok (status_to_u64 OK)"
proof -
  define n where "n = (case hm_get (entities R) a of Some en \<Rightarrow> unat (uo_seen en) | None \<Rightarrow> 0)"
  have "get_status memory_entries_op a (hours (n + k) R) = Ok (status_to_u64 OK)" for k
  proof -
    obtain t where t: "hours (n + k) R = R\<lparr>entities := t\<rparr>"
        "hm_get t = (\<lambda>a. map_option (decay ^^ (n + k)) (hm_get (entities R) a))"
      using hours_mem [OF assms(1)] by blast
    have "uo_seen ((decay ^^ (n + k)) en) = 0" if "hm_get (entities R) a = Some en" for en
      using that by (intro decay_power_seen) (simp add: n_def)
    then show ?thesis using assms(2,3)
      by (simp add: t get_status_def is_in_list_def memory_entries_op_def status_of_entry_def
          split: option.split)
  qed
  then show ?thesis by blast
qed

theorem hourly_decay_restores_witness:
  "\<exists>n. \<forall>k. get_status memory_entries_op 5 (hours (n + k)
     (sample_reputation \<lparr>re_address = 5, uo_seen = - 1, uo_included = 0, re_status = 0\<rparr>)) = Ok 0"
  using hourly_decay_restores [of "sample_reputation \<lparr>re_address = 5, uo_seen = - 1, uo_included = 0,
      re_status = 0\<rparr>" 5]
  by (simp add: sample_reputation_def entries_ok_def hm_wf_def MIN_INCLUSION_RATE_DENOMINATOR_def)

text \<open>Seeing an operation counts it once, for its entity only: \<open>increment_seen\<close> succeeds, adds one
  to the seen counter of the address (starting from the default entry), and changes neither the
  included counter, nor another address, nor the lists and limits.\<close>

theorem increment_seen_exact:
  assumes "entries_ok (entities R)"
  shows "\<exists>t. increment_seen memory_entries_op a R = (Ok (), R\<lparr>entities := t\<rparr>) \<and> entries_ok t \<and>
    (let old = entry_or_default (hm_get (entities R)) a in
     hm_get t = (hm_get (entities R))(a \<mapsto> old\<lparr>uo_seen := uo_seen old + 1\<rparr>))"
  using mem_ents.modify_entry_refines
    [OF assms, of "\<lambda>ent. ent\<lparr>uo_seen := uo_seen ent + 1\<rparr>" a]
  by (auto simp: increment_seen_def on_entities_Ok Let_def)

theorem increment_seen_exact_witness:
  "\<exists>t. increment_seen memory_entries_op 6
       (sample_reputation \<lparr>re_address = 5, uo_seen = 3, uo_included = 0, re_status = 0\<rparr>) =
       (Ok (), (sample_reputation \<lparr>re_address = 5, uo_seen = 3, uo_included = 0, re_status = 0\<rparr>)
         \<lparr>entities := t\<rparr>) \<and>
     hm_get t 6 = Some \<lparr>re_address = 6, uo_seen = 1, uo_included = 0, re_status = 0\<rparr>"
  using increment_seen_exact [of "sample_reputation \<lparr>re_address = 5, uo_seen = 3, uo_included = 0,
      re_status = 0\<rparr>" 6]
  by (auto simp: sample_reputation_def entries_ok_def hm_wf_def hm_get_def entry_or_default_def
      default_with_addr_def Let_def)

text \<open>With the limits the bundler is built with (denominator 10, slacks 10 and 50), recording that
  an entity made a bundle revert leaves an entity on neither list with status fine: it is neither
  throttled nor banned.\<close>

theorem reverted_entity_stays_ok:
  assumes "entries_ok (entities R)" and "a \<notin> set (blacklist R)"
    and "min_inclusion_denominator R = MIN_INCLUSION_RATE_DENOMINATOR"
    and "throttling_slack R = THROTTLING_SLACK" and "ban_slack R = BAN_SLACK"
  shows "\<exists>S. update_handle_ops_reverted memory_entries_op a R = (Ok (), S) \<and>
    get_status memory_entries_op a S = Ok (status_to_u64 OK)"
proof -
  obtain t where t: "update_handle_ops_reverted memory_entries_op a R = (Ok (), R\<lparr>entities := t\<rparr>)"
      "hm_get t = (hm_get (entities R))(a \<mapsto>
         (entry_or_default (hm_get (entities R)) a)\<lparr>uo_seen := 100, uo_included := 0\<rparr>)"
    using mem_ents.modify_entry_refines
      [OF assms(1), of "\<lambda>ent. ent\<lparr>uo_seen := 100, uo_included := 0\<rparr>" a]
    by (auto simp: update_handle_ops_reverted_def on_entities_Ok)
  have "get_status memory_entries_op a (R\<lparr>entities := t\<rparr>) = Ok (status_to_u64 OK)"
    using assms(2) by (simp add: get_status_def is_in_list_def memory_entries_op_def t(2)
        status_of_entry_def assms(3-5) MIN_INCLUSION_RATE_DENOMINATOR_def THROTTLING_SLACK_def
        BAN_SLACK_def)
  with t(1) show ?thesis by blast
qed

theorem reverted_entity_stays_ok_witness:
  "\<exists>S. update_handle_ops_reverted memory_entries_op 5
       (sample_reputation \<lparr>re_address = 5, uo_seen = 700, uo_included = 0, re_status = 0\<rparr>) = (Ok (), S) \<and>
     get_status memory_entries_op 5 S = Ok 0"
  using reverted_entity_stays_ok [of "sample_reputation \<lparr>re_address = 5, uo_seen = 700,
      uo_included = 0, re_status = 0\<rparr>" 5]
  by (simp add: sample_reputation_def entries_ok_def hm_wf_def)

text \<open>What the stake check accepts: an entity without stake information, a whitelisted entity, or
  one whose stake reaches the required stake (the one given, else the configured one) and whose
  unstake delay is at least two seconds. The required unstake delay has no influence.\<close>

theorem verify_stake_accepts:
  "verify_stake R ent info min_stake min_delay = Ok () \<longleftrightarrow>
     (case info of
        None \<Rightarrow> True
      | Some i \<Rightarrow> si_address i \<in> set (whitelist R) \<or>
          (case min_stake of Some m \<Rightarrow> m | None \<Rightarrow> rep_min_stake R) \<le> stake i \<and> 2 \<le> unstake_delay i)"
  by (auto simp: verify_stake_def is_in_list_def Let_def split: option.splits)

end
