(* ===== verification/Gas_Utils.thy ===== *)
theory Gas_Utils
  imports Primitives "HOL-Library.Log_Nat"
begin

text \<open>
  The helpers of \<open>utils.rs\<close> in the mempool crate: rounding division, the gas price a replacement has
  to offer, the pre-verification gas of an operation, the call gas limit from what an execution
  paid, and the comparison of code hashes. \<open>U256\<close> arithmetic saturates, so each result is compared
  with its value on natural numbers.
\<close>

section \<open>Definitions\<close>

definition div_ceil :: "U256 \<Rightarrow> U256 \<Rightarrow> U256" where
  "div_ceil numerator denominator =
     (let rounding_const =
        (if unwrap_or_default (checked_rem numerator denominator) > 0 then 1 else 0)
      in sat_add (unwrap_or_default (checked_div numerator denominator)) rounding_const)"

record overhead =
  fixed :: U256
  per_user_op :: U256
  per_user_op_word :: U256
  zero_byte :: U256
  non_zero_byte :: U256
  bundle_size :: U256
  sig_size :: U256

definition default_overhead :: overhead where
  "default_overhead = \<lparr>
     fixed = 21000, per_user_op = 18300, per_user_op_word = 4, zero_byte = 4,
     non_zero_byte = 16, bundle_size = 1, sig_size = 65\<rparr>"

definition call_data_cost :: "overhead \<Rightarrow> bytes \<Rightarrow> U256" where
  "call_data_cost ov bs =
     fold (\<lambda>x acc. sat_add acc (if x = 0 then zero_byte ov else non_zero_byte ov)) bs 0"

definition calculate_pre_verification_gas :: "abi \<Rightarrow> overhead \<Rightarrow> user_operation_signed \<Rightarrow> U256" where
  "calculate_pre_verification_gas A ov uo =
     (let uo_pack = pack A uo;
          call_data = call_data_cost ov uo_pack;
          word_cost = div_ceil (sat_mul (per_user_op_word ov) (of_nat (length uo_pack + 31))) 32;
          fixed_divided_by_bundle_size = div_ceil (fixed ov) (bundle_size ov)
      in sat_add (sat_add (sat_add fixed_divided_by_bundle_size call_data) (per_user_op ov)) word_cost)"

definition calculate_valid_gas :: "U256 \<Rightarrow> U256 \<Rightarrow> U256" where
  "calculate_valid_gas gas_price gas_incr_perc =
     (let denominator = 100;
          numerator = sat_mul gas_price (sat_add gas_incr_perc denominator)
      in div_ceil numerator denominator)"

definition calculate_call_gas_limit :: "U256 \<Rightarrow> U256 \<Rightarrow> U256 \<Rightarrow> U256" where
  "calculate_call_gas_limit paid pre_op_gas fee_per_gas =
     sat_add (sat_sub (div_ceil paid fee_per_gas) pre_op_gas) (fixed default_overhead)"

text \<open>
  \<open>collect\<close> into a map inserts the pairs in order; the loop returns at the first code hash that is
  missing or differs.
\<close>

definition equal_code_hashes :: "code_hash list \<Rightarrow> code_hash list \<Rightarrow> bool" where
  "equal_code_hashes hashes hashes_prev =
     (if length hashes_prev \<noteq> length hashes then False
      else
        let hashes_map = fold (\<lambda>h. hm_insert (ch_address h) (ch_hash h)) hashes [] in
        list_all (\<lambda>hash_prev.
          case hm_get hashes_map (ch_address hash_prev) of
            Some h \<Rightarrow> h = ch_hash hash_prev
          | None \<Rightarrow> False) hashes_prev)"

section \<open>Values on natural numbers\<close>

lemma div_ceil_nat: "(a::nat) div b + (if 0 < a mod b then 1 else 0) = (a + b - 1) div b" if "0 < b"
proof (cases "a mod b = 0")
  case True
  then obtain k where a: "a = b * k" by auto
  have "(b * k + (b - 1)) div b = k" by (rule div_nat_eqI) (use that in auto)
  moreover have "b * k + b - 1 = b * k + (b - 1)" using that by simp
  ultimately show ?thesis using that a by simp
next
  case False
  have "(a + b - 1) div b = a div b + 1"
  proof (rule div_nat_eqI)
    have m: "b * (a div b) + a mod b = a" "0 < a mod b" "a mod b < b" using False that by auto
    then show "b * (a div b + 1) \<le> a + b - 1" unfolding distrib_left by linarith
    show "a + b - 1 < b * Suc (a div b + 1)" using m unfolding mult_Suc_right distrib_left by linarith
  qed
  then show ?thesis using False by simp
qed

lemma unat_div_ceil [int_simps]:
  assumes "d \<noteq> 0"
  shows "unat (div_ceil n d) = (unat n + unat d - 1) div unat d"
proof -
  have d: "0 < unat d" using assms by (simp add: unat_gt_0)
  have r: "unat (if n mod d > 0 then 1 else 0 :: U256) = (if 0 < unat n mod unat d then 1 else 0)"
    by (simp add: word_less_nat_alt unat_mod)
  have "unat n div unat d + (if 0 < unat n mod unat d then 1 else 0) \<le> unat n"
  proof (cases "unat d = 1")
    case False
    with d have "2 \<le> unat d" by simp
    then have "unat n div unat d \<le> unat n div 2" by (simp add: div_le_mono2)
    then show ?thesis by (cases "unat n = 0") (auto simp: not_less intro!: div_less_dividend)
  qed simp
  also have "unat n < 2 ^ LENGTH(256)" by (rule unsigned_less)
  finally have "unat n div unat d + (if 0 < unat n mod unat d then 1 else 0) \<le> 2 ^ 256 - 1" by simp
  then show ?thesis
    using assms div_ceil_nat [OF d, of "unat n"]
    by (simp add: div_ceil_def checked_div_def checked_rem_def Let_def unat_sat_add r unat_div min_absorb1)
qed

lemma div_ceil_zero [simp]: "div_ceil n 0 = 0"
  by (simp add: div_ceil_def checked_div_def checked_rem_def Let_def sat_add_def)

lemma unat_call_data_cost:
  assumes "unat acc + 16 * length bs < 2 ^ 256"
  shows "unat (fold (\<lambda>x acc. sat_add acc (if x = 0 then zero_byte default_overhead
             else non_zero_byte default_overhead)) bs acc) =
    unat acc + 4 * length (filter (\<lambda>b. b = 0) bs) + 16 * length (filter (\<lambda>b. b \<noteq> 0) bs)"
  using assms
proof (induction bs arbitrary: acc)
  case Nil
  then show ?case by simp
next
  case (Cons b bs)
  define c where "c = (if b = 0 then zero_byte default_overhead else non_zero_byte default_overhead)"
  have c: "unat c = (if b = 0 then 4 else 16)" by (simp add: c_def default_overhead_def)
  have "unat (sat_add acc c) = unat acc + unat c"
    using Cons.prems c by (simp add: unat_sat_add)
  moreover from this have "unat (sat_add acc c) + 16 * length bs < 2 ^ 256"
    using Cons.prems c by simp
  ultimately show ?case
    using Cons.IH [of "sat_add acc c"] c by (simp add: c_def [symmetric])
qed

lemma code_hash_eq_iff:
  "p = (q :: code_hash) \<longleftrightarrow> ch_address p = ch_address q \<and> ch_hash p = ch_hash q"
  by (cases p; cases q) auto

lemma fold_insert_code_hashes:
  fixes hs :: "code_hash list"
  assumes "distinct (map ch_address hs)"
  shows "hm_get (fold (\<lambda>h. hm_insert (ch_address h) (ch_hash h)) hs m) (ch_address p) = Some (ch_hash p)
    \<longleftrightarrow> p \<in> set hs \<or> ch_address p \<notin> ch_address ` set hs \<and> hm_get m (ch_address p) = Some (ch_hash p)"
  using assms
proof (induction hs arbitrary: m)
  case Nil
  then show ?case by simp
next
  case (Cons h hs)
  show ?case
  proof (cases "ch_address p = ch_address h")
    case True
    then have "p \<notin> set hs" using Cons.prems by (metis distinct.simps(2) image_eqI list.set_map list.simps(9))
    with True Cons show ?thesis by (auto simp: code_hash_eq_iff)
  next
    case False
    then have "p \<noteq> h" by auto
    with False Cons show ?thesis by auto
  qed
qed

lemma valid_gas_nat:
  assumes "unat g * 110 < 2 ^ 256"
  shows "unat (calculate_valid_gas g (ucast GAS_INCREASE_PERC)) = (unat g * 110 + 99) div 100"
proof -
  have "unat (sat_mul g 110) = unat g * 110" using assms by (simp add: unat_sat_mul)
  then show ?thesis
    by (simp add: calculate_valid_gas_def Let_def GAS_INCREASE_PERC_def unat_div_ceil sat_add_def)
qed

lemma pre_verification_gas_nat:
  assumes "length (pack A uo) < 2 ^ 64"
  shows "unat (calculate_pre_verification_gas A default_overhead uo) =
    39300 + 4 * length (filter (\<lambda>b. b = 0) (pack A uo)) + 16 * length (filter (\<lambda>b. b \<noteq> 0) (pack A uo))
    + (4 * (length (pack A uo) + 31) + 31) div 32"
proof -
  let ?p = "pack A uo"
  define len where "len = length ?p"
  have len: "len < 2 ^ 64" using assms by (simp add: len_def)
  have z: "length (filter (\<lambda>b. b = 0) ?p) + length (filter (\<lambda>b. b \<noteq> 0) ?p) = len"
    by (simp add: len_def sum_length_filter_compl)
  have cost: "unat (call_data_cost default_overhead ?p) =
      4 * length (filter (\<lambda>b. b = 0) ?p) + 16 * length (filter (\<lambda>b. b \<noteq> 0) ?p)"
    unfolding call_data_cost_def using unat_call_data_cost [of 0 ?p] len by (simp add: len_def)
  have "unat (of_nat (len + 31) :: U256) = len + 31"
    using len by (simp add: unat_of_nat del: of_nat_add)
  then have "unat (sat_mul 4 (of_nat (len + 31) :: U256)) = 4 * (len + 31)"
    using len by (simp add: unat_sat_mul del: of_nat_add)
  then have word: "unat (div_ceil (sat_mul 4 (of_nat (len + 31) :: U256)) 32) = (4 * (len + 31) + 31) div 32"
    by (simp add: unat_div_ceil)
  have fixed: "unat (div_ceil 21000 1) = 21000" by (simp add: unat_div_ceil)
  show ?thesis
    using cost word fixed z len
    by (simp add: calculate_pre_verification_gas_def Let_def default_overhead_def [simplified] unat_sat_add
        len_def [symmetric])
qed

section \<open>Properties of the gas helpers\<close>

text \<open>C40: The fee a replacement must offer is the previous fee raised by ten percent and rounded up:
  as natural numbers it is the least number of which one hundredfold is at least 110 times the
  previous fee, as long as that product fits in 256 bits. So a replacement never pays less than ten
  percent more.\<close>

theorem valid_gas_ten_percent:
  assumes "unat g * 110 < 2 ^ 256"
  shows "unat (calculate_valid_gas g (ucast GAS_INCREASE_PERC)) = (LEAST k. 110 * unat g \<le> 100 * k)"
proof -
  have "(LEAST k. 110 * unat g \<le> 100 * k) = (unat g * 110 + 99) div 100"
    by (rule Least_equality) auto
  then show ?thesis by (simp add: valid_gas_nat [OF assms])
qed

theorem valid_gas_ten_percent_witness:
  "unat (calculate_valid_gas 101 (ucast GAS_INCREASE_PERC)) = (LEAST k. 11110 \<le> 100 * k)"
  using valid_gas_ten_percent [of 101] by simp

text \<open>The pre-verification gas of an operation, for packed data of realistic size: 39300 for the
  fixed part, 4 per zero byte and 16 per non-zero byte of the packed operation, and one eighth of
  the packed length plus 31, rounded up. Nothing saturates.\<close>

theorem pre_verification_gas_exact:
  assumes "length (pack A uo) < 2 ^ 64"
  shows "unat (calculate_pre_verification_gas A default_overhead uo) =
    39300 + 4 * length (filter (\<lambda>b. b = 0) (pack A uo)) + 16 * length (filter (\<lambda>b. b \<noteq> 0) (pack A uo))
    + (4 * (length (pack A uo) + 31) + 31) div 32"
  by (rule pre_verification_gas_nat [OF assms])

theorem pre_verification_gas_exact_witness:
  "unat (calculate_pre_verification_gas sample_abi default_overhead sample_signed) = 39325"
  using pre_verification_gas_exact [of sample_abi sample_signed] by (simp add: pack_def sample_abi_def)

text \<open>Comparing code hashes: for two lists that each name every address once, the comparison holds
  exactly when they contain the same pairs of address and hash.\<close>

theorem equal_code_hashes_iff:
  assumes "distinct (map ch_address hs)" and "distinct (map ch_address prev)"
  shows "equal_code_hashes hs prev \<longleftrightarrow> set hs = set prev"
proof -
  have "distinct hs" "distinct prev" using assms by (simp_all add: distinct_map)
  then have len: "length hs = length prev \<longleftrightarrow> card (set hs) = card (set prev)"
    by (simp add: distinct_card)
  have "(case hm_get (fold (\<lambda>h. hm_insert (ch_address h) (ch_hash h)) hs []) (ch_address p) of
      Some h \<Rightarrow> h = ch_hash p | None \<Rightarrow> False) \<longleftrightarrow> p \<in> set hs" for p
    using fold_insert_code_hashes [OF assms(1), of "[]" p] by (auto split: option.splits)
  then have "equal_code_hashes hs prev \<longleftrightarrow> card (set prev) = card (set hs) \<and> set prev \<subseteq> set hs"
    using len by (auto simp: equal_code_hashes_def Let_def list_all_iff)
  then show ?thesis by (metis List.finite_set card_subset_eq order_refl)
qed

theorem equal_code_hashes_iff_witness:
  "\<not> equal_code_hashes [\<lparr>ch_address = 1, ch_hash = 2\<rparr>] [\<lparr>ch_address = 1, ch_hash = 3\<rparr>]"
  using equal_code_hashes_iff [of "[\<lparr>ch_address = 1, ch_hash = 2\<rparr>]" "[\<lparr>ch_address = 1, ch_hash = 3\<rparr>]"]
  by simp

end
