(* ===== verification/Sanity_Checks.thy ===== *)
theory Sanity_Checks
  imports Reputation_Model Gas_Utils
begin

text \<open>
  The sanity checks of the validator (\<open>validate/sanity/*.rs\<close>): what the bundler checks of an
  operation against the chain, the pool and the registry before it simulates it.
\<close>

section \<open>The helper\<close>

record sanity_helper =
  sh_entry_point :: eth
  sh_chain :: u64
  sh_val_config :: validation_config

section \<open>Gas and fees\<close>

definition check_call_gas :: "user_operation \<Rightarrow> (sanity_error, unit) outcome" where
  "check_call_gas uo =
     (let limit = 9100 in
      if call_gas_limit (user_operation uo) \<ge> limit then Ok ()
      else Err (CallGasLimitTooLow (call_gas_limit (user_operation uo)) limit))"

definition check_verification_gas ::
  "U256 \<Rightarrow> user_operation \<Rightarrow> sanity_helper \<Rightarrow> (sanity_error, unit) outcome" where
  "check_verification_gas max_verification_gas uo H =
     (if verification_gas_limit (user_operation uo) > max_verification_gas then
        Err (VerificationGasLimitTooHigh (verification_gas_limit (user_operation uo))
              max_verification_gas)
      else
        let pre_gas = div_ceil (sat_mul (calculate_pre_verification_gas (eth_abi (sh_entry_point H))
              default_overhead (user_operation uo)) 90) 100 in
        if pre_verification_gas (user_operation uo) < pre_gas then
          Err (PreVerificationGasTooLow (pre_verification_gas (user_operation uo)) pre_gas)
        else Ok ())"

definition check_max_fee ::
  "U256 \<Rightarrow> user_operation \<Rightarrow> sanity_helper \<Rightarrow> (sanity_error, unit) outcome" where
  "check_max_fee min_priority_fee uo H =
     (let max_fee = max_fee_per_gas (user_operation uo);
          max_priority_fee = max_priority_fee_per_gas (user_operation uo) in
      if max_priority_fee > max_fee then Err (MaxPriorityFeePerGasTooHigh max_priority_fee max_fee)
      else
        bind_ok (map_err SanProvider (client_get_block (client (sh_entry_point H)))) (\<lambda>found.
        bind_ok (ok_or (SanOther ''No block found'') found) (\<lambda>blk.
        bind_ok (ok_or (SanOther ''No base fee'') (base_fee_per_gas blk)) (\<lambda>base_fee.
          if base_fee > max_fee then Err (MaxFeePerGasTooLow max_fee base_fee)
          else if max_priority_fee < min_priority_fee then
            Err (MaxPriorityFeePerGasTooLow max_priority_fee min_priority_fee)
          else Ok ()))))"

section \<open>The paymaster\<close>

definition check_paymaster ::
  "user_operation \<Rightarrow> sanity_helper \<Rightarrow> (sanity_error, unit) outcome" where
  "check_paymaster uo H =
     (let E = sh_entry_point H; problem = Err (SanPaymaster ''Problem with paymaster'') in
      if paymaster_and_data (user_operation uo) \<noteq> [] then
        (case get_address (paymaster_and_data (user_operation uo)) of
           Some addr \<Rightarrow>
             bind_ok (map_err SanProvider (client_get_code (client E) addr)) (\<lambda>code.
               if code \<noteq> [] then
                 bind_ok (map_err (sanity_of_entry_point E) (get_deposit_info E addr)) (\<lambda>info.
                   if ucast (deposit info) \<ge> max_fee_per_gas (user_operation uo) then Ok ()
                   else problem)
               else problem)
         | None \<Rightarrow> problem)
      else Ok ())"

section \<open>The sender\<close>

definition check_sender ::
  "user_operation \<Rightarrow> 's mempool \<Rightarrow> 's \<Rightarrow> sanity_helper \<Rightarrow> (sanity_error, unit) outcome" where
  "check_sender uo M s H =
     (let E = sh_entry_point H; u = user_operation uo in
      bind_ok (map_err SanProvider (client_get_code (client E) (sender u))) (\<lambda>code.
        if (code = [] \<and> init_code u = []) \<or> (code \<noteq> [] \<and> init_code u \<noteq> []) then
          Err (SanSender (''sender '' @ show_address (fmt E) (sender u) @
            '' is an existing contract, or the initCode '' @ show_bytes (fmt E) (init_code u) @
            '' is not empty (but not both)''))
        else if get_number_by_sender M (sender u) s = 0 then Ok ()
        else
          let uo_prev =
            (if \<not> ignore_prev (sh_val_config H) then
               find (\<lambda>p. nonce (user_operation p) = nonce u) (get_all_by_sender M (sender u) s)
             else None) in
          (case uo_prev of
             Some p \<Rightarrow>
               if max_fee_per_gas u <
                    calculate_valid_gas (max_fee_per_gas (user_operation p)) (ucast GAS_INCREASE_PERC) \<or>
                  max_priority_fee_per_gas u <
                    calculate_valid_gas (max_priority_fee_per_gas (user_operation p))
                      (ucast GAS_INCREASE_PERC)
               then Err (SanSender (show_address (fmt E) (sender u) @
                 '' couldn't replace user operation (gas increase too low)''))
               else Ok ()
           | None \<Rightarrow> Ok ())))"

section \<open>Reputation of the entities\<close>

definition entities_get_status ::
  "'r reputation_entry_op \<Rightarrow> 'r reputation \<Rightarrow> address \<Rightarrow> (sanity_error, status) outcome" where
  "entities_get_status A R a =
     bind_ok (map_err SanReputation (get_status A a R)) (\<lambda>st. Ok (status_from_u64 st))"

definition check_banned :: "string \<Rightarrow> address \<Rightarrow> status \<Rightarrow> (sanity_error, unit) outcome" where
  "check_banned ent a st =
     (if st = BANNED then Err (SanReputation (BannedEntity ent a)) else Ok ())"

definition check_throttled ::
  "string \<Rightarrow> address \<Rightarrow> status \<Rightarrow> 's mempool \<Rightarrow> 's \<Rightarrow> (sanity_error, unit) outcome" where
  "check_throttled ent a st M s =
     (if st = THROTTLED \<and>
         get_number_by_sender M a s + get_number_by_entity M a s \<ge> THROTTLED_ENTITY_MEMPOOL_COUNT
      then Err (SanReputation (ThrottledEntity ent a)) else Ok ())"

text \<open>The three lines the check repeats for the sender, the factory and the paymaster.\<close>

definition check_entity_status ::
  "string \<Rightarrow> address \<Rightarrow> 's mempool \<Rightarrow> 's \<Rightarrow> 'r reputation_entry_op \<Rightarrow> 'r reputation \<Rightarrow>
   (sanity_error, unit) outcome" where
  "check_entity_status ent a M s A R =
     bind_ok (entities_get_status A R a) (\<lambda>st.
     bind_ok (check_banned ent a st) (\<lambda>_. check_throttled ent a st M s))"

definition check_entities ::
  "user_operation \<Rightarrow> 's mempool \<Rightarrow> 's \<Rightarrow> 'r reputation_entry_op \<Rightarrow> 'r reputation \<Rightarrow>
   (sanity_error, unit) outcome" where
  "check_entities uo M s A R =
     (case get_entities (user_operation uo) of (account, factory, paymaster) \<Rightarrow>
        bind_ok (check_entity_status SENDER account M s A R) (\<lambda>_.
        bind_ok (case factory of
            Some f \<Rightarrow> check_entity_status FACTORY f M s A R | None \<Rightarrow> Ok ()) (\<lambda>_.
        case paymaster of
            Some p \<Rightarrow> check_entity_status PAYMASTER p M s A R | None \<Rightarrow> Ok ())))"

section \<open>Unstaked entities\<close>

text \<open>
  The allowance of an unstaked entity is computed in 64-bit floating point. The counters are
  not negative and below \<open>2 ^ 64\<close>, so every intermediate value is zero or a normal number and
  rounding to nearest, ties to even, with 53 significant bits is all of the arithmetic. A value
  is a fraction of naturals.
\<close>

definition f64_exponent :: "nat \<Rightarrow> nat \<Rightarrow> int" where
  "f64_exponent p q =
     (let e = int (floorlog 2 p) - int (floorlog 2 q) in
      if p * 2 ^ nat (- e) \<ge> q * 2 ^ nat e then e else e - 1)"

definition round_half_even :: "nat \<Rightarrow> nat \<Rightarrow> nat" where
  "round_half_even p q =
     (if 2 * (p mod q) > q \<or> 2 * (p mod q) = q \<and> odd (p div q) then p div q + 1 else p div q)"

definition f64_round :: "nat \<times> nat \<Rightarrow> nat \<times> nat" where
  "f64_round x =
     (case x of (p, q) \<Rightarrow>
        if p = 0 then (0, 1)
        else let s = 52 - f64_exponent p q in
          (round_half_even (p * 2 ^ nat s) (q * 2 ^ nat (- s)) * 2 ^ nat (- s), 2 ^ nat s))"

definition f64_div :: "nat \<times> nat \<Rightarrow> nat \<times> nat \<Rightarrow> nat \<times> nat" where
  "f64_div x y = f64_round (fst x * snd y, snd x * fst y)"

definition f64_mul :: "nat \<times> nat \<Rightarrow> nat \<times> nat \<Rightarrow> nat \<times> nat" where
  "f64_mul x y = f64_round (fst x * fst y, snd x * snd y)"

definition f64_of_u64 :: "u64 \<Rightarrow> nat \<times> nat" where
  "f64_of_u64 w = f64_round (unat w, 1)"

text \<open>\<open>as u64\<close> truncates and saturates.\<close>

definition u64_of_f64 :: "nat \<times> nat \<Rightarrow> u64" where
  "u64_of_f64 x = (let n = fst x div snd x in if n < 2 ^ 64 then of_nat n else - 1)"

definition calculate_allowed_user_operations :: "reputation_entry \<Rightarrow> u64" where
  "calculate_allowed_user_operations ent =
     (if uo_seen ent = 0 then of_nat SAME_UNSTAKED_ENTITY_MEMPOOL_COUNT
      else of_nat SAME_UNSTAKED_ENTITY_MEMPOOL_COUNT +
        u64_of_f64 (f64_mul (f64_div (f64_of_u64 (uo_included ent)) (f64_of_u64 (uo_seen ent)))
          (f64_of_u64 INCLUSION_RATE_FACTOR)) +
        min (uo_included ent) 10000)"

definition get_stake :: "address \<Rightarrow> sanity_helper \<Rightarrow> (sanity_error, stake_info) outcome" where
  "get_stake a H =
     (let E = sh_entry_point H in
      bind_ok (map_err (sanity_of_entry_point E) (get_deposit_info E a)) (\<lambda>info.
        Ok \<lparr>si_address = a, stake = ucast (di_stake info), unstake_delay = ucast (unstake_delay_sec info)\<rparr>))"

definition get_entity ::
  "address \<Rightarrow> 'r reputation_entry_op \<Rightarrow> 'r reputation \<Rightarrow> (sanity_error, reputation_entry) outcome" where
  "get_entity a A R = map_err SanReputation (reputation_get A a R)"

text \<open>
  The block the check repeats for the factory and the paymaster. The role error names the
  sender's address.
\<close>

definition check_unstaked_entity ::
  "string \<Rightarrow> address \<Rightarrow> address \<Rightarrow> 's mempool \<Rightarrow> 's \<Rightarrow> 'r reputation_entry_op \<Rightarrow> 'r reputation \<Rightarrow>
   sanity_helper \<Rightarrow> (sanity_error, unit) outcome" where
  "check_unstaked_entity ent a account M s A R H =
     (if get_number_by_sender M a s > 0 then Err (EntityRoles ent account ''sender'')
      else
        bind_ok (get_stake a H) (\<lambda>st.
          if is_err (verify_stake R ent (Some st) (vc_min_stake (sh_val_config H))
               (vc_min_unstake_delay (sh_val_config H))) then
            bind_ok (get_entity a A R) (\<lambda>entry.
              if (of_nat (get_number_by_entity M a s) :: u64) \<ge> calculate_allowed_user_operations entry
              then Err (SanReputation (UnstakedEntity ent a)) else Ok ())
          else Ok ()))"

definition check_unstaked_entities ::
  "user_operation \<Rightarrow> 's mempool \<Rightarrow> 's \<Rightarrow> 'r reputation_entry_op \<Rightarrow> 'r reputation \<Rightarrow>
   sanity_helper \<Rightarrow> (sanity_error, unit) outcome" where
  "check_unstaked_entities uo M s A R H =
     (case get_entities (user_operation uo) of (account, factory, paymaster) \<Rightarrow>
        if get_number_by_entity M account s > 0 then
          Err (EntityRoles SENDER account ''different'')
        else
          bind_ok (get_stake account H) (\<lambda>st.
            if is_err (verify_stake R SENDER (Some st) (vc_min_stake (sh_val_config H))
                 (vc_min_unstake_delay (sh_val_config H))) \<and>
               get_number_by_sender M account s \<ge> SAME_SENDER_MEMPOOL_COUNT
            then Err (SanReputation (UnstakedEntity SENDER account))
            else
              bind_ok (case factory of
                  Some f \<Rightarrow> check_unstaked_entity FACTORY f account M s A R H
                | None \<Rightarrow> Ok ()) (\<lambda>_.
              case paymaster of
                  Some p \<Rightarrow> check_unstaked_entity PAYMASTER p account M s A R H
                | None \<Rightarrow> Ok ())))"

section \<open>What the checks guarantee\<close>

lemma check_entity_status_Ok:
  assumes "check_entity_status ent a M s A R = Ok ()"
  shows "\<exists>st. get_status A a R = Ok st \<and> status_from_u64 st \<noteq> BANNED \<and>
    (status_from_u64 st = THROTTLED \<longrightarrow>
      get_number_by_sender M a s + get_number_by_entity M a s < THROTTLED_ENTITY_MEMPOOL_COUNT)"
  using assms
  by (auto simp: check_entity_status_def entities_get_status_def check_banned_def check_throttled_def
      bind_ok_eq_Ok split: if_splits)

text \<open>The addresses an operation involves: its sender, factory and paymaster.\<close>

definition involved :: "user_operation_signed \<Rightarrow> address set" where
  "involved uo = insert (sender uo) (entities_of uo)"

lemma check_entities_involved:
  assumes "check_entities uo M s A R = Ok ()" and "a \<in> involved (user_operation uo)"
  shows "\<exists>ent. check_entity_status ent a M s A R = Ok ()"
proof -
  obtain f p where e: "get_entities (user_operation uo) = (sender (user_operation uo), f, p)"
    and fp: "entities_of (user_operation uo) = set_option f \<union> set_option p"
    by (auto simp: get_entities_def entities_of_def)
  have "check_entity_status SENDER (sender (user_operation uo)) M s A R = Ok ()"
    and "f = Some b \<Longrightarrow> check_entity_status FACTORY b M s A R = Ok ()"
    and "p = Some b \<Longrightarrow> check_entity_status PAYMASTER b M s A R = Ok ()" for b
    using assms(1) e by (auto simp: check_entities_def bind_ok_eq_Ok split: option.splits)
  then show ?thesis using assms(2) fp by (auto simp: involved_def)
qed

lemma check_unstaked_entity_Ok:
  "check_unstaked_entity ent a account M s A R H = Ok () \<Longrightarrow> get_number_by_sender M a s = 0"
  by (auto simp: check_unstaked_entity_def split: if_splits)

lemma check_unstaked_entities_Ok:
  assumes "check_unstaked_entities uo M s A R H = Ok ()"
  shows "get_number_by_entity M (sender (user_operation uo)) s = 0"
    and "a \<in> entities_of (user_operation uo) \<Longrightarrow> get_number_by_sender M a s = 0"
proof -
  obtain f p where e: "get_entities (user_operation uo) = (sender (user_operation uo), f, p)"
    and fp: "entities_of (user_operation uo) = set_option f \<union> set_option p"
    by (auto simp: get_entities_def entities_of_def)
  show "get_number_by_entity M (sender (user_operation uo)) s = 0"
    using assms e by (auto simp: check_unstaked_entities_def split: if_splits)
  have "f = Some b \<Longrightarrow> get_number_by_sender M b s = 0"
    and "p = Some b \<Longrightarrow> get_number_by_sender M b s = 0" for b
    using assms e by (auto simp: check_unstaked_entities_def bind_ok_eq_Ok split: if_splits option.splits
        dest!: check_unstaked_entity_Ok)
  then show "a \<in> entities_of (user_operation uo) \<Longrightarrow> get_number_by_sender M a s = 0"
    using fp by auto
qed

section \<open>Properties of the sanity checks\<close>

text \<open>What the gas and fee checks accept together: a call gas limit of at least 9100, a priority fee
  between the configured minimum and the maximum fee, a maximum fee that covers the base fee of the
  latest block, a verification gas limit within the configured maximum, and a pre-verification gas
  of at least 90 percent (rounded up) of the computed one. With the block unavailable nothing is
  accepted.\<close>

theorem gas_and_fee_checks_iff:
  "bind_ok (check_call_gas uo) (\<lambda>_. bind_ok (check_verification_gas max_vg uo H) (\<lambda>_.
     check_max_fee min_pf uo H)) = Ok () \<longleftrightarrow>
   (let u = user_operation uo in
    9100 \<le> call_gas_limit u \<and> verification_gas_limit u \<le> max_vg \<and>
    div_ceil (sat_mul (calculate_pre_verification_gas (eth_abi (sh_entry_point H)) default_overhead u) 90) 100
      \<le> pre_verification_gas u \<and>
    min_pf \<le> max_priority_fee_per_gas u \<and> max_priority_fee_per_gas u \<le> max_fee_per_gas u \<and>
    (\<exists>blk base. client_get_block (client (sh_entry_point H)) = Ok (Some blk) \<and>
       base_fee_per_gas blk = Some base \<and> base \<le> max_fee_per_gas u))"
proof -
  have mf: "check_max_fee min_pf uo H = Ok () \<longleftrightarrow>
      min_pf \<le> max_priority_fee_per_gas (user_operation uo) \<and>
      max_priority_fee_per_gas (user_operation uo) \<le> max_fee_per_gas (user_operation uo) \<and>
      (\<exists>blk base. client_get_block (client (sh_entry_point H)) = Ok (Some blk) \<and>
         base_fee_per_gas blk = Some base \<and> base \<le> max_fee_per_gas (user_operation uo))"
    by (auto simp: check_max_fee_def bind_ok_eq_Ok Let_def not_less not_le split: if_splits)
  show ?thesis
    by (auto simp: bind_ok_eq_Ok mf check_call_gas_def check_verification_gas_def Let_def not_less
        split: if_splits)
qed

text \<open>C24: An operation that passes the entity check involves no banned address (sender, factory or
  paymaster), and each throttled address it involves has fewer than four operations in the pool,
  counted as sender and as entity.\<close>

theorem entities_check_sound:
  assumes "check_entities uo M s A R = Ok ()" and "a \<in> involved (user_operation uo)"
  shows "\<exists>st. get_status A a R = Ok st \<and> status_from_u64 st \<noteq> BANNED \<and>
    (status_from_u64 st = THROTTLED \<longrightarrow>
      get_number_by_sender M a s + get_number_by_entity M a s < 4)"
  using check_entities_involved [OF assms] check_entity_status_Ok
  by (fastforce simp: THROTTLED_ENTITY_MEMPOOL_COUNT_def)

text \<open>A registry in which the paymaster of the sample operation is throttled.\<close>

definition throttling_reputation :: "memory_entries reputation" where
  "throttling_reputation = empty_reputation\<lparr>entities :=
     [(0x0202020202020202020202020202020202020202, \<lparr>re_address = 0x0202020202020202020202020202020202020202,
        uo_seen = 200, uo_included = 0, re_status = 0\<rparr>)]\<rparr>"

lemma throttling_status:
  "get_status memory_entries_op 0x0202020202020202020202020202020202020202 throttling_reputation = Ok 1"
  "get_status memory_entries_op 0x0101010101010101010101010101010101010101 throttling_reputation = Ok 0"
  "get_status memory_entries_op 7 throttling_reputation = Ok 0"
  by (simp_all add: get_status_def throttling_reputation_def empty_reputation_def is_in_list_def
      memory_entries_op_def status_of_entry_def hm_get_def MIN_INCLUSION_RATE_DENOMINATOR_def
      THROTTLING_SLACK_def BAN_SLACK_def)

lemma sample_entities_check:
  "check_entities sample_uo memory_mempool empty_tables memory_entries_op throttling_reputation = Ok ()"
  by (simp add: check_entities_def check_entity_status_def entities_get_status_def throttling_status
      status_from_u64_def check_banned_def check_throttled_def THROTTLED_ENTITY_MEMPOOL_COUNT_def mem_queries)

theorem entities_check_sound_witness:
  "check_entities sample_uo memory_mempool empty_tables memory_entries_op throttling_reputation = Ok () \<and>
   (\<exists>st. get_status memory_entries_op 0x0202020202020202020202020202020202020202 throttling_reputation = Ok st \<and>
     status_from_u64 st = THROTTLED \<and>
     get_number_by_sender memory_mempool 0x0202020202020202020202020202020202020202 empty_tables +
       get_number_by_entity memory_mempool 0x0202020202020202020202020202020202020202 empty_tables < 4)"
  using entities_check_sound [OF sample_entities_check, of "0x0202020202020202020202020202020202020202"]
    sample_entities_check throttling_status(1)
  by (auto simp: involved_def status_from_u64_def)

text \<open>C23: Roles do not mix (rule STO-040): when an operation passes the unstaked-entity check against a
  consistent pool, its sender is no factory or paymaster of a pooled operation, and its own factory
  and paymaster are not the sender of a pooled operation.\<close>

theorem unstaked_check_separates_roles:
  assumes "mem_consistent s"
    and "check_unstaked_entities uo memory_mempool s A R H = Ok ()"
    and "mem_ops s h = Some p"
  shows "sender (user_operation uo) \<notin> entities_of p \<and> sender p \<notin> entities_of (user_operation uo)"
  using check_unstaked_entities_Ok [OF assms(2)] mem_queries(4,5) [OF assms(1)] assms(3) by blast

theorem unstaked_check_separates_roles_witness:
  "mem_consistent (snd (mempool_add memory_mempool sample_uo empty_tables)) \<and>
   check_unstaked_entities \<lparr>hash = 43, user_operation = sample_signed\<lparr>nonce := 2\<rparr>\<rparr> memory_mempool
     (snd (mempool_add memory_mempool sample_uo empty_tables)) memory_entries_op empty_reputation
     \<lparr>sh_entry_point = sample_eth, sh_chain = 5, sh_val_config = default_validation_config\<rparr> = Ok () \<and>
   7 \<notin> entities_of sample_signed"
proof -
  obtain s where s: "mempool_add memory_mempool sample_uo empty_tables = (Ok 42, s)"
      "mem_consistent s" "mem_ops s = [42 \<mapsto> sample_signed]"
    using mem_refinements(1) [of empty_tables sample_uo] by (auto simp: same_entities_def)
  let ?uo = "\<lparr>hash = 43, user_operation = sample_signed\<lparr>nonce := 2\<rparr>\<rparr>"
  let ?H = "\<lparr>sh_entry_point = sample_eth, sh_chain = 5, sh_val_config = default_validation_config\<rparr>"
  have e: "get_entities (sample_signed\<lparr>nonce := 2\<rparr>) = get_entities sample_signed"
    by (simp add: get_entities_def)
  have "get_number_by_entity memory_mempool 7 s = 0"
    "get_number_by_sender memory_mempool 0x0101010101010101010101010101010101010101 s = 0"
    "get_number_by_sender memory_mempool 0x0202020202020202020202020202020202020202 s = 0"
    using mem_queries(4,5) [OF s(2)] by (simp_all add: s(3), simp_all add: sample_signed_def)
  then have ck: "check_unstaked_entities ?uo memory_mempool s memory_entries_op empty_reputation ?H = Ok ()"
    by (simp add: check_unstaked_entities_def check_unstaked_entity_def e get_stake_def verify_stake_def
        is_in_list_def get_deposit_info_def empty_reputation_def sample_eth_defs
        default_validation_config_def Let_def)
  show ?thesis
    using unstaked_check_separates_roles [OF s(2) ck, of 42 sample_signed] s ck
    by (simp add: sample_signed_def)
qed

text \<open>C22: Replacement pays: if an operation passes the sender check, the previous operation is not
  ignored, and the consistent pool holds exactly one operation with its sender and nonce, then both
  its maximum fee and its priority fee are at least ten percent above those of the pooled one
  (exactly, as natural numbers, unless 110 times a pooled fee exceeds 256 bits).\<close>

theorem sender_check_replacement_fee:
  assumes "mem_consistent s"
    and "check_sender uo memory_mempool s H = Ok ()" and "\<not> ignore_prev (sh_val_config H)"
    and "same_slot (mem_ops s) uo p" and "\<And>q. same_slot (mem_ops s) uo q \<Longrightarrow> q = p"
    and "unat (max_fee_per_gas (user_operation p)) * 110 < 2 ^ 256"
    and "unat (max_priority_fee_per_gas (user_operation p)) * 110 < 2 ^ 256"
  shows "110 * unat (max_fee_per_gas (user_operation p)) \<le> 100 * unat (max_fee_per_gas (user_operation uo)) \<and>
    110 * unat (max_priority_fee_per_gas (user_operation p))
      \<le> 100 * unat (max_priority_fee_per_gas (user_operation uo))"
proof -
  let ?u = "user_operation uo"
  let ?xs = "get_all_by_sender memory_mempool (sender ?u) s"
  have mem: "q \<in> set ?xs \<and> nonce (user_operation q) = nonce ?u \<longleftrightarrow> same_slot (mem_ops s) uo q" for q
    using mem_queries(1) [OF assms(1), of "sender ?u"] by (auto simp: same_slot_def)
  have f: "find (\<lambda>q. nonce (user_operation q) = nonce ?u) ?xs = Some p"
  proof (cases "find (\<lambda>q. nonce (user_operation q) = nonce ?u) ?xs")
    case None
    then show ?thesis using mem [of p] assms(4) by (auto simp: find_None_iff)
  next
    case (Some q)
    then have "q \<in> set ?xs \<and> nonce (user_operation q) = nonce ?u" by (auto simp: find_Some_iff)
    with Some mem assms(5) show ?thesis by auto
  qed
  have "get_number_by_sender memory_mempool (sender ?u) s \<noteq> 0"
    using mem_queries(4) [OF assms(1), of "sender ?u"] assms(4) by (auto simp: same_slot_def)
  then have "\<not> max_fee_per_gas ?u < calculate_valid_gas (max_fee_per_gas (user_operation p)) (ucast GAS_INCREASE_PERC)"
    "\<not> max_priority_fee_per_gas ?u <
       calculate_valid_gas (max_priority_fee_per_gas (user_operation p)) (ucast GAS_INCREASE_PERC)"
    using assms(2,3) f by (auto simp: check_sender_def bind_ok_eq_Ok Let_def split: if_splits)
  then show ?thesis
    using valid_gas_nat [OF assms(6)] valid_gas_nat [OF assms(7)] by (auto simp: word_less_nat_alt)
qed

definition sample_replacement :: user_operation where
  "sample_replacement = \<lparr>hash = 43, user_operation =
     sample_signed\<lparr>max_fee_per_gas := 110, max_priority_fee_per_gas := 11\<rparr>\<rparr>"

theorem sender_check_replacement_fee_witness:
  "check_sender sample_replacement memory_mempool (snd (mempool_add memory_mempool sample_uo empty_tables))
     \<lparr>sh_entry_point = sample_eth, sh_chain = 5, sh_val_config = default_validation_config\<rparr> = Ok () \<and>
   110 * unat (max_fee_per_gas (user_operation sample_uo))
     \<le> 100 * unat (max_fee_per_gas (user_operation sample_replacement))"
proof -
  let ?H = "\<lparr>sh_entry_point = sample_eth, sh_chain = 5, sh_val_config = default_validation_config\<rparr>"
  let ?s = "snd (mempool_add memory_mempool sample_uo empty_tables)"
  have con: "mem_consistent ?s" "mem_ops ?s = [42 \<mapsto> sample_signed]"
    using mem_refinements(1) [of empty_tables sample_uo] by (auto simp: same_entities_def)
  have valid: "calculate_valid_gas 100 (ucast GAS_INCREASE_PERC) = 110"
    "calculate_valid_gas 10 (ucast GAS_INCREASE_PERC) = 11"
    by (simp_all add: word_unat_eq_iff valid_gas_nat)
  have ck: "check_sender sample_replacement memory_mempool ?s ?H = Ok ()"
    unfolding sample_add snd_conv
    by (simp add: check_sender_def sample_replacement_def sample_eth_defs Let_def
        get_number_by_sender_def get_number_by_address_def get_all_by_sender_def lookup_all_def
        memory_mempool_def memory_addr_act_def hash_map_get_all_by_address_def mempool_get_def
        memory_user_operations_def hash_map_get_by_uo_hash_def hm_get_def default_validation_config_def)
      (simp add: sample_signed_def valid)
  have slot: "same_slot (mem_ops ?s) sample_replacement q \<longleftrightarrow> q = sample_uo" for q
    unfolding same_slot_def con(2) by (cases q) (auto simp: sample_uo_def sample_replacement_def)
  show ?thesis
    using sender_check_replacement_fee [OF con(1) ck, of sample_uo] ck slot
    by (simp add: default_validation_config_def sample_signed_def)
qed

end
