(* ===== verification/Simulation_Checks.thy ===== *)
theory Simulation_Checks
  imports Mempool_Errors
begin

text \<open>
  What the validator reads out of a simulated validation (\<open>validate/utils.rs\<close>) and the checks on
  the result of the simulation (\<open>validate/simulation/*.rs\<close>).
\<close>

section \<open>Reading the results\<close>

fun result_of :: "simulate_validation_result \<Rightarrow> validation_result" where
  "result_of (ValidationResult res) = res"
| "result_of (ValidationResultWithAggregation res) = res"

definition extract_verification_gas_limit :: "simulate_validation_result \<Rightarrow> U256" where
  "extract_verification_gas_limit sim_res = pre_op_gas (return_info (result_of sim_res))"

definition extract_pre_fund :: "simulate_validation_result \<Rightarrow> U256" where
  "extract_pre_fund sim_res = prefund (return_info (result_of sim_res))"

definition extract_timestamps :: "simulate_validation_result \<Rightarrow> U256 \<times> U256" where
  "extract_timestamps sim_res =
     (ucast (ri_valid_after (return_info (result_of sim_res))),
      ucast (ri_valid_until (return_info (result_of sim_res))))"

definition stake_info_of :: "address \<Rightarrow> U256 \<times> U256 \<Rightarrow> stake_info" where
  "stake_info_of a info = \<lparr>si_address = a, stake = fst info, unstake_delay = snd info\<rparr>"

text \<open>The three levels: factory, account, paymaster. A missing entity has address zero.\<close>

definition extract_stake_info ::
  "user_operation \<Rightarrow> simulate_validation_result \<Rightarrow> stake_info list" where
  "extract_stake_info uo sim_res =
     (let res = result_of sim_res; u = user_operation uo;
          address_or_zero = (\<lambda>bs. case get_address bs of Some a \<Rightarrow> a | None \<Rightarrow> 0) in
      [stake_info_of (address_or_zero (init_code u)) (factory_info res),
       stake_info_of (sender u) (sender_info res),
       stake_info_of (address_or_zero (paymaster_and_data u)) (paymaster_info res)])"

definition extract_storage_map :: "js_tracer_frame \<Rightarrow> storage_map" where
  "extract_storage_map js_trace =
     default_storage_map\<lparr>slots :=
       fold (\<lambda>l m. fold (\<lambda>(addr, acc). hm_insert addr (reads acc)) (access l) m)
         (calls_from_entry_point js_trace) []\<rparr>"

text \<open>Merging: a root hash replaces the slots of its address, now and later.\<close>

definition merge_root_hashes :: "storage_map \<Rightarrow> storage_map \<Rightarrow> storage_map" where
  "merge_root_hashes m merged =
     fold (\<lambda>(addr, entry) acc.
         acc\<lparr>root_hashes := hm_insert addr entry (root_hashes acc), slots := hm_remove addr (slots acc)\<rparr>)
       (root_hashes m) merged"

definition merge_slots :: "storage_map \<Rightarrow> storage_map \<Rightarrow> storage_map" where
  "merge_slots m merged =
     fold (\<lambda>(addr, entry) acc.
         if \<not> hm_contains (root_hashes acc) addr then
           (case hm_get (slots acc) addr of
              Some old \<Rightarrow>
                acc\<lparr>slots := hm_insert addr (fold (\<lambda>(slot, v). hm_insert slot v) entry old) (slots acc)\<rparr>
            | None \<Rightarrow> acc\<lparr>slots := hm_insert addr entry (slots acc)\<rparr>)
         else acc)
       (slots m) merged"

definition merge_storage_maps :: "storage_map list \<Rightarrow> storage_map" where
  "merge_storage_maps ms =
     fold (\<lambda>m merged. merge_slots m (merge_root_hashes m merged)) ms default_storage_map"

section \<open>The checks\<close>

record simulation_helper =
  sih_result :: simulate_validation_result
  sih_val_config :: validation_config
  sih_valid_after :: "U256 option"

definition check_signature ::
  "user_operation \<Rightarrow> (simulation_helper, simulation_error, unit) op" where
  "check_signature uo H =
     (if sig_failed (return_info (result_of (sih_result H))) then (Err SimSignature, H) else (Ok (), H))"

definition check_timestamp ::
  "eth \<Rightarrow> user_operation \<Rightarrow> (simulation_helper, simulation_error, unit) op" where
  "check_timestamp E uo H =
     (case extract_timestamps (sih_result H) of (valid_after, valid_until) \<Rightarrow>
        (case map_err SimOther (system_now (client E)) of
           Err e \<Rightarrow> (Err e, H)
         | Panic \<Rightarrow> (Panic, H)
         | Ok secs \<Rightarrow>
             let now = ucast secs :: U256 in
             if valid_until < now then (Err (Timestamp ''already expired''), H)
             else (case (u256_add now (ucast EXPIRATION_TIMESTAMP_DIFF) :: (simulation_error, U256) outcome) of
                 Ok limit \<Rightarrow>
                   if valid_until \<le> limit then (Err (Timestamp ''expires too soon''), H)
                   else if valid_after > now then (Ok (), H\<lparr>sih_valid_after := Some valid_after\<rparr>)
                   else (Ok (), H)
               | Err e \<Rightarrow> (Err e, H)
               | Panic \<Rightarrow> (Panic, H))))"

text \<open>Both subtractions panic below zero, and \<open>as_u64\<close> panics when the value needs more bits.\<close>

definition extra_gas_of ::
  "user_operation \<Rightarrow> simulate_validation_result \<Rightarrow> ('e, U256) outcome" where
  "extra_gas_of uo sim_res =
     bind_ok (u256_sub (pre_op_gas (return_info (result_of sim_res)))
                (pre_verification_gas (user_operation uo))) (\<lambda>used.
     u256_sub (verification_gas_limit (user_operation uo)) used)"

definition check_verification_extra_gas ::
  "eth \<Rightarrow> user_operation \<Rightarrow> (simulation_helper, simulation_error, unit) op" where
  "check_verification_extra_gas E uo H =
     (bind_ok (extra_gas_of uo (sih_result H)) (\<lambda>extra_gas.
      bind_ok (as_u64 extra_gas) (\<lambda>extra.
        if extra < MIN_EXTRA_GAS then
          Err (SimValidation (''Verification gas should have extra 2000 gas (has $'' @
                show_u256 (fmt E) extra_gas @ '')''))
        else Ok ())), H)"

text \<open>The tuple of checks of both validators, in order.\<close>

definition simulation_checks ::
  "eth \<Rightarrow> user_operation \<Rightarrow> (simulation_helper, simulation_error, unit) op" where
  "simulation_checks E uo =
     bind_op (check_signature uo) (\<lambda>_.
     bind_op (check_timestamp E uo) (\<lambda>_.
     check_verification_extra_gas E uo))"

section \<open>What the checks guarantee\<close>

lemma now_plus_diff:
  "u256_add (ucast (secs :: u64)) (ucast EXPIRATION_TIMESTAMP_DIFF) = Ok (ucast secs + 30)"
  "unat (ucast secs + 30 :: U256) = unat secs + 30"
proof -
  have s: "unat secs < 2 ^ LENGTH(64)" by (rule unsigned_less)
  have u: "unat (ucast secs :: U256) = unat secs" by (simp add: unat_ucast_up)
  show "u256_add (ucast secs) (ucast EXPIRATION_TIMESTAMP_DIFF) = Ok (ucast secs + 30)"
    using s by (simp add: u256_add_def EXPIRATION_TIMESTAMP_DIFF_def u)
  show "unat (ucast secs + 30 :: U256) = unat secs + 30"
    using s by (simp add: unat_word_ariths u)
qed

lemma check_timestamp_iff:
  assumes "system_now (client E) = Ok secs"
  defines "info \<equiv> \<lambda>H. return_info (result_of (sih_result H))"
  shows "check_timestamp E uo H = (Ok (), H') \<longleftrightarrow>
    unat secs + 30 < unat (ri_valid_until (info H)) \<and>
    H' = (if secs < ri_valid_after (info H)
          then H\<lparr>sih_valid_after := Some (ucast (ri_valid_after (info H)))\<rparr> else H)"
proof -
  have "unat (ucast w :: U256) = unat w" for w :: u64 by (simp add: unat_ucast_up)
  then show ?thesis using assms(1)
    by (auto simp: check_timestamp_def extract_timestamps_def Let_def now_plus_diff word_less_nat_alt
        word_le_nat_alt info_def)
qed

lemma extra_gas_iff:
  "extra_gas_of uo sim_res = Ok g \<longleftrightarrow>
   (let u = user_operation uo; pre = pre_op_gas (return_info (result_of sim_res)) in
    unat (pre_verification_gas u) \<le> unat pre \<and>
    unat pre \<le> unat (verification_gas_limit u) + unat (pre_verification_gas u) \<and>
    unat g + unat pre = unat (verification_gas_limit u) + unat (pre_verification_gas u))"
proof -
  let ?u = "user_operation uo" and ?pre = "pre_op_gas (return_info (result_of sim_res))"
  have "extra_gas_of uo sim_res = Ok g \<longleftrightarrow>
      pre_verification_gas ?u \<le> ?pre \<and> ?pre - pre_verification_gas ?u \<le> verification_gas_limit ?u \<and>
      g = verification_gas_limit ?u - (?pre - pre_verification_gas ?u)"
    by (auto simp: extra_gas_of_def u256_sub_def bind_ok_eq_Ok split: if_splits)
  also have "\<dots> \<longleftrightarrow> unat (pre_verification_gas ?u) \<le> unat ?pre \<and>
      unat ?pre \<le> unat (verification_gas_limit ?u) + unat (pre_verification_gas ?u) \<and>
      unat g + unat ?pre = unat (verification_gas_limit ?u) + unat (pre_verification_gas ?u)"
    by (auto simp: word_le_nat_alt unat_sub word_unat_eq_iff)
  finally show ?thesis by (simp add: Let_def)
qed

lemma extra_gas_enough:
  "(\<exists>g. extra_gas_of uo sim_res = (Ok g :: ('e, U256) outcome) \<and> unat g < 2 ^ 64 \<and> 2000 \<le> unat g) \<longleftrightarrow>
   (let u = user_operation uo; pre = pre_op_gas (return_info (result_of sim_res)) in
    unat (pre_verification_gas u) \<le> unat pre \<and>
    unat pre + 2000 \<le> unat (verification_gas_limit u) + unat (pre_verification_gas u) \<and>
    unat (verification_gas_limit u) + unat (pre_verification_gas u) < unat pre + 2 ^ 64)"
  (is "?L \<longleftrightarrow> ?R")
proof
  show "?L \<Longrightarrow> ?R" by (auto simp: extra_gas_iff Let_def)
  define n where "n = unat (verification_gas_limit (user_operation uo)) +
    unat (pre_verification_gas (user_operation uo)) - unat (pre_op_gas (return_info (result_of sim_res)))"
  assume ?R
  then have n: "n < 2 ^ 64" "2000 \<le> n" by (auto simp: n_def Let_def)
  then have g: "unat (of_nat n :: U256) = n" by (intro unat_of_nat_small) simp
  have "extra_gas_of uo sim_res = (Ok (of_nat n) :: ('e, U256) outcome)"
    unfolding extra_gas_iff g using \<open>?R\<close> by (auto simp: n_def Let_def)
  with n g show ?L by auto
qed

lemma extra_gas_check:
  "bind_ok (as_u64 g) (\<lambda>extra. if extra < MIN_EXTRA_GAS then Err e else Ok ()) = Ok () \<longleftrightarrow>
   unat g < 2 ^ 64 \<and> 2000 \<le> unat g"
  by (cases "unat g < 2 ^ 64")
    (simp_all add: as_u64_def MIN_EXTRA_GAS_def word_less_nat_alt unat_ucast_small not_less)

section \<open>Properties of the simulation checks\<close>

text \<open>C25: The simulation checks accept exactly: a valid signature, a validity that ends more than 30
  seconds from now, and at least 2000 gas of the verification limit left over by the simulation
  (with the pre-verification gas not above the gas before execution, and the left-over within 64
  bits). On acceptance the helper records the start of validity exactly when it lies in the
  future.\<close>

theorem simulation_checks_iff:
  assumes "system_now (client E) = Ok secs" and "sih_result H = res" and "return_info (result_of res) = info"
  shows "simulation_checks E uo H = (Ok (), H') \<longleftrightarrow>
    \<not> sig_failed info \<and> unat secs + 30 < unat (ri_valid_until info) \<and>
    (let u = user_operation uo in
     unat (pre_verification_gas u) \<le> unat (pre_op_gas info) \<and>
     unat (pre_op_gas info) + 2000 \<le> unat (verification_gas_limit u) + unat (pre_verification_gas u) \<and>
     unat (verification_gas_limit u) + unat (pre_verification_gas u) < unat (pre_op_gas info) + 2 ^ 64) \<and>
    H' = (if secs < ri_valid_after info
          then H\<lparr>sih_valid_after := Some (ucast (ri_valid_after info))\<rparr> else H)"
proof -
  let ?K = "if secs < ri_valid_after info then H\<lparr>sih_valid_after := Some (ucast (ri_valid_after info))\<rparr> else H"
  have res: "sih_result ?K = res" using assms(2) by simp
  have ts: "check_timestamp E uo H = (Ok (), K) \<longleftrightarrow> unat secs + 30 < unat (ri_valid_until info) \<and> K = ?K" for K
    using check_timestamp_iff [OF assms(1), of uo H K] assms(2,3) by simp
  have "simulation_checks E uo H = (Ok (), H') \<longleftrightarrow> \<not> sig_failed info \<and>
      unat secs + 30 < unat (ri_valid_until info) \<and> check_verification_extra_gas E uo ?K = (Ok (), H')"
    unfolding simulation_checks_def bind_op_eq_Ok
    by (simp add: check_signature_def assms(2,3) ts)
  moreover have "check_verification_extra_gas E uo ?K = (Ok (), H') \<longleftrightarrow> H' = ?K \<and>
      (\<exists>g. extra_gas_of uo res = (Ok g :: (simulation_error, U256) outcome) \<and> unat g < 2 ^ 64 \<and> 2000 \<le> unat g)"
    unfolding check_verification_extra_gas_def res prod.inject bind_ok_eq_Ok [of "extra_gas_of uo res"]
      extra_gas_check by auto
  ultimately show ?thesis
    unfolding extra_gas_enough assms(3) by (auto simp: Let_def)
qed

definition sample_simulation :: simulation_helper where
  "sample_simulation = \<lparr>sih_result = ValidationResult sample_validation_result,
     sih_val_config = default_validation_config, sih_valid_after = None\<rparr>"

theorem simulation_checks_iff_witness:
  "simulation_checks sample_eth sample_uo sample_simulation = (Ok (), sample_simulation)"
  using simulation_checks_iff [of sample_eth 1000 sample_simulation
      "ValidationResult sample_validation_result" "return_info sample_validation_result"
      sample_uo sample_simulation]
  by (simp add: sample_simulation_def sample_validation_result_def sample_eth_defs sample_signed_def)

text \<open>The extra gas check does not fail but panics on some simulation results: exactly when the gas
  before execution is below the operation's pre-verification gas, when it exceeds both limits
  together, or when 64 bits do not hold what is left. The values come from the simulation and the
  operation, so the check relies on the contract to exclude these.\<close>

theorem extra_gas_panics_iff:
  "fst (check_verification_extra_gas E uo H) = Panic \<longleftrightarrow>
   (let u = user_operation uo; pre = pre_op_gas (return_info (result_of (sih_result H))) in
    unat pre < unat (pre_verification_gas u) \<or>
    unat (verification_gas_limit u) + unat (pre_verification_gas u) < unat pre \<or>
    unat pre + 2 ^ 64 \<le> unat (verification_gas_limit u) + unat (pre_verification_gas u))"
proof (cases "extra_gas_of uo (sih_result H) :: (simulation_error, U256) outcome")
  case (Ok g)
  have "fst (check_verification_extra_gas E uo H) = Panic \<longleftrightarrow> 2 ^ 64 \<le> unat g"
    using Ok by (cases "unat g < 2 ^ 64") (auto simp: check_verification_extra_gas_def as_u64_def)
  then show ?thesis using Ok [unfolded extra_gas_iff] by (auto simp: Let_def)
next
  case (Err e)
  then show ?thesis by (auto simp: extra_gas_of_def u256_sub_def bind_ok_def split: if_splits outcome.splits)
next
  case Panic
  have "\<not> (unat (pre_verification_gas (user_operation uo)) \<le> unat (pre_op_gas (return_info (result_of (sih_result H)))) \<and>
      unat (pre_op_gas (return_info (result_of (sih_result H)))) \<le>
        unat (verification_gas_limit (user_operation uo)) + unat (pre_verification_gas (user_operation uo)))"
    using Panic by (auto simp: extra_gas_of_def u256_sub_def word_le_nat_alt unat_sub split: if_splits)
  then show ?thesis using Panic by (auto simp: check_verification_extra_gas_def Let_def)
qed

end
