(* ===== verification/Trace_Checks.thy ===== *)
theory Trace_Checks
  imports Simulation_Checks Reputation_Model Gas_Utils
begin

text \<open>
  The checks on the trace of a simulated validation (\<open>validate/simulation_trace/*.rs\<close>): out of gas,
  opcodes, external contracts, storage access, the call stack and code hashes.
\<close>

section \<open>The helper\<close>

record trace_helper =
  th_entry_point :: eth
  th_chain :: u64
  th_result :: simulate_validation_result
  th_js_trace :: js_tracer_frame
  th_val_config :: validation_config
  th_stake_info :: "stake_info list option"
  th_code_hashes :: "code_hash list option"

definition level_of :: "eth \<Rightarrow> top_level_call_info \<Rightarrow> nat option" where
  "level_of E c = hm_get (SELECTORS_INDICES E) (top_level_method_sig c)"

section \<open>Gas, opcodes and external contracts\<close>

definition check_gas :: "trace_helper \<Rightarrow> (simulation_error, unit) outcome" where
  "check_gas H =
     check_all (\<lambda>c. if (case oog c of Some b \<Rightarrow> b | None \<Rightarrow> False) then Err OutOfGas else Ok ())
       (calls_from_entry_point (th_js_trace H))"

definition check_call_opcodes ::
  "eth \<Rightarrow> top_level_call_info \<Rightarrow> (simulation_error, unit) outcome" where
  "check_call_opcodes E c =
     (case level_of E c of
        Some l \<Rightarrow>
          bind_ok (check_all (\<lambda>op.
              if op \<in> set FORBIDDEN_OPCODES then Err (Opcode (LEVEL_TO_ENTITY ! l) op) else Ok ())
            (hm_keys (opcodes c))) (\<lambda>_.
          case hm_get (opcodes c) CREATE2_OPCODE of
            Some n \<Rightarrow>
              if LEVEL_TO_ENTITY ! l = FACTORY \<and> n = 1 then Ok ()
              else Err (Opcode (LEVEL_TO_ENTITY ! l) CREATE2_OPCODE)
          | None \<Rightarrow> Ok ())
      | None \<Rightarrow> Ok ())"

definition check_opcodes :: "trace_helper \<Rightarrow> (simulation_error, unit) outcome" where
  "check_opcodes H =
     check_all (check_call_opcodes (th_entry_point H)) (calls_from_entry_point (th_js_trace H))"

definition check_call_contracts ::
  "eth \<Rightarrow> user_operation \<Rightarrow> top_level_call_info \<Rightarrow> (simulation_error, unit) outcome" where
  "check_call_contracts E uo c =
     (case level_of E c of
        Some l \<Rightarrow>
          bind_ok (check_all (\<lambda>(addr, size).
              if addr \<noteq> sender (user_operation uo) \<and> csi_contract_size size \<le> 2 \<and>
                 csi_opcode size \<noteq> CREATE2_OPCODE
              then Err (Opcode (LEVEL_TO_ENTITY ! l) (csi_opcode size)) else Ok ())
            (contract_size c)) (\<lambda>_.
          check_all (\<lambda>(addr, info).
              if addr = ep_address E then Err (Opcode (LEVEL_TO_ENTITY ! l) info) else Ok ())
            (ext_code_access_info c))
      | None \<Rightarrow> Ok ())"

definition check_external_contracts ::
  "user_operation \<Rightarrow> trace_helper \<Rightarrow> (simulation_error, unit) outcome" where
  "check_external_contracts uo H =
     check_all (check_call_contracts (th_entry_point H) uo) (calls_from_entry_point (th_js_trace H))"

section \<open>Storage access\<close>

definition parse_slot ::
  "abi \<Rightarrow> bytes \<Rightarrow> stake_info \<Rightarrow> (address, bytes hash_set) hash_map \<Rightarrow>
   (address, bytes hash_set) hash_map" where
  "parse_slot A kecc ent m =
     (if si_address ent = 0 then m
      else
        let addr_b = replicate 12 0 @ to_fixed_bytes (si_address ent) in
        if starts_with kecc addr_b then
          hm_insert (si_address ent)
            (snd (hs_insert (to_be_bytes 32 (keccak256 A kecc))
               (case hm_get m (si_address ent) of Some s \<Rightarrow> s | None \<Rightarrow> []))) m
        else m)"

definition parse_slots ::
  "abi \<Rightarrow> bytes list \<Rightarrow> stake_info list \<Rightarrow> (address, bytes hash_set) hash_map" where
  "parse_slots A keccs info = fold (\<lambda>kecc. fold (parse_slot A kecc) info) keccs []"

text \<open>The sum is evaluated only when the first comparison holds; it panics on overflow.\<close>

fun in_slot_range :: "U256 \<Rightarrow> bytes list \<Rightarrow> ('e, bool) outcome" where
  "in_slot_range n [] = Ok False"
| "in_slot_range n (s # ss) =
     (let k = from_be_bytes s in
      if k \<le> n then
        bind_ok (u256_add k 128) (\<lambda>lim. if n < lim then Ok True else in_slot_range n ss)
      else in_slot_range n ss)"

definition associated_with_slot ::
  "eth \<Rightarrow> address \<Rightarrow> string \<Rightarrow> (address, bytes hash_set) hash_map \<Rightarrow> (simulation_error, bool) outcome"
  where
  "associated_with_slot E a slot m =
     (if slot = show_address (fmt E) a then Ok True
      else if \<not> hm_contains m a then Ok False
      else
        bind_ok (ok_or (StorageAccess slot) (u256_from_str_radix (codec E) slot)) (\<lambda>n.
          case hm_get m a of
            Some ss \<Rightarrow> in_slot_range n ss
          | None \<Rightarrow> Ok False))"

text \<open>One turn of the loop over slots; the result is the new value of \<open>slot_staked\<close>.\<close>

definition check_slot ::
  "eth \<Rightarrow> user_operation \<Rightarrow> stake_info list \<Rightarrow> nat \<Rightarrow> (address, bytes hash_set) hash_map \<Rightarrow>
   address \<Rightarrow> reads_and_writes \<Rightarrow> string \<Rightarrow> string \<Rightarrow> (simulation_error, string) outcome" where
  "check_slot E uo info l m addr acc slot slot_staked =
     (let u = user_operation uo; info_l = info ! l in
      bind_ok (associated_with_slot E (sender u) slot m) (\<lambda>assoc.
        if assoc then
          (if \<not> (init_code u = [] \<or>
                 sender u = si_address info_l \<and> is_staked (info ! FACTORY_LEVEL))
           then Ok slot else Ok slot_staked)
        else if addr = si_address info_l then Ok slot
        else
          bind_ok (associated_with_slot E (si_address info_l) slot m) (\<lambda>assoc_l.
            if assoc_l \<or> \<not> hm_contains (writes acc) slot then Ok slot
            else Err (StorageAccess slot))))"

fun check_slots ::
  "eth \<Rightarrow> user_operation \<Rightarrow> stake_info list \<Rightarrow> nat \<Rightarrow> (address, bytes hash_set) hash_map \<Rightarrow>
   address \<Rightarrow> reads_and_writes \<Rightarrow> string list \<Rightarrow> string \<Rightarrow> (simulation_error, string) outcome" where
  "check_slots E uo info l m addr acc [] slot_staked = Ok slot_staked"
| "check_slots E uo info l m addr acc (slot # ss) slot_staked =
     bind_ok (check_slot E uo info l m addr acc slot slot_staked)
       (check_slots E uo info l m addr acc ss)"

definition check_access ::
  "eth \<Rightarrow> user_operation \<Rightarrow> stake_info list \<Rightarrow> nat \<Rightarrow> (address, bytes hash_set) hash_map \<Rightarrow>
   address \<times> reads_and_writes \<Rightarrow> (simulation_error, unit) outcome" where
  "check_access E uo info l m entry =
     (case entry of (addr, acc) \<Rightarrow>
        if addr = sender (user_operation uo) \<or> addr = ep_address E then Ok ()
        else
          bind_ok (check_slots E uo info l m addr acc (hm_keys (reads acc) @ hm_keys (writes acc)) [])
            (\<lambda>slot_staked.
              if slot_staked \<noteq> [] \<and> \<not> is_staked (info ! l) then
                Err (Unstaked (LEVEL_TO_ENTITY ! l) (si_address (info ! l))
                      (''accessed slot '' @ slot_staked))
              else Ok ()))"

definition set_stake_info :: "user_operation \<Rightarrow> trace_helper \<Rightarrow> trace_helper" where
  "set_stake_info uo H =
     (case th_stake_info H of
        None \<Rightarrow> H\<lparr>th_stake_info := Some (extract_stake_info uo (th_result H))\<rparr>
      | Some _ \<Rightarrow> H)"

definition stake_info_or_default :: "trace_helper \<Rightarrow> stake_info list" where
  "stake_info_or_default H =
     (case th_stake_info H of
        Some info \<Rightarrow> info
      | None \<Rightarrow> replicate NUMBER_OF_LEVELS \<lparr>si_address = 0, stake = 0, unstake_delay = 0\<rparr>)"

definition check_storage_access ::
  "user_operation \<Rightarrow> (trace_helper, simulation_error, unit) op" where
  "check_storage_access uo H0 =
     (let H = set_stake_info uo H0; E = th_entry_point H; info = stake_info_or_default H;
          m = parse_slots (eth_abi E) (keccak (th_js_trace H)) info in
      (check_all (\<lambda>c. case level_of E c of
            Some l \<Rightarrow> check_all (check_access E uo info l m) (access c)
          | None \<Rightarrow> Ok ())
        (calls_from_entry_point (th_js_trace H)), H))"

section \<open>The call stack\<close>

definition method_name :: "eth \<Rightarrow> bytes option \<Rightarrow> string option" where
  "method_name E m = (case m of Some sig \<Rightarrow> hm_get (SELECTORS_NAMES E) sig | None \<Rightarrow> None)"

definition call_entry_of :: "eth \<Rightarrow> call \<Rightarrow> call \<Rightarrow> call_entry" where
  "call_entry_of E tp c =
     (if str_contains (call_typ tp) CREATE_OPCODE then
        \<lparr>ce_typ = call_typ tp, ce_from = call_from tp, ce_to = call_to tp, ce_method = None,
         ce_ret = None, ce_rev = None, ce_value = None\<rparr>
      else if call_typ c = REVERT_OPCODE then
        \<lparr>ce_typ = call_typ tp, ce_from = call_from tp, ce_to = call_to tp,
         ce_method = method_name E (call_method tp), ce_ret = None, ce_rev = call_data_ret c,
         ce_value = call_value tp\<rparr>
      else
        \<lparr>ce_typ = call_typ tp, ce_from = call_from tp, ce_to = call_to tp,
         ce_method = method_name E (call_method tp), ce_ret = call_data_ret c, ce_rev = None,
         ce_value = call_value tp\<rparr>)"

fun parse_calls :: "eth \<Rightarrow> call list \<Rightarrow> call list \<Rightarrow> call_entry list" where
  "parse_calls E [] st = []"
| "parse_calls E (c # cs) st =
     (if call_typ c = REVERT_OPCODE \<or> call_typ c = RETURN_OPCODE then
        (case st of
           [] \<Rightarrow> parse_calls E cs []
         | tp # st' \<Rightarrow> call_entry_of E tp c # parse_calls E cs st')
      else parse_calls E cs (c # st))"

definition parse_call_stack :: "eth \<Rightarrow> js_tracer_frame \<Rightarrow> call_entry list" where
  "parse_call_stack E trace = parse_calls E (calls trace) []"

definition address_or_default :: "address option \<Rightarrow> address" where
  "address_or_default a = (case a of Some a \<Rightarrow> a | None \<Rightarrow> 0)"

definition check_paymaster_return ::
  "eth \<Rightarrow> 'r reputation \<Rightarrow> validation_config \<Rightarrow> call_entry \<Rightarrow> nat \<times> stake_info \<Rightarrow>
   (simulation_error, unit) outcome" where
  "check_paymaster_return E R vc c level =
     (case level of (i, info) \<Rightarrow>
        if LEVEL_TO_ENTITY ! i = PAYMASTER \<and>
           ce_method c = Some VALIDATE_PAYMASTER_USER_OP_FUNCTION \<and> ce_to c = Some (si_address info)
        then
          (case ce_ret c of
             Some r \<Rightarrow>
               bind_ok (map_err (\<lambda>_. SimValidation ''Error during simulate validation on entry point'')
                   (api_decode_paymaster_return (codec E) r)) (\<lambda>context.
                 if context \<noteq> [] \<and>
                    is_err (verify_stake R PAYMASTER (Some info) (vc_min_stake vc) (vc_min_unstake_delay vc))
                 then Err (Unstaked PAYMASTER (si_address info) ''must not return context'')
                 else Ok ())
           | None \<Rightarrow> Ok ())
        else Ok ())"

definition check_call_entry ::
  "eth \<Rightarrow> 'r reputation \<Rightarrow> validation_config \<Rightarrow> stake_info list \<Rightarrow> call_entry \<Rightarrow>
   (simulation_error, unit) outcome" where
  "check_call_entry E R vc info c =
     (if address_or_default (ce_to c) = ep_address E \<and>
         address_or_default (ce_from c) \<noteq> ep_address E \<and>
         ce_method c \<noteq> None \<and> ce_method c \<noteq> Some ''depositTo''
      then Err (CallStack ''Illegal call into entry point during validation {call:?}'')
      else if address_or_default (ce_to c) \<noteq> ep_address E \<and> unwrap_or_default (ce_value c) \<noteq> 0
      then Err (CallStack ''Illegal call {call:?}'')
      else check_all (check_paymaster_return E R vc c) (enumerate 0 info))"

definition check_call_stack ::
  "user_operation \<Rightarrow> 'r reputation \<Rightarrow> (trace_helper, simulation_error, unit) op" where
  "check_call_stack uo R H0 =
     (let H = set_stake_info uo H0; E = th_entry_point H in
      (check_all (check_call_entry E R (th_val_config H) (stake_info_or_default H))
        (parse_call_stack E (th_js_trace H)), H))"

section \<open>Code hashes\<close>

text \<open>
  The requests run concurrently and complete in some order; the first failure that is joined ends
  the check.
\<close>

fun get_code_hashes :: "eth \<Rightarrow> address list \<Rightarrow> (simulation_error, code_hash list) outcome" where
  "get_code_hashes E [] = Ok []"
| "get_code_hashes E (a # as) =
     (case client_get_code (client E) a of
        Ok code \<Rightarrow>
          bind_ok (get_code_hashes E as) (\<lambda>hs.
            Ok (\<lparr>ch_address = a, ch_hash = keccak256 (eth_abi E) code\<rparr> # hs))
      | _ \<Rightarrow> Err (SimOther ''Failed to retrieve code hashes''))"

text \<open>The message of a mempool error is rendered by the library.\<close>

definition check_code_hashes ::
  "(mempool_error_kind \<Rightarrow> string) \<Rightarrow> user_operation \<Rightarrow> 's mempool \<Rightarrow> 's \<Rightarrow>
   (trace_helper, simulation_error, unit) op" where
  "check_code_hashes show_kind uo M s H =
     (let E = th_entry_point H;
          addrs = concat (map (\<lambda>l. hm_keys (contract_size l)) (calls_from_entry_point (th_js_trace H))) in
      case get_code_hashes E (join_order (client E) addrs) of
        Err e \<Rightarrow> (Err e, H)
      | Panic \<Rightarrow> (Panic, H)
      | Ok hashes \<Rightarrow>
          (case mempool_has_code_hashes M (hash uo) s of
             Ok True \<Rightarrow>
               (case mempool_get_code_hashes M (hash uo) s of
                  Ok prev \<Rightarrow>
                    if \<not> equal_code_hashes hashes prev then (Err CodeHashes, H)
                    else (Ok (), H\<lparr>th_code_hashes := Some hashes\<rparr>)
                | Err e \<Rightarrow> (Err (SimOther (show_kind e)), H)
                | Panic \<Rightarrow> (Panic, H))
           | Ok False \<Rightarrow> (Ok (), H\<lparr>th_code_hashes := Some hashes\<rparr>)
           | Err e \<Rightarrow> (Err (SimOther (show_kind e)), H)
           | Panic \<Rightarrow> (Panic, H)))"

section \<open>The chain of trace checks\<close>

definition trace_checks ::
  "(mempool_error_kind \<Rightarrow> string) \<Rightarrow> user_operation \<Rightarrow> 's mempool \<Rightarrow> 's \<Rightarrow> 'r reputation \<Rightarrow>
   (trace_helper, simulation_error, unit) op" where
  "trace_checks show_kind uo M s R =
     bind_op (query check_gas) (\<lambda>_.
     bind_op (query check_opcodes) (\<lambda>_.
     bind_op (query (check_external_contracts uo)) (\<lambda>_.
     bind_op (check_storage_access uo) (\<lambda>_.
     bind_op (check_call_stack uo R) (\<lambda>_.
     check_code_hashes show_kind uo M s)))))"

section \<open>What the checks guarantee\<close>

lemma level_of_cases: "level_of E c = Some l \<Longrightarrow> l \<in> {0, 1, 2}"
  by (auto simp: level_of_def SELECTORS_INDICES_def split: if_splits)

lemma level_factory: "level_of E c = Some l \<Longrightarrow> LEVEL_TO_ENTITY ! l = FACTORY \<longleftrightarrow> l = FACTORY_LEVEL"
  using level_of_cases [of E c l] by (auto simp: entity_names FACTORY_LEVEL_def)

lemma check_slot_Ok:
  assumes "check_slot E uo info l m addr acc slot cur = Ok r" and "slot \<noteq> []"
  shows "(r = cur \<or> r = slot) \<and>
    (associated_with_slot E (sender (user_operation uo)) slot m = Ok True \<or>
     r = slot \<and> (addr = si_address (info ! l) \<or>
       associated_with_slot E (si_address (info ! l)) slot m = Ok True \<or>
       hm_get (writes acc) slot = None))"
  using assms
  by (auto simp: check_slot_def Let_def bind_ok_eq_Ok split: if_splits)

lemma check_slots_Ok:
  assumes "check_slots E uo info l m addr acc ss cur = Ok r" and "[] \<notin> set ss"
  shows "(cur \<noteq> [] \<longrightarrow> r \<noteq> []) \<and> (\<forall>slot \<in> set ss.
    associated_with_slot E (sender (user_operation uo)) slot m = Ok True \<or>
    r \<noteq> [] \<and> (addr = si_address (info ! l) \<or>
      associated_with_slot E (si_address (info ! l)) slot m = Ok True \<or>
      hm_get (writes acc) slot = None))"
  using assms
proof (induction ss arbitrary: cur)
  case Nil
  then show ?case by simp
next
  case (Cons slot ss)
  obtain cur' where c: "check_slot E uo info l m addr acc slot cur = Ok cur'"
      "check_slots E uo info l m addr acc ss cur' = Ok r"
    using Cons.prems(1) by (auto simp: bind_ok_eq_Ok)
  show ?case
    using check_slot_Ok [OF c(1)] Cons.IH [OF c(2)] Cons.prems(2) by auto
qed

section \<open>Properties of the trace checks\<close>

text \<open>The opcode check accepts a trace exactly when every top-level call of a known entity uses no
  forbidden opcode, and uses CREATE2 only in the factory's call and there exactly once (rules OP-011
  and OP-031).\<close>

theorem opcodes_check_iff:
  "check_opcodes H = Ok () \<longleftrightarrow>
   (\<forall>c \<in> set (calls_from_entry_point (th_js_trace H)). \<forall>l. level_of (th_entry_point H) c = Some l \<longrightarrow>
      (\<forall>op \<in> set (hm_keys (opcodes c)). op \<notin> set FORBIDDEN_OPCODES) \<and>
      (\<forall>n. hm_get (opcodes c) CREATE2_OPCODE = Some n \<longrightarrow> l = FACTORY_LEVEL \<and> n = 1))"
proof -
  have "check_call_opcodes E c = Ok () \<longleftrightarrow> (\<forall>l. level_of E c = Some l \<longrightarrow>
      (\<forall>op \<in> set (hm_keys (opcodes c)). op \<notin> set FORBIDDEN_OPCODES) \<and>
      (\<forall>n. hm_get (opcodes c) CREATE2_OPCODE = Some n \<longrightarrow> l = FACTORY_LEVEL \<and> n = 1))" for E c
  proof (cases "level_of E c")
    case None
    then show ?thesis by (simp add: check_call_opcodes_def)
  next
    case (Some l)
    then show ?thesis
      by (simp add: check_call_opcodes_def bind_ok_eq_Ok check_all_Ok level_factory [OF Some]
          split: option.split)
  qed
  then show ?thesis by (simp add: check_opcodes_def check_all_Ok)
qed

definition sample_call :: top_level_call_info where
  "sample_call = \<lparr>top_level_method_sig = [], top_level_target_address = [], access = [],
     opcodes = [(''TIMESTAMP'', 1)], contract_size = [], ext_code_access_info = [], oog = None\<rparr>"

definition sample_trace :: trace_helper where
  "sample_trace = \<lparr>th_entry_point = sample_eth, th_chain = 5,
     th_result = ValidationResult sample_validation_result,
     th_js_trace = \<lparr>calls_from_entry_point = [sample_call], keccak = [], logs = [], calls = [], debug = []\<rparr>,
     th_val_config = default_validation_config, th_stake_info = None, th_code_hashes = None\<rparr>"

lemma sample_level: "level_of sample_eth sample_call = Some 2"
  by (simp add: level_of_def SELECTORS_INDICES_def sample_eth_defs sample_call_def)

theorem opcodes_check_iff_witness: "check_opcodes sample_trace \<noteq> Ok ()"
  using opcodes_check_iff [of sample_trace] sample_level
  by (simp add: sample_trace_def) (simp add: sample_call_def FORBIDDEN_OPCODES_def)

text \<open>C21: Storage rules (STO-010 to STO-033): when the storage check accepts, then in every top-level call
  of a known entity, each slot that is read or written in a contract other than the account and the
  entry point is either associated with the account, or the entity is staked and the slot lies in
  the entity's own storage, is associated with the entity, or is only read. Slot names are assumed
  not empty.\<close>

theorem storage_access_sound:
  assumes "fst (check_storage_access uo H) = Ok ()" and "th_stake_info H = None"
    and "c \<in> set (calls_from_entry_point (th_js_trace H))" and "level_of (th_entry_point H) c = Some l"
    and "(addr, acc) \<in> set (access c)"
    and "addr \<noteq> sender (user_operation uo)" and "addr \<noteq> ep_address (th_entry_point H)"
    and "slot \<in> set (hm_keys (reads acc) @ hm_keys (writes acc))"
    and "[] \<notin> set (hm_keys (reads acc) @ hm_keys (writes acc))"
  shows "let E = th_entry_point H; info = extract_stake_info uo (th_result H);
             m = parse_slots (eth_abi E) (keccak (th_js_trace H)) info in
    associated_with_slot E (sender (user_operation uo)) slot m = Ok True \<or>
    is_staked (info ! l) \<and> (addr = si_address (info ! l) \<or>
      associated_with_slot E (si_address (info ! l)) slot m = Ok True \<or>
      hm_get (writes acc) slot = None)"
proof -
  let ?E = "th_entry_point H" and ?info = "extract_stake_info uo (th_result H)"
  let ?m = "parse_slots (eth_abi ?E) (keccak (th_js_trace H)) ?info"
  have "check_access ?E uo ?info l ?m (addr, acc) = Ok ()"
    using assms(1-5)
    by (auto simp: check_storage_access_def set_stake_info_def stake_info_or_default_def Let_def
        check_all_Ok dest!: bspec [where x = c])
  then obtain r where r: "check_slots ?E uo ?info l ?m addr acc (hm_keys (reads acc) @ hm_keys (writes acc)) [] = Ok r"
      "r \<noteq> [] \<longrightarrow> is_staked (?info ! l)"
    using assms(6,7) by (auto simp: check_access_def bind_ok_eq_Ok split: if_splits)
  show ?thesis using check_slots_Ok [OF r(1) assms(9)] r(2) assms(8) by (auto simp: Let_def)
qed

definition sample_access_call :: top_level_call_info where
  "sample_access_call = sample_call\<lparr>access := [(9, \<lparr>reads = [(''1'', ''0'')], writes = []\<rparr>)]\<rparr>"

definition sample_access_trace :: trace_helper where
  "sample_access_trace = sample_trace\<lparr>th_js_trace := \<lparr>calls_from_entry_point = [sample_access_call],
     keccak = [], logs = [], calls = [], debug = []\<rparr>\<rparr>"

theorem storage_access_sound_witness:
  "fst (check_storage_access sample_uo sample_access_trace) = Ok () \<and>
   is_staked (extract_stake_info sample_uo (th_result sample_access_trace) ! 2)"
proof -
  have l: "level_of (th_entry_point sample_access_trace) sample_access_call = Some 2"
    using sample_level
    by (simp add: sample_access_trace_def sample_trace_def level_of_def sample_access_call_def)
  have ck: "fst (check_storage_access sample_uo sample_access_trace) = Ok ()"
    using l
    by (simp add: check_storage_access_def set_stake_info_def stake_info_or_default_def Let_def
        sample_access_trace_def sample_trace_def parse_slots_def)
      (simp add: sample_access_call_def sample_call_def check_access_def check_slot_def
        associated_with_slot_def sample_eth_defs extract_stake_info_def stake_info_of_def is_staked_def
        sample_validation_result_def sample_signed_def Let_def)
  show ?thesis
    using storage_access_sound [OF ck, of sample_access_call 2 9 "\<lparr>reads = [(''1'', ''0'')], writes = []\<rparr>" "''1''"] l ck
    by (simp add: sample_access_trace_def sample_trace_def parse_slots_def associated_with_slot_def Let_def)
      (simp add: sample_access_call_def sample_eth_defs sample_signed_def)
qed

text \<open>C26: What the call stack check accepts into the entry point (rules OP-052 to OP-054 and OP-061): no
  parsed call outside the entry point carries value, and a parsed call from elsewhere into the entry
  point is to \<open>depositTo\<close> or to a method that the table of selectors does not list.\<close>

theorem call_stack_sound:
  assumes "fst (check_call_stack uo R H) = Ok ()"
    and "c \<in> set (parse_call_stack (th_entry_point H) (th_js_trace H))"
  shows "(address_or_default (ce_to c) \<noteq> ep_address (th_entry_point H) \<longrightarrow> unwrap_or_default (ce_value c) = 0) \<and>
    (address_or_default (ce_to c) = ep_address (th_entry_point H) \<longrightarrow>
     address_or_default (ce_from c) \<noteq> ep_address (th_entry_point H) \<longrightarrow>
     ce_method c = None \<or> ce_method c = Some ''depositTo'')"
proof -
  have "set_stake_info uo H = H\<lparr>th_stake_info := th_stake_info (set_stake_info uo H)\<rparr>"
    by (simp add: set_stake_info_def split: option.split)
  then have "th_entry_point (set_stake_info uo H) = th_entry_point H"
    "th_js_trace (set_stake_info uo H) = th_js_trace H"
    by (metis trace_helper.select_convs trace_helper.surjective trace_helper.update_convs(6))+
  then have "\<exists>vc info. check_call_entry (th_entry_point H) R vc info c = Ok ()"
    using assms by (auto simp: check_call_stack_def Let_def check_all_Ok)
  then show ?thesis by (auto simp: check_call_entry_def split: if_splits)
qed

definition sample_call_trace :: trace_helper where
  "sample_call_trace = sample_trace\<lparr>th_js_trace := \<lparr>calls_from_entry_point = [], keccak = [], logs = [],
     calls = [
      \<lparr>call_typ = ''CALL'', call_gas_used = None, call_data_ret = None, call_from = Some 7,
       call_to = Some 1000, call_method = Some [1, 2, 3, 4], call_gas = None, call_value = None\<rparr>,
      \<lparr>call_typ = ''RETURN'', call_gas_used = None, call_data_ret = None, call_from = None,
       call_to = None, call_method = None, call_gas = None, call_value = None\<rparr>],
     debug = []\<rparr>\<rparr>"

lemma sample_call_parsed:
  "parse_call_stack (th_entry_point sample_call_trace) (th_js_trace sample_call_trace) = [
     \<lparr>ce_typ = ''CALL'', ce_from = Some 7, ce_to = Some 1000, ce_method = None, ce_ret = None,
      ce_rev = None, ce_value = None\<rparr>]"
  by (simp add: parse_call_stack_def sample_call_trace_def sample_trace_def REVERT_OPCODE_def
      RETURN_OPCODE_def call_entry_of_def method_name_def SELECTORS_NAMES_def sample_eth_defs
      str_contains_def starts_with_def CREATE_OPCODE_def)

theorem call_stack_sound_witness:
  "fst (check_call_stack sample_uo empty_reputation sample_call_trace) = Ok () \<and>
   unwrap_or_default (ce_value \<lparr>ce_typ = ''CALL'', ce_from = Some 7, ce_to = Some 1000, ce_method = None,
     ce_ret = None, ce_rev = None, ce_value = None\<rparr>) = 0"
proof -
  have ck: "fst (check_call_stack sample_uo empty_reputation sample_call_trace) = Ok ()"
    using sample_call_parsed
    by (simp add: check_call_stack_def Let_def set_stake_info_def sample_call_trace_def sample_trace_def
        check_call_entry_def address_or_default_def sample_eth_defs stake_info_or_default_def
        extract_stake_info_def check_paymaster_return_def)
  show ?thesis
    using call_stack_sound [OF ck, of "hd (parse_call_stack (th_entry_point sample_call_trace)
      (th_js_trace sample_call_trace))"] ck
    unfolding sample_call_parsed by simp
qed

text \<open>A call from an account into the entry point through a selector that the table of selectors does
  not list is accepted by the call stack check, whatever the selector: any access that is not
  \<open>depositTo\<close> or the fallback is meant to be rejected (rule OP-054), but a name missing from the table
  is treated like the fallback.\<close>

theorem call_stack_accepts_unlisted_method:
  assumes "hm_get (SELECTORS_NAMES (th_entry_point H)) sig = None"
    and "calls (th_js_trace H) = [
      \<lparr>call_typ = ''CALL'', call_gas_used = None, call_data_ret = None, call_from = Some a,
       call_to = Some (ep_address (th_entry_point H)), call_method = Some sig, call_gas = None, call_value = v\<rparr>,
      \<lparr>call_typ = ''RETURN'', call_gas_used = None, call_data_ret = None, call_from = None,
       call_to = None, call_method = None, call_gas = None, call_value = None\<rparr>]"
  shows "fst (check_call_stack uo R H) = Ok ()"
proof -
  have H: "th_entry_point (set_stake_info uo H) = th_entry_point H"
    "th_js_trace (set_stake_info uo H) = th_js_trace H"
    by (simp_all add: set_stake_info_def split: option.split)
  have "parse_call_stack (th_entry_point H) (th_js_trace H) = [
      \<lparr>ce_typ = ''CALL'', ce_from = Some a, ce_to = Some (ep_address (th_entry_point H)), ce_method = None,
       ce_ret = None, ce_rev = None, ce_value = v\<rparr>]"
    by (simp add: parse_call_stack_def assms(2) REVERT_OPCODE_def RETURN_OPCODE_def call_entry_of_def
        method_name_def assms(1) str_contains_def starts_with_def CREATE_OPCODE_def)
  moreover have "check_paymaster_return E R vc \<lparr>ce_typ = ''CALL'', ce_from = Some a,
      ce_to = Some (ep_address (th_entry_point H)), ce_method = None, ce_ret = None, ce_rev = None,
      ce_value = v\<rparr> x = Ok ()" for E vc x
    by (simp add: check_paymaster_return_def split: prod.split)
  then have "check_all (check_paymaster_return E R vc \<lparr>ce_typ = ''CALL'', ce_from = Some a,
      ce_to = Some (ep_address (th_entry_point H)), ce_method = None, ce_ret = None, ce_rev = None,
      ce_value = v\<rparr>) xs = Ok ()" for E vc xs
    by (simp add: check_all_Ok)
  ultimately show ?thesis
    by (simp add: check_call_stack_def Let_def H check_call_entry_def address_or_default_def)
qed

theorem call_stack_accepts_unlisted_method_witness:
  "hm_get (SELECTORS_NAMES (th_entry_point sample_call_trace)) [1, 2, 3, 4] = None \<and>
   fst (check_call_stack sample_uo empty_reputation sample_call_trace) = Ok ()"
  using call_stack_accepts_unlisted_method [of sample_call_trace "[1, 2, 3, 4]" 7 None sample_uo empty_reputation]
  by (simp add: sample_call_trace_def sample_trace_def SELECTORS_NAMES_def sample_eth_defs)

end
