(* ===== verification/Validator.thy ===== *)
theory Validator
  imports Sanity_Checks Trace_Checks
begin

text \<open>
  The standard validator (\<open>validate/validator.rs\<close>): the chains of checks in the order of the tuples
  the constructors build, the simulation of the validation, and the outcome the pool works with.
\<close>

section \<open>Data\<close>

datatype validator_mode = Sanity | Simulation | SimulationTrace

record validation_outcome =
  vo_val_config :: validation_config
  prev_hash :: "user_operation_hash option"
  pre_fund :: U256
  vo_verification_gas_limit :: U256
  vo_valid_after :: "U256 option"
  vo_code_hashes :: "code_hash list option"
  vo_storage_map :: storage_map
  verified_block :: U256

text \<open>
  A validator: \<open>v_traced\<close> tells the canonical one, which has the trace checks, from the unsafe one,
  whose tuple of trace checks is empty. \<open>v_show_kind\<close> renders mempool errors.
\<close>

record validator =
  v_entry_point :: eth
  v_chain :: u64
  v_max_verification_gas :: U256
  v_min_priority_fee_per_gas :: U256
  v_traced :: bool
  v_show_kind :: "mempool_error_kind \<Rightarrow> string"

definition new_canonical ::
  "eth \<Rightarrow> u64 \<Rightarrow> U256 \<Rightarrow> U256 \<Rightarrow> (mempool_error_kind \<Rightarrow> string) \<Rightarrow> validator" where
  "new_canonical E chain max_vg min_pf shw = \<lparr>
     v_entry_point = E, v_chain = chain, v_max_verification_gas = max_vg,
     v_min_priority_fee_per_gas = min_pf, v_traced = True, v_show_kind = shw\<rparr>"

definition new_canonical_unsafe ::
  "eth \<Rightarrow> u64 \<Rightarrow> U256 \<Rightarrow> U256 \<Rightarrow> (mempool_error_kind \<Rightarrow> string) \<Rightarrow> validator" where
  "new_canonical_unsafe E chain max_vg min_pf shw = \<lparr>
     v_entry_point = E, v_chain = chain, v_max_verification_gas = max_vg,
     v_min_priority_fee_per_gas = min_pf, v_traced = False, v_show_kind = shw\<rparr>"

section \<open>Validation\<close>

definition sanity_checks ::
  "validator \<Rightarrow> user_operation \<Rightarrow> 's mempool \<Rightarrow> 's \<Rightarrow> 'r reputation_entry_op \<Rightarrow> 'r reputation \<Rightarrow>
   sanity_helper \<Rightarrow> (sanity_error, unit) outcome" where
  "sanity_checks V uo M s A R H =
     bind_ok (check_sender uo M s H) (\<lambda>_.
     bind_ok (check_verification_gas (v_max_verification_gas V) uo H) (\<lambda>_.
     bind_ok (check_call_gas uo) (\<lambda>_.
     bind_ok (check_max_fee (v_min_priority_fee_per_gas V) uo H) (\<lambda>_.
     bind_ok (check_paymaster uo H) (\<lambda>_.
     bind_ok (check_entities uo M s A R) (\<lambda>_.
     check_unstaked_entities uo M s A R H))))))"

definition simulation_error_of :: "eth \<Rightarrow> entry_point_error \<Rightarrow> simulation_error" where
  "simulation_error_of E err =
     (case err of
        FailedOp op \<Rightarrow> SimValidation (reason op)
      | EpProvider inner \<Rightarrow> SimProvider inner
      | _ \<Rightarrow> SimOther (entry_point_error_to_string E err))"

definition validator_simulate_validation ::
  "validator \<Rightarrow> user_operation \<Rightarrow> (simulation_error, simulate_validation_result) outcome" where
  "validator_simulate_validation V uo =
     map_err (simulation_error_of (v_entry_point V))
       (simulate_validation (v_entry_point V) (user_operation uo))"

definition validator_simulate_validation_trace ::
  "validator \<Rightarrow> user_operation \<Rightarrow> (simulation_error, geth_trace) outcome" where
  "validator_simulate_validation_trace V uo =
     map_err (simulation_error_of (v_entry_point V))
       (simulate_validation_trace (v_entry_point V) (user_operation uo))"

definition config_or_default :: "validation_config option \<Rightarrow> validation_config" where
  "config_or_default vc = (case vc of Some c \<Rightarrow> c | None \<Rightarrow> default_validation_config)"

definition outcome_config :: "'r reputation \<Rightarrow> validation_config option \<Rightarrow> validation_config" where
  "outcome_config R vc =
     (case vc of
        Some c \<Rightarrow> c
      | None \<Rightarrow> \<lparr>vc_min_stake = Some (rep_min_stake R),
                vc_min_unstake_delay = Some (rep_min_unstake_delay R), vc_topic = None,
                ignore_prev = False\<rparr>)"

text \<open>The steps of \<open>validate_user_operation\<close>, in the order the method runs them.\<close>

definition run_sanity ::
  "validator \<Rightarrow> user_operation \<Rightarrow> 's mempool \<Rightarrow> 's \<Rightarrow> 'r reputation_entry_op \<Rightarrow> 'r reputation \<Rightarrow>
   validation_config option \<Rightarrow> validator_mode set \<Rightarrow>
   (invalid_mempool_user_operation_error, unit) outcome" where
  "run_sanity V uo M s A R vc mode =
     (if Sanity \<in> mode then
        map_err InvSanity (sanity_checks V uo M s A R
          \<lparr>sh_entry_point = v_entry_point V, sh_chain = v_chain V, sh_val_config = config_or_default vc\<rparr>)
      else Ok ())"

definition run_simulation ::
  "validator \<Rightarrow> user_operation \<Rightarrow> simulate_validation_result \<Rightarrow> validation_config option \<Rightarrow>
   validator_mode set \<Rightarrow> (invalid_mempool_user_operation_error, U256 option) outcome" where
  "run_simulation V uo sim_res vc mode =
     (if Simulation \<in> mode then
        (case simulation_checks (v_entry_point V) uo
           \<lparr>sih_result = sim_res, sih_val_config = config_or_default vc, sih_valid_after = None\<rparr> of
           (Ok _, H) \<Rightarrow> Ok (sih_valid_after H)
         | (Err e, H) \<Rightarrow> Err (InvSimulation e)
         | (Panic, H) \<Rightarrow> Panic)
      else Ok None)"

definition run_verified_block ::
  "validator \<Rightarrow> (invalid_mempool_user_operation_error, U256) outcome" where
  "run_verified_block V =
     bind_ok (map_err (\<lambda>e. InvSanity (SanProvider e)) (client_get_block (client (v_entry_point V)))) (\<lambda>b.
     bind_ok (expect b) (\<lambda>b. expect (block_hash b)))"

definition run_trace ::
  "validator \<Rightarrow> user_operation \<Rightarrow> 's mempool \<Rightarrow> 's \<Rightarrow> 'r reputation \<Rightarrow> simulate_validation_result \<Rightarrow>
   validation_config option \<Rightarrow> validator_mode set \<Rightarrow>
   (invalid_mempool_user_operation_error, code_hash list option \<times> storage_map) outcome" where
  "run_trace V uo M s R sim_res vc mode =
     (if SimulationTrace \<in> mode then
        bind_ok (map_err InvSimulation (validator_simulate_validation_trace V uo)) (\<lambda>geth_trace.
        bind_ok (map_err (\<lambda>e. InvSimulation (SimValidation e))
            (js_tracer_frame_of (v_entry_point V) geth_trace)) (\<lambda>js_trace.
          let H = \<lparr>th_entry_point = v_entry_point V, th_chain = v_chain V, th_result = sim_res,
                   th_js_trace = js_trace, th_val_config = config_or_default vc,
                   th_stake_info = None, th_code_hashes = None\<rparr> in
          (case (if v_traced V then trace_checks (v_show_kind V) uo M s R H else ret () H) of
             (Ok _, H') \<Rightarrow> Ok (th_code_hashes H', extract_storage_map js_trace)
           | (Err e, H') \<Rightarrow> Err (InvSimulation e)
           | (Panic, H') \<Rightarrow> Panic)))
      else Ok (None, default_storage_map))"

definition validate_user_operation ::
  "validator \<Rightarrow> user_operation \<Rightarrow> 's mempool \<Rightarrow> 's \<Rightarrow> 'r reputation_entry_op \<Rightarrow> 'r reputation \<Rightarrow>
   validation_config option \<Rightarrow> validator_mode set \<Rightarrow>
   (invalid_mempool_user_operation_error, validation_outcome) outcome" where
  "validate_user_operation V uo M s A R vc mode =
     bind_ok (run_sanity V uo M s A R vc mode) (\<lambda>_.
       let prev = map_option hash (get_prev_by_sender M uo s) in
     bind_ok (map_err InvSimulation (validator_simulate_validation V uo)) (\<lambda>sim_res.
     bind_ok (run_simulation V uo sim_res vc mode) (\<lambda>valid_after.
     bind_ok (run_verified_block V) (\<lambda>blk.
     bind_ok (run_trace V uo M s R sim_res vc mode) (\<lambda>(hashes, smap).
       Ok \<lparr>vo_val_config = outcome_config R vc, prev_hash = prev,
           pre_fund = extract_pre_fund sim_res,
           vo_verification_gas_limit = extract_verification_gas_limit sim_res,
           vo_valid_after = valid_after, vo_code_hashes = hashes, vo_storage_map = smap,
           verified_block = blk\<rparr>)))))"

end
