(* ===== verification/Uopool.thy ===== *)
theory Uopool
  imports Validator
begin

text \<open>
  The user operation pool (\<open>uopool.rs\<close>) and the updates its builder registers (\<open>builder.rs\<close>):
  adding a validated operation, choosing a bundle, removing included operations and serving
  stake information. The pool combines the mempool, the registry and the validator.
\<close>

section \<open>The pool\<close>

record publish_message =
  pm_user_operation :: user_operation
  verified_at_block_hash :: U256
  pm_validation_config :: validation_config

text \<open>
  The sending end of the channel to the p2p service: whether the receiver still exists, and the
  messages sent so far.
\<close>

record network_channel =
  nc_open :: bool
  nc_sent :: "publish_message list"

record ('s, 'r) uopool =
  up_id :: h256
  up_mode :: uopool_mode
  up_entry_point :: eth
  up_validator :: validator
  up_mempool :: "'s mempool"
  up_tables :: 's
  up_entries :: "'r reputation_entry_op"
  up_reputation :: "'r reputation"
  up_max_verification_gas :: U256
  up_chain :: chain_id
  up_network :: "network_channel option"

text \<open>An \<open>eyre\<close> report is its context together with the error that caused it.\<close>

datatype pool_error =
    GettingAllFailed mempool_error_kind
  | GettingSortedFailed mempool_error_kind
  | StatusFailed reputation_error
  | RemovingBannedFailed user_operation_hash mempool_error_kind
  | RemovingFailed user_operation_hash mempool_error_kind
  | BalanceFailed address entry_point_error
  | ClientFailed string
  | EntryPointFailed entry_point_error
  | NoBlock
  | NoBaseFee
  | NoUserOperation

definition on_mempool :: "('s, 'e, 'a) op \<Rightarrow> (('s, 'r) uopool, 'e, 'a) op" where
  "on_mempool f P = (case f (up_tables P) of (r, t) \<Rightarrow> (r, P\<lparr>up_tables := t\<rparr>))"

definition on_reputation :: "('r reputation, 'e, 'a) op \<Rightarrow> (('s, 'r) uopool, 'e, 'a) op" where
  "on_reputation f P = (case f (up_reputation P) of (r, t) \<Rightarrow> (r, P\<lparr>up_reputation := t\<rparr>))"

text \<open>\<open>ok()\<close> on a result: the error is dropped, a panic is not.\<close>

definition ignore_err :: "('s, 'e, 'a) op \<Rightarrow> ('s, 'f, unit) op" where
  "ignore_err f s =
     (case f s of (Ok _, t) \<Rightarrow> (Ok (), t) | (Err _, t) \<Rightarrow> (Ok (), t) | (Panic, t) \<Rightarrow> (Panic, t))"

section \<open>Simple requests\<close>

definition pool_get_all :: "('s, 'r) uopool \<Rightarrow> (pool_error, user_operation list) outcome" where
  "pool_get_all P = map_err GettingAllFailed (mempool_get_all (up_mempool P) (up_tables P))"

definition pool_get_reputation :: "('s, 'r) uopool \<Rightarrow> ('e, reputation_entry list) outcome" where
  "pool_get_reputation P =
     (case reputation_get_all (up_entries P) (up_reputation P) of
        Ok xs \<Rightarrow> Ok xs
      | Err _ \<Rightarrow> Ok []
      | Panic \<Rightarrow> Panic)"

definition pool_set_reputation ::
  "reputation_entry list \<Rightarrow> (('s, 'r) uopool, reputation_error, unit) op" where
  "pool_set_reputation ens P = on_reputation (set_entities (up_entries P) ens) P"

definition pool_clear_mempool :: "(('s, 'r) uopool, mempool_error_kind, unit) op" where
  "pool_clear_mempool P = on_mempool (mempool_clear (up_mempool P)) P"

definition pool_clear_reputation :: "(('s, 'r) uopool, reputation_error, unit) op" where
  "pool_clear_reputation P = on_reputation (reputation_clear (up_entries P)) P"

definition pool_clear :: "(('s, 'r) uopool, mempool_error_kind, unit) op" where
  "pool_clear =
     bind_op pool_clear_mempool (\<lambda>_. map_err_op kind_of_reputation pool_clear_reputation)"

definition pool_validate_user_operation ::
  "user_operation \<Rightarrow> validation_config option \<Rightarrow> ('s, 'r) uopool \<Rightarrow>
   (invalid_mempool_user_operation_error, validation_outcome) outcome" where
  "pool_validate_user_operation uo vc P =
     validate_user_operation (up_validator P) uo (up_mempool P) (up_tables P) (up_entries P)
       (up_reputation P) vc {Sanity, Simulation, SimulationTrace}"

definition remove_user_operation :: "user_operation_hash \<Rightarrow> (('s, 'r) uopool, 'e, unit) op" where
  "remove_user_operation h P = ignore_err (on_mempool (mempool_remove (up_mempool P) h)) P"

definition remove_user_operation_by_entity :: "address \<Rightarrow> (('s, 'r) uopool, 'e, unit) op" where
  "remove_user_operation_by_entity a P =
     ignore_err (on_mempool (mempool_remove_by_entity (up_mempool P) a)) P"

definition get_sorted_user_operations ::
  "('s, 'r) uopool \<Rightarrow> (pool_error, user_operation list) outcome" where
  "get_sorted_user_operations P =
     map_err GettingSortedFailed (mempool_get_sorted (up_mempool P) (up_tables P))"

definition pool_base_fee_per_gas :: "('s, 'r) uopool \<Rightarrow> (pool_error, U256) outcome" where
  "pool_base_fee_per_gas P =
     bind_ok (map_err ClientFailed (client_get_block (client (up_entry_point P)))) (\<lambda>b.
     bind_ok (ok_or NoBlock b) (\<lambda>b. ok_or NoBaseFee (base_fee_per_gas b)))"

definition pool_get_stake_info ::
  "address \<Rightarrow> ('s, 'r) uopool \<Rightarrow> (pool_error, stake_info_response) outcome" where
  "pool_get_stake_info a P =
     bind_ok (map_err EntryPointFailed (get_deposit_info (up_entry_point P) a)) (\<lambda>info.
       let si = \<lparr>si_address = a, stake = ucast (di_stake info), unstake_delay = ucast (unstake_delay_sec info)\<rparr>
       in Ok \<lparr>sir_stake_info = si, sir_is_staked = is_ok (verify_stake (up_reputation P) [] (Some si) None None)\<rparr>)"

section \<open>Adding an operation\<close>

definition publish :: "user_operation \<Rightarrow> validation_outcome \<Rightarrow> (('s, 'r) uopool, 'e, unit) op" where
  "publish uo res P =
     (case up_network P of
        None \<Rightarrow> (Ok (), P)
      | Some ch \<Rightarrow>
          if nc_open ch then
            (Ok (), P\<lparr>up_network := Some (ch\<lparr>nc_sent := nc_sent ch @
               [\<lparr>pm_user_operation = uo, verified_at_block_hash = verified_block res,
                 pm_validation_config = vo_val_config res\<rparr>]\<rparr>)\<rparr>)
          else (Panic, P))"

definition seen :: "user_operation_hash \<Rightarrow> address \<Rightarrow> (('s, 'r) uopool, mempool_error, unit) op" where
  "seen h a P =
     map_err_op (\<lambda>e. \<lparr>me_hash = h, me_kind = kind_of_reputation e\<rparr>)
       (on_reputation (increment_seen (up_entries P) a)) P"

definition store_code_hashes ::
  "user_operation_hash \<Rightarrow> code_hash list option \<Rightarrow> (('s, 'r) uopool, 'e, unit) op" where
  "store_code_hashes h hs P =
     (case hs of
        Some hs \<Rightarrow> ignore_err (on_mempool (mempool_set_code_hashes (up_mempool P) h hs)) P
      | None \<Rightarrow> (Ok (), P))"

definition add_user_operation ::
  "user_operation \<Rightarrow> (invalid_mempool_user_operation_error, validation_outcome) outcome \<Rightarrow>
   (('s, 'r) uopool, mempool_error, user_operation_hash) op" where
  "add_user_operation uo res P =
     (case res of
        Panic \<Rightarrow> (Panic, P)
      | Err err \<Rightarrow>
          bind_op (case err of
              InvSanity (SanReputation (BannedEntity ent a)) \<Rightarrow> remove_user_operation_by_entity a
            | _ \<Rightarrow> ret ())
            (\<lambda>_. fail \<lparr>me_hash = hash uo, me_kind = InvalidUserOperation err\<rparr>) P
      | Ok res \<Rightarrow>
          bind_op (when_some (prev_hash res) remove_user_operation) (\<lambda>_.
          bind_op (publish uo res) (\<lambda>_.
          bind_op (map_err_op (\<lambda>e. \<lparr>me_hash = hash uo, me_kind = e\<rparr>)
              (on_mempool (mempool_add (up_mempool P) uo))) (\<lambda>uo_hash.
          bind_op (store_code_hashes uo_hash (vo_code_hashes res)) (\<lambda>_.
          bind_op (seen uo_hash (sender (user_operation uo))) (\<lambda>_.
          bind_op (when_some (get_address (init_code (user_operation uo))) (seen uo_hash)) (\<lambda>_.
          bind_op (when_some (get_address (paymaster_and_data (user_operation uo))) (seen uo_hash)) (\<lambda>_.
          ret uo_hash))))))) P)"

fun add_user_operations ::
  "user_operation list \<Rightarrow> validation_config option \<Rightarrow> (('s, 'r) uopool, mempool_error, unit) op" where
  "add_user_operations [] vc P = (Ok (), P)"
| "add_user_operations (uo # uos) vc P =
     bind_op (add_user_operation uo (pool_validate_user_operation uo vc P))
       (\<lambda>_. add_user_operations uos vc) P"

section \<open>Removing included operations\<close>

definition included :: "address \<Rightarrow> (('s, 'r) uopool, 'e, unit) op" where
  "included a P = ignore_err (on_reputation (increment_included (up_entries P) a)) P"

definition remove_user_operations :: "user_operation list \<Rightarrow> (('s, 'r) uopool, 'e, unit) op" where
  "remove_user_operations =
     for_each (\<lambda>uo.
       bind_op (remove_user_operation (hash uo)) (\<lambda>_.
       bind_op (included (sender (user_operation uo))) (\<lambda>_.
       bind_op (when_some (get_address (paymaster_and_data (user_operation uo))) included) (\<lambda>_.
       when_some (get_address (init_code (user_operation uo))) included))))"

text \<open>
  A new block: the transactions of the block are an argument (the client's answer), as is the decoder
  of \<open>handleOps\<close> input.
\<close>

definition handle_block_update ::
  "(string, transaction list option) outcome \<Rightarrow> (bytes \<Rightarrow> (user_operation_signed list \<times> address) option) \<Rightarrow>
   (('s, 'r) uopool, pool_error, unit) op" where
  "handle_block_update txs decode P =
     (case map_err ClientFailed txs of
        Err e \<Rightarrow> (Err e, P)
      | Panic \<Rightarrow> (Panic, P)
      | Ok None \<Rightarrow> (Ok (), P)
      | Ok (Some txs) \<Rightarrow>
          for_each (\<lambda>tx.
            if tx_to tx = Some (ep_address (up_entry_point P)) then
              (case decode (tx_input tx) of
                 Some (uos, _) \<Rightarrow>
                   remove_user_operations (map (\<lambda>uo. from_user_operation_signed
                     (user_operation_hash (eth_abi (up_entry_point P)) uo
                        (ep_address (up_entry_point P)) (up_chain P)) uo) uos)
               | None \<Rightarrow> ret ())
            else ret ()) txs P)"

section \<open>A sample pool\<close>

text \<open>
  An in-memory pool over the sample chain, without p2p network and with the unsafe validator, for
  evaluating the definitions.
\<close>

definition sample_validator :: validator where
  "sample_validator = new_canonical_unsafe sample_eth 1 1000000 0 (\<lambda>_. [])"

definition sample_pool :: "U256 \<Rightarrow> (memory_tables, memory_entries) uopool" where
  "sample_pool max_gas = \<lparr>
     up_id = 0, up_mode = Unsafe, up_entry_point = sample_eth, up_validator = sample_validator,
     up_mempool = memory_mempool, up_tables = empty_tables, up_entries = memory_entries_op,
     up_reputation = empty_reputation, up_max_verification_gas = max_gas, up_chain = 1,
     up_network = None\<rparr>"

definition sample_outcome :: validation_outcome where
  "sample_outcome = \<lparr>
     vo_val_config = \<lparr>vc_min_stake = Some 1, vc_min_unstake_delay = Some 0, vc_topic = None,
       ignore_prev = False\<rparr>,
     prev_hash = None, pre_fund = 1000, vo_verification_gas_limit = 100000, vo_valid_after = None,
     vo_code_hashes = None, vo_storage_map = default_storage_map, verified_block = 99\<rparr>"

lemma sample_prev [simp]: "get_prev_by_sender memory_mempool uo empty_tables = None"
  by (simp add: get_prev_by_sender_def get_all_by_sender_def lookup_all_def memory_mempool_def
      memory_addr_act_def hash_map_get_all_by_address_def empty_tables_def max_by_key.simps)

lemma sample_simulated:
  "map_err InvSimulation (validator_simulate_validation sample_validator uo) =
     Ok (ValidationResult sample_validation_result)"
  by (simp add: validator_simulate_validation_def simulate_validation_def sample_validator_def
      new_canonical_unsafe_def sample_eth_defs decode_revert_error_def)

lemma sample_block: "run_verified_block sample_validator = Ok 99"
  by (simp add: run_verified_block_def sample_validator_def new_canonical_unsafe_def sample_eth_defs)

lemma sample_run_simulation:
  assumes "Simulation \<in> mode"
    and "pre_verification_gas (user_operation uo) = 60000"
    and "verification_gas_limit (user_operation uo) = 200000"
  shows "run_simulation sample_validator uo (ValidationResult sample_validation_result) vc mode = Ok None"
  using assms
  by (simp add: run_simulation_def simulation_checks_def check_signature_def check_timestamp_def
      check_verification_extra_gas_def extra_gas_of_def u256_sub_def u256_add_def as_u64_def
      extract_timestamps_def sample_validation_result_def sample_validator_def new_canonical_unsafe_def
      sample_eth_defs outcome_simps bind_op_def MIN_EXTRA_GAS_def EXPIRATION_TIMESTAMP_DIFF_def)

lemma sample_run_trace:
  assumes "SimulationTrace \<in> mode"
  shows "run_trace sample_validator uo M s R r vc mode = Ok (None, default_storage_map)"
  using assms
  by (simp add: run_trace_def validator_simulate_validation_trace_def simulate_validation_trace_def
      trace_result_def sample_validator_def new_canonical_unsafe_def sample_eth_defs
      extract_storage_map_def default_storage_map_def)

lemma sample_extracts:
  "extract_pre_fund (ValidationResult sample_validation_result) = 1000"
  "extract_verification_gas_limit (ValidationResult sample_validation_result) = 100000"
  by (simp_all add: extract_pre_fund_def extract_verification_gas_limit_def sample_validation_result_def)

lemma sample_second_validation:
  assumes "pre_verification_gas (user_operation uo) = 60000"
    and "verification_gas_limit (user_operation uo) = 200000"
  shows "validate_user_operation sample_validator uo memory_mempool empty_tables memory_entries_op
     empty_reputation None {Simulation, SimulationTrace} = Ok sample_outcome"
  using assms
  by (simp add: validate_user_operation_def run_sanity_def sample_simulated sample_run_simulation
      sample_block sample_run_trace outcome_config_def empty_reputation_def sample_outcome_def
      sample_extracts)

end
