(* ===== verification/Bundle_Selection.thy ===== *)
theory Bundle_Selection
  imports Uopool "HOL-Library.Sublist"
begin

text \<open>
  Choosing the operations of the next bundle (\<open>UoPool::bundle_user_operations\<close> in \<open>uopool.rs\<close>): the
  loop over the sorted operations with its accumulated gas, paymaster deposits and entity counts,
  and what a finished bundle guarantees.
\<close>

section \<open>The loop\<close>

record bundle_acc =
  ba_valid :: "user_operation list"
  ba_senders :: "address hash_set"
  ba_gas :: U256
  ba_paymaster_dep :: "(address, U256) hash_map"
  ba_entity_c :: "(address, nat) hash_map"
  ba_storage_maps :: "storage_map list"

definition empty_bundle :: bundle_acc where
  "empty_bundle = \<lparr>ba_valid = [], ba_senders = [], ba_gas = 0, ba_paymaster_dep = [],
     ba_entity_c = [], ba_storage_maps = []\<rparr>"

definition entity_count :: "bundle_acc \<Rightarrow> address option \<Rightarrow> nat" where
  "entity_count acc a =
     (case a of
        Some a \<Rightarrow> (case hm_get (ba_entity_c acc) a of Some c \<Rightarrow> c | None \<Rightarrow> 0)
      | None \<Rightarrow> 0)"

definition count_entity :: "address \<Rightarrow> bundle_acc \<Rightarrow> bundle_acc" where
  "count_entity a acc =
     acc\<lparr>ba_entity_c := hm_insert a
       (case hm_get (ba_entity_c acc) a of Some c \<Rightarrow> c + 1 | None \<Rightarrow> 1) (ba_entity_c acc)\<rparr>"

text \<open>An operation must not touch the storage of the sender of another operation at hand.\<close>

definition touches_other_sender ::
  "user_operation \<Rightarrow> address set \<Rightarrow> storage_map \<Rightarrow> bool" where
  "touches_other_sender uo senders_all sm =
     list_ex (\<lambda>a. a \<noteq> sender (user_operation uo) \<and> a \<in> senders_all)
       (hm_keys (root_hashes sm) @ hm_keys (slots sm))"

datatype loop_ctl = Continue | Break

text \<open>What happens to an operation that passed its second validation.\<close>

definition include_op ::
  "eth \<Rightarrow> U256 \<Rightarrow> address set \<Rightarrow> user_operation \<Rightarrow> validation_outcome \<Rightarrow> bundle_acc \<Rightarrow>
   (pool_error, loop_ctl \<times> bundle_acc) outcome" where
  "include_op E max_gas senders_all uo val_out acc0 =
     (if vo_valid_after val_out \<noteq> None then Ok (Continue, acc0)
      else if touches_other_sender uo senders_all (vo_storage_map val_out) then Ok (Continue, acc0)
      else
        let acc = acc0\<lparr>ba_storage_maps := ba_storage_maps acc0 @ [vo_storage_map val_out]\<rparr>;
            gas_cost = sat_add (vo_verification_gas_limit val_out) (call_gas_limit (user_operation uo));
            gas_total_new = sat_add (ba_gas acc) gas_cost;
            finish = (\<lambda>acc.
              let acc = (case get_address (init_code (user_operation uo)) of
                           Some f \<Rightarrow> count_entity f acc | None \<Rightarrow> acc) in
              Ok (Continue, acc\<lparr>ba_gas := gas_total_new, ba_valid := ba_valid acc @ [uo],
                ba_senders := snd (hs_insert (sender (user_operation uo)) (ba_senders acc))\<rparr>)) in
        if gas_total_new > max_gas then Ok (Break, acc)
        else
          (case get_address (paymaster_and_data (user_operation uo)) of
             Some p \<Rightarrow>
               bind_ok (case hm_get (ba_paymaster_dep acc) p of
                   Some n \<Rightarrow> Ok n
                 | None \<Rightarrow> map_err (BalanceFailed p) (balance_of E p)) (\<lambda>balance.
                 if balance < pre_fund val_out then Ok (Continue, acc)
                 else finish ((count_entity p acc)\<lparr>ba_paymaster_dep :=
                   hm_insert p (sat_sub balance (pre_fund val_out)) (ba_paymaster_dep acc)\<rparr>))
           | None \<Rightarrow> finish acc))"

definition throttled_out :: "status \<Rightarrow> status \<Rightarrow> nat \<Rightarrow> nat \<Rightarrow> bool" where
  "throttled_out p_st f_st p_c f_c =
     (p_st = THROTTLED \<and> p_c > THROTTLED_ENTITY_BUNDLE_COUNT \<or>
      f_st = THROTTLED \<and> f_c > THROTTLED_ENTITY_BUNDLE_COUNT)"

definition pool_status :: "bytes \<Rightarrow> ('s, 'r) uopool \<Rightarrow> (pool_error, status) outcome" where
  "pool_status bs P =
     bind_ok (map_err StatusFailed (get_status_from_bytes (up_entries P) bs (up_reputation P)))
       (\<lambda>st. Ok (status_from_u64 st))"

definition drop_op ::
  "(mempool_error_kind \<Rightarrow> pool_error) \<Rightarrow> user_operation_hash \<Rightarrow> bundle_acc \<Rightarrow>
   (('s, 'r) uopool, pool_error, loop_ctl \<times> bundle_acc) op" where
  "drop_op ctx h acc P =
     bind_op (map_err_op ctx (on_mempool (mempool_remove (up_mempool P) h)))
       (\<lambda>_. ret (Continue, acc)) P"

definition bundle_step ::
  "address set \<Rightarrow> user_operation \<Rightarrow> bundle_acc \<Rightarrow>
   (('s, 'r) uopool, pool_error, loop_ctl \<times> bundle_acc) op" where
  "bundle_step senders_all uo acc P =
     (if sender (user_operation uo) \<in> set (ba_senders acc) then ret (Continue, acc) P
      else
        bind_op (query (pool_status (paymaster_and_data (user_operation uo)))) (\<lambda>p_st.
        bind_op (query (pool_status (init_code (user_operation uo)))) (\<lambda>f_st.
          let p_c = entity_count acc (get_address (paymaster_and_data (user_operation uo)));
              f_c = entity_count acc (get_address (init_code (user_operation uo))) in
          if p_st = BANNED \<or> f_st = BANNED then
            drop_op (RemovingBannedFailed (hash uo)) (hash uo) acc
          else if throttled_out p_st f_st p_c f_c then ret (Continue, acc)
          else (\<lambda>P.
            case validate_user_operation (up_validator P) uo (up_mempool P) (up_tables P) (up_entries P)
                   (up_reputation P) None {Simulation, SimulationTrace} of
              Ok val_out \<Rightarrow>
                (include_op (up_entry_point P) (up_max_verification_gas P) senders_all uo val_out acc, P)
            | Err _ \<Rightarrow> drop_op (RemovingFailed (hash uo)) (hash uo) acc P
            | Panic \<Rightarrow> (Panic, P)))) P)"

fun bundle_loop ::
  "address set \<Rightarrow> user_operation list \<Rightarrow> bundle_acc \<Rightarrow> (('s, 'r) uopool, pool_error, bundle_acc) op" where
  "bundle_loop senders_all [] acc = ret acc"
| "bundle_loop senders_all (uo # uos) acc =
     bind_op (bundle_step senders_all uo acc) (\<lambda>(ctl, acc').
       if ctl = Break then ret acc' else bundle_loop senders_all uos acc')"

definition bundle_user_operations ::
  "user_operation list \<Rightarrow> (('s, 'r) uopool, pool_error, user_operation list \<times> storage_map) op" where
  "bundle_user_operations uos =
     bind_op (bundle_loop (set (map (\<lambda>uo. sender (user_operation uo)) uos)) uos empty_bundle) (\<lambda>acc.
       ret (ba_valid acc, merge_storage_maps (ba_storage_maps acc)))"

section \<open>What one round does\<close>

text \<open>
  The second validation of an operation, against the pool's set-up and tables \<open>t\<close>; the loop removes
  operations from the tables between rounds and changes nothing else of the pool.
\<close>

definition second_validation ::
  "('s, 'r) uopool \<Rightarrow> 's \<Rightarrow> user_operation \<Rightarrow>
   (invalid_mempool_user_operation_error, validation_outcome) outcome" where
  "second_validation P t uo =
     validate_user_operation (up_validator P) uo (up_mempool P) t (up_entries P) (up_reputation P)
       None {Simulation, SimulationTrace}"

abbreviation paymaster_of :: "user_operation \<Rightarrow> address option" where
  "paymaster_of uo \<equiv> get_address (paymaster_and_data (user_operation uo))"

abbreviation factory_of :: "user_operation \<Rightarrow> address option" where
  "factory_of uo \<equiv> get_address (init_code (user_operation uo))"

abbreviation sender_of :: "user_operation \<Rightarrow> address" where
  "sender_of uo \<equiv> sender (user_operation uo)"

definition op_gas :: "user_operation \<Rightarrow> validation_outcome \<Rightarrow> nat" where
  "op_gas uo v = unat (vo_verification_gas_limit v) + unat (call_gas_limit (user_operation uo))"

text \<open>The statuses under which an operation is considered at all.\<close>

definition admissible :: "('s, 'r) uopool \<Rightarrow> bundle_acc \<Rightarrow> user_operation \<Rightarrow> bool" where
  "admissible P acc uo =
     (\<exists>p_st f_st. pool_status (paymaster_and_data (user_operation uo)) P = Ok p_st \<and>
        pool_status (init_code (user_operation uo)) P = Ok f_st \<and>
        p_st \<noteq> BANNED \<and> f_st \<noteq> BANNED \<and>
        \<not> throttled_out p_st f_st (entity_count acc (paymaster_of uo)) (entity_count acc (factory_of uo)))"

text \<open>How the accumulated values change when an operation is taken into the bundle.\<close>

definition takes ::
  "eth \<Rightarrow> U256 \<Rightarrow> user_operation \<Rightarrow> validation_outcome \<Rightarrow> bundle_acc \<Rightarrow> bundle_acc \<Rightarrow> bool" where
  "takes E max_gas uo v acc acc' =
     (ba_valid acc' = ba_valid acc @ [uo] \<and>
      set (ba_senders acc') = insert (sender_of uo) (set (ba_senders acc)) \<and>
      ba_gas acc' = sat_add (ba_gas acc)
        (sat_add (vo_verification_gas_limit v) (call_gas_limit (user_operation uo))) \<and>
      ba_gas acc' \<le> max_gas \<and>
      (case paymaster_of uo of
         None \<Rightarrow> ba_paymaster_dep acc' = ba_paymaster_dep acc
       | Some p \<Rightarrow> \<exists>balance.
           (case hm_get (ba_paymaster_dep acc) p of
              Some n \<Rightarrow> balance = n | None \<Rightarrow> balance_of E p = Ok balance) \<and>
           pre_fund v \<le> balance \<and>
           ba_paymaster_dep acc' = hm_insert p (sat_sub balance (pre_fund v)) (ba_paymaster_dep acc)) \<and>
      (\<forall>a. entity_count acc' (Some a) = entity_count acc (Some a) +
         (if paymaster_of uo = Some a then 1 else 0) + (if factory_of uo = Some a then 1 else 0)))"

definition picks ::
  "('s, 'r) uopool \<Rightarrow> address set \<Rightarrow> user_operation \<Rightarrow> validation_outcome \<Rightarrow> bundle_acc \<Rightarrow> bundle_acc \<Rightarrow>
   bool" where
  "picks P senders_all uo v acc acc' =
     (sender_of uo \<notin> set (ba_senders acc) \<and> admissible P acc uo \<and>
      (\<exists>t. second_validation P t uo = Ok v) \<and> vo_valid_after v = None \<and>
      \<not> touches_other_sender uo senders_all (vo_storage_map v) \<and>
      takes (up_entry_point P) (up_max_verification_gas P) uo v acc acc')"

lemma entity_count_count_entity [simp]:
  "entity_count (count_entity a acc) (Some b) = entity_count acc (Some b) + (if a = b then 1 else 0)"
  by (auto simp: entity_count_def count_entity_def split: option.splits)

lemma entity_count_update [simp]:
  "entity_count (acc\<lparr>ba_gas := g\<rparr>) a = entity_count acc a"
  "entity_count (acc\<lparr>ba_valid := us\<rparr>) a = entity_count acc a"
  "entity_count (acc\<lparr>ba_senders := ss\<rparr>) a = entity_count acc a"
  "entity_count (acc\<lparr>ba_paymaster_dep := d\<rparr>) a = entity_count acc a"
  "entity_count (acc\<lparr>ba_storage_maps := m\<rparr>) a = entity_count acc a"
  by (simp_all add: entity_count_def split: option.splits)

lemma count_entity_fields [simp]:
  "ba_valid (count_entity a acc) = ba_valid acc"
  "ba_senders (count_entity a acc) = ba_senders acc"
  "ba_gas (count_entity a acc) = ba_gas acc"
  "ba_paymaster_dep (count_entity a acc) = ba_paymaster_dep acc"
  "ba_storage_maps (count_entity a acc) = ba_storage_maps acc"
  by (simp_all add: count_entity_def)

lemma set_hs_insert [simp]: "set (snd (hs_insert x s)) = insert x (set s)"
  by (simp add: hs_insert_def)

lemma include_op_cases:
  assumes "include_op E max_gas S uo v acc = Ok (ctl, acc')"
  obtains (skip) sms where "acc' = acc\<lparr>ba_storage_maps := sms\<rparr>"
  | (take) "ctl = Continue" "vo_valid_after v = None"
      "\<not> touches_other_sender uo S (vo_storage_map v)" "takes E max_gas uo v acc acc'"
proof -
  let ?acc = "acc\<lparr>ba_storage_maps := ba_storage_maps acc @ [vo_storage_map v]\<rparr>"
  have "(\<exists>sms. acc' = acc\<lparr>ba_storage_maps := sms\<rparr>) \<or>
      ctl = Continue \<and> takes E max_gas uo v acc acc'"
    if "vo_valid_after v = None" "\<not> touches_other_sender uo S (vo_storage_map v)"
    using assms that
    by (auto simp: include_op_def Let_def takes_def not_less bind_ok_eq_Ok
        split: if_splits option.splits)
  moreover have "acc' = acc\<lparr>ba_storage_maps := ba_storage_maps acc\<rparr>"
    if "vo_valid_after v \<noteq> None \<or> touches_other_sender uo S (vo_storage_map v)"
    using assms that by (auto simp: include_op_def split: if_splits)
  ultimately show thesis using skip take by blast
qed

lemma drop_op_cases:
  assumes "drop_op ctx h acc P = (Ok (ctl, acc'), Q)"
  shows "acc' = acc" "\<exists>t. Q = P\<lparr>up_tables := t\<rparr>"
  using assms
  by (auto simp: drop_op_def bind_op_eq_Ok map_err_op_def on_mempool_def split: prod.splits)

lemma bundle_step_fresh:
  assumes "sender_of uo \<notin> set (ba_senders acc)"
    and "pool_status (paymaster_and_data (user_operation uo)) P = Ok p_st"
    and "pool_status (init_code (user_operation uo)) P = Ok f_st"
  shows "bundle_step S uo acc P =
     (if p_st = BANNED \<or> f_st = BANNED then drop_op (RemovingBannedFailed (hash uo)) (hash uo) acc P
      else if throttled_out p_st f_st (entity_count acc (paymaster_of uo)) (entity_count acc (factory_of uo))
      then (Ok (Continue, acc), P)
      else case second_validation P (up_tables P) uo of
          Ok v \<Rightarrow> (include_op (up_entry_point P) (up_max_verification_gas P) S uo v acc, P)
        | Err _ \<Rightarrow> drop_op (RemovingFailed (hash uo)) (hash uo) acc P
        | Panic \<Rightarrow> (Panic, P))"
  using assms by (simp add: bundle_step_def bind_op_query Let_def second_validation_def)

lemma bundle_step_status:
  assumes "bundle_step S uo acc P = (Ok r, Q)" and "sender_of uo \<notin> set (ba_senders acc)"
  obtains p_st f_st where "pool_status (paymaster_and_data (user_operation uo)) P = Ok p_st"
    and "pool_status (init_code (user_operation uo)) P = Ok f_st"
  using assms
  by (cases "pool_status (paymaster_and_data (user_operation uo)) P";
      cases "pool_status (init_code (user_operation uo)) P")
    (simp_all add: bundle_step_def bind_op_query)

lemma bundle_step_validated:
  assumes "bundle_step S uo acc P = (Ok (ctl, acc'), Q)" and "sender_of uo \<notin> set (ba_senders acc)"
  obtains (dropped) t where "acc' = acc" "Q = P\<lparr>up_tables := t\<rparr>"
  | (validated) v where "Q = P" "admissible P acc uo" "second_validation P (up_tables P) uo = Ok v"
      "include_op (up_entry_point P) (up_max_verification_gas P) S uo v acc = Ok (ctl, acc')"
proof -
  obtain p_st f_st where st: "pool_status (paymaster_and_data (user_operation uo)) P = Ok p_st"
    "pool_status (init_code (user_operation uo)) P = Ok f_st"
    using bundle_step_status [OF assms] by blast
  note step = assms(1) [unfolded bundle_step_fresh [OF assms(2) st]]
  show thesis
  proof (cases "p_st = BANNED \<or> f_st = BANNED")
    case True
    then show thesis using step drop_op_cases dropped by metis
  next
    case no_ban: False
    show thesis
    proof (cases "throttled_out p_st f_st (entity_count acc (paymaster_of uo)) (entity_count acc (factory_of uo))")
      case True
      then show thesis using step no_ban dropped [of "up_tables P"] by simp
    next
      case False
      with no_ban st have adm: "admissible P acc uo" by (auto simp: admissible_def)
      show thesis
      proof (cases "second_validation P (up_tables P) uo")
        case (Ok v)
        then show thesis using step no_ban False adm by (auto intro: validated)
      next
        case (Err e)
        then have "drop_op (RemovingFailed (hash uo)) (hash uo) acc P = (Ok (ctl, acc'), Q)"
          using step no_ban False by simp
        then show thesis using drop_op_cases dropped by metis
      next
        case Panic
        then show thesis using step no_ban False by simp
      qed
    qed
  qed
qed

lemma bundle_step_cases:
  assumes "bundle_step S uo acc P = (Ok (ctl, acc'), Q)"
  obtains (skip) sms t where "acc' = acc\<lparr>ba_storage_maps := sms\<rparr>" "Q = P\<lparr>up_tables := t\<rparr>"
  | (pick) v where "ctl = Continue" "Q = P" "picks P S uo v acc acc'"
proof (cases "sender_of uo \<in> set (ba_senders acc)")
  case True
  then show thesis
    using assms skip [of "ba_storage_maps acc" "up_tables P"] by (simp add: bundle_step_def)
next
  case False
  from assms False show thesis
  proof (cases rule: bundle_step_validated)
    case (dropped t)
    then show thesis using skip [of "ba_storage_maps acc" t] by simp
  next
    case (validated v)
    from validated(4) show thesis
    proof (cases rule: include_op_cases)
      case (skip sms)
      then show thesis using validated(1) that(1) [of sms "up_tables P"] by simp
    next
      case take
      then have "picks P S uo v acc acc'" using validated False by (auto simp: picks_def)
      then show thesis using take validated(1) pick by simp
    qed
  qed
qed

section \<open>Invariants of the loop\<close>

lemma picks_tables [simp]: "picks (P\<lparr>up_tables := t\<rparr>) S uo v acc acc' = picks P S uo v acc acc'"
  by (simp add: picks_def second_validation_def admissible_def pool_status_def)

text \<open>
  A statement about the accumulated values that does not mention the storage maps holds at the end
  of the loop if it holds at its start and every pick keeps it.
\<close>

lemma bundle_loop_invariant:
  assumes "bundle_loop S uos acc P = (Ok acc', Q)" and "I acc"
    and skip: "\<And>acc sms. I acc \<Longrightarrow> I (acc\<lparr>ba_storage_maps := sms\<rparr>)"
    and pick: "\<And>uo v acc acc'. I acc \<Longrightarrow> uo \<in> set uos \<Longrightarrow> picks P S uo v acc acc' \<Longrightarrow> I acc'"
  shows "I acc'"
  using assms
proof (induction uos arbitrary: acc P)
  case Nil
  show ?case using Nil.prems(1,2) by simp
next
  case (Cons uo uos)
  obtain ctl acc1 P1 where step: "bundle_step S uo acc P = (Ok (ctl, acc1), P1)"
    and rest: "(if ctl = Break then ret acc1 else bundle_loop S uos acc1) P1 = (Ok acc', Q)"
    using Cons.prems(1) by (auto simp: bind_op_eq_Ok)
  have "I acc1 \<and> (\<exists>t. P1 = P\<lparr>up_tables := t\<rparr>)"
    using step
  proof (cases rule: bundle_step_cases)
    case (skip sms t)
    then show ?thesis using Cons.prems(3) [OF Cons.prems(2)] by blast
  next
    case (pick v)
    then have "I acc1" using Cons.prems(4) [OF Cons.prems(2)] by auto
    moreover have "P1 = P\<lparr>up_tables := up_tables P\<rparr>" using pick by simp
    ultimately show ?thesis by blast
  qed
  then obtain t where acc1: "I acc1" and P1: "P1 = P\<lparr>up_tables := t\<rparr>" by blast
  show ?case
  proof (cases "ctl = Break")
    case True
    then show ?thesis using rest acc1 by simp
  next
    case False
    then have "bundle_loop S uos acc1 P1 = (Ok acc', Q)" using rest by simp
    then show ?thesis
    proof (rule Cons.IH [OF _ acc1])
      show "I (acc\<lparr>ba_storage_maps := sms\<rparr>)" if "I acc" for acc sms
        using that by (rule Cons.prems(3))
      show "I acc'" if "I acc" "uo' \<in> set uos" "picks P1 S uo' v acc acc'" for uo' v acc acc'
        using Cons.prems(4) [OF that(1), of uo' v acc'] that(2,3) P1 by simp
    qed
  qed
qed

lemma bundle_loop_subseq:
  assumes "bundle_loop S uos acc P = (Ok acc', Q)"
  shows "\<exists>ys. ba_valid acc' = ba_valid acc @ ys \<and> subseq ys uos"
  using assms
proof (induction uos arbitrary: acc P)
  case Nil
  then show ?case by simp
next
  case (Cons uo uos)
  obtain ctl acc1 P1 where step: "bundle_step S uo acc P = (Ok (ctl, acc1), P1)"
    and rest: "(if ctl = Break then ret acc1 else bundle_loop S uos acc1) P1 = (Ok acc', Q)"
    using Cons.prems(1) by (auto simp: bind_op_eq_Ok)
  from step have first: "ba_valid acc1 = ba_valid acc \<or> ctl = Continue \<and> ba_valid acc1 = ba_valid acc @ [uo]"
    by (cases rule: bundle_step_cases) (auto simp: picks_def takes_def)
  show ?case
  proof (cases "ctl = Break")
    case True
    then show ?thesis using rest first by auto
  next
    case False
    then obtain ys where "ba_valid acc' = ba_valid acc1 @ ys" "subseq ys uos"
      using rest Cons.IH [of acc1 P1] by auto
    then show ?thesis using first by auto
  qed
qed

section \<open>What a bundle guarantees\<close>

text \<open>An operation of the bundle with the outcome of its second validation.\<close>

definition revalidated ::
  "('s, 'r) uopool \<Rightarrow> address set \<Rightarrow> user_operation \<Rightarrow> validation_outcome \<Rightarrow> bool" where
  "revalidated P senders_all uo v =
     ((\<exists>t. second_validation P t uo = Ok v) \<and> vo_valid_after v = None \<and>
      \<not> touches_other_sender uo senders_all (vo_storage_map v))"

definition spent :: "address \<Rightarrow> user_operation list \<Rightarrow> validation_outcome list \<Rightarrow> nat" where
  "spent p uos vs =
     sum_list (map2 (\<lambda>uo v. if paymaster_of uo = Some p then unat (pre_fund v) else 0) uos vs)"

definition uses_entity :: "address \<Rightarrow> user_operation \<Rightarrow> bool" where
  "uses_entity a uo = (paymaster_of uo = Some a \<or> factory_of uo = Some a)"

lemma bundle_user_operations_Ok:
  assumes "bundle_user_operations uos P = (Ok (bundle, sm), Q)"
  obtains acc where
    "bundle_loop (set (map sender_of uos)) uos empty_bundle P = (Ok acc, Q)" "bundle = ba_valid acc"
  using assms by (auto simp: bundle_user_operations_def bind_op_eq_Ok)

lemma empty_bundle_fields [simp]:
  "ba_valid empty_bundle = []" "ba_senders empty_bundle = []" "ba_gas empty_bundle = 0"
  "ba_paymaster_dep empty_bundle = []" "ba_storage_maps empty_bundle = []"
  "entity_count empty_bundle a = 0"
  by (simp_all add: empty_bundle_def entity_count_def split: option.splits)

lemma picks_revalidated: "picks P S uo v acc acc' \<Longrightarrow> revalidated P S uo v"
  by (auto simp: picks_def revalidated_def)

lemma picks_valid: "picks P S uo v acc acc' \<Longrightarrow> ba_valid acc' = ba_valid acc @ [uo]"
  by (simp add: picks_def takes_def)

lemma list_all2_snoc:
  "list_all2 R xs ys \<Longrightarrow> R x y \<Longrightarrow> list_all2 R (xs @ [x]) (ys @ [y])"
  by (simp add: list_all2_appendI)

lemma sum_map2_snoc:
  "length xs = length ys \<Longrightarrow>
   sum_list (map2 f (xs @ [x]) (ys @ [y])) = sum_list (map2 f xs ys) + (f x y :: nat)"
  by (simp add: zip_append)

lemma sat_add_0 [simp]: "sat_add 0 a = (a :: 'a::len word)"
  by (simp add: sat_add_def unsigned_less)

lemma unat_sat_add_below:
  assumes "sat_add a b \<le> m" and "m \<noteq> (- 1 :: U256)"
  shows "unat (sat_add a b) = unat a + unat b"
proof -
  have "sat_add a b \<noteq> - 1" using assms word_n1_ge [of m] by (auto dest: antisym)
  then show ?thesis by (simp add: sat_add_def unat_word_ariths split: if_splits)
qed

lemma picks_gas:
  assumes "picks P S uo v acc acc'" and "up_max_verification_gas P \<noteq> - 1"
  shows "unat (ba_gas acc') = unat (ba_gas acc) + op_gas uo v"
    and "ba_gas acc' \<le> up_max_verification_gas P"
proof -
  let ?c = "sat_add (vo_verification_gas_limit v) (call_gas_limit (user_operation uo))"
  from assms have g: "ba_gas acc' = sat_add (ba_gas acc) ?c"
    and le: "ba_gas acc' \<le> up_max_verification_gas P"
    unfolding picks_def takes_def by blast+
  then have sum: "unat (ba_gas acc') = unat (ba_gas acc) + unat ?c"
    using unat_sat_add_below assms(2) by metis
  then have "?c \<le> ba_gas acc'" by (simp add: word_le_nat_alt)
  then have "?c \<le> up_max_verification_gas P" using le by simp
  then have "unat ?c = op_gas uo v"
    using unat_sat_add_below assms(2) by (metis op_gas_def)
  with sum show "unat (ba_gas acc') = unat (ba_gas acc) + op_gas uo v" by simp
  show "ba_gas acc' \<le> up_max_verification_gas P" by (rule le)
qed

lemma bundle_gas_invariant:
  assumes loop: "bundle_loop S uos empty_bundle P = (Ok acc, Q)"
    and limit: "up_max_verification_gas P \<noteq> - 1"
  shows "\<exists>vs. list_all2 (revalidated P S) (ba_valid acc) vs \<and>
    sum_list (map2 op_gas (ba_valid acc) vs) \<le> unat (up_max_verification_gas P)"
proof -
  let ?I = "\<lambda>acc. \<exists>vs. list_all2 (revalidated P S) (ba_valid acc) vs \<and>
    sum_list (map2 op_gas (ba_valid acc) vs) = unat (ba_gas acc) \<and> ba_gas acc \<le> up_max_verification_gas P"
  have "?I acc"
  proof (rule bundle_loop_invariant [OF loop])
    show "?I empty_bundle" by simp
    show "?I (acc\<lparr>ba_storage_maps := sms\<rparr>)" if "?I acc" for acc sms using that by simp
    show "?I acc'" if inv: "?I acc" and p: "picks P S uo v acc acc'" for uo v acc acc'
    proof -
      obtain vs where vs: "list_all2 (revalidated P S) (ba_valid acc) vs"
        "sum_list (map2 op_gas (ba_valid acc) vs) = unat (ba_gas acc)"
        using inv by blast
      then have "length (ba_valid acc) = length vs" by (simp add: list_all2_lengthD)
      then show ?thesis
        using vs list_all2_snoc [OF vs(1) picks_revalidated [OF p]] picks_gas [OF p limit]
        by (intro exI [of _ "vs @ [v]"]) (simp add: picks_valid [OF p] sum_map2_snoc)
    qed
  qed
  then show ?thesis by (auto simp: word_le_nat_alt)
qed

lemma bundle_senders_invariant:
  assumes loop: "bundle_loop S uos empty_bundle P = (Ok acc, Q)"
  shows "distinct (map sender_of (ba_valid acc))"
proof -
  let ?I = "\<lambda>acc. distinct (map sender_of (ba_valid acc)) \<and>
    set (ba_senders acc) = sender_of ` set (ba_valid acc)"
  have "?I acc"
  proof (rule bundle_loop_invariant [OF loop])
    show "?I acc'" if "?I acc" "picks P S uo v acc acc'" for uo v acc acc'
      using that by (auto simp: picks_def takes_def)
  qed simp_all
  then show ?thesis by simp
qed

text \<open>C27: A bundle is a subsequence of the operations it was chosen from, has one operation per sender,
  and every operation in it passed the second validation, is valid now, touches no storage of another
  sender at hand, and the gas of all its operations together (verification and call) stays within the
  limit the pool is configured with.\<close>

theorem bundle_sound:
  assumes "bundle_user_operations uos P = (Ok (bundle, sm), Q)"
    and "up_max_verification_gas P \<noteq> - 1"
  shows "subseq bundle uos \<and> distinct (map sender_of bundle) \<and>
    (\<exists>vs. list_all2 (revalidated P (set (map sender_of uos))) bundle vs \<and>
       sum_list (map2 op_gas bundle vs) \<le> unat (up_max_verification_gas P))"
  using assms(1)
proof (rule bundle_user_operations_Ok)
  fix acc
  assume loop: "bundle_loop (set (map sender_of uos)) uos empty_bundle P = (Ok acc, Q)"
    and "bundle = ba_valid acc"
  then show ?thesis
    using bundle_loop_subseq [OF loop] bundle_senders_invariant [OF loop]
      bundle_gas_invariant [OF loop assms(2)] by simp
qed

lemma sample_gas [simp]:
  "pre_verification_gas sample_signed = 60000" "verification_gas_limit sample_signed = 200000"
  "call_gas_limit sample_signed = 100000" "sender sample_signed = 7"
  by (simp_all add: sample_signed_def)

lemma sample_addresses [simp]:
  "get_address (paymaster_and_data sample_signed) = Some 0x0202020202020202020202020202020202020202"
  "get_address (init_code sample_signed) = Some 0x0101010101010101010101010101010101010101"
  using sample_entities(1) by (simp_all add: get_entities_def)

lemma sample_pool_status [simp]: "pool_status bs (sample_pool g) = Ok OK"
  by (simp add: pool_status_def sample_pool_def get_status_from_bytes_def get_status_def
      empty_reputation_def is_in_list_def memory_entries_op_def status_from_u64_def split: option.splits)

lemma sample_revalidation:
  "second_validation (sample_pool g) empty_tables sample_uo = Ok sample_outcome"
  by (simp add: second_validation_def sample_pool_def sample_second_validation)

lemma sample_bundle:
  assumes "200000 \<le> g"
  shows "bundle_user_operations [sample_uo] (sample_pool g) =
     (Ok ([sample_uo], default_storage_map), sample_pool g)"
proof -
  have tables: "up_tables (sample_pool g) = empty_tables" "up_entry_point (sample_pool g) = sample_eth"
    "up_max_verification_gas (sample_pool g) = g"
    by (simp_all add: sample_pool_def)
  have "\<exists>acc. include_op sample_eth g {7} sample_uo sample_outcome empty_bundle = Ok (Continue, acc) \<and>
      ba_valid acc = [sample_uo] \<and> ba_storage_maps acc = [default_storage_map]"
    using assms
    by (simp add: include_op_def sample_outcome_def touches_other_sender_def default_storage_map_def
        Let_def sat_add_def balance_of_def sample_eth_defs not_less)
  then show ?thesis
    by (auto simp: bundle_user_operations_def bundle_step_fresh sample_revalidation tables
        throttled_out_def merge_storage_maps_def merge_root_hashes_def merge_slots_def
        default_storage_map_def outcome_simps bind_op_def)
qed

theorem bundle_sound_witness:
  "subseq [sample_uo] [sample_uo] \<and> distinct (map sender_of [sample_uo]) \<and>
   (\<exists>vs. list_all2 (revalidated (sample_pool 500000) (set (map sender_of [sample_uo]))) [sample_uo] vs \<and>
     sum_list (map2 op_gas [sample_uo] vs) \<le> unat (up_max_verification_gas (sample_pool 500000)))"
  by (rule bundle_sound [OF sample_bundle]) (simp_all add: sample_pool_def)

subsection \<open>Paymasters\<close>

definition deposits_ok ::
  "('s, 'r) uopool \<Rightarrow> bundle_acc \<Rightarrow> validation_outcome list \<Rightarrow> bool" where
  "deposits_ok P acc vs =
     (\<forall>p. case hm_get (ba_paymaster_dep acc) p of
            None \<Rightarrow> spent p (ba_valid acc) vs = 0
          | Some n \<Rightarrow> \<exists>b. balance_of (up_entry_point P) p = Ok b \<and>
              spent p (ba_valid acc) vs + unat n = unat b)"

lemma spent_snoc:
  "length uos = length vs \<Longrightarrow>
   spent p (uos @ [uo]) (vs @ [v]) =
     spent p uos vs + (if paymaster_of uo = Some p then unat (pre_fund v) else 0)"
  by (simp add: spent_def zip_append)

lemma picks_deposits:
  assumes p: "picks P S uo v acc acc'" and inv: "deposits_ok P acc vs"
    and len: "length (ba_valid acc) = length vs"
  shows "deposits_ok P acc' (vs @ [v])"
proof (cases "paymaster_of uo")
  case None
  then have "ba_paymaster_dep acc' = ba_paymaster_dep acc"
    and "spent q (ba_valid acc') (vs @ [v]) = spent q (ba_valid acc) vs" for q
    using p len by (simp_all add: picks_def takes_def spent_snoc)
  then show ?thesis using inv by (simp add: deposits_ok_def cong: option.case_cong)
next
  case (Some q)
  then obtain balance where
    bal: "case hm_get (ba_paymaster_dep acc) q of
        Some n \<Rightarrow> balance = n | None \<Rightarrow> balance_of (up_entry_point P) q = Ok balance"
    and le: "pre_fund v \<le> balance"
    and dep: "ba_paymaster_dep acc' = hm_insert q (sat_sub balance (pre_fund v)) (ba_paymaster_dep acc)"
    and valid: "ba_valid acc' = ba_valid acc @ [uo]"
    using p by (auto simp: picks_def takes_def)
  have "\<exists>b. balance_of (up_entry_point P) q = Ok b \<and> spent q (ba_valid acc) vs + unat balance = unat b"
    using inv [unfolded deposits_ok_def, rule_format, of q] bal
    by (auto split: option.splits)
  then obtain b where b: "balance_of (up_entry_point P) q = Ok b"
    "spent q (ba_valid acc) vs + unat balance = unat b"
    by blast
  have "unat (pre_fund v) \<le> unat balance" using le by (simp add: word_le_nat_alt)
  then have new: "spent q (ba_valid acc') (vs @ [v]) + unat (sat_sub balance (pre_fund v)) = unat b"
    using b(2) valid len Some by (simp add: spent_snoc unat_sat_sub)
  show ?thesis
    unfolding deposits_ok_def
  proof
    fix r
    show "case hm_get (ba_paymaster_dep acc') r of
        None \<Rightarrow> spent r (ba_valid acc') (vs @ [v]) = 0
      | Some n \<Rightarrow> \<exists>b. balance_of (up_entry_point P) r = Ok b \<and>
          spent r (ba_valid acc') (vs @ [v]) + unat n = unat b"
    proof (cases "r = q")
      case True
      then show ?thesis using new b(1) dep by simp
    next
      case False
      then show ?thesis
        using inv [unfolded deposits_ok_def, rule_format, of r] Some valid len dep
        by (simp add: spent_snoc split: option.splits)
    qed
  qed
qed

lemma bundle_deposits_invariant:
  assumes loop: "bundle_loop S uos empty_bundle P = (Ok acc, Q)"
  shows "\<exists>vs. list_all2 (revalidated P S) (ba_valid acc) vs \<and> deposits_ok P acc vs"
proof (rule bundle_loop_invariant [OF loop])
  show "\<exists>vs. list_all2 (revalidated P S) (ba_valid empty_bundle) vs \<and> deposits_ok P empty_bundle vs"
    by (simp add: deposits_ok_def spent_def)
next
  fix acc sms
  assume "\<exists>vs. list_all2 (revalidated P S) (ba_valid acc) vs \<and> deposits_ok P acc vs"
  then show "\<exists>vs. list_all2 (revalidated P S) (ba_valid (acc\<lparr>ba_storage_maps := sms\<rparr>)) vs \<and>
      deposits_ok P (acc\<lparr>ba_storage_maps := sms\<rparr>) vs"
    by (simp add: deposits_ok_def cong: option.case_cong)
next
  fix uo v acc acc'
  assume "\<exists>vs. list_all2 (revalidated P S) (ba_valid acc) vs \<and> deposits_ok P acc vs"
    and p: "picks P S uo v acc acc'"
  then obtain vs where vs: "list_all2 (revalidated P S) (ba_valid acc) vs" "deposits_ok P acc vs"
    by blast
  then show "\<exists>vs. list_all2 (revalidated P S) (ba_valid acc') vs \<and> deposits_ok P acc' vs"
    using picks_deposits [OF p vs(2) list_all2_lengthD [OF vs(1)]]
      list_all2_snoc [OF vs(1) picks_revalidated [OF p]] picks_valid [OF p]
    by (intro exI [of _ "vs @ [v]"]) simp
qed

text \<open>C28: A bundle never spends more of a paymaster's deposit than the entry point reports: for every
  paymaster whose balance can be read, the funds its operations in the bundle require together do not
  exceed the balance.\<close>

theorem bundle_paymasters_solvent:
  assumes "bundle_user_operations uos P = (Ok (bundle, sm), Q)"
  shows "\<exists>vs. list_all2 (revalidated P (set (map sender_of uos))) bundle vs \<and>
    (\<forall>p b. balance_of (up_entry_point P) p = Ok b \<longrightarrow> spent p bundle vs \<le> unat b)"
  using assms
proof (rule bundle_user_operations_Ok)
  fix acc
  assume "bundle_loop (set (map sender_of uos)) uos empty_bundle P = (Ok acc, Q)"
    and valid: "bundle = ba_valid acc"
  then obtain vs where vs: "list_all2 (revalidated P (set (map sender_of uos))) (ba_valid acc) vs"
    "deposits_ok P acc vs"
    using bundle_deposits_invariant by blast
  have "spent p bundle vs \<le> unat b" if "balance_of (up_entry_point P) p = Ok b" for p b
    using vs(2) [unfolded deposits_ok_def, rule_format, of p] that valid
    by (auto split: option.splits)
  then show ?thesis using vs(1) valid by blast
qed

theorem bundle_paymasters_solvent_witness:
  "\<exists>vs. list_all2 (revalidated (sample_pool 500000) (set (map sender_of [sample_uo]))) [sample_uo] vs \<and>
     (\<forall>p b. balance_of (up_entry_point (sample_pool 500000)) p = Ok b \<longrightarrow> spent p [sample_uo] vs \<le> unat b)"
  by (rule bundle_paymasters_solvent [OF sample_bundle]) simp

subsection \<open>Reputation\<close>

lemma pool_status_of:
  assumes "pool_status bs P = Ok st" and "get_address bs = Some a"
    and "get_status (up_entries P) a (up_reputation P) = Ok (status_to_u64 s)"
  shows "st = s"
  using assms by (cases s) (auto simp: pool_status_def get_status_from_bytes_def status_from_u64_def)

lemma picks_status:
  assumes p: "picks P S uo v acc acc'" and a: "uses_entity a uo"
    and st: "get_status (up_entries P) a (up_reputation P) = Ok (status_to_u64 s)"
  shows "s \<noteq> BANNED" and "s = THROTTLED \<Longrightarrow> entity_count acc (Some a) \<le> THROTTLED_ENTITY_BUNDLE_COUNT"
proof -
  have adm: "admissible P acc uo" using p by (simp add: picks_def)
  show "s \<noteq> BANNED"
    using adm a pool_status_of [OF _ _ st] by (auto simp: admissible_def uses_entity_def)
  show "entity_count acc (Some a) \<le> THROTTLED_ENTITY_BUNDLE_COUNT" if "s = THROTTLED"
    using adm a that pool_status_of [OF _ _ st]
    by (auto simp: admissible_def uses_entity_def throttled_out_def not_less)
qed

lemma picks_uses:
  assumes "picks P S uo v acc acc'"
  shows "length (filter (uses_entity a) (ba_valid acc')) =
      length (filter (uses_entity a) (ba_valid acc)) + (if uses_entity a uo then 1 else 0)"
    and "entity_count acc (Some a) + (if uses_entity a uo then 1 else 0) \<le> entity_count acc' (Some a)"
  using assms by (auto simp: picks_def takes_def uses_entity_def)

text \<open>C29: Reputation in a bundle: no operation of a bundle has a banned factory or paymaster, and a
  throttled address occurs as factory or paymaster in at most five of its operations (the limit of
  four is compared before the operation itself is counted).\<close>

theorem bundle_respects_reputation:
  assumes "bundle_user_operations uos P = (Ok (bundle, sm), Q)"
    and st: "get_status (up_entries P) a (up_reputation P) = Ok (status_to_u64 s)"
  shows "(s = BANNED \<longrightarrow> filter (uses_entity a) bundle = []) \<and>
    (s = THROTTLED \<longrightarrow> length (filter (uses_entity a) bundle) \<le> 5)"
  using assms(1)
proof (rule bundle_user_operations_Ok)
  let ?n = "\<lambda>acc. length (filter (uses_entity a) (ba_valid acc))"
  let ?I = "\<lambda>acc. ?n acc \<le> entity_count acc (Some a) \<and> (s = BANNED \<longrightarrow> ?n acc = 0) \<and>
    (s = THROTTLED \<longrightarrow> ?n acc \<le> 5)"
  fix acc
  assume loop: "bundle_loop (set (map sender_of uos)) uos empty_bundle P = (Ok acc, Q)"
    and valid: "bundle = ba_valid acc"
  have "?I acc"
  proof (rule bundle_loop_invariant [OF loop])
    fix uo v acc acc'
    assume inv: "?I acc" and p: "picks P (set (map sender_of uos)) uo v acc acc'"
    show "?I acc'"
    proof (cases "uses_entity a uo")
      case True
      have "s = THROTTLED \<Longrightarrow> ?n acc \<le> 4"
        using inv picks_status(2) [OF p True st] by (simp add: THROTTLED_ENTITY_BUNDLE_COUNT_def)
      then show ?thesis
        using inv True picks_status(1) [OF p True st] picks_uses [OF p, of a] by simp
    next
      case False
      then show ?thesis using inv picks_uses [OF p, of a] by simp
    qed
  qed simp_all
  then show ?thesis using valid by simp
qed

lemma sample_banned_bundle:
  "bundle_user_operations [sample_uo] ((sample_pool 500000)\<lparr>up_reputation :=
     empty_reputation\<lparr>blacklist := [0x0202020202020202020202020202020202020202]\<rparr>\<rparr>) =
   (Ok ([], default_storage_map), (sample_pool 500000)\<lparr>up_reputation :=
     empty_reputation\<lparr>blacklist := [0x0202020202020202020202020202020202020202]\<rparr>\<rparr>)"
  (is "_ = (_, ?P)")
proof -
  have st: "pool_status (paymaster_and_data sample_signed) ?P = Ok BANNED"
    "pool_status (init_code sample_signed) ?P = Ok OK"
    by (simp_all add: pool_status_def sample_pool_def get_status_from_bytes_def get_status_def
        empty_reputation_def is_in_list_def memory_entries_op_def status_from_u64_def)
  have "on_mempool (mempool_remove (up_mempool ?P) 42) ?P = (Ok False, ?P)"
    by (simp add: on_mempool_def sample_pool_def mempool_remove_def memory_mempool_def
        memory_user_operations_def hash_map_get_by_uo_hash_def empty_tables_def outcome_simps)
  then have "drop_op ctx 42 acc ?P = (Ok (Continue, acc), ?P)" for ctx acc
    by (simp add: drop_op_def bind_op_def map_err_op_def)
  then show ?thesis
    using st by (simp add: bundle_user_operations_def bundle_step_fresh merge_storage_maps_def outcome_simps)
qed

theorem bundle_respects_reputation_witness:
  "(case bundle_user_operations [sample_uo] ((sample_pool 500000)\<lparr>up_reputation :=
       empty_reputation\<lparr>blacklist := [0x0202020202020202020202020202020202020202]\<rparr>\<rparr>) of
      (Ok (bundle, _), _) \<Rightarrow> filter (uses_entity 0x0202020202020202020202020202020202020202) bundle = []
    | _ \<Rightarrow> False) \<and>
   uses_entity 0x0202020202020202020202020202020202020202 sample_uo"
proof -
  have "get_status memory_entries_op 0x0202020202020202020202020202020202020202
      (empty_reputation\<lparr>blacklist := [0x0202020202020202020202020202020202020202]\<rparr>) = Ok (status_to_u64 BANNED)"
    by (simp add: get_status_def empty_reputation_def is_in_list_def)
  then show ?thesis
    using bundle_respects_reputation [OF sample_banned_bundle,
        of "0x0202020202020202020202020202020202020202" BANNED]
    unfolding sample_banned_bundle by (simp add: sample_pool_def uses_entity_def)
qed

subsection \<open>Storage maps of operations that are left out\<close>

text \<open>C30: The storage map returned with a bundle can describe an operation the bundle does not contain:
  when the only operation at hand passes its second validation but needs more gas than the limit, the
  bundle is empty and the returned map is still the map of that operation. (The storage map is recorded
  before the gas and the paymaster's balance are looked at.)\<close>

theorem bundle_keeps_foreign_storage_map:
  assumes "admissible P empty_bundle uo"
    and "second_validation P (up_tables P) uo = Ok v" and "vo_valid_after v = None"
    and "\<not> touches_other_sender uo {sender_of uo} (vo_storage_map v)"
    and "up_max_verification_gas P < sat_add (vo_verification_gas_limit v) (call_gas_limit (user_operation uo))"
  shows "bundle_user_operations [uo] P = (Ok ([], merge_storage_maps [vo_storage_map v]), P)"
proof -
  obtain p_st f_st where st: "pool_status (paymaster_and_data (user_operation uo)) P = Ok p_st"
    "pool_status (init_code (user_operation uo)) P = Ok f_st" "p_st \<noteq> BANNED" "f_st \<noteq> BANNED"
    "\<not> throttled_out p_st f_st 0 0"
    using assms(1) by (auto simp: admissible_def)
  have "include_op (up_entry_point P) (up_max_verification_gas P) {sender_of uo} uo v empty_bundle =
      Ok (Break, empty_bundle\<lparr>ba_storage_maps := [vo_storage_map v]\<rparr>)"
    using assms by (simp add: include_op_def Let_def)
  then show ?thesis
    using st assms(2) by (simp add: bundle_user_operations_def bundle_step_fresh bind_op_def)
qed

theorem bundle_keeps_foreign_storage_map_witness:
  "bundle_user_operations [sample_uo] (sample_pool 150000) =
     (Ok ([], merge_storage_maps [vo_storage_map sample_outcome]), sample_pool 150000)"
proof (rule bundle_keeps_foreign_storage_map)
  show "admissible (sample_pool 150000) empty_bundle sample_uo"
    by (simp add: admissible_def throttled_out_def)
  show "second_validation (sample_pool 150000) (up_tables (sample_pool 150000)) sample_uo = Ok sample_outcome"
    using sample_revalidation by (simp add: sample_pool_def)
qed (simp_all add: sample_outcome_def touches_other_sender_def default_storage_map_def sample_pool_def
      sat_add_def)

end
