(* ===== verification/Gas_Estimate.thy ===== *)
theory Gas_Estimate
  imports Entry_Point Gas_Utils "HOL-Library.Monad_Syntax"
begin

text \<open>
  Estimation of the gas limits of an operation (\<open>mempool/src/estimate.rs\<close>): two binary searches and a
  retry loop around simulations of the operation. The loops are partial functions: \<open>None\<close> means
  that the loop never ends.
\<close>

section \<open>Errors that steer the search\<close>

definition FALL_BACK_BINARY_SEARCH_CUT_OFF :: u64 where "FALL_BACK_BINARY_SEARCH_CUT_OFF = 30000"
definition BASE_VGL_BUFFER :: u64 where "BASE_VGL_BUFFER = 25"
definition MAX_CALL_GAS_LIMIT :: u64 where "MAX_CALL_GAS_LIMIT = 18000000"
definition MAX_RETRY :: u64 where "MAX_RETRY = 7"
definition NON_ZERO_GAS :: u64 where "NON_ZERO_GAS = 12100"
definition EXECUTION_REVERTED :: string where "EXECUTION_REVERTED = ''execution reverted''"
definition EXECUTION_OOG :: string where "EXECUTION_OOG = ''execution OOG''"

definition is_prefund_not_paid :: "eth \<Rightarrow> entry_point_error \<Rightarrow> bool" where
  "is_prefund_not_paid E err =
     (let s = entry_point_error_to_string E err in
      str_contains s ''AA21 didn't pay prefund'' \<or> str_contains s ''AA31 paymaster deposit too low'' \<or>
      str_contains s ''AA95 out of gas'')"

definition is_validation_oog :: "eth \<Rightarrow> entry_point_error \<Rightarrow> bool" where
  "is_validation_oog E err =
     (let s = entry_point_error_to_string E err in
      str_contains s ''validation OOG'' \<or> str_contains s ''return data out of bounds'' \<or>
      str_contains s ''AA40 over verificationGasLimit'' \<or>
      str_contains s ''AA41 too little verificationGas'' \<or>
      str_contains s ''AA51 prefund below actualGasCost'' \<or>
      str_contains s ''AA13 initCode failed or OOG'' \<or> str_contains s ''AA23 reverted (or OOG)'' \<or>
      str_contains s ''AA33 reverted (or OOG'')"

definition is_execution_oog :: "eth \<Rightarrow> entry_point_error \<Rightarrow> bool" where
  "is_execution_oog E err = str_contains (entry_point_error_to_string E err) EXECUTION_OOG"

definition is_execution_revert :: "eth \<Rightarrow> entry_point_error \<Rightarrow> bool" where
  "is_execution_revert E err = str_contains (entry_point_error_to_string E err) EXECUTION_REVERTED"

section \<open>The traced simulation\<close>

record trace_output =
  to_tracer_result :: executor_tracer_result
  to_execution_result :: execution_result
  to_user_op_event :: user_operation_event
  to_user_op_revert_event :: "revert_reason_event option"

definition parse_simulate_handle_op_output ::
  "eth \<Rightarrow> string \<Rightarrow> (entry_point_error, execution_result) outcome" where
  "parse_simulate_handle_op_output E s =
     bind_ok (map_err (\<lambda>e. EpOther (''parse simulate handle op output failed: '' @ e))
         (bytes_from_str (codec E) s)) (\<lambda>bs.
       case decode_execution_result (tcodec E) bs of
         Some decoded \<Rightarrow> Ok decoded
       | None \<Rightarrow>
           (case decode_failed_op (tcodec E) bs of
              Some decoded \<Rightarrow> Err (FailedOp decoded)
            | None \<Rightarrow> Err (EpOther ''output of parse simulate handle op is not valid'')))"

text \<open>\<open>b.resize(32, 0)\<close> cuts after 32 bytes or appends zeros.\<close>

definition resize :: "nat \<Rightarrow> bytes \<Rightarrow> bytes" where
  "resize n b = take n b @ replicate (n - length b) 0"

fun parse_topics :: "eth \<Rightarrow> string list \<Rightarrow> (string, h256 list) outcome" where
  "parse_topics E [] = Ok []"
| "parse_topics E (t # ts) =
     bind_ok (hex_decode (tcodec E) (if length t mod 2 \<noteq> 0 then CHR ''0'' # t else t)) (\<lambda>b.
     bind_ok (parse_topics E ts) (\<lambda>hs. Ok (from_be_bytes (resize 32 b) # hs)))"

definition parse_user_op_event ::
  "eth \<Rightarrow> (h256 list \<Rightarrow> bytes \<Rightarrow> (string, 'a) outcome) \<Rightarrow> log_info \<Rightarrow> (entry_point_error, 'a) outcome" where
  "parse_user_op_event E decode_log ev =
     bind_ok (map_err (\<lambda>e. EpOther
         (''simulate handle user op failed on parsing user op event topic hash, '' @ e))
         (parse_topics E (li_topics ev))) (\<lambda>topics.
     bind_ok (map_err (\<lambda>e. EpOther (''simulate handle user op failed on parsing user op event data: '' @ e))
         (bytes_from_str (codec E) (li_data ev))) (\<lambda>data.
     map_err (\<lambda>e. EpOther (''simulate handle user op failed on parsing user op event: '' @ e))
       (decode_log topics data)))"

definition opt_event ::
  "eth \<Rightarrow> log_info option \<Rightarrow> (entry_point_error, revert_reason_event option) outcome" where
  "opt_event E ev =
     (case ev of
        None \<Rightarrow> Ok None
      | Some ev \<Rightarrow>
          (case parse_user_op_event E (decode_revert_event (tcodec E)) ev of
             Ok r \<Rightarrow> Ok (Some r) | Err _ \<Rightarrow> Ok None | Panic \<Rightarrow> Panic))"

definition trace_simulate_handle_op ::
  "user_operation_signed \<Rightarrow> eth \<Rightarrow> (entry_point_error, trace_output) outcome" where
  "trace_simulate_handle_op user_op E =
     bind_ok (simulate_handle_op_trace E user_op) (\<lambda>geth_trace.
     bind_ok (map_err (\<lambda>e. EpOther (''Estimate trace simulate handle op decode error '' @ e))
         (executor_tracer_result_of E geth_trace)) (\<lambda>tracer_result.
     bind_ok (parse_simulate_handle_op_output E (etr_output tracer_result)) (\<lambda>execution_result.
     bind_ok (ok_or (EpOther ''Estimate trace simulate handle op user op event not found'')
         (user_op_event tracer_result)) (\<lambda>ev.
     bind_ok (parse_user_op_event E (decode_user_op_event (tcodec E)) ev) (\<lambda>event.
     bind_ok (opt_event E (user_op_revert_event tracer_result)) (\<lambda>revert_event.
       let failure = Err (ExecutionReverted
             (debug_execution_failure (tcodec E) (etr_error tracer_result) execution_result event revert_event)) in
       if \<not> ev_success event \<and> reverts tracer_result \<noteq> [] then
         if last (reverts tracer_result) = [] \<and> revert_event = None \<and> execution_oog tracer_result
         then Err (EpOther EXECUTION_OOG)
         else (case revert_event of
                 Some rev_ev \<Rightarrow>
                   bind_ok (decode_revert_string E (rr_revert_reason rev_ev)) (\<lambda>msg. case msg of
                       Some error_str \<Rightarrow> Err (ExecutionReverted (debug_reverted_with (tcodec E) error_str rev_ev))
                     | None \<Rightarrow> failure)
               | None \<Rightarrow> failure)
       else Ok \<lparr>to_tracer_result = tracer_result, to_execution_result = execution_result,
                to_user_op_event = event, to_user_op_revert_event = revert_event\<rparr>))))))"

section \<open>The search for the verification gas limit\<close>

text \<open>
  One search: \<open>l + r\<close>, \<open>m - 1\<close> and \<open>m + 1\<close> wrap at 64 bits. The result is the last limit that
  succeeded (0 if there was none) and the last error.
\<close>

partial_function (option) verification_search ::
  "eth \<Rightarrow> user_operation_signed \<Rightarrow> u64 \<Rightarrow> u64 \<Rightarrow> u64 \<Rightarrow> entry_point_error \<Rightarrow>
   (entry_point_error, u64 \<times> entry_point_error) outcome option" where
  "verification_search E user_op l r f veri_err =
     (if r - l \<ge> FALL_BACK_BINARY_SEARCH_CUT_OFF then
        let m = (l + r) div 2 in
        (case simulate_handle_op E (user_op\<lparr>verification_gas_limit := ucast m\<rparr>) of
           Ok _ \<Rightarrow> verification_search E user_op l (m - 1) m veri_err
         | Err e \<Rightarrow>
             if is_prefund_not_paid E e then verification_search E user_op l (m - 1) f e
             else if is_validation_oog E e then verification_search E user_op (m + 1) r f e
             else Some (Err e)
         | Panic \<Rightarrow> Some Panic)
      else Some (Ok (f, veri_err)))"

text \<open>
  The retries: \<open>n\<close> attempts are left; the limit grows by a quarter before each. The left result is
  what the estimation returns early.
\<close>

fun retry_loop ::
  "eth \<Rightarrow> user_operation_signed \<Rightarrow> nat \<Rightarrow> u64 \<Rightarrow> (entry_point_error, U256 \<times> U256) outcome \<Rightarrow>
   (entry_point_error, U256 \<times> U256) outcome + (trace_output \<times> user_operation_signed)" where
  "retry_loop E user_op 0 f res = Inl res"
| "retry_loop E user_op (Suc n) f res =
     (let f = f * (100 + BASE_VGL_BUFFER) div 100;
          user_op = user_op\<lparr>verification_gas_limit := ucast f, max_fee_per_gas := 0,
            max_priority_fee_per_gas := 0, call_gas_limit := ucast MAX_CALL_GAS_LIMIT\<rparr> in
      case trace_simulate_handle_op user_op E of
        Ok out \<Rightarrow> Inr (out, user_op)
      | Err e \<Rightarrow> retry_loop E user_op n f (Err e)
      | Panic \<Rightarrow> Inl Panic)"

section \<open>The search for the call gas limit\<close>

text \<open>The operation is returned too: its call gas limit stays at the last limit that was tried.\<close>

partial_function (option) call_search ::
  "eth \<Rightarrow> user_operation_signed \<Rightarrow> u64 \<Rightarrow> u64 \<Rightarrow> u64 \<Rightarrow>
   (entry_point_error, u64 \<times> user_operation_signed) outcome option" where
  "call_search E user_op l r f =
     (if r - l \<ge> FALL_BACK_BINARY_SEARCH_CUT_OFF then
        let m = (l + r) div 2; user_op = user_op\<lparr>call_gas_limit := ucast m\<rparr> in
        (case trace_simulate_handle_op user_op E of
           Ok _ \<Rightarrow> call_search E user_op l (m - 1) m
         | Err err \<Rightarrow>
             if is_prefund_not_paid E err then call_search E user_op l (m - 1) f
             else if is_execution_oog E err \<or> is_execution_revert E err
             then call_search E user_op (m + 1) r f
             else Some (Err (EpOther ''Could not find a valid call gas limit''))
         | Panic \<Rightarrow> Some Panic)
      else Some (Ok (f, user_op)))"

partial_function (option) call_loop ::
  "eth \<Rightarrow> user_operation_signed \<Rightarrow> u64 \<Rightarrow> (entry_point_error, u64) outcome option" where
  "call_loop E user_op limit =
     (case trace_simulate_handle_op user_op E of
        Ok _ \<Rightarrow> Some (Ok limit)
      | Err e \<Rightarrow>
          if is_execution_oog E e \<or> is_execution_revert E e then
            call_search E user_op limit (- 1) 0 \<bind> (\<lambda>res. case res of
                Ok (f, user_op) \<Rightarrow> call_loop E user_op f
              | Err e \<Rightarrow> Some (Err e)
              | Panic \<Rightarrow> Some Panic)
          else Some (Err (EpOther
            (''Trace handle op return unhandled error: '' @ debug_ep_error (fmt E) e)))
      | Panic \<Rightarrow> Some Panic)"

definition search_op :: "user_operation_signed \<Rightarrow> user_operation_signed" where
  "search_op ori = ori\<lparr>verification_gas_limit := 0, call_gas_limit := 0,
     max_priority_fee_per_gas := max_fee_per_gas ori\<rparr>"

definition estimate_user_op_gas ::
  "user_operation_signed \<Rightarrow> eth \<Rightarrow> (entry_point_error, U256 \<times> U256) outcome option" where
  "estimate_user_op_gas user_op_ori E =
     verification_search E (search_op user_op_ori) 0 (- 1) 0
       (EpOther ''Could not find a valid verification gas limit'') \<bind> (\<lambda>res. case res of
         Err e \<Rightarrow> Some (Err e)
       | Panic \<Rightarrow> Some Panic
       | Ok (f, veri_err) \<Rightarrow>
           if f = 0 then Some (Err veri_err)
           else (case retry_loop E (search_op user_op_ori) (unat MAX_RETRY) f (Ok (0, 0)) of
               Inl res \<Rightarrow> Some res
             | Inr (out, user_op) \<Rightarrow>
                 let vgl = verification_gas_limit user_op;
                     limit = (if execution_gas_limit (to_tracer_result out) < NON_ZERO_GAS
                              then NON_ZERO_GAS else execution_gas_limit (to_tracer_result out));
                     user_op = user_op\<lparr>
                       max_priority_fee_per_gas := max_priority_fee_per_gas user_op_ori,
                       max_fee_per_gas := max_fee_per_gas user_op_ori,
                       verification_gas_limit := vgl, call_gas_limit := ucast limit\<rparr> in
                 call_loop E user_op limit \<bind> (\<lambda>res. case res of
                     Ok limit \<Rightarrow> Some (Ok (vgl, ucast limit))
                   | Err e \<Rightarrow> Some (Err e)
                   | Panic \<Rightarrow> Some Panic)))"

section \<open>A search that never ends\<close>

text \<open>
  While the upper end is the greatest 64-bit number and the lower end at most half of it, the
  wrapped midpoint lies in the lower half, so that raising the lower end past it stays there.
\<close>

lemma wrapped_midpoint:
  fixes l :: u64
  assumes "l \<le> 2 ^ 63"
  shows "FALL_BACK_BINARY_SEARCH_CUT_OFF \<le> - 1 - l" and "(l + - 1) div 2 + 1 \<le> 2 ^ 63"
    and "0 < l \<Longrightarrow> (l + - 1) div 2 < l" and "0 < l \<Longrightarrow> (l + - 1) div 2 + 1 \<le> l"
    and "0 < (l + - 1) div 2 + 1"
proof -
  have l: "unat l \<le> 2 ^ 63" using assms by (simp add: word_le_nat_alt)
  have "unat (- 1 - l) = 2 ^ 64 - 1 - unat l"
    by (simp add: unat_sub word_n1_ge unsigned_minus_1_eq_mask mask_eq_exp_minus_1)
  then show "FALL_BACK_BINARY_SEARCH_CUT_OFF \<le> - 1 - l"
    using l by (simp add: FALL_BACK_BINARY_SEARCH_CUT_OFF_def word_le_nat_alt)
  have sum: "unat (l + - 1) = (if l = 0 then 2 ^ 64 - 1 else unat l - 1)"
    using unsigned_less [of l]
    by (auto simp: unat_sub word_le_nat_alt unsigned_minus_1_eq_mask mask_eq_exp_minus_1
        word_less_nat_alt unat_gt_0 Suc_le_eq)
  then have mid: "unat ((l + - 1) div 2) = (if l = 0 then 2 ^ 63 - 1 else (unat l - 1) div 2)"
    by (simp add: unat_div)
  then have "unat ((l + - 1) div 2 + 1) = unat ((l + - 1) div 2) + 1"
    using l by (simp add: unat_word_ariths split: if_splits)
  then show "(l + - 1) div 2 + 1 \<le> 2 ^ 63" and "0 < (l + - 1) div 2 + 1"
    using mid l by (auto simp: word_le_nat_alt word_less_nat_alt split: if_splits)
  show "(l + - 1) div 2 < l" if "0 < l"
    using mid that by (auto simp: word_less_nat_alt)
  show "(l + - 1) div 2 + 1 \<le> l" if "0 < l"
    using \<open>unat ((l + - 1) div 2 + 1) = unat ((l + - 1) div 2) + 1\<close> mid that
    by (auto simp: word_le_nat_alt word_less_nat_alt)
qed

text \<open>Simulation with the limit \<open>m\<close> reports that validation ran out of gas.\<close>

definition oog_at :: "eth \<Rightarrow> user_operation_signed \<Rightarrow> u64 \<Rightarrow> bool" where
  "oog_at E user_op m =
     (case simulate_handle_op E (user_op\<lparr>verification_gas_limit := ucast m\<rparr>) of
        Err e \<Rightarrow> is_validation_oog E e \<and> \<not> is_prefund_not_paid E e
      | _ \<Rightarrow> False)"

lemma oog_atE:
  assumes "oog_at E user_op m"
  obtains e where "simulate_handle_op E (user_op\<lparr>verification_gas_limit := ucast m\<rparr>) = Err e"
    "is_validation_oog E e" "\<not> is_prefund_not_paid E e"
  using assms
  by (cases "simulate_handle_op E (user_op\<lparr>verification_gas_limit := ucast m\<rparr>)")
    (simp_all add: oog_at_def)

lemma verification_search_oog:
  "verification_search E user_op l r f err = Some res \<Longrightarrow>
     \<not> (r = - 1 \<and> l \<le> 2 ^ 63 \<and> (\<forall>m. oog_at E user_op m))"
proof (rule verification_search.raw_induct [of
      "\<lambda>E user_op l r f err res. \<not> (r = - 1 \<and> l \<le> 2 ^ 63 \<and> (\<forall>m. oog_at E user_op m))"])
  fix search E user_op l r f err res
  assume IH: "\<And>E user_op l r f err res. search E user_op l r f err = Some res \<Longrightarrow>
      \<not> (r = - 1 \<and> l \<le> 2 ^ 63 \<and> (\<forall>m. oog_at E user_op m))"
    and body: "(if r - l \<ge> FALL_BACK_BINARY_SEARCH_CUT_OFF then
        let m = (l + r) div 2 in
        (case simulate_handle_op E (user_op\<lparr>verification_gas_limit := ucast m\<rparr>) of
           Ok _ \<Rightarrow> search E user_op l (m - 1) m err
         | Err e \<Rightarrow>
             if is_prefund_not_paid E e then search E user_op l (m - 1) f e
             else if is_validation_oog E e then search E user_op (m + 1) r f e
             else Some (Err e)
         | Panic \<Rightarrow> Some Panic)
      else Some (Ok (f, err))) = Some res"
  show "\<not> (r = - 1 \<and> l \<le> 2 ^ 63 \<and> (\<forall>m. oog_at E user_op m))"
  proof
    assume *: "r = - 1 \<and> l \<le> 2 ^ 63 \<and> (\<forall>m. oog_at E user_op m)"
    let ?m = "(l + - 1) div 2"
    obtain e where e: "simulate_handle_op E (user_op\<lparr>verification_gas_limit := ucast ?m\<rparr>) = Err e"
      "is_validation_oog E e" "\<not> is_prefund_not_paid E e"
      using * oog_atE [of E user_op ?m] by blast
    have "search E user_op (?m + 1) (- 1) f e = Some res"
      using body * e wrapped_midpoint(1) [of l] by (simp add: Let_def)
    then show False using IH * wrapped_midpoint(2) [of l] by blast
  qed
qed

text \<open>C34: The estimation of the verification gas never ends for an operation whose validation fails
  with one of the out-of-gas messages at every gas limit: the midpoint of the search wraps at 64 bits
  and the lower end falls back, so that the search returns neither a limit nor an error. The account's
  plain revert is such a message (AA23 reverted (or OOG)).\<close>

theorem estimate_never_returns:
  assumes "\<forall>m. oog_at E (search_op uo) m"
  shows "estimate_user_op_gas uo E = None"
proof -
  have "verification_search E (search_op uo) 0 (- 1) 0
      (EpOther ''Could not find a valid verification gas limit'') = None"
    using verification_search_oog [of E "search_op uo" 0 "- 1" 0] assms by (metis not_None_eq word_zero_le)
  then show ?thesis by (simp add: estimate_user_op_gas_def)
qed

definition reverting_eth :: eth where
  "reverting_eth = sample_eth\<lparr>codec := sample_codec\<lparr>api_decode_errors := (\<lambda>_. Ok (ApiFailedOp
     \<lparr>op_index = 0, reason = ''AA23 reverted (or OOG)''\<rparr>))\<rparr>\<rparr>"

lemma reverting_eth_oog: "oog_at reverting_eth user_op m"
proof -
  have "simulate_handle_op reverting_eth u = Err (FailedOp \<lparr>op_index = 0, reason = ''AA23 reverted (or OOG)''\<rparr>)"
    for u
    by (simp add: simulate_handle_op_def reverting_eth_def sample_eth_defs decode_revert_error_def)
  moreover have "str_contains ''AA23 reverted (or OOG)'' ''AA23 reverted (or OOG)''"
    "\<not> str_contains ''AA23 reverted (or OOG)'' ''AA21 didn't pay prefund''"
    "\<not> str_contains ''AA23 reverted (or OOG)'' ''AA31 paymaster deposit too low''"
    "\<not> str_contains ''AA23 reverted (or OOG)'' ''AA95 out of gas''"
    by code_simp+
  ultimately show ?thesis
    by (simp add: oog_at_def is_validation_oog_def is_prefund_not_paid_def reverting_eth_def sample_eth_defs)
qed

theorem estimate_never_returns_witness:
  "oog_at reverting_eth (search_op sample_signed) 5 \<and>
   estimate_user_op_gas sample_signed reverting_eth = None"
  using estimate_never_returns [of reverting_eth sample_signed] reverting_eth_oog by blast

section \<open>The fallback for the call gas limit\<close>

definition exec_fails_at :: "eth \<Rightarrow> user_operation_signed \<Rightarrow> u64 \<Rightarrow> bool" where
  "exec_fails_at E user_op m =
     (case trace_simulate_handle_op (user_op\<lparr>call_gas_limit := ucast m\<rparr>) E of
        Err e \<Rightarrow> (is_execution_oog E e \<or> is_execution_revert E e) \<and> \<not> is_prefund_not_paid E e
      | _ \<Rightarrow> False)"

lemma exec_fails_atE:
  assumes "exec_fails_at E user_op m"
  obtains e where "trace_simulate_handle_op (user_op\<lparr>call_gas_limit := ucast m\<rparr>) E = Err e"
    "is_execution_oog E e \<or> is_execution_revert E e" "\<not> is_prefund_not_paid E e"
  using assms
  by (cases "trace_simulate_handle_op (user_op\<lparr>call_gas_limit := ucast m\<rparr>) E")
    (simp_all add: exec_fails_at_def)

lemma exec_fails_at_limit [simp]:
  "exec_fails_at E (user_op\<lparr>call_gas_limit := n\<rparr>) m = exec_fails_at E user_op m"
  by (simp add: exec_fails_at_def)

definition failing_search :: "eth \<Rightarrow> user_operation_signed \<Rightarrow> u64 \<Rightarrow> u64 \<Rightarrow> bool" where
  "failing_search E user_op l r = (r = - 1 \<and> 0 < l \<and> l \<le> 2 ^ 63 \<and> (\<forall>m < l. exec_fails_at E user_op m))"

lemma call_search_fails:
  "call_search E user_op l r f = Some res \<Longrightarrow> \<not> failing_search E user_op l r"
proof (rule call_search.raw_induct [of "\<lambda>E user_op l r f res. \<not> failing_search E user_op l r"])
  fix search E user_op l r f res
  assume IH: "\<And>E user_op l r f res. search E user_op l r f = Some res \<Longrightarrow> \<not> failing_search E user_op l r"
    and body: "(if r - l \<ge> FALL_BACK_BINARY_SEARCH_CUT_OFF then
        let m = (l + r) div 2; user_op = user_op\<lparr>call_gas_limit := ucast m\<rparr> in
        (case trace_simulate_handle_op user_op E of
           Ok _ \<Rightarrow> search E user_op l (m - 1) m
         | Err err \<Rightarrow>
             if is_prefund_not_paid E err then search E user_op l (m - 1) f
             else if is_execution_oog E err \<or> is_execution_revert E err
             then search E user_op (m + 1) r f
             else Some (Err (EpOther ''Could not find a valid call gas limit''))
         | Panic \<Rightarrow> Some Panic)
      else Some (Ok (f, user_op))) = Some res"
  show "\<not> failing_search E user_op l r"
  proof
    assume *: "failing_search E user_op l r"
    let ?m = "(l + - 1) div 2"
    have mid: "FALL_BACK_BINARY_SEARCH_CUT_OFF \<le> - 1 - l" "?m < l" "?m + 1 \<le> l" "0 < ?m + 1" "?m + 1 \<le> 2 ^ 63"
      using * wrapped_midpoint [of l] by (simp_all add: failing_search_def)
    obtain e where e: "trace_simulate_handle_op (user_op\<lparr>call_gas_limit := ucast ?m\<rparr>) E = Err e"
      "is_execution_oog E e \<or> is_execution_revert E e" "\<not> is_prefund_not_paid E e"
      using * mid(2) exec_fails_atE [of E user_op ?m] by (auto simp: failing_search_def)
    have "search E (user_op\<lparr>call_gas_limit := ucast ?m\<rparr>) (?m + 1) (- 1) f = Some res"
      using body * e mid(1) by (simp add: Let_def failing_search_def)
    moreover have "failing_search E (user_op\<lparr>call_gas_limit := ucast ?m\<rparr>) (?m + 1) (- 1)"
      using * mid by (auto simp: failing_search_def)
    ultimately show False using IH by blast
  qed
qed

text \<open>The fallback search for the call gas limit never ends in the situation it is made for: when
  the limit found by tracing (which is positive and below 2 to the 63) makes execution run out of gas
  or revert, and so does every lower limit, the search starts below that limit (the sum of the ends
  wraps at 64 bits), falls back further, and returns neither a limit nor an error.\<close>

theorem call_gas_fallback_never_returns:
  assumes "0 < limit" and "limit \<le> 2 ^ 63" and "\<forall>m \<le> limit. exec_fails_at E user_op m"
  shows "call_loop E (user_op\<lparr>call_gas_limit := ucast limit\<rparr>) limit = None"
proof -
  obtain e where e: "trace_simulate_handle_op (user_op\<lparr>call_gas_limit := ucast limit\<rparr>) E = Err e"
    "is_execution_oog E e \<or> is_execution_revert E e"
    using assms(3) exec_fails_atE [of E user_op limit] by blast
  have "failing_search E (user_op\<lparr>call_gas_limit := ucast limit\<rparr>) limit (- 1)"
    using assms by (simp add: failing_search_def)
  then have "call_search E (user_op\<lparr>call_gas_limit := ucast limit\<rparr>) limit (- 1) 0 = None"
    using call_search_fails by (metis not_None_eq)
  with e show ?thesis by (simp add: call_loop.simps)
qed

text \<open>A chain on which the traced execution runs out of gas whatever its limit.\<close>

definition starved_eth :: eth where
  "starved_eth = sample_eth\<lparr>
     codec := sample_codec\<lparr>bytes_from_str := (\<lambda>_. Ok []),
       serde_executor_tracer_result := (\<lambda>_. Ok \<lparr>reverts = [[]], validation_oog = False,
         execution_oog = True, execution_gas_limit = 0, user_op_event = Some \<lparr>li_topics = [], li_data = []\<rparr>,
         user_op_revert_event = None, etr_output = [], etr_error = []\<rparr>)\<rparr>,
     tcodec := sample_trace_codec\<lparr>
       decode_execution_result := (\<lambda>_. Some \<lparr>er_pre_op_gas = 0, paid = 0, er_valid_after = 0,
         er_valid_until = 0, target_success = False, target_result = []\<rparr>),
       decode_user_op_event := (\<lambda>_ _. Ok \<lparr>ev_user_op_hash = 0, ev_sender = 0, ev_nonce = 0,
         ev_success = False, ev_actual_gas_cost = 0, ev_actual_gas_used = 0\<rparr>)\<rparr>\<rparr>"

lemma starved_eth_fails: "exec_fails_at starved_eth user_op m"
proof -
  have "trace_simulate_handle_op u starved_eth = Err (EpOther EXECUTION_OOG)" for u
    by (simp add: trace_simulate_handle_op_def simulate_handle_op_trace_def trace_result_def
        starved_eth_def sample_eth_defs parse_simulate_handle_op_output_def parse_user_op_event_def
        opt_event_def)
  moreover have "str_contains (''other error: '' @ EXECUTION_OOG) EXECUTION_OOG"
    "\<not> str_contains (''other error: '' @ EXECUTION_OOG) ''AA21 didn't pay prefund''"
    "\<not> str_contains (''other error: '' @ EXECUTION_OOG) ''AA31 paymaster deposit too low''"
    "\<not> str_contains (''other error: '' @ EXECUTION_OOG) ''AA95 out of gas''"
    by code_simp+
  ultimately show ?thesis
    by (simp add: exec_fails_at_def is_execution_oog_def is_prefund_not_paid_def)
qed

theorem call_gas_fallback_never_returns_witness:
  "exec_fails_at starved_eth sample_signed 3 \<and>
   call_loop starved_eth (sample_signed\<lparr>call_gas_limit := ucast NON_ZERO_GAS\<rparr>) NON_ZERO_GAS = None"
  using call_gas_fallback_never_returns [of NON_ZERO_GAS starved_eth sample_signed] starved_eth_fails
  by (simp add: NON_ZERO_GAS_def)

section \<open>A search that succeeds\<close>

text \<open>
  The situation the search expects: below \<open>T\<close> validation runs out of gas, from \<open>T\<close> to \<open>U\<close> it
  succeeds, and above \<open>U\<close> the prefund cannot be paid.
\<close>

definition gas_window :: "eth \<Rightarrow> user_operation_signed \<Rightarrow> u64 \<Rightarrow> u64 \<Rightarrow> bool" where
  "gas_window E user_op T U =
     (\<forall>m. (m < T \<longrightarrow> oog_at E user_op m) \<and>
        (T \<le> m \<and> m \<le> U \<longrightarrow> is_ok (simulate_handle_op E (user_op\<lparr>verification_gas_limit := ucast m\<rparr>))) \<and>
        (U < m \<longrightarrow> (\<exists>e. simulate_handle_op E (user_op\<lparr>verification_gas_limit := ucast m\<rparr>) = Err e \<and>
           is_prefund_not_paid E e)))"

text \<open>The bounds between two rounds of the search.\<close>

definition search_inv :: "u64 \<Rightarrow> u64 \<Rightarrow> u64 \<Rightarrow> u64 \<Rightarrow> u64 \<Rightarrow> bool" where
  "search_inv T U l r f =
     (unat l \<le> unat T \<and> unat l \<le> unat r \<and> unat T < 2 ^ 63 \<and> (unat r < 2 ^ 63 \<or> l = 0 \<and> unat r = 2 ^ 64 - 1) \<and>
      (if f = 0 then unat U \<le> unat r
       else unat f = unat r + 1 \<and> unat T \<le> unat f \<and> unat f \<le> unat U))"

lemma search_midpoint:
  assumes "search_inv T U l r f" and "FALL_BACK_BINARY_SEARCH_CUT_OFF \<le> r - l"
  shows "unat ((l + r) div 2) = (unat l + unat r) div 2" and "unat l + 30000 \<le> unat r"
    and "unat ((l + r) div 2 - 1) = (unat l + unat r) div 2 - 1"
    and "unat ((l + r) div 2 + 1) = (unat l + unat r) div 2 + 1"
proof -
  have r: "unat r < 2 ^ 64" using unsigned_less [of r] by simp
  have "unat (r - l) = unat r - unat l"
    using assms(1) by (simp add: search_inv_def unat_sub word_le_nat_alt)
  then show le: "unat l + 30000 \<le> unat r"
    using assms(2) by (simp add: FALL_BACK_BINARY_SEARCH_CUT_OFF_def word_le_nat_alt)
  have "unat l + unat r < 2 ^ 64"
    using assms(1) r by (auto simp: search_inv_def)
  then show mid: "unat ((l + r) div 2) = (unat l + unat r) div 2"
    by (simp add: unat_div unat_word_ariths)
  then have "1 \<le> (l + r) div 2"
    using le by (simp add: word_le_nat_alt)
  then show "unat ((l + r) div 2 - 1) = (unat l + unat r) div 2 - 1"
    using mid by (simp add: unat_sub)
  show "unat ((l + r) div 2 + 1) = (unat l + unat r) div 2 + 1"
    using mid r le by (simp add: unat_word_ariths)
qed

lemma search_step:
  assumes inv: "search_inv T U l r f" and cut: "FALL_BACK_BINARY_SEARCH_CUT_OFF \<le> r - l"
  defines "m \<equiv> (l + r) div 2"
  shows "U < m \<Longrightarrow> f = 0 \<and> search_inv T U l (m - 1) f" and "f \<noteq> 0 \<Longrightarrow> m \<le> U"
    and "T \<le> m \<Longrightarrow> m \<le> U \<Longrightarrow> search_inv T U l (m - 1) m" and "m < T \<Longrightarrow> search_inv T U (m + 1) r f"
    and "unat (m - 1) - unat l < unat r - unat l" and "unat r - unat (m + 1) < unat r - unat l"
proof -
  note mid = search_midpoint [OF inv cut, folded m_def]
  have r: "unat r < 2 ^ 64" using unsigned_less [of r] by simp
  show "m \<le> U" if "f \<noteq> 0"
    using inv mid that by (auto simp: search_inv_def word_le_nat_alt)
  then show "f = 0 \<and> search_inv T U l (m - 1) f" if "U < m"
    using inv mid that r by (auto simp: search_inv_def word_less_nat_alt split: if_splits)
  have "m \<noteq> 0" using mid by auto
  then show "search_inv T U l (m - 1) m" if "T \<le> m" "m \<le> U"
    using inv mid that r by (auto simp: search_inv_def word_le_nat_alt)
  show "search_inv T U (m + 1) r f" if "m < T"
    using inv mid that r by (auto simp: search_inv_def word_less_nat_alt)
  show "unat (m - 1) - unat l < unat r - unat l" "unat r - unat (m + 1) < unat r - unat l"
    using mid by auto
qed

lemma verification_search_window:
  assumes "gas_window E user_op T U" and "search_inv T U l r f"
  shows "\<exists>l' r' f' e. verification_search E user_op l r f err = Some (Ok (f', e)) \<and>
    search_inv T U l' r' f' \<and> \<not> FALL_BACK_BINARY_SEARCH_CUT_OFF \<le> r' - l'"
  using assms(2)
proof (induction "unat r - unat l" arbitrary: l r f err rule: less_induct)
  case less
  show ?case
  proof (cases "FALL_BACK_BINARY_SEARCH_CUT_OFF \<le> r - l")
    case False
    then show ?thesis using less.prems by (subst verification_search.simps) auto
  next
    case True
    let ?m = "(l + r) div 2"
    note step = search_step [OF less.prems True]
    have sim: "(?m < T \<longrightarrow> oog_at E user_op ?m) \<and>
        (T \<le> ?m \<and> ?m \<le> U \<longrightarrow> is_ok (simulate_handle_op E (user_op\<lparr>verification_gas_limit := ucast ?m\<rparr>))) \<and>
        (U < ?m \<longrightarrow> (\<exists>e. simulate_handle_op E (user_op\<lparr>verification_gas_limit := ucast ?m\<rparr>) = Err e \<and>
           is_prefund_not_paid E e))"
      using assms(1) unfolding gas_window_def by blast
    consider "?m < T" | "T \<le> ?m" "?m \<le> U" | "U < ?m" by fastforce
    then show ?thesis
    proof cases
      case 1
      then obtain e where "simulate_handle_op E (user_op\<lparr>verification_gas_limit := ucast ?m\<rparr>) = Err e"
        "is_validation_oog E e" "\<not> is_prefund_not_paid E e"
        using sim oog_atE by blast
      then have "verification_search E user_op l r f err = verification_search E user_op (?m + 1) r f e"
        using True by (subst verification_search.simps) (simp add: Let_def)
      then show ?thesis using less.hyps [OF step(6) step(4) [OF 1], of e] by simp
    next
      case 2
      then obtain x where "simulate_handle_op E (user_op\<lparr>verification_gas_limit := ucast ?m\<rparr>) = Ok x"
        using sim by (auto simp: is_ok_iff)
      then have "verification_search E user_op l r f err = verification_search E user_op l (?m - 1) ?m err"
        using True by (subst verification_search.simps) (simp add: Let_def)
      then show ?thesis using less.hyps [OF step(5) step(3) [OF 2], of err] by simp
    next
      case 3
      then obtain e where "simulate_handle_op E (user_op\<lparr>verification_gas_limit := ucast ?m\<rparr>) = Err e"
        "is_prefund_not_paid E e"
        using sim by blast
      then have "verification_search E user_op l r f err = verification_search E user_op l (?m - 1) f e"
        using True by (subst verification_search.simps) (simp add: Let_def)
      then show ?thesis using less.hyps [OF step(5) step(1) [OF 3, THEN conjunct2], of e] by simp
    qed
  qed
qed

text \<open>C35: The search for the verification gas limit ends and is right when validation behaves as expected:
  if it runs out of gas below some limit (itself below 2 to the 63), succeeds from there to a second limit
  at least 30000 higher and cannot pay its prefund above that, the search returns a limit at which
  validation succeeds, at most 30000 above the least such limit.\<close>

theorem verification_search_finds:
  assumes "gas_window E user_op T U" and "unat T < 2 ^ 63" and "unat T + 30000 \<le> unat U"
  shows "\<exists>f e. verification_search E user_op 0 (- 1) 0 err = Some (Ok (f, e)) \<and>
    unat T \<le> unat f \<and> unat f \<le> unat T + 30000 \<and>
    is_ok (simulate_handle_op E (user_op\<lparr>verification_gas_limit := ucast f\<rparr>))"
proof -
  have "search_inv T U 0 (- 1) 0"
    using assms(2) unsigned_less [of U, where 'a = nat]
    by (simp add: search_inv_def unsigned_minus_1_eq_mask mask_eq_exp_minus_1)
  then obtain l r f e where res: "verification_search E user_op 0 (- 1) 0 err = Some (Ok (f, e))"
    and inv: "search_inv T U l r f" and cut: "\<not> FALL_BACK_BINARY_SEARCH_CUT_OFF \<le> r - l"
    using verification_search_window [OF assms(1)] by blast
  have "unat (r - l) = unat r - unat l"
    using inv by (simp add: search_inv_def unat_sub word_le_nat_alt)
  then have gap: "unat r < unat l + 30000"
    using cut by (simp add: FALL_BACK_BINARY_SEARCH_CUT_OFF_def word_le_nat_alt)
  then have "f \<noteq> 0" using inv assms(3) by (auto simp: search_inv_def)
  then have f: "unat T \<le> unat f" "unat f \<le> unat U" "unat f \<le> unat T + 30000"
    using inv gap by (auto simp: search_inv_def)
  then have "is_ok (simulate_handle_op E (user_op\<lparr>verification_gas_limit := ucast f\<rparr>))"
    using assms(1) by (simp add: gas_window_def word_le_nat_alt)
  with res f show ?thesis by blast
qed

text \<open>A chain on which validation needs 50000 gas and the account can fund a million.\<close>

definition window_error :: "bytes \<Rightarrow> entry_point_api_errors" where
  "window_error d =
     (if (from_be_bytes d :: U256) < 50000 then ApiFailedOp \<lparr>op_index = 0, reason = ''AA23 reverted (or OOG)''\<rparr>
      else if (from_be_bytes d :: U256) > 1000000
      then ApiFailedOp \<lparr>op_index = 0, reason = ''AA21 didn't pay prefund''\<rparr>
      else ApiExecutionResult \<lparr>er_pre_op_gas = 0, paid = 0, er_valid_after = 0, er_valid_until = 0,
        target_success = True, target_result = []\<rparr>)"

definition window_eth :: eth where
  "window_eth = sample_eth\<lparr>
     api := sample_api\<lparr>api_simulate_handle_op :=
       (\<lambda>u. Err (Revert (to_be_bytes 32 (api_verification_gas_limit u))))\<rparr>,
     codec := sample_codec\<lparr>api_decode_errors := (\<lambda>d. Ok (window_error d))\<rparr>\<rparr>"

lemma window_texts:
  "str_contains ''AA23 reverted (or OOG)'' ''AA23 reverted (or OOG)''"
  "\<not> str_contains ''AA23 reverted (or OOG)'' ''AA21 didn't pay prefund''"
  "\<not> str_contains ''AA23 reverted (or OOG)'' ''AA31 paymaster deposit too low''"
  "\<not> str_contains ''AA23 reverted (or OOG)'' ''AA95 out of gas''"
  "str_contains ''AA21 didn't pay prefund'' ''AA21 didn't pay prefund''"
  by code_simp+

lemma window_eth_simulates:
  "simulate_handle_op window_eth (user_op\<lparr>verification_gas_limit := ucast (m :: u64)\<rparr>) =
     (if m < 50000 then Err (FailedOp \<lparr>op_index = 0, reason = ''AA23 reverted (or OOG)''\<rparr>)
      else if 1000000 < m then Err (FailedOp \<lparr>op_index = 0, reason = ''AA21 didn't pay prefund''\<rparr>)
      else Ok \<lparr>er_pre_op_gas = 0, paid = 0, er_valid_after = 0, er_valid_until = 0,
        target_success = True, target_result = []\<rparr>)"
proof -
  have "(ucast m :: U256) < 50000 \<longleftrightarrow> m < 50000" "1000000 < (ucast m :: U256) \<longleftrightarrow> 1000000 < m"
    by (simp_all add: word_less_nat_alt unat_ucast_up)
  then show ?thesis
    by (simp add: simulate_handle_op_def window_eth_def sample_eth_defs decode_revert_error_def
        window_error_def api_of_signed_def from_to_be_bytes)
qed

lemma window_eth_window: "gas_window window_eth user_op 50000 1000000"
proof -
  have shw: "show_failed_op (fmt window_eth) f = reason f" for f
    by (simp add: window_eth_def sample_eth_defs)
  have err: "is_validation_oog window_eth (FailedOp \<lparr>op_index = 0, reason = ''AA23 reverted (or OOG)''\<rparr>)"
    "\<not> is_prefund_not_paid window_eth (FailedOp \<lparr>op_index = 0, reason = ''AA23 reverted (or OOG)''\<rparr>)"
    "is_prefund_not_paid window_eth (FailedOp \<lparr>op_index = 0, reason = ''AA21 didn't pay prefund''\<rparr>)"
    by (simp_all add: is_validation_oog_def is_prefund_not_paid_def shw window_texts Let_def)
  have "\<not> 1000000 < m" if "m < 50000" for m :: u64
    using that by (simp add: word_less_nat_alt)
  then show ?thesis
    by (auto simp: gas_window_def oog_at_def window_eth_simulates err)
qed

theorem verification_search_finds_witness:
  "\<exists>f e. verification_search window_eth sample_signed 0 (- 1) 0 (NoRevert []) = Some (Ok (f, e)) \<and>
     50000 \<le> unat f \<and> unat f \<le> 80000"
  using verification_search_finds [OF window_eth_window, of sample_signed "NoRevert []"] by auto

end
