(* ===== verification/Pool_Queries.thy ===== *)
theory Pool_Queries
  imports Uopool Gas_Estimate
begin

text \<open>
  The read-only requests of the pool (\<open>uopool.rs\<close>): the gas estimate of an operation, and the search
  for an included operation and its receipt through the events of the entry point.
\<close>

section \<open>Data\<close>

definition FILTER_MAX_DEPTH :: u64 where "FILTER_MAX_DEPTH = 10"
definition PRE_VERIFICATION_SAFE_RESERVE_PERC :: u64 where "PRE_VERIFICATION_SAFE_RESERVE_PERC = 10"

record gas_estimation =
  ge_pre_verification_gas :: U256
  ge_verification_gas_limit :: U256
  ge_call_gas_limit :: U256

record user_operation_by_hash =
  bh_user_operation :: user_operation_signed
  bh_entry_point :: address
  bh_transaction_hash :: h256
  bh_block_hash :: h256
  bh_block_number :: u64

record user_operation_receipt =
  rc_user_operation_hash :: user_operation_hash
  rc_sender :: address
  rc_nonce :: U256
  rc_paymaster :: "address option"
  rc_actual_gas_cost :: U256
  rc_actual_gas_used :: U256
  rc_success :: bool
  rc_reason :: string
  rc_logs :: "eth_log list"
  rc_tx_receipt :: eth_receipt

section \<open>The gas estimate\<close>

definition estimation_error :: "eth \<Rightarrow> user_operation \<Rightarrow> entry_point_error \<Rightarrow> mempool_error" where
  "estimation_error E uo e = \<lparr>me_hash = hash uo, me_kind =
     (case e of
        FailedOp f \<Rightarrow> InvalidUserOperation (InvSimulation (SimValidation (debug_failed_op (tcodec E) f)))
      | ExecutionReverted msg \<Rightarrow> InvalidUserOperation (InvSimulation (SimExecution msg))
      | EpProvider inner \<Rightarrow> MekProvider inner
      | _ \<Rightarrow> MekOther (debug_ep_error (fmt E) e))\<rparr>"

definition estimated_pre_verification_gas :: "abi \<Rightarrow> user_operation_signed \<Rightarrow> U256" where
  "estimated_pre_verification_gas A u =
     div_ceil (sat_mul (calculate_pre_verification_gas A default_overhead u)
       (sat_add 100 (ucast PRE_VERIFICATION_SAFE_RESERVE_PERC))) 100"

definition unsafe_limits :: "U256 \<Rightarrow> user_operation_signed \<Rightarrow> execution_result \<Rightarrow> U256 \<times> U256" where
  "unsafe_limits pvg u res =
     (div_ceil (sat_mul (sat_sub (er_pre_op_gas res) pvg) 3) 2,
      sat_add (sat_sub (div_ceil (paid res) (max_fee_per_gas u)) (er_pre_op_gas res)) 35000)"

text \<open>The result is \<open>None\<close> when the searches of the estimation do not end.\<close>

definition estimate_user_operation_gas ::
  "user_operation \<Rightarrow> ('s, 'r) uopool \<Rightarrow> (mempool_error, gas_estimation) outcome option" where
  "estimate_user_operation_gas uo P =
     (let E = up_entry_point P;
          pvg = estimated_pre_verification_gas (eth_abi E) (user_operation uo);
          limits = (case up_mode P of
              Standard \<Rightarrow>
                map_option (map_err (estimation_error E uo)) (estimate_user_op_gas (user_operation uo) E)
            | Unsafe \<Rightarrow>
                Some (bind_ok (map_err (estimation_error E uo) (simulate_handle_op E (user_operation uo)))
                  (\<lambda>res. Ok (unsafe_limits pvg (user_operation uo) res)))) in
      map_option (\<lambda>res. bind_ok res (\<lambda>(vgl, cgl).
        Ok \<lparr>ge_pre_verification_gas = pvg, ge_verification_gas_limit = vgl, ge_call_gas_limit = cgl\<rparr>)) limits)"

section \<open>Included operations\<close>

text \<open>The subtraction of the filter depth from the number of the latest block panics below zero.\<close>

definition get_user_operation_event_meta ::
  "user_operation_hash \<Rightarrow> ('s, 'r) uopool \<Rightarrow>
   (pool_error, (user_operation_event \<times> log_meta) option) outcome" where
  "get_user_operation_event_meta h P =
     (let H = past (up_entry_point P) in
      bind_ok (map_err ClientFailed (hist_block_number H)) (\<lambda>latest_block.
      if latest_block < FILTER_MAX_DEPTH then Panic
      else
        bind_ok (map_err ClientFailed (hist_events H (latest_block - FILTER_MAX_DEPTH) h)) (\<lambda>res.
        Ok (fold (\<lambda>log_meta event. Some log_meta) res None))))"

definition bundled_op ::
  "eth \<Rightarrow> user_operation_event \<Rightarrow> transaction \<Rightarrow> (user_operation_signed \<times> address) option" where
  "bundled_op E event tx =
     parse_from_input_data E (tx_input tx) \<bind> (\<lambda>uos.
     tx_to tx \<bind> (\<lambda>ep.
     map_option (\<lambda>uo. (uo, ep))
       (find (\<lambda>uo. sender uo = ev_sender event \<and> nonce uo = ev_nonce event) uos)))"

definition get_user_operation_by_hash ::
  "user_operation_hash \<Rightarrow> ('s, 'r) uopool \<Rightarrow> (pool_error, user_operation_by_hash) outcome" where
  "get_user_operation_by_hash h P =
     (let E = up_entry_point P in
      bind_ok (get_user_operation_event_meta h P) (\<lambda>found. case found of
          None \<Rightarrow> Err NoUserOperation
        | Some (event, meta) \<Rightarrow>
            bind_ok (map_err ClientFailed (hist_transaction (past E) (lm_transaction_hash meta))) (\<lambda>tx.
            case tx \<bind> bundled_op E event of
              None \<Rightarrow> Err NoUserOperation
            | Some (uo, ep) \<Rightarrow>
                Ok \<lparr>bh_user_operation = uo, bh_entry_point = ep,
                    bh_transaction_hash = lm_transaction_hash meta,
                    bh_block_hash = lm_block_hash meta, bh_block_number = lm_block_number meta\<rparr>)))"

definition get_user_operation_receipt ::
  "user_operation_hash \<Rightarrow> ('s, 'r) uopool \<Rightarrow> (pool_error, user_operation_receipt) outcome" where
  "get_user_operation_receipt h P =
     (let E = up_entry_point P in
      bind_ok (get_user_operation_event_meta h P) (\<lambda>found. case found of
          None \<Rightarrow> Err NoUserOperation
        | Some (event, meta) \<Rightarrow>
            bind_ok (map_err ClientFailed (hist_receipt (past E) (lm_transaction_hash meta))) (\<lambda>receipt.
            case receipt of
              None \<Rightarrow> Err NoUserOperation
            | Some tx_receipt \<Rightarrow>
                bind_ok (get_user_operation_by_hash h P) (\<lambda>uo.
                Ok \<lparr>rc_user_operation_hash = h, rc_sender = ev_sender event, rc_nonce = ev_nonce event,
                    rc_paymaster = get_address (paymaster_and_data (bh_user_operation uo)),
                    rc_actual_gas_cost = ev_actual_gas_cost event,
                    rc_actual_gas_used = ev_actual_gas_used event, rc_success = ev_success event,
                    rc_reason = [], rc_logs = er_logs tx_receipt, rc_tx_receipt = tx_receipt\<rparr>))))"

section \<open>The estimate passes the sanity check\<close>

definition byte_cost :: "bytes \<Rightarrow> nat" where
  "byte_cost bs = 4 * length (filter (\<lambda>b. b = 0) bs) + 16 * length (filter (\<lambda>b. b \<noteq> 0) bs)"

definition changed_bytes :: "bytes \<Rightarrow> bytes \<Rightarrow> nat" where
  "changed_bytes xs ys = length (filter (\<lambda>(x, y). x \<noteq> y) (zip xs ys))"

lemma byte_cost_changed:
  assumes "length xs = length ys"
  shows "byte_cost ys \<le> byte_cost xs + 12 * changed_bytes xs ys"
  using assms by (induction rule: list_induct2) (auto simp: byte_cost_def changed_bytes_def)

lemma byte_cost_le: "byte_cost bs \<le> 16 * length bs"
  using sum_length_filter_compl [of "\<lambda>b. b = 0" bs] by (simp add: byte_cost_def)

lemma pre_verification_gas_byte_cost:
  assumes "length (pack A u) < 2 ^ 64"
  shows "unat (calculate_pre_verification_gas A default_overhead u) =
      39300 + byte_cost (pack A u) + (4 * (length (pack A u) + 31) + 31) div 32"
    and "unat (calculate_pre_verification_gas A default_overhead u) < 2 ^ 72"
proof -
  let ?c = "unat (calculate_pre_verification_gas A default_overhead u)"
  show c: "?c = 39300 + byte_cost (pack A u) + (4 * (length (pack A u) + 31) + 31) div 32"
    using pre_verification_gas_nat [OF assms] by (simp add: byte_cost_def)
  have "(4 * (length (pack A u) + 31) + 31) div 32 \<le> 4 * (length (pack A u) + 31) + 31"
    by (rule div_le_dividend)
  then show "?c < 2 ^ 72" using byte_cost_le [of "pack A u"] assms unfolding c by simp
qed

lemma estimated_pre_verification_gas_nat:
  assumes "length (pack A u) < 2 ^ 64"
  shows "unat (estimated_pre_verification_gas A u) =
    (unat (calculate_pre_verification_gas A default_overhead u) * 110 + 99) div 100"
  using pre_verification_gas_byte_cost(2) [OF assms]
  by (simp add: estimated_pre_verification_gas_def PRE_VERIFICATION_SAFE_RESERVE_PERC_def
      unat_div_ceil unat_sat_mul sat_add_def)

text \<open>The estimated pre-verification gas is enough: an operation that is sent with the estimate is
  not refused for it, even when its packed form differs from that of the estimated operation in up
  to 700 bytes (new gas limits and fees and the real signature), as long as the length is the same.\<close>

theorem estimated_pre_verification_gas_accepted:
  assumes "estimate_user_operation_gas uo P = Some (Ok est)"
    and "pre_verification_gas u = ge_pre_verification_gas est"
    and "verification_gas_limit u \<le> max_verification_gas"
    and "eth_abi (sh_entry_point H) = eth_abi (up_entry_point P)"
    and "length (pack (eth_abi (up_entry_point P)) u) =
           length (pack (eth_abi (up_entry_point P)) (user_operation uo))"
    and "length (pack (eth_abi (up_entry_point P)) u) < 2 ^ 64"
    and "changed_bytes (pack (eth_abi (up_entry_point P)) (user_operation uo))
           (pack (eth_abi (up_entry_point P)) u) \<le> 700"
  shows "check_verification_gas max_verification_gas \<lparr>hash = h, user_operation = u\<rparr> H = Ok ()"
proof -
  let ?A = "eth_abi (up_entry_point P)"
  let ?c = "unat (calculate_pre_verification_gas ?A default_overhead (user_operation uo))"
  let ?d = "unat (calculate_pre_verification_gas ?A default_overhead u)"
  have est: "ge_pre_verification_gas est = estimated_pre_verification_gas ?A (user_operation uo)"
    using assms(1)
    by (auto simp: estimate_user_operation_gas_def Let_def bind_ok_eq_Ok split: uopool_mode.splits)
  have lt: "length (pack ?A (user_operation uo)) < 2 ^ 64" using assms(5,6) by simp
  note c = pre_verification_gas_byte_cost [OF lt] and d = pre_verification_gas_byte_cost [OF assms(6)]
  have le: "?d \<le> ?c + 8400"
    using byte_cost_changed [OF assms(5) [symmetric]] assms(7) unfolding c(1) d(1) assms(5) by linarith
  have "unat (div_ceil (sat_mul (calculate_pre_verification_gas ?A default_overhead u) 90) 100) =
      (?d * 90 + 99) div 100"
    using d(2) by (simp add: unat_div_ceil unat_sat_mul)
  also have "\<dots> \<le> (?c * 110 + 99) div 100"
    by (rule div_le_mono) (use le c(1) in linarith)
  also have "\<dots> = unat (ge_pre_verification_gas est)"
    using estimated_pre_verification_gas_nat [OF lt] by (simp add: est)
  finally show ?thesis
    using assms(2-4) by (simp add: check_verification_gas_def Let_def word_le_nat_alt not_less)
qed

text \<open>A chain on which operations execute, and an encoding of the gas fields as words.\<close>

definition executing_eth :: eth where
  "executing_eth = sample_eth\<lparr>
     codec := sample_codec\<lparr>api_decode_errors := (\<lambda>_. Ok (ApiExecutionResult \<lparr>er_pre_op_gas = 90000,
       paid = 9000000, er_valid_after = 0, er_valid_until = 0, target_success = True, target_result = []\<rparr>))\<rparr>,
     eth_abi := sample_abi\<lparr>encode_signed := (\<lambda>u. to_be_bytes 32 (call_gas_limit u) @
       to_be_bytes 32 (verification_gas_limit u) @ to_be_bytes 32 (pre_verification_gas u) @ signature u)\<rparr>\<rparr>"

lemma changed_bytes_le: "changed_bytes xs ys \<le> length xs"
  unfolding changed_bytes_def by (rule order_trans [OF length_filter_le]) simp

theorem estimated_pre_verification_gas_accepted_witness:
  "\<exists>est. estimate_user_operation_gas sample_uo ((sample_pool 5000000)\<lparr>up_entry_point := executing_eth\<rparr>) =
       Some (Ok est) \<and>
     check_verification_gas 300000 \<lparr>hash = 43, user_operation = sample_signed\<lparr>
         verification_gas_limit := 250000, pre_verification_gas := ge_pre_verification_gas est\<rparr>\<rparr>
       \<lparr>sh_entry_point = executing_eth, sh_chain = 5, sh_val_config = default_validation_config\<rparr> = Ok ()"
proof -
  let ?P = "(sample_pool 5000000)\<lparr>up_entry_point := executing_eth\<rparr>"
  let ?H = "\<lparr>sh_entry_point = executing_eth, sh_chain = 5, sh_val_config = default_validation_config\<rparr>"
  have "\<exists>est. estimate_user_operation_gas sample_uo ?P = Some (Ok est)"
    by (simp add: estimate_user_operation_gas_def Let_def sample_pool_def simulate_handle_op_def
        executing_eth_def sample_eth_defs decode_revert_error_def unsafe_limits_def)
  then obtain est where est: "estimate_user_operation_gas sample_uo ?P = Some (Ok est)" by blast
  let ?u = "sample_signed\<lparr>verification_gas_limit := 250000,
    pre_verification_gas := ge_pre_verification_gas est\<rparr>"
  have len: "length (pack (eth_abi executing_eth) u) = 96 + length (signature u)" for u
    by (simp add: pack_def executing_eth_def)
  have "length (pack (eth_abi (up_entry_point ?P)) ?u) = 96"
    "length (pack (eth_abi (up_entry_point ?P)) (user_operation sample_uo)) = 96"
    by (simp_all add: len) (simp_all add: sample_signed_def)
  moreover from this have "changed_bytes (pack (eth_abi (up_entry_point ?P)) (user_operation sample_uo))
      (pack (eth_abi (up_entry_point ?P)) ?u) \<le> 700"
    by (intro order_trans [OF changed_bytes_le]) simp
  ultimately have "check_verification_gas 300000 \<lparr>hash = 43, user_operation = ?u\<rparr> ?H = Ok ()"
    by (intro estimated_pre_verification_gas_accepted [OF est]) simp_all
  with est show ?thesis by blast
qed

section \<open>Receipts agree with operations\<close>

lemma fold_last: "fold (\<lambda>x _. Some x) xs acc = (if xs = [] then acc else Some (last xs))"
  by (induction xs arbitrary: acc) auto

lemma event_meta_last:
  assumes "get_user_operation_event_meta h P = Ok (Some e)"
  shows "\<exists>latest res. hist_block_number (past (up_entry_point P)) = Ok latest \<and> FILTER_MAX_DEPTH \<le> latest \<and>
    hist_events (past (up_entry_point P)) (latest - FILTER_MAX_DEPTH) h = Ok res \<and> res \<noteq> [] \<and> last res = e"
  using assms
  by (auto simp: get_user_operation_event_meta_def Let_def bind_ok_eq_Ok fold_last map_err_eq_Ok
      split: if_splits)

lemma bundled_op_Some:
  assumes "bundled_op E event tx = Some (uo, ep)"
  shows "\<exists>uos. parse_from_input_data E (tx_input tx) = Some uos \<and> uo \<in> set uos \<and>
    sender uo = ev_sender event \<and> nonce uo = ev_nonce event \<and> tx_to tx = Some ep"
  using assms by (auto simp: bundled_op_def find_Some_iff bind_eq_Some_conv)

lemma by_hash_Ok:
  assumes "get_user_operation_by_hash h P = Ok r"
    and "get_user_operation_event_meta h P = Ok (Some (event, meta))"
  shows "\<exists>tx uos. hist_transaction (past (up_entry_point P)) (lm_transaction_hash meta) = Ok (Some tx) \<and>
    parse_from_input_data (up_entry_point P) (tx_input tx) = Some uos \<and> bh_user_operation r \<in> set uos \<and>
    sender (bh_user_operation r) = ev_sender event \<and> nonce (bh_user_operation r) = ev_nonce event \<and>
    tx_to tx = Some (bh_entry_point r) \<and> bh_transaction_hash r = lm_transaction_hash meta \<and>
    bh_block_hash r = lm_block_hash meta \<and> bh_block_number r = lm_block_number meta"
proof -
  let ?E = "up_entry_point P"
  obtain found uo ep where found: "hist_transaction (past ?E) (lm_transaction_hash meta) = Ok found"
      "found \<bind> bundled_op ?E event = Some (uo, ep)"
      "bh_user_operation r = uo" "bh_entry_point r = ep" "bh_transaction_hash r = lm_transaction_hash meta"
      "bh_block_hash r = lm_block_hash meta" "bh_block_number r = lm_block_number meta"
    using assms
    by (fastforce simp: get_user_operation_by_hash_def Let_def bind_ok_eq_Ok split: option.splits)
  then obtain tx where "found = Some tx" "bundled_op ?E event tx = Some (uo, ep)"
    by (auto simp: bind_eq_Some_conv)
  with found bundled_op_Some show ?thesis by metis
qed

text \<open>C37: A receipt and the operation found by hash agree, and both come from the last event logged for
  the hash within the last ten blocks: when a receipt is served, the operation is found too, with the
  transaction and the block of that event, is part of the bundle of that transaction, and has the
  sender, nonce and paymaster the receipt reports; the success and the gas of the receipt are those of
  the event, and the transaction receipt and its logs are those of the event's transaction.\<close>

theorem receipt_agrees_with_operation:
  assumes "get_user_operation_receipt h P = Ok rc"
  shows "\<exists>r latest events event meta tx uos.
    get_user_operation_by_hash h P = Ok r \<and>
    hist_block_number (past (up_entry_point P)) = Ok latest \<and> 10 \<le> latest \<and>
    hist_events (past (up_entry_point P)) (latest - 10) h = Ok events \<and> events \<noteq> [] \<and>
    last events = (event, meta) \<and>
    bh_transaction_hash r = lm_transaction_hash meta \<and> bh_block_hash r = lm_block_hash meta \<and>
    bh_block_number r = lm_block_number meta \<and>
    hist_transaction (past (up_entry_point P)) (lm_transaction_hash meta) = Ok (Some tx) \<and>
    tx_to tx = Some (bh_entry_point r) \<and>
    parse_from_input_data (up_entry_point P) (tx_input tx) = Some uos \<and> bh_user_operation r \<in> set uos \<and>
    rc_user_operation_hash rc = h \<and>
    rc_sender rc = sender (bh_user_operation r) \<and> rc_nonce rc = nonce (bh_user_operation r) \<and>
    rc_paymaster rc = get_address (paymaster_and_data (bh_user_operation r)) \<and>
    rc_success rc = ev_success event \<and> rc_actual_gas_cost rc = ev_actual_gas_cost event \<and>
    rc_actual_gas_used rc = ev_actual_gas_used event \<and>
    hist_receipt (past (up_entry_point P)) (lm_transaction_hash meta) = Ok (Some (rc_tx_receipt rc)) \<and>
    rc_logs rc = er_logs (rc_tx_receipt rc)"
proof -
  obtain event meta r where found: "get_user_operation_event_meta h P = Ok (Some (event, meta))"
      and r: "get_user_operation_by_hash h P = Ok r"
      and rc: "hist_receipt (past (up_entry_point P)) (lm_transaction_hash meta) = Ok (Some (rc_tx_receipt rc))"
        "rc_user_operation_hash rc = h" "rc_sender rc = ev_sender event" "rc_nonce rc = ev_nonce event"
        "rc_paymaster rc = get_address (paymaster_and_data (bh_user_operation r))"
        "rc_success rc = ev_success event" "rc_actual_gas_cost rc = ev_actual_gas_cost event"
        "rc_actual_gas_used rc = ev_actual_gas_used event" "rc_logs rc = er_logs (rc_tx_receipt rc)"
    using assms
    by (auto simp: get_user_operation_receipt_def Let_def bind_ok_eq_Ok split: option.splits)
  obtain latest events where ev: "hist_block_number (past (up_entry_point P)) = Ok latest"
      "FILTER_MAX_DEPTH \<le> latest" "events \<noteq> []" "last events = (event, meta)"
      "hist_events (past (up_entry_point P)) (latest - FILTER_MAX_DEPTH) h = Ok events"
    using event_meta_last [OF found] by blast
  obtain tx uos where tx: "parse_from_input_data (up_entry_point P) (tx_input tx) = Some uos"
      "hist_transaction (past (up_entry_point P)) (lm_transaction_hash meta) = Ok (Some tx)"
      "bh_user_operation r \<in> set uos" "sender (bh_user_operation r) = ev_sender event"
      "nonce (bh_user_operation r) = ev_nonce event" "bh_transaction_hash r = lm_transaction_hash meta"
      "bh_block_hash r = lm_block_hash meta" "bh_block_number r = lm_block_number meta"
      "tx_to tx = Some (bh_entry_point r)"
    using by_hash_Ok [OF r found] by blast
  show ?thesis
    by (rule exI [of _ r], rule exI [of _ latest], rule exI [of _ events], rule exI [of _ event],
        rule exI [of _ meta], rule exI [of _ tx], rule exI [of _ uos])
      (use ev tx r rc in \<open>simp add: FILTER_MAX_DEPTH_def\<close>)
qed

definition sample_receipt :: eth_receipt where
  "sample_receipt = \<lparr>
     er_transaction_hash = 5, er_transaction_index = 0, er_block_hash = Some 6, er_block_number = Some 95,
     er_from = 9, er_to = Some 1000, er_cumulative_gas_used = 80000, er_gas_used = Some 80000,
     er_contract_address = None, er_logs = [], er_status = Some 1, er_root = None, er_logs_bloom = [],
     er_transaction_type = None, er_effective_gas_price = Some 100\<rparr>"

definition included_eth :: eth where
  "included_eth = sample_eth\<lparr>
     codec := sample_codec\<lparr>api_decode_calls := (\<lambda>_. Ok (HandleOps [api_of_signed sample_signed] 9))\<rparr>,
     past := \<lparr>hist_block_number = Ok 100,
       hist_events = (\<lambda>_ h. Ok [(\<lparr>ev_user_op_hash = h, ev_sender = 7, ev_nonce = 1, ev_success = False,
         ev_actual_gas_cost = 7000000, ev_actual_gas_used = 70000\<rparr>,
         \<lparr>lm_transaction_hash = 4, lm_block_hash = 3, lm_block_number = 94\<rparr>),
        (\<lparr>ev_user_op_hash = h, ev_sender = 7, ev_nonce = 1, ev_success = True,
         ev_actual_gas_cost = 8000000, ev_actual_gas_used = 80000\<rparr>,
         \<lparr>lm_transaction_hash = 5, lm_block_hash = 6, lm_block_number = 95\<rparr>)]),
       hist_transaction = (\<lambda>t. Ok (if t = 5 then Some \<lparr>tx_to = Some 1000, tx_input = []\<rparr> else None)),
       hist_receipt = (\<lambda>t. Ok (if t = 5 then Some sample_receipt else None))\<rparr>\<rparr>"

theorem receipt_agrees_with_operation_witness:
  "\<exists>rc r. get_user_operation_receipt 42 ((sample_pool 5000000)\<lparr>up_entry_point := included_eth\<rparr>) = Ok rc \<and>
     get_user_operation_by_hash 42 ((sample_pool 5000000)\<lparr>up_entry_point := included_eth\<rparr>) = Ok r \<and>
     bh_transaction_hash r = 5 \<and> bh_block_number r = 95 \<and> rc_success rc \<and> rc_tx_receipt rc = sample_receipt \<and>
     rc_sender rc = sender (bh_user_operation r) \<and> rc_nonce rc = nonce (bh_user_operation r)"
proof -
  let ?P = "(sample_pool 5000000)\<lparr>up_entry_point := included_eth\<rparr>"
  have "\<exists>rc. get_user_operation_receipt 42 ?P = Ok rc"
    by (simp add: get_user_operation_receipt_def get_user_operation_by_hash_def bundled_op_def
        get_user_operation_event_meta_def FILTER_MAX_DEPTH_def parse_from_input_data_def included_eth_def
        sample_signed_def Let_def)
  then obtain rc where rc: "get_user_operation_receipt 42 ?P = Ok rc" by blast
  from receipt_agrees_with_operation [OF this] obtain r where r: "get_user_operation_by_hash 42 ?P = Ok r"
      "bh_transaction_hash r = 5" "bh_block_number r = 95" "rc_success rc" "rc_tx_receipt rc = sample_receipt"
      "rc_sender rc = sender (bh_user_operation r)" "rc_nonce rc = nonce (bh_user_operation r)"
    by (auto simp: included_eth_def)
  with rc show ?thesis by blast
qed

end
