(* ===== verification/Grpc_Proto.thy ===== *)
theory Grpc_Proto
  imports Entry_Point
begin

text \<open>
  The messages between the services (\<open>grpc/src/proto.rs\<close>): the fields of the protocol buffers and the
  conversions from and to the primitives. Message fields of message type are optional, as the
  protocol buffer compiler makes them.
\<close>

section \<open>Hashes and numbers\<close>

record pb_h128 =
  h128_hi :: u64
  h128_lo :: u64

record pb_h160 =
  h160_hi :: "pb_h128 option"
  h160_lo :: "32 word"

record pb_h256 =
  h256_hi :: "pb_h128 option"
  h256_lo :: "pb_h128 option"

record pb_u256 =
  pb_data :: bytes

definition default_pb_h128 :: pb_h128 where
  "default_pb_h128 = \<lparr>h128_hi = 0, h128_lo = 0\<rparr>"

text \<open>An \<open>H128\<close> is given by its 16 bytes.\<close>

definition pb_of_h128 :: "bytes \<Rightarrow> pb_h128" where
  "pb_of_h128 val =
     \<lparr>h128_hi = from_be_bytes (take 8 val), h128_lo = from_be_bytes (take 8 (drop 8 val))\<rparr>"

definition pb_of_address :: "address \<Rightarrow> pb_h160" where
  "pb_of_address val =
     \<lparr>h160_hi = Some (pb_of_h128 (take 16 (to_fixed_bytes val))),
      h160_lo = from_be_bytes (take 4 (drop 16 (to_fixed_bytes val)))\<rparr>"

definition pb_of_h256 :: "h256 \<Rightarrow> pb_h256" where
  "pb_of_h256 val =
     \<lparr>h256_hi = Some (pb_of_h128 (take 16 (to_be_bytes 32 val))),
      h256_lo = Some (pb_of_h128 (drop 16 (to_be_bytes 32 val)))\<rparr>"

definition h128_of_pb :: "pb_h128 \<Rightarrow> bytes" where
  "h128_of_pb val = to_be_bytes 8 (h128_hi val) @ to_be_bytes 8 (h128_lo val)"

definition h128_or_default :: "pb_h128 option \<Rightarrow> pb_h128" where
  "h128_or_default m = (case m of Some v \<Rightarrow> v | None \<Rightarrow> default_pb_h128)"

definition address_of_pb :: "pb_h160 \<Rightarrow> address" where
  "address_of_pb val =
     from_be_bytes (h128_of_pb (h128_or_default (h160_hi val)) @ to_be_bytes 4 (h160_lo val))"

definition h256_of_pb :: "pb_h256 \<Rightarrow> h256" where
  "h256_of_pb val =
     from_be_bytes (h128_of_pb (h128_or_default (h256_hi val)) @
       h128_of_pb (h128_or_default (h256_lo val)))"

text \<open>Reading a 256-bit number from more than 32 bytes panics.\<close>

definition u256_of_pb :: "pb_u256 \<Rightarrow> ('e, U256) outcome" where
  "u256_of_pb val = (if length (pb_data val) \<le> 32 then Ok (from_be_bytes (pb_data val)) else Panic)"

definition pb_of_u256 :: "U256 \<Rightarrow> pb_u256" where
  "pb_of_u256 val = \<lparr>pb_data = to_be_bytes 32 val\<rparr>"

section \<open>User operations\<close>

record pb_user_operation_signed =
  pb_sender :: "pb_h160 option"
  pb_nonce :: "pb_u256 option"
  pb_init_code :: bytes
  pb_call_data :: bytes
  pb_call_gas_limit :: "pb_u256 option"
  pb_verification_gas_limit :: "pb_u256 option"
  pb_pre_verification_gas :: "pb_u256 option"
  pb_max_fee_per_gas :: "pb_u256 option"
  pb_max_priority_fee_per_gas :: "pb_u256 option"
  pb_paymaster_and_data :: bytes
  pb_signature :: bytes

record pb_user_operation =
  pb_hash :: "pb_h256 option"
  pb_uo :: "pb_user_operation_signed option"

definition default_signed :: user_operation_signed where
  "default_signed = \<lparr>
     sender = 0, nonce = 0, init_code = [], call_data = [], call_gas_limit = 0,
     verification_gas_limit = 0, pre_verification_gas = 0, max_fee_per_gas = 0,
     max_priority_fee_per_gas = 0, paymaster_and_data = [], signature = []\<rparr>"

definition pb_of_signed :: "user_operation_signed \<Rightarrow> pb_user_operation_signed" where
  "pb_of_signed uo = \<lparr>
     pb_sender = Some (pb_of_address (sender uo)),
     pb_nonce = Some (pb_of_u256 (nonce uo)),
     pb_init_code = init_code uo,
     pb_call_data = call_data uo,
     pb_call_gas_limit = Some (pb_of_u256 (call_gas_limit uo)),
     pb_verification_gas_limit = Some (pb_of_u256 (verification_gas_limit uo)),
     pb_pre_verification_gas = Some (pb_of_u256 (pre_verification_gas uo)),
     pb_max_fee_per_gas = Some (pb_of_u256 (max_fee_per_gas uo)),
     pb_max_priority_fee_per_gas = Some (pb_of_u256 (max_priority_fee_per_gas uo)),
     pb_paymaster_and_data = paymaster_and_data uo,
     pb_signature = signature uo\<rparr>"

definition pb_of_user_operation :: "user_operation \<Rightarrow> pb_user_operation" where
  "pb_of_user_operation uo = \<lparr>
     pb_hash = Some (pb_of_h256 (hash uo)),
     pb_uo = Some \<lparr>
       pb_sender = Some (pb_of_address (sender (user_operation uo))),
       pb_nonce = Some (pb_of_u256 (nonce (user_operation uo))),
       pb_init_code = init_code (user_operation uo),
       pb_call_data = call_data (user_operation uo),
       pb_call_gas_limit = Some (pb_of_u256 (call_gas_limit (user_operation uo))),
       pb_verification_gas_limit = Some (pb_of_u256 (verification_gas_limit (user_operation uo))),
       pb_pre_verification_gas = Some (pb_of_u256 (pre_verification_gas (user_operation uo))),
       pb_max_fee_per_gas = Some (pb_of_u256 (max_fee_per_gas (user_operation uo))),
       pb_max_priority_fee_per_gas = Some (pb_of_u256 (max_priority_fee_per_gas (user_operation uo))),
       pb_paymaster_and_data = paymaster_and_data (user_operation uo),
       pb_signature = signature (user_operation uo)\<rparr>\<rparr>"

definition u256_or_zero :: "pb_u256 option \<Rightarrow> ('e, U256) outcome" where
  "u256_or_zero m = (case m of Some v \<Rightarrow> u256_of_pb v | None \<Rightarrow> Ok 0)"

definition signed_of_pb :: "pb_user_operation_signed \<Rightarrow> ('e, user_operation_signed) outcome" where
  "signed_of_pb p =
     bind_ok (u256_or_zero (pb_nonce p)) (\<lambda>n.
     bind_ok (u256_or_zero (pb_call_gas_limit p)) (\<lambda>cgl.
     bind_ok (u256_or_zero (pb_verification_gas_limit p)) (\<lambda>vgl.
     bind_ok (u256_or_zero (pb_pre_verification_gas p)) (\<lambda>pvg.
     bind_ok (u256_or_zero (pb_max_fee_per_gas p)) (\<lambda>mf.
     bind_ok (u256_or_zero (pb_max_priority_fee_per_gas p)) (\<lambda>mpf.
     Ok \<lparr>sender = (case pb_sender p of Some a \<Rightarrow> address_of_pb a | None \<Rightarrow> 0),
         nonce = n, init_code = pb_init_code p, call_data = pb_call_data p,
         call_gas_limit = cgl, verification_gas_limit = vgl, pre_verification_gas = pvg,
         max_fee_per_gas = mf, max_priority_fee_per_gas = mpf,
         paymaster_and_data = pb_paymaster_and_data p, signature = pb_signature p\<rparr>))))))"

definition user_operation_of_pb :: "pb_user_operation \<Rightarrow> ('e, user_operation) outcome" where
  "user_operation_of_pb p =
     bind_ok (case pb_uo p of Some uo \<Rightarrow> signed_of_pb uo | None \<Rightarrow> Ok default_signed) (\<lambda>uo.
     Ok \<lparr>hash = (case pb_hash p of Some h \<Rightarrow> h256_of_pb h | None \<Rightarrow> 0), user_operation = uo\<rparr>)"

section \<open>Reputation and stake\<close>

record pb_reputation_entry =
  pb_addr :: "pb_h160 option"
  pb_uo_seen :: u64
  pb_uo_included :: u64
  pb_stat :: "32 word"

record pb_stake_info =
  pb_si_address :: "pb_h160 option"
  pb_stake :: u64
  pb_unstake_delay :: u64

text \<open>The numbers of the generated enumeration \<open>ReputationStatus\<close>.\<close>

fun pb_status :: "status \<Rightarrow> 32 word" where
  "pb_status OK = 0"
| "pb_status THROTTLED = 1"
| "pb_status BANNED = 2"

definition pb_of_reputation_entry :: "reputation_entry \<Rightarrow> pb_reputation_entry" where
  "pb_of_reputation_entry en = \<lparr>
     pb_addr = Some (pb_of_address (re_address en)),
     pb_uo_seen = uo_seen en,
     pb_uo_included = uo_included en,
     pb_stat = pb_status (status_from_u64 (re_status en))\<rparr>"

definition reputation_entry_of_pb :: "pb_reputation_entry \<Rightarrow> reputation_entry" where
  "reputation_entry_of_pb p = \<lparr>
     re_address = (case pb_addr p of Some a \<Rightarrow> address_of_pb a | None \<Rightarrow> 0),
     uo_seen = pb_uo_seen p,
     uo_included = pb_uo_included p,
     re_status =
       (if pb_stat p = pb_status OK then status_to_u64 OK
        else if pb_stat p = pb_status THROTTLED then status_to_u64 THROTTLED
        else if pb_stat p = pb_status BANNED then status_to_u64 BANNED
        else status_to_u64 OK)\<rparr>"

text \<open>\<open>as_u64\<close> panics on numbers of more than 64 bits.\<close>

definition pb_of_stake_info :: "stake_info \<Rightarrow> ('e, pb_stake_info) outcome" where
  "pb_of_stake_info si =
     bind_ok (as_u64 (stake si)) (\<lambda>st.
     bind_ok (as_u64 (unstake_delay si)) (\<lambda>del.
     Ok \<lparr>pb_si_address = Some (pb_of_address (si_address si)), pb_stake = st, pb_unstake_delay = del\<rparr>))"

definition h160_or_default :: "pb_h160 option \<Rightarrow> pb_h160" where
  "h160_or_default m = (case m of Some v \<Rightarrow> v | None \<Rightarrow> \<lparr>h160_hi = None, h160_lo = 0\<rparr>)"

definition stake_info_of_pb :: "pb_stake_info \<Rightarrow> stake_info" where
  "stake_info_of_pb p = \<lparr>
     si_address = address_of_pb (h160_or_default (pb_si_address p)),
     stake = ucast (pb_stake p), unstake_delay = ucast (pb_unstake_delay p)\<rparr>"

section \<open>Storage maps\<close>

text \<open>
  The map is keyed by text. How addresses and hashes are rendered and parsed is the library's;
  parsing gives nothing for text it does not accept.
\<close>

record text_codec =
  address_to_string :: "address \<Rightarrow> string"
  address_from_str :: "string \<Rightarrow> address option"
  h256_to_string :: "h256 \<Rightarrow> string"
  h256_from_str :: "string \<Rightarrow> h256 option"

record pb_storage_map =
  pb_root_hashes :: "(string, string) hash_map"
  pb_slots :: "(string, (string, string) hash_map) hash_map"

definition pb_of_storage_map :: "text_codec \<Rightarrow> storage_map \<Rightarrow> pb_storage_map" where
  "pb_of_storage_map T sm = \<lparr>
     pb_root_hashes = hm_collect (map (\<lambda>(k, v). (address_to_string T k, h256_to_string T v)) (root_hashes sm)),
     pb_slots = hm_collect (map (\<lambda>(k, v). (address_to_string T k, v)) (slots sm))\<rparr>"

definition storage_map_of_pb :: "text_codec \<Rightarrow> pb_storage_map \<Rightarrow> storage_map" where
  "storage_map_of_pb T p = \<lparr>
     root_hashes = hm_collect (map (\<lambda>(k, v).
       (unwrap_or_default (address_from_str T k), unwrap_or_default (h256_from_str T v))) (pb_root_hashes p)),
     slots = hm_collect (map (\<lambda>(k, v). (unwrap_or_default (address_from_str T k), v)) (pb_slots p))\<rparr>"

section \<open>Logs and transaction receipts\<close>

text \<open>The messages made from the library's logs and receipts.\<close>

record pb_log =
  pl_address :: "pb_h160 option"
  pl_topics :: "pb_h256 list"
  pl_data :: bytes
  pl_block_number :: u64
  pl_transaction_hash :: "pb_h256 option"
  pl_transaction_index :: u64
  pl_block_hash :: "pb_h256 option"
  pl_log_index :: "pb_u256 option"
  pl_removed :: bool

record pb_receipt =
  pr_transaction_hash :: "pb_h256 option"
  pr_transaction_index :: u64
  pr_block_hash :: "pb_h256 option"
  pr_block_number :: u64
  pr_from :: "pb_h160 option"
  pr_to :: "pb_h160 option"
  pr_cumulative_gas_used :: "pb_u256 option"
  pr_gas_used :: "pb_u256 option"
  pr_contract_address :: "pb_h160 option"
  pr_logs :: "pb_log list"
  pr_logs_bloom :: string
  pr_status :: u64
  pr_root :: "pb_h256 option"
  pr_effective_gas_price :: "pb_u256 option"

definition pb_of_log :: "eth_log \<Rightarrow> pb_log" where
  "pb_of_log l = \<lparr>
     pl_address = Some (pb_of_address (el_address l)),
     pl_topics = map pb_of_h256 (el_topics l),
     pl_data = el_data l,
     pl_block_number = unwrap_or_default (el_block_number l),
     pl_transaction_hash = map_option pb_of_h256 (el_transaction_hash l),
     pl_transaction_index = unwrap_or_default (el_transaction_index l),
     pl_block_hash = map_option pb_of_h256 (el_block_hash l),
     pl_log_index = map_option pb_of_u256 (el_log_index l),
     pl_removed = (el_removed l = Some True)\<rparr>"

definition u256_opt_of_pb :: "pb_u256 option \<Rightarrow> ('e, U256 option) outcome" where
  "u256_opt_of_pb m =
     (case m of Some v \<Rightarrow> bind_ok (u256_of_pb v) (\<lambda>n. Ok (Some n)) | None \<Rightarrow> Ok None)"

definition log_of_pb :: "pb_log \<Rightarrow> ('e, eth_log) outcome" where
  "log_of_pb p =
     bind_ok (u256_opt_of_pb (pl_log_index p)) (\<lambda>log_index.
     Ok \<lparr>el_address = address_of_pb (h160_or_default (pl_address p)),
         el_topics = map h256_of_pb (pl_topics p),
         el_data = pl_data p,
         el_block_hash = map_option h256_of_pb (pl_block_hash p),
         el_block_number = Some (pl_block_number p),
         el_transaction_hash = map_option h256_of_pb (pl_transaction_hash p),
         el_transaction_index = Some (pl_transaction_index p),
         el_log_index = log_index,
         el_transaction_log_index = Some (ucast (pl_transaction_index p)),
         el_log_type = None,
         el_removed = Some (pl_removed p)\<rparr>)"

definition pb_of_receipt :: "(bytes \<Rightarrow> string) \<Rightarrow> eth_receipt \<Rightarrow> pb_receipt" where
  "pb_of_receipt bloom_to_string r = \<lparr>
     pr_transaction_hash = Some (pb_of_h256 (er_transaction_hash r)),
     pr_transaction_index = er_transaction_index r,
     pr_block_hash = map_option pb_of_h256 (er_block_hash r),
     pr_block_number = unwrap_or_default (er_block_number r),
     pr_from = Some (pb_of_address (er_from r)),
     pr_to = map_option pb_of_address (er_to r),
     pr_cumulative_gas_used = Some (pb_of_u256 (er_cumulative_gas_used r)),
     pr_gas_used = map_option pb_of_u256 (er_gas_used r),
     pr_contract_address = map_option pb_of_address (er_contract_address r),
     pr_logs = map pb_of_log (er_logs r),
     pr_logs_bloom = bloom_to_string (er_logs_bloom r),
     pr_status = unwrap_or_default (er_status r),
     pr_root = map_option pb_of_h256 (er_root r),
     pr_effective_gas_price = map_option pb_of_u256 (er_effective_gas_price r)\<rparr>"

fun logs_of_pb :: "pb_log list \<Rightarrow> ('e, eth_log list) outcome" where
  "logs_of_pb [] = Ok []"
| "logs_of_pb (p # ps) = bind_ok (log_of_pb p) (\<lambda>l. bind_ok (logs_of_pb ps) (\<lambda>ls. Ok (l # ls)))"

definition h256_or_default :: "pb_h256 option \<Rightarrow> pb_h256" where
  "h256_or_default m = (case m of Some v \<Rightarrow> v | None \<Rightarrow> \<lparr>h256_hi = None, h256_lo = None\<rparr>)"

definition receipt_of_pb :: "(string \<Rightarrow> bytes option) \<Rightarrow> pb_receipt \<Rightarrow> ('e, eth_receipt) outcome" where
  "receipt_of_pb bloom_from_str p =
     bind_ok (u256_or_zero (pr_cumulative_gas_used p)) (\<lambda>cumulative.
     bind_ok (u256_opt_of_pb (pr_gas_used p)) (\<lambda>gas.
     bind_ok (logs_of_pb (pr_logs p)) (\<lambda>logs.
     bind_ok (u256_opt_of_pb (pr_effective_gas_price p)) (\<lambda>price.
     Ok \<lparr>er_transaction_hash = h256_of_pb (h256_or_default (pr_transaction_hash p)),
         er_transaction_index = pr_transaction_index p,
         er_block_hash = map_option h256_of_pb (pr_block_hash p),
         er_block_number = Some (pr_block_number p),
         er_from = address_of_pb (h160_or_default (pr_from p)),
         er_to = map_option address_of_pb (pr_to p),
         er_cumulative_gas_used = cumulative,
         er_gas_used = gas,
         er_contract_address = map_option address_of_pb (pr_contract_address p),
         er_logs = logs,
         er_status = Some (pr_status p),
         er_root = map_option h256_of_pb (pr_root p),
         er_logs_bloom = (case bloom_from_str (pr_logs_bloom p) of Some b \<Rightarrow> b | None \<Rightarrow> replicate 256 0),
         er_transaction_type = None,
         er_effective_gas_price = price\<rparr>))))"

section \<open>Round trips\<close>

lemma h128_round_trip:
  assumes "length bs = 16"
  shows "h128_of_pb (pb_of_h128 bs) = bs"
proof -
  have "to_be_bytes 8 (from_be_bytes (take 8 bs) :: u64) = take 8 bs"
    using to_from_be_bytes [where 'a = 64, of "take 8 bs"] assms by simp
  moreover have "to_be_bytes 8 (from_be_bytes (take 8 (drop 8 bs)) :: u64) = drop 8 bs"
    using to_from_be_bytes [where 'a = 64, of "take 8 (drop 8 bs)"] assms by simp
  ultimately show ?thesis by (simp add: h128_of_pb_def pb_of_h128_def)
qed

lemma address_round_trip [simp]: "address_of_pb (pb_of_address a) = a"
proof -
  let ?bs = "to_be_bytes 20 a"
  have "to_be_bytes 4 (from_be_bytes (take 4 (drop 16 ?bs)) :: 32 word) = drop 16 ?bs"
    using to_from_be_bytes [where 'a = 32, of "take 4 (drop 16 ?bs)"] by simp
  then have "address_of_pb (pb_of_address a) = from_be_bytes (take 16 ?bs @ drop 16 ?bs)"
    by (simp add: address_of_pb_def pb_of_address_def to_fixed_bytes_def h128_or_default_def
        h128_round_trip)
  then show ?thesis by (simp only: append_take_drop_id) (simp add: from_to_be_bytes)
qed

lemma h256_round_trip [simp]: "h256_of_pb (pb_of_h256 h) = h"
proof -
  have "h256_of_pb (pb_of_h256 h) = from_be_bytes (take 16 (to_be_bytes 32 h) @ drop 16 (to_be_bytes 32 h))"
    by (simp add: h256_of_pb_def pb_of_h256_def h128_or_default_def h128_round_trip)
  then show ?thesis by (simp only: append_take_drop_id) (simp add: from_to_be_bytes)
qed

lemma u256_round_trip [simp]: "u256_of_pb (pb_of_u256 n) = Ok n" "u256_or_zero (Some (pb_of_u256 n)) = Ok n"
  by (simp_all add: u256_or_zero_def u256_of_pb_def pb_of_u256_def from_to_be_bytes)

lemma user_operation_round_trip [simp]: "user_operation_of_pb (pb_of_user_operation uo) = Ok uo"
  by (simp add: user_operation_of_pb_def pb_of_user_operation_def signed_of_pb_def)

text \<open>User operations survive the way between the services: converting an operation to its message
  and back gives the operation, hash included, and never panics.\<close>

theorem proto_user_operation_round_trip:
  "user_operation_of_pb (pb_of_user_operation uo) = (Ok uo :: (string, user_operation) outcome)"
  by (rule user_operation_round_trip)

lemma proto_reputation_round_trip:
  "reputation_entry_of_pb (pb_of_reputation_entry en) =
     en\<lparr>re_status := status_to_u64 (status_from_u64 (re_status en))\<rparr>"
  by (cases "status_from_u64 (re_status en)")
    (simp_all add: reputation_entry_of_pb_def pb_of_reputation_entry_def)

text \<open>A stake cannot be reported when it does not fit 64 bits: converting stake information to its
  message panics exactly when the stake is at least 2 to the 64 wei (about 18.4 ether) or the unstake
  delay needs more than 64 bits; otherwise the message carries the same values.\<close>

theorem proto_stake_info_panics_iff:
  "(pb_of_stake_info si = (Panic :: (string, pb_stake_info) outcome) \<longleftrightarrow>
      2 ^ 64 \<le> unat (stake si) \<or> 2 ^ 64 \<le> unat (unstake_delay si)) \<and>
   (\<forall>p. pb_of_stake_info si = (Ok p :: (string, pb_stake_info) outcome) \<longrightarrow> stake_info_of_pb p = si)"
proof -
  have "ucast (ucast w :: u64) = w" if "unat (w :: U256) < 2 ^ 64" for w
    using that by (simp add: word_unat_eq_iff unat_ucast_up unat_ucast_small)
  then show ?thesis
    by (auto simp: pb_of_stake_info_def stake_info_of_pb_def as_u64_def h160_or_default_def
        bind_ok_eq_Ok split: if_splits)
qed

theorem proto_stake_info_panics_iff_witness:
  "pb_of_stake_info \<lparr>si_address = 7, stake = 2 ^ 70, unstake_delay = 86400\<rparr> =
     (Panic :: (string, pb_stake_info) outcome) \<and>
   pb_of_stake_info \<lparr>si_address = 7, stake = 2 ^ 60, unstake_delay = 86400\<rparr> \<noteq>
     (Panic :: (string, pb_stake_info) outcome)"
  using proto_stake_info_panics_iff [of "\<lparr>si_address = 7, stake = 2 ^ 70, unstake_delay = 86400\<rparr>"]
    proto_stake_info_panics_iff [of "\<lparr>si_address = 7, stake = 2 ^ 60, unstake_delay = 86400\<rparr>"]
  by simp

section \<open>Storage maps lose their addresses\<close>

lemma dom_hm_get: "dom (hm_get m) = fst ` set m"
  by (simp add: hm_get_def dom_map_of_conv_image_fst)

lemma dom_pb_slots:
  "dom (hm_get (pb_slots (pb_of_storage_map T sm))) = address_to_string T ` dom (hm_get (slots sm))"
  "dom (hm_get (pb_root_hashes (pb_of_storage_map T sm))) =
     address_to_string T ` dom (hm_get (root_hashes sm))"
  by (simp_all add: pb_of_storage_map_def dom_collect)
    (simp_all add: dom_hm_get image_image case_prod_beta)

lemma dom_slots_of_pb:
  "dom (hm_get (slots (storage_map_of_pb T p))) =
     (\<lambda>k. unwrap_or_default (address_from_str T k)) ` dom (hm_get (pb_slots p))"
  "dom (hm_get (root_hashes (storage_map_of_pb T p))) =
     (\<lambda>k. unwrap_or_default (address_from_str T k)) ` dom (hm_get (pb_root_hashes p))"
  by (simp_all add: storage_map_of_pb_def dom_collect)
    (simp_all add: dom_hm_get image_image case_prod_beta)

text \<open>
  How the library renders an address for display, two bytes from either end, and what it parses,
  forty hexadecimal digits with or without prefix.
\<close>

definition hex_digit :: "nat \<Rightarrow> char" where
  "hex_digit n = ''0123456789abcdef'' ! n"

definition hex_byte :: "u8 \<Rightarrow> string" where
  "hex_byte b = [hex_digit (unat b div 16), hex_digit (unat b mod 16)]"

definition abbreviate :: "bytes \<Rightarrow> string" where
  "abbreviate bs =
     ''0x'' @ concat (map hex_byte (take 2 bs)) @ [CHR 0xE2, CHR 0x80, CHR 0xA6] @
     concat (map hex_byte (drop (length bs - 2) bs))"

definition hex_value :: "char \<Rightarrow> nat option" where
  "hex_value c =
     (if c \<in> set ''0123456789'' then Some (of_char c - 48)
      else if c \<in> set ''abcdef'' then Some (of_char c - 87)
      else if c \<in> set ''ABCDEF'' then Some (of_char c - 55)
      else None)"

definition parse_hex :: "nat \<Rightarrow> string \<Rightarrow> 'a::len word option" where
  "parse_hex digits s =
     (let t = (if starts_with s ''0x'' then drop 2 s else s) in
      if length t = digits \<and> (\<forall>c \<in> set t. hex_value c \<noteq> None)
      then Some (fold (\<lambda>c acc. acc * 16 + of_nat (the (hex_value c))) t 0) else None)"

definition ethers_text :: text_codec where
  "ethers_text = \<lparr>
     address_to_string = (\<lambda>a. abbreviate (to_be_bytes 20 a)), address_from_str = parse_hex 40,
     h256_to_string = (\<lambda>h. abbreviate (to_be_bytes 32 h)), h256_from_str = parse_hex 64\<rparr>"

lemma length_hex_bytes: "length (concat (map hex_byte bs)) = 2 * length bs"
  by (induction bs) (simp_all add: hex_byte_def)

lemma abbreviation_not_parsed:
  "address_from_str ethers_text (address_to_string ethers_text a) = None"
proof -
  have "length (abbreviate (to_be_bytes 20 a)) = 13"
    by (simp add: abbreviate_def length_hex_bytes)
  then show ?thesis by (simp add: ethers_text_def parse_hex_def Let_def)
qed

text \<open>C38: Between the pool and the bundler the storage map loses its addresses: when the text rendered for
  an address is abbreviated, so that it does not parse back, a storage map that arrives over the wire
  has at most the zero address as key, whatever addresses it was sent with.\<close>

theorem proto_storage_map_collapses:
  assumes "\<forall>a. address_from_str T (address_to_string T a) = None"
  shows "dom (hm_get (slots (storage_map_of_pb T (pb_of_storage_map T sm)))) =
      (if dom (hm_get (slots sm)) = {} then {} else {0}) \<and>
    dom (hm_get (root_hashes (storage_map_of_pb T (pb_of_storage_map T sm)))) =
      (if dom (hm_get (root_hashes sm)) = {} then {} else {0})"
  using assms by (simp add: dom_slots_of_pb dom_pb_slots image_image image_constant_conv)

theorem proto_storage_map_collapses_witness:
  "dom (hm_get (slots (storage_map_of_pb ethers_text (pb_of_storage_map ethers_text
     \<lparr>root_hashes = [], slots = [(5, [(''0x1'', ''0x2'')]), (6, [])]\<rparr>)))) = {0}"
  using proto_storage_map_collapses [of ethers_text "\<lparr>root_hashes = [], slots = [(5, [(''0x1'', ''0x2'')]), (6, [])]\<rparr>"]
  by (simp add: abbreviation_not_parsed hm_get_def)

end
