(* ===== verification/Pool_Service.thy ===== *)
theory Pool_Service
  imports Bundle_Selection Pool_Queries Grpc_Proto
begin

text \<open>
  The service of the user operation pool (\<open>grpc/src/uopool.rs\<close>, \<open>grpc/src/utils.rs\<close>) and the builder
  its pools come from (\<open>builder.rs\<close>). Every request builds a fresh pool over the tables and the registry
  that all pools of the service share.
\<close>

section \<open>Messages\<close>

datatype tonic_code = InvalidArgument | Unavailable | NotFoundCode | InternalCode | UnknownCode | CancelledCode

record tonic_status =
  ts_code :: tonic_code
  ts_message :: string

abbreviation status_internal :: "string \<Rightarrow> tonic_status" where
  "status_internal m \<equiv> \<lparr>ts_code = InternalCode, ts_message = m\<rparr>"

datatype add_result = Added | NotAdded
datatype estimate_result = Estimated | NotEstimated
datatype set_reputation_result = Set | NotSet
datatype add_mempool_result = AddedMempool | NotAddedMempool

record add_request =
  ar_uo :: "pb_user_operation option"
  ar_ep :: "pb_h160 option"

record get_sorted_response =
  gs_uos :: "pb_user_operation list"
  gs_storage_map :: "pb_storage_map option"

record by_hash_response =
  br_user_operation :: "pb_user_operation_signed option"
  br_entry_point :: "pb_h160 option"
  br_transaction_hash :: "pb_h256 option"
  br_block_hash :: "pb_h256 option"
  br_block_number :: u64

record receipt_response =
  rr_hash :: "pb_h256 option"
  rr_from :: "pb_h160 option"
  rr_op_nonce :: "pb_u256 option"
  rr_paymaster :: "pb_h160 option"
  rr_actual_gas_cost :: "pb_u256 option"
  rr_actual_gas_used :: "pb_u256 option"
  rr_success :: bool
  rr_tx_receipt :: "pb_receipt option"
  rr_logs :: "pb_log list"
  rr_reason :: string

text \<open>How values become text is the business of the libraries.\<close>

record service_text =
  st_codec :: text_codec
  st_bloom :: "bytes \<Rightarrow> string"
  json_hash :: "user_operation_hash \<Rightarrow> (string, string) outcome"
  json_error :: "mempool_error \<Rightarrow> (string, string) outcome"
  json_gas :: "gas_estimation \<Rightarrow> (string, string) outcome"
  show_mempool_error :: "mempool_error \<Rightarrow> string"
  show_report :: "pool_error \<Rightarrow> string"
  debug_report :: "pool_error \<Rightarrow> string"

definition parse_addr :: "pb_h160 option \<Rightarrow> (tonic_status, address) outcome" where
  "parse_addr h =
     (case h of
        Some h \<Rightarrow> Ok (address_of_pb h)
      | None \<Rightarrow> Err \<lparr>ts_code = InvalidArgument, ts_message = ''Address is not valid''\<rparr>)"

definition parse_hash :: "pb_h256 option \<Rightarrow> (tonic_status, h256) outcome" where
  "parse_hash h =
     (case h of
        Some h \<Rightarrow> Ok (h256_of_pb h)
      | None \<Rightarrow> Err \<lparr>ts_code = InvalidArgument, ts_message = ''Hash is not valid''\<rparr>)"

definition parse_uo :: "pb_user_operation option \<Rightarrow> (tonic_status, user_operation) outcome" where
  "parse_uo uo =
     (case uo of
        Some uo \<Rightarrow> user_operation_of_pb uo
      | None \<Rightarrow> Err \<lparr>ts_code = InvalidArgument, ts_message = ''User operation is not valid''\<rparr>)"

fun into_uos :: "pb_user_operation list \<Rightarrow> ('e, user_operation list) outcome" where
  "into_uos [] = Ok []"
| "into_uos (p # ps) = bind_ok (user_operation_of_pb p) (\<lambda>uo. bind_ok (into_uos ps) (\<lambda>uos. Ok (uo # uos)))"

section \<open>The builder and the service\<close>

text \<open>
  The clones of the mempool and of the registry share their tables, so the tables are part of the
  service; the clones of a sender share its channel, which is part of the builder.
\<close>

record pool_builder =
  bd_mode :: uopool_mode
  bd_entry_point :: eth
  bd_chain :: chain_id
  bd_max_verification_gas :: U256
  bd_validator :: validator
  bd_network :: "network_channel option"

record ('s, 'r) uopool_service =
  sv_uopools :: "(h256, pool_builder) hash_map"
  sv_chain :: chain_id
  sv_abi :: abi
  sv_text :: service_text
  sv_mempool :: "'s mempool"
  sv_tables :: 's
  sv_entries :: "'r reputation_entry_op"
  sv_reputation :: "'r reputation"

definition builder_uopool :: "('s, 'r) uopool_service \<Rightarrow> pool_builder \<Rightarrow> ('s, 'r) uopool" where
  "builder_uopool S b = \<lparr>
     up_id = mempool_id (sv_abi S) (ep_address (bd_entry_point b)) (bd_chain b),
     up_mode = bd_mode b, up_entry_point = bd_entry_point b, up_validator = bd_validator b,
     up_mempool = sv_mempool S, up_tables = sv_tables S, up_entries = sv_entries S,
     up_reputation = sv_reputation S, up_max_verification_gas = bd_max_verification_gas b,
     up_chain = bd_chain b, up_network = bd_network b\<rparr>"

definition get_uopool :: "('s, 'r) uopool_service \<Rightarrow> address \<Rightarrow> (tonic_status, h256 \<times> ('s, 'r) uopool) outcome" where
  "get_uopool S ep =
     (let m_id = mempool_id (sv_abi S) ep (sv_chain S) in
      ok_or \<lparr>ts_code = Unavailable, ts_message = ''User operation pool is not available''\<rparr>
        (map_option (\<lambda>b. (m_id, builder_uopool S b)) (hm_get (sv_uopools S) m_id)))"

text \<open>What a pool did to the shared tables, the shared registry and its channel.\<close>

definition write_back :: "h256 \<Rightarrow> ('s, 'r) uopool \<Rightarrow> ('s, 'r) uopool_service \<Rightarrow> ('s, 'r) uopool_service" where
  "write_back m_id P S = S\<lparr>sv_tables := up_tables P, sv_reputation := up_reputation P,
     sv_uopools := (case hm_get (sv_uopools S) m_id of
         Some b \<Rightarrow> hm_insert m_id (b\<lparr>bd_network := up_network P\<rparr>) (sv_uopools S)
       | None \<Rightarrow> sv_uopools S)\<rparr>"

definition with_uopool ::
  "address \<Rightarrow> (('s, 'r) uopool, tonic_status, 'a) op \<Rightarrow> (('s, 'r) uopool_service, tonic_status, 'a) op" where
  "with_uopool ep f S =
     (case get_uopool S ep of
        Ok (m_id, P) \<Rightarrow> (case f P of (r, P') \<Rightarrow> (r, write_back m_id P' S))
      | Err e \<Rightarrow> (Err e, S)
      | Panic \<Rightarrow> (Panic, S))"

text \<open>The same for a pool a task of the service keeps, found by its identifier.\<close>

definition on_builder ::
  "h256 \<Rightarrow> (('s, 'r) uopool, 'e, unit) op \<Rightarrow> (('s, 'r) uopool_service, 'e, unit) op" where
  "on_builder m_id f S =
     (case hm_get (sv_uopools S) m_id of
        Some b \<Rightarrow> (case f (builder_uopool S b) of (r, P') \<Rightarrow> (r, write_back m_id P' S))
      | None \<Rightarrow> (Ok (), S))"

section \<open>Adding\<close>

text \<open>
  A request to add runs in two parts: the operation is validated on one pool, and added to another
  that is built when the validation has finished. Other requests may be served in between.
\<close>

definition add_validate ::
  "add_request \<Rightarrow> ('s, 'r) uopool_service \<Rightarrow>
   (tonic_status, user_operation \<times> address \<times>
      (invalid_mempool_user_operation_error, validation_outcome) outcome) outcome" where
  "add_validate req S =
     bind_ok (parse_uo (ar_uo req)) (\<lambda>uo.
     bind_ok (parse_addr (ar_ep req)) (\<lambda>ep.
     bind_ok (get_uopool S ep) (\<lambda>(m_id, P).
       Ok (uo, ep, pool_validate_user_operation uo None P))))"

definition add_response ::
  "service_text \<Rightarrow> (mempool_error, user_operation_hash) outcome \<Rightarrow>
   (tonic_status, add_result \<times> string) outcome" where
  "add_response T res =
     (case res of
        Ok uo_hash \<Rightarrow>
          bind_ok (map_err (\<lambda>e. status_internal (''Failed to serialize hash: '' @ e)) (json_hash T uo_hash))
            (\<lambda>d. Ok (Added, d))
      | Err err \<Rightarrow>
          (case me_kind err of
             InvalidUserOperation _ \<Rightarrow>
               bind_ok (map_err (\<lambda>e. status_internal (''Failed to serialize error: '' @ e)) (json_error T err))
                 (\<lambda>d. Ok (NotAdded, d))
           | _ \<Rightarrow> Err (status_internal (''Internal error: '' @ show_mempool_error T err)))
      | Panic \<Rightarrow> Panic)"

definition add_finish ::
  "user_operation \<Rightarrow> address \<Rightarrow> (invalid_mempool_user_operation_error, validation_outcome) outcome \<Rightarrow>
   (('s, 'r) uopool_service, tonic_status, add_result \<times> string) op" where
  "add_finish uo ep res S =
     with_uopool ep (\<lambda>P. case add_user_operation uo res P of (r, P') \<Rightarrow> (add_response (sv_text S) r, P')) S"

definition service_add ::
  "add_request \<Rightarrow> (('s, 'r) uopool_service, tonic_status, add_result \<times> string) op" where
  "service_add req S =
     (case add_validate req S of
        Ok (uo, ep, res) \<Rightarrow> add_finish uo ep res S
      | Err e \<Rightarrow> (Err e, S)
      | Panic \<Rightarrow> (Panic, S))"

definition service_add_mempool ::
  "pb_user_operation list \<Rightarrow> pb_h160 option \<Rightarrow> (('s, 'r) uopool_service, tonic_status, add_mempool_result) op" where
  "service_add_mempool uos ep =
     bind_op (query (\<lambda>_. parse_addr ep)) (\<lambda>ep.
     with_uopool ep
       (bind_op (query (\<lambda>_. into_uos uos)) (\<lambda>uos P. case add_user_operations uos None P of
           (Ok _, P') \<Rightarrow> (Ok AddedMempool, P')
         | (Err _, P') \<Rightarrow> (Ok NotAddedMempool, P')
         | (Panic, P') \<Rightarrow> (Panic, P'))))"

text \<open>The task that consumes the operations from the p2p network; errors are logged.\<close>

definition p2p_validate ::
  "h256 \<Rightarrow> user_operation \<Rightarrow> validation_config \<Rightarrow> (('s, 'r) uopool_service, 'e, unit) op" where
  "p2p_validate m_id uo vc =
     on_builder m_id (ignore_err (\<lambda>P.
       add_user_operation uo (pool_validate_user_operation uo (Some vc) P) P))"

section \<open>Removing, bundling and block updates\<close>

definition service_remove ::
  "pb_user_operation list \<Rightarrow> pb_h160 option \<Rightarrow> (('s, 'r) uopool_service, tonic_status, unit) op" where
  "service_remove uos ep =
     bind_op (query (\<lambda>_. parse_addr ep)) (\<lambda>ep.
     with_uopool ep (bind_op (query (\<lambda>_. into_uos uos)) remove_user_operations))"

definition service_get_sorted ::
  "pb_h160 option \<Rightarrow> (('s, 'r) uopool_service, tonic_status, get_sorted_response) op" where
  "service_get_sorted ep S =
     bind_op (query (\<lambda>_. parse_addr ep)) (\<lambda>ep.
     bind_op (with_uopool ep (map_err_op
         (\<lambda>e. status_internal (''Get sorted uos internal error: '' @ debug_report (sv_text S) e))
         (query get_sorted_user_operations))) (\<lambda>uos.
     bind_op (with_uopool ep (map_err_op
         (\<lambda>e. status_internal (''Bundle uos internal error: '' @ show_report (sv_text S) e))
         (bundle_user_operations uos))) (\<lambda>(uos_valid, sm).
     ret \<lparr>gs_uos = map pb_of_user_operation uos_valid,
          gs_storage_map = Some (pb_of_storage_map (st_codec (sv_text S)) sm)\<rparr>))) S"

definition service_block_update ::
  "h256 \<Rightarrow> (string, transaction list option) outcome \<Rightarrow>
   (bytes \<Rightarrow> (user_operation_signed list \<times> address) option) \<Rightarrow>
   (('s, 'r) uopool_service, 'e, unit) op" where
  "service_block_update m_id txs decode = on_builder m_id (ignore_err (handle_block_update txs decode))"

definition service_hourly_update :: "h256 \<Rightarrow> (('s, 'r) uopool_service, 'e, unit) op" where
  "service_hourly_update m_id =
     on_builder m_id (\<lambda>P. ignore_err (on_reputation (update_hourly (up_entries P))) P)"

section \<open>Clearing and reputation\<close>

definition service_clear_mempool :: "(('s, 'r) uopool_service, tonic_status, unit) op" where
  "service_clear_mempool S =
     for_each (\<lambda>m_id. on_builder m_id (ignore_err pool_clear_mempool)) (hm_keys (sv_uopools S)) S"

definition service_clear_reputation :: "(('s, 'r) uopool_service, tonic_status, unit) op" where
  "service_clear_reputation S =
     for_each (\<lambda>m_id. on_builder m_id (ignore_err pool_clear_reputation)) (hm_keys (sv_uopools S)) S"

definition service_clear :: "(('s, 'r) uopool_service, tonic_status, unit) op" where
  "service_clear S =
     for_each (\<lambda>m_id. on_builder m_id (ignore_err pool_clear)) (hm_keys (sv_uopools S)) S"

definition service_get_all_reputation ::
  "pb_h160 option \<Rightarrow> ('s, 'r) uopool_service \<Rightarrow> (tonic_status, pb_reputation_entry list) outcome" where
  "service_get_all_reputation ep S =
     bind_ok (parse_addr ep) (\<lambda>ep.
     bind_ok (get_uopool S ep) (\<lambda>(m_id, P).
     bind_ok (pool_get_reputation P) (\<lambda>rep. Ok (map pb_of_reputation_entry rep))))"

definition service_set_reputation ::
  "pb_reputation_entry list \<Rightarrow> pb_h160 option \<Rightarrow>
   (('s, 'r) uopool_service, tonic_status, set_reputation_result) op" where
  "service_set_reputation rep ep =
     bind_op (query (\<lambda>_. parse_addr ep)) (\<lambda>ep.
     with_uopool ep (\<lambda>P. case pool_set_reputation (map reputation_entry_of_pb rep) P of
         (Ok _, P') \<Rightarrow> (Ok Set, P')
       | (Err _, P') \<Rightarrow> (Ok NotSet, P')
       | (Panic, P') \<Rightarrow> (Panic, P')))"

section \<open>Queries\<close>

definition service_get_chain_id :: "('s, 'r) uopool_service \<Rightarrow> u64" where
  "service_get_chain_id S = sv_chain S"

definition service_get_supported_entry_points :: "('s, 'r) uopool_service \<Rightarrow> pb_h160 list" where
  "service_get_supported_entry_points S =
     map (\<lambda>(k, b). pb_of_address (ep_address (up_entry_point (builder_uopool S b)))) (sv_uopools S)"

definition service_estimate_user_operation_gas ::
  "add_request \<Rightarrow> ('s, 'r) uopool_service \<Rightarrow> (tonic_status, estimate_result \<times> string) outcome option" where
  "service_estimate_user_operation_gas req S =
     (case bind_ok (parse_uo (ar_uo req)) (\<lambda>uo.
           bind_ok (parse_addr (ar_ep req)) (\<lambda>ep.
           bind_ok (get_uopool S ep) (\<lambda>(m_id, P). Ok (uo, P)))) of
        Ok (uo, P) \<Rightarrow>
          map_option (\<lambda>res. case res of
              Ok gas \<Rightarrow>
                bind_ok (map_err (\<lambda>e. status_internal (''Failed to serialize gas: '' @ e))
                  (json_gas (sv_text S) gas)) (\<lambda>d. Ok (Estimated, d))
            | Err err \<Rightarrow>
                bind_ok (map_err (\<lambda>e. status_internal (''Failed to serialize error: '' @ e))
                  (json_error (sv_text S) err)) (\<lambda>d. Ok (NotEstimated, d))
            | Panic \<Rightarrow> Panic) (estimate_user_operation_gas uo P)
      | Err e \<Rightarrow> Some (Err e)
      | Panic \<Rightarrow> Some Panic)"

text \<open>The first pool that answers; an error of a pool moves on to the next.\<close>

fun first_found :: "tonic_status \<Rightarrow> ('b \<Rightarrow> (pool_error, 'a) outcome) \<Rightarrow> 'b list \<Rightarrow> (tonic_status, 'a) outcome" where
  "first_found none f [] = Err none"
| "first_found none f (b # bs) =
     (case f b of Ok x \<Rightarrow> Ok x | Err _ \<Rightarrow> first_found none f bs | Panic \<Rightarrow> Panic)"

definition service_get_user_operation_by_hash ::
  "pb_h256 option \<Rightarrow> ('s, 'r) uopool_service \<Rightarrow> (tonic_status, by_hash_response) outcome" where
  "service_get_user_operation_by_hash h S =
     bind_ok (parse_hash h) (\<lambda>uo_hash.
     bind_ok (first_found \<lparr>ts_code = NotFoundCode, ts_message = ''User operation not found''\<rparr>
         (\<lambda>b. get_user_operation_by_hash uo_hash (builder_uopool S b)) (map snd (sv_uopools S))) (\<lambda>r.
     Ok \<lparr>br_user_operation = Some (pb_of_signed (bh_user_operation r)),
         br_entry_point = Some (pb_of_address (bh_entry_point r)),
         br_transaction_hash = Some (pb_of_h256 (bh_transaction_hash r)),
         br_block_hash = Some (pb_of_h256 (bh_block_hash r)), br_block_number = bh_block_number r\<rparr>))"

definition service_get_user_operation_receipt ::
  "pb_h256 option \<Rightarrow> ('s, 'r) uopool_service \<Rightarrow> (tonic_status, receipt_response) outcome" where
  "service_get_user_operation_receipt h S =
     bind_ok (parse_hash h) (\<lambda>uo_hash.
     bind_ok (first_found \<lparr>ts_code = NotFoundCode, ts_message = ''User operation receipt not found''\<rparr>
         (\<lambda>b. get_user_operation_receipt uo_hash (builder_uopool S b)) (map snd (sv_uopools S))) (\<lambda>rc.
     Ok \<lparr>rr_hash = Some (pb_of_h256 (rc_user_operation_hash rc)),
         rr_from = Some (pb_of_address (rc_sender rc)),
         rr_op_nonce = Some (pb_of_u256 (rc_nonce rc)),
         rr_paymaster = map_option pb_of_address (rc_paymaster rc),
         rr_actual_gas_cost = Some (pb_of_u256 (rc_actual_gas_cost rc)),
         rr_actual_gas_used = Some (pb_of_u256 (rc_actual_gas_used rc)),
         rr_success = rc_success rc,
         rr_tx_receipt = Some (pb_of_receipt (st_bloom (sv_text S)) (rc_tx_receipt rc)),
         rr_logs = map pb_of_log (rc_logs rc), rr_reason = rc_reason rc\<rparr>))"

definition service_get_all ::
  "pb_h160 option \<Rightarrow> ('s, 'r) uopool_service \<Rightarrow> (tonic_status, pb_user_operation list) outcome" where
  "service_get_all ep S =
     bind_ok (parse_addr ep) (\<lambda>ep.
     bind_ok (get_uopool S ep) (\<lambda>(m_id, P).
     bind_ok (map_err (\<lambda>e. \<lparr>ts_code = UnknownCode,
         ts_message = ''Internal error: '' @ debug_report (sv_text S) e\<rparr>) (pool_get_all P)) (\<lambda>uos.
     Ok (map pb_of_user_operation uos))))"

definition service_get_stake_info ::
  "pb_h160 option \<Rightarrow> pb_h160 option \<Rightarrow> ('s, 'r) uopool_service \<Rightarrow>
   (tonic_status, pb_stake_info \<times> bool) outcome" where
  "service_get_stake_info ep addr S =
     bind_ok (parse_addr ep) (\<lambda>ep.
     bind_ok (parse_addr addr) (\<lambda>addr.
     bind_ok (get_uopool S ep) (\<lambda>(m_id, P).
     bind_ok (map_err (\<lambda>e. status_internal (''Get stake info internal error: '' @ show_report (sv_text S) e))
         (pool_get_stake_info addr P)) (\<lambda>res.
     bind_ok (pb_of_stake_info (sir_stake_info res)) (\<lambda>info. Ok (info, sir_is_staked res))))))"

section \<open>Start of the service\<close>

text \<open>
  One builder per entry point that has a block stream; \<open>connect\<close> is the entry point contract at an
  address, as seen through the client.
\<close>

definition uopool_service_run ::
  "uopool_mode \<Rightarrow> address list \<Rightarrow> (address \<Rightarrow> eth) \<Rightarrow> 'b list \<Rightarrow> chain_id \<Rightarrow> U256 \<Rightarrow> abi \<Rightarrow> service_text \<Rightarrow>
   's mempool \<Rightarrow> 's \<Rightarrow> 'r reputation_entry_op \<Rightarrow> 'r reputation \<Rightarrow> validator \<Rightarrow> bool \<Rightarrow>
   ('s, 'r) uopool_service" where
  "uopool_service_run mode eps connect block_streams chain max_gas A T M tables R rep V p2p = \<lparr>
     sv_uopools = hm_collect (map (\<lambda>(ep, _). (mempool_id A ep chain, \<lparr>
         bd_mode = mode, bd_entry_point = connect ep, bd_chain = chain, bd_max_verification_gas = max_gas,
         bd_validator = V,
         bd_network = (if p2p then Some \<lparr>nc_open = True, nc_sent = []\<rparr> else None)\<rparr>))
       (zip eps block_streams)),
     sv_chain = chain, sv_abi = A, sv_text = T, sv_mempool = M, sv_tables = tables, sv_entries = R,
     sv_reputation = rep\<rparr>"

end
