(* ===== verification/Slot_Safety.thy ===== *)
theory Slot_Safety
  imports Pool_Service
begin

text \<open>
  One operation per sender and nonce. A request that adds an operation replaces the pooled operation
  with the same sender and nonce; served one after the other, the requests of the service keep the
  pool free of such duplicates. Requests that overlap do not.
\<close>

section \<open>The invariant\<close>

definition slots_unique :: "(user_operation_hash \<Rightarrow> user_operation_signed option) \<Rightarrow> bool" where
  "slots_unique m =
     (\<forall>h1 h2 u1 u2. m h1 = Some u1 \<longrightarrow> m h2 = Some u2 \<longrightarrow> sender u1 = sender u2 \<longrightarrow>
        nonce u1 = nonce u2 \<longrightarrow> h1 = h2)"

text \<open>
  The hash of an operation is a digest: it determines the sender, factory and paymaster. \<open>K\<close> gives the
  entities that belong to a hash.
\<close>

type_synonym digest = "user_operation_hash \<Rightarrow> address \<times> address option \<times> address option"

definition digest_of :: "digest \<Rightarrow> user_operation \<Rightarrow> bool" where
  "digest_of K uo = (get_entities (user_operation uo) = K (hash uo))"

definition ops_ok :: "digest \<Rightarrow> (user_operation_hash \<Rightarrow> user_operation_signed option) \<Rightarrow> bool" where
  "ops_ok K m = (slots_unique m \<and> (\<forall>h u. m h = Some u \<longrightarrow> get_entities u = K h))"

definition pool_inv :: "digest \<Rightarrow> (memory_tables, 'r) uopool \<Rightarrow> bool" where
  "pool_inv K P =
     (up_mempool P = memory_mempool \<and> mem_consistent (up_tables P) \<and> ops_ok K (mem_ops (up_tables P)))"

definition slot_free :: "user_operation \<Rightarrow> (memory_tables, 'r) uopool \<Rightarrow> bool" where
  "slot_free uo P = (\<forall>p. \<not> same_slot (mem_ops (up_tables P)) uo p)"

lemma ops_ok_mono: "ops_ok K m \<Longrightarrow> m' \<subseteq>\<^sub>m m \<Longrightarrow> ops_ok K m'"
  unfolding ops_ok_def slots_unique_def map_le_def by (metis domI)

lemma ops_ok_same_entities: "ops_ok K m \<Longrightarrow> digest_of K uo \<Longrightarrow> same_entities m uo"
  by (auto simp: ops_ok_def digest_of_def same_entities_def split: option.splits)

lemma ops_ok_insert:
  assumes "ops_ok K m" and "digest_of K uo" and "\<And>p. \<not> same_slot m uo p"
  shows "ops_ok K (m(hash uo \<mapsto> user_operation uo))"
proof -
  have "\<not> (sender u = sender (user_operation uo) \<and> nonce u = nonce (user_operation uo))"
    if "m h = Some u" for h u
    using assms(3) [of "\<lparr>hash = h, user_operation = u\<rparr>"] that by (auto simp: same_slot_def)
  then show ?thesis
    using assms(1,2) unfolding ops_ok_def slots_unique_def digest_of_def by auto metis+
qed

lemma remove_frees_slot:
  assumes "slots_unique m" and "same_slot m uo p"
  shows "\<not> same_slot (m(hash p := None)) uo q"
  using assms unfolding slots_unique_def same_slot_def by (auto split: if_splits)

section \<open>Operations of the pool\<close>

lemma snd_ignore_err [simp]: "snd (ignore_err f s) = snd (f s)"
  by (simp add: ignore_err_def split: prod.split outcome.split)

lemma ensures_ignore_err [keeps_intros]: "ensures I f J \<Longrightarrow> ensures I (ignore_err f) J"
  by (simp add: ensures_def)

lemma on_reputation_inv [keeps_intros]:
  "keeps (pool_inv K) (\<lambda>P. on_reputation (f P) P)" "keeps (pool_inv K) (on_reputation g)"
  by (auto simp: ensures_def pool_inv_def on_reputation_def split: prod.split)

lemma on_mempool_inv:
  assumes "\<And>s. mem_consistent s \<Longrightarrow>
      \<exists>r t. f memory_mempool s = (r, t) \<and> mem_consistent t \<and> mem_ops t \<subseteq>\<^sub>m mem_ops s"
  shows "keeps (pool_inv K) (\<lambda>P. on_mempool (f (up_mempool P)) P)"
proof (rule ensuresI)
  fix P :: "(memory_tables, 'r) uopool"
  assume P: "pool_inv K P"
  then obtain r t where "f memory_mempool (up_tables P) = (r, t)" "mem_consistent t"
      "mem_ops t \<subseteq>\<^sub>m mem_ops (up_tables P)"
    using assms unfolding pool_inv_def by blast
  with P show "pool_inv K (snd (on_mempool (f (up_mempool P)) P))"
    by (auto simp: pool_inv_def on_mempool_def intro: ops_ok_mono)
qed

lemma on_mempool_remove [keeps_intros]:
  "keeps (pool_inv K) (\<lambda>P. on_mempool (mempool_remove (up_mempool P) h) P)"
  by (rule on_mempool_inv) (use mem_refinements(2) in \<open>fastforce simp: map_le_def\<close>)

lemma on_mempool_remove_by_entity [keeps_intros]:
  "keeps (pool_inv K) (\<lambda>P. on_mempool (mempool_remove_by_entity (up_mempool P) a) P)"
  by (rule on_mempool_inv) (use mem_refinements(3) in \<open>fastforce simp: map_le_def\<close>)

lemma on_mempool_set_code_hashes [keeps_intros]:
  "keeps (pool_inv K) (\<lambda>P. on_mempool (mempool_set_code_hashes (up_mempool P) h hs) P)"
  by (rule on_mempool_inv) (use mem_refinements(4) in \<open>fastforce simp: map_le_def\<close>)

lemma on_mempool_clear [keeps_intros]:
  "keeps (pool_inv K) (\<lambda>P. on_mempool (mempool_clear (up_mempool P)) P)"
  by (rule on_mempool_inv) (use mem_refinements(5) mem_consistent_ok in \<open>fastforce simp: map_le_def\<close>)

lemma ensures_at_state [keeps_intros]:
  "ensures I (\<lambda>P. f P P) J \<Longrightarrow> ensures I (\<lambda>P. ignore_err (f P) P) J"
  "ensures I (\<lambda>P. f P P) J \<Longrightarrow> ensures I (\<lambda>P. map_err_op g (f P) P) J"
  by (simp_all add: ensures_def map_err_op_def case_prod_beta)

lemma remove_user_operation_inv [keeps_intros]: "keeps (pool_inv K) (remove_user_operation h)"
  unfolding remove_user_operation_def [abs_def] by (intro keeps_intros)

lemma remove_by_entity_inv [keeps_intros]: "keeps (pool_inv K) (remove_user_operation_by_entity a)"
  unfolding remove_user_operation_by_entity_def [abs_def] by (intro keeps_intros)

lemma store_code_hashes_inv [keeps_intros]: "keeps (pool_inv K) (store_code_hashes h hs)"
proof (cases hs)
  case None
  then show ?thesis by (simp add: ensures_def store_code_hashes_def)
next
  case (Some xs)
  show ?thesis unfolding store_code_hashes_def [abs_def] Some option.case by (intro keeps_intros)
qed

lemma reputation_updates_inv [keeps_intros]:
  "keeps (pool_inv K) (seen h a)" "keeps (pool_inv K) (included a)"
  unfolding seen_def [abs_def] included_def [abs_def] by (intro keeps_intros)+

lemma publish_inv: "I P \<Longrightarrow> (\<And>n. I (P\<lparr>up_network := n\<rparr>)) \<Longrightarrow> I (snd (publish uo res P))"
  by (simp add: publish_def split: option.split)

lemma pool_clears_inv [keeps_intros]:
  "keeps (pool_inv K) pool_clear_mempool" "keeps (pool_inv K) pool_clear_reputation"
  "keeps (pool_inv K) pool_clear"
proof -
  show a: "keeps (pool_inv K) pool_clear_mempool" and b: "keeps (pool_inv K) pool_clear_reputation"
    unfolding pool_clear_mempool_def [abs_def] pool_clear_reputation_def [abs_def]
    by (intro keeps_intros)+
  show "keeps (pool_inv K) pool_clear"
    unfolding pool_clear_def by (intro keeps_intros a b)
qed

lemma set_reputation_inv [keeps_intros]: "keeps (pool_inv K) (pool_set_reputation ens)"
  unfolding pool_set_reputation_def [abs_def] by (intro keeps_intros)

lemma remove_user_operations_inv [keeps_intros]: "keeps (pool_inv K) (remove_user_operations uos)"
  unfolding remove_user_operations_def by (intro keeps_intros)

lemma block_update_inv [keeps_intros]: "keeps (pool_inv K) (handle_block_update txs decode)"
proof (rule ensuresI)
  fix P :: "(memory_tables, 'r) uopool"
  assume P: "pool_inv K P"
  have "keeps (pool_inv K) (for_each (\<lambda>tx. if tx_to tx = a then
      (case decode (tx_input tx) of Some (uos, _) \<Rightarrow> remove_user_operations (map f uos) | None \<Rightarrow> ret ())
      else ret ()) ts)" for a f ts
    by (intro keeps_intros) (auto split: option.split intro!: keeps_intros)
  then show "pool_inv K (snd (handle_block_update txs decode P))"
    using P by (auto simp: handle_block_update_def ensures_def split: outcome.split option.split)
qed

text \<open>Choosing a bundle only removes operations.\<close>

lemma drop_op_inv [keeps_intros]: "keeps (pool_inv K) (drop_op ctx h acc)"
  unfolding drop_op_def [abs_def] bind_op_def
  using on_mempool_remove [of K h]
  by (auto simp: ensures_def map_err_op_def split: prod.split outcome.split)

lemma bundle_step_inv [keeps_intros]: "keeps (pool_inv K) (bundle_step senders_all uo acc)"
proof (rule ensuresI)
  fix P :: "(memory_tables, 'r) uopool"
  assume P: "pool_inv K P"
  show "pool_inv K (snd (bundle_step senders_all uo acc P))"
    using P ensuresD [OF drop_op_inv P]
    by (auto simp: bundle_step_def Let_def outcome_simps split: outcome.split)
      (metis prod.collapse)+
qed

lemma bundle_inv [keeps_intros]: "keeps (pool_inv K) (bundle_user_operations uos)"
proof -
  have "keeps (pool_inv K) (bundle_loop senders_all us acc)" for senders_all us acc
  proof (induction us arbitrary: acc)
    case (Cons u us)
    then show ?case by (auto intro!: keeps_intros split: prod.split)
  qed (simp add: keeps_intros)
  then show ?thesis unfolding bundle_user_operations_def by (intro keeps_intros)
qed

section \<open>Adding\<close>

lemma validated_prev_hash:
  assumes "pool_validate_user_operation uo vc P = Ok out"
  shows "prev_hash out = map_option hash (get_prev_by_sender (up_mempool P) uo (up_tables P))"
  using assms by (auto simp: pool_validate_user_operation_def validate_user_operation_def Let_def bind_ok_eq_Ok)

text \<open>Removing the previous operation frees the slot of the new one.\<close>

lemma remove_prev_frees_slot:
  assumes "pool_inv K P" and "pool_validate_user_operation uo vc P = Ok out"
    and "when_some (prev_hash out) remove_user_operation P = (r :: (mempool_error, unit) outcome, P1)"
  shows "pool_inv K P1 \<and> slot_free uo P1"
proof -
  have con: "mem_consistent (up_tables P)" and m: "up_mempool P = memory_mempool"
    and uniq: "slots_unique (mem_ops (up_tables P))"
    using assms(1) by (simp_all add: pool_inv_def ops_ok_def)
  note prev = validated_prev_hash [OF assms(2), unfolded m] 
    and q = mem.get_prev_by_sender_refines [folded mem_consistent_def, OF con, of uo]
  have inv: "pool_inv K P1"
    by (rule ensuresD [of "pool_inv K" "when_some (prev_hash out) remove_user_operation" "pool_inv K", OF _ assms(1,3)])
      (intro keeps_intros)
  show ?thesis
  proof (cases "get_prev_by_sender memory_mempool uo (up_tables P)")
    case None
    with q prev inv assms(3) show ?thesis by (simp add: slot_free_def)
  next
    case (Some p)
    obtain r t where t: "mempool_remove memory_mempool (hash p) (up_tables P) = (r, t)"
        "mem_ops t = (mem_ops (up_tables P))(hash p := None)"
      using mem_refinements(2) [OF con, of "hash p"] by blast
    have "same_slot (mem_ops (up_tables P)) uo p" using q Some by simp
    with remove_frees_slot [OF uniq] have "\<not> same_slot (mem_ops t) uo p'" for p'
      unfolding t(2) by blast
    moreover have "P1 = snd (remove_user_operation (hash p) P :: (mempool_error, unit) outcome \<times> _)"
      using assms(3) prev Some by simp
    ultimately show ?thesis
      using inv by (simp add: slot_free_def remove_user_operation_def on_mempool_def m t)
  qed
qed

lemma add_to_free_slot:
  assumes "digest_of K uo"
  shows "ensures (\<lambda>P. pool_inv K P \<and> slot_free uo P)
    (\<lambda>P. on_mempool (mempool_add (up_mempool P) uo) P) (pool_inv K)"
proof (rule ensuresI)
  fix P :: "(memory_tables, 'r) uopool"
  assume P: "pool_inv K P \<and> slot_free uo P"
  then have ops: "ops_ok K (mem_ops (up_tables P))" by (simp add: pool_inv_def)
  obtain t where "mempool_add memory_mempool uo (up_tables P) = (Ok (hash uo), t)" "mem_consistent t"
      "mem_ops t = (mem_ops (up_tables P))(hash uo \<mapsto> user_operation uo)"
    using mem_refinements(1) [OF _ ops_ok_same_entities [OF ops assms]] P by (auto simp: pool_inv_def)
  with P ops_ok_insert [OF ops assms] show "pool_inv K (snd (on_mempool (mempool_add (up_mempool P) uo) P))"
    by (simp add: pool_inv_def on_mempool_def slot_free_def)
qed

text \<open>The work on an operation that passed validation, in a pool over the in-memory mempool.\<close>

lemma add_to_free_slot_inv:
  assumes "digest_of K uo"
  shows "ensures (\<lambda>P. pool_inv K P \<and> slot_free uo P)
    (bind_op (publish uo out) (\<lambda>_.
     bind_op (map_err_op g (on_mempool (mempool_add memory_mempool uo))) (\<lambda>h.
     bind_op (store_code_hashes h hs) (\<lambda>_. bind_op (seen h a) (\<lambda>_.
     bind_op (when_some f (seen h)) (\<lambda>_. bind_op (when_some p (seen h)) (\<lambda>_. ret h))))))) (pool_inv K)"
proof (rule ensures_bind_op [of _ _ "\<lambda>P. pool_inv K P \<and> slot_free uo P"])
  show "ensures (\<lambda>P. pool_inv K P \<and> slot_free uo P) (publish uo out) (\<lambda>P. pool_inv K P \<and> slot_free uo P)"
    by (rule ensuresI, rule publish_inv [where I = "\<lambda>P. pool_inv K P \<and> slot_free uo P"])
      (simp_all add: pool_inv_def slot_free_def)
next
  have "ensures (\<lambda>P. pool_inv K P \<and> slot_free uo P) (on_mempool (mempool_add memory_mempool uo)) (pool_inv K)"
    using add_to_free_slot [OF assms] by (auto simp: ensures_def pool_inv_def)
  then show "ensures (\<lambda>P. pool_inv K P \<and> slot_free uo P)
     (bind_op (map_err_op g (on_mempool (mempool_add memory_mempool uo))) (\<lambda>h.
     bind_op (store_code_hashes h hs) (\<lambda>_. bind_op (seen h a) (\<lambda>_.
     bind_op (when_some f (seen h)) (\<lambda>_. bind_op (when_some p (seen h)) (\<lambda>_. ret h)))))) (pool_inv K)"
    by (intro ensures_bind_op [of _ _ "pool_inv K"] keeps_intros) auto
qed simp

lemma add_validated_inv:
  fixes P :: "(memory_tables, 'r) uopool"
  assumes "pool_inv K P" and "digest_of K uo"
  shows "pool_inv K (snd (add_user_operation uo (pool_validate_user_operation uo vc P) P))"
proof (cases "pool_validate_user_operation uo vc P")
  case (Ok out)
  have m: "up_mempool P = memory_mempool" using assms(1) by (simp add: pool_inv_def)
  obtain r :: "(mempool_error, unit) outcome" and P1
    where P1: "when_some (prev_hash out) remove_user_operation P = (r, P1)" by fastforce
  note freed = remove_prev_frees_slot [OF assms(1) Ok P1]
  show ?thesis
    using add_to_free_slot_inv [OF assms(2), unfolded ensures_def, rule_format, OF freed] freed
    by (cases r) (simp_all add: add_user_operation_def Ok m bind_op_def [of "when_some (prev_hash out) _"] P1)
next
  case (Err err)
  have "keeps (pool_inv K) (bind_op (case err of
      InvSanity (SanReputation (BannedEntity ent a)) \<Rightarrow> remove_user_operation_by_entity a
    | _ \<Rightarrow> ret ()) (\<lambda>_. fail e) :: ((memory_tables, 'r) uopool, mempool_error, user_operation_hash) op)" for e
    by (intro keeps_intros)
      (auto intro!: keeps_intros split: invalid_mempool_user_operation_error.split sanity_error.split
        reputation_error.split)
  with assms(1) Err show ?thesis by (simp add: add_user_operation_def ensures_def)
qed (use assms in \<open>simp add: add_user_operation_def\<close>)

lemma add_user_operations_inv:
  assumes "\<And>uo. uo \<in> set uos \<Longrightarrow> digest_of K uo"
  shows "keeps (pool_inv K) (add_user_operations uos vc :: ((memory_tables, 'r) uopool, _, _) op)"
  using assms
proof (induction uos)
  case (Cons uo uos)
  show ?case
  proof (rule ensuresI)
    fix P :: "(memory_tables, 'r) uopool"
    assume P: "pool_inv K P"
    then have "pool_inv K (snd (add_user_operation uo (pool_validate_user_operation uo vc P) P))"
      using Cons.prems by (intro add_validated_inv) auto
    moreover have "keeps (pool_inv K) (add_user_operations uos vc :: ((memory_tables, 'r) uopool, _, _) op)"
      using Cons by auto
    ultimately show "pool_inv K (snd (add_user_operations (uo # uos) vc P))"
      by (auto simp: bind_op_def ensures_def split: prod.split outcome.split)
  qed
qed (simp add: ensures_def)

section \<open>Requests one after the other\<close>

definition service_inv :: "digest \<Rightarrow> (memory_tables, 'r) uopool_service \<Rightarrow> bool" where
  "service_inv K S =
     (sv_mempool S = memory_mempool \<and> mem_consistent (sv_tables S) \<and> ops_ok K (mem_ops (sv_tables S)))"

lemma builder_uopool_inv [simp]: "pool_inv K (builder_uopool S b) = service_inv K S"
  by (simp add: pool_inv_def service_inv_def builder_uopool_def)

lemma write_back_inv: "service_inv K S \<Longrightarrow> pool_inv K P \<Longrightarrow> service_inv K (write_back m_id P S)"
  by (simp add: pool_inv_def service_inv_def write_back_def)

lemma get_uopool_Ok:
  "get_uopool S ep = Ok (m_id, P) \<longleftrightarrow>
     m_id = mempool_id (sv_abi S) ep (sv_chain S) \<and>
     (\<exists>b. hm_get (sv_uopools S) m_id = Some b \<and> P = builder_uopool S b)"
  by (auto simp: get_uopool_def Let_def)

lemma with_uopool_inv:
  assumes "\<And>P. pool_inv K P \<Longrightarrow> get_uopool S ep = Ok (mempool_id (sv_abi S) ep (sv_chain S), P) \<Longrightarrow> pool_inv K (snd (f P))"
    and "service_inv K S"
  shows "service_inv K (snd (with_uopool ep f S))"
proof (cases "get_uopool S ep")
  case (Ok p)
  then obtain m_id P where p: "p = (m_id, P)" by (cases p) auto
  with Ok have "pool_inv K P" using assms(2) by (auto simp: get_uopool_Ok)
  with assms Ok p have "pool_inv K (snd (f P))" by (simp add: get_uopool_Ok)
  with assms(2) Ok p show ?thesis by (auto simp: with_uopool_def intro: write_back_inv split: prod.split)
qed (use assms in \<open>simp_all add: with_uopool_def\<close>)

lemma with_uopool_keeps [keeps_intros]: "keeps (pool_inv K) f \<Longrightarrow> keeps (service_inv K) (with_uopool ep f)"
  by (rule ensuresI, rule with_uopool_inv) (auto simp: ensures_def)

lemma on_builder_keeps [keeps_intros]:
  fixes f :: "((memory_tables, 'r) uopool, 'e, unit) op"
  assumes "keeps (pool_inv K) f"
  shows "keeps (service_inv K) (on_builder m_id f)"
proof (rule ensuresI)
  fix S :: "(memory_tables, 'r) uopool_service"
  assume "service_inv K S"
  then have "service_inv K (write_back m_id P' S)" if "f (builder_uopool S b) = (r, P')" for b r P'
    using ensuresD [OF assms _ that] by (simp add: write_back_inv)
  with \<open>service_inv K S\<close> show "service_inv K (snd (on_builder m_id f S))"
    by (simp add: on_builder_def split: option.split prod.split)
qed

text \<open>
  The requests and tasks of the service, each served as a whole. Operations enter under their
  digests.
\<close>

inductive service_step ::
  "digest \<Rightarrow> (memory_tables, 'r) uopool_service \<Rightarrow> (memory_tables, 'r) uopool_service \<Rightarrow> bool"
  for K where
  req_add: "(\<forall>uo. parse_uo (ar_uo req) = Ok uo \<longrightarrow> digest_of K uo) \<Longrightarrow> service_add req S = (r, T) \<Longrightarrow>
     service_step K S T"
| req_add_mempool: "(\<forall>us. into_uos uos = (Ok us :: (tonic_status, _) outcome) \<longrightarrow> list_all (digest_of K) us) \<Longrightarrow>
     service_add_mempool uos ep S = (r', T) \<Longrightarrow> service_step K S T"
| from_p2p: "digest_of K uo \<Longrightarrow> p2p_validate m_id uo vc S = (r'' :: (unit, unit) outcome, T) \<Longrightarrow> service_step K S T"
| req_remove: "service_remove uos ep S = (q, T) \<Longrightarrow> service_step K S T"
| req_get_sorted: "service_get_sorted ep S = (q', T) \<Longrightarrow> service_step K S T"
| block_update: "service_block_update m_id txs decode S = (r'' :: (unit, unit) outcome, T) \<Longrightarrow> service_step K S T"
| hourly_update: "service_hourly_update m_id S = (r'' :: (unit, unit) outcome, T) \<Longrightarrow> service_step K S T"
| req_clear_mempool: "service_clear_mempool S = (q, T) \<Longrightarrow> service_step K S T"
| req_clear_reputation: "service_clear_reputation S = (q, T) \<Longrightarrow> service_step K S T"
| req_clear: "service_clear S = (q, T) \<Longrightarrow> service_step K S T"
| req_set_reputation: "service_set_reputation rep ep S = (q'', T) \<Longrightarrow> service_step K S T"

lemma add_inv:
  assumes "service_inv K S" and "\<forall>uo. parse_uo (ar_uo req) = Ok uo \<longrightarrow> digest_of K uo"
  shows "service_inv K (snd (service_add req S))"
proof (cases "add_validate req S")
  case (Ok v)
  then obtain uo ep m_id P where v: "v = (uo, ep, pool_validate_user_operation uo None P)"
      "get_uopool S ep = Ok (m_id, P)" "parse_uo (ar_uo req) = Ok uo"
    by (auto simp: add_validate_def bind_ok_eq_Ok)
  have "service_inv K (snd (add_finish uo ep (pool_validate_user_operation uo None P) S))"
    unfolding add_finish_def
  proof (rule with_uopool_inv [OF _ assms(1)])
    fix Q
    assume "pool_inv K Q" and "get_uopool S ep = Ok (mempool_id (sv_abi S) ep (sv_chain S), Q)"
    then have "Q = P" "pool_inv K P" using v(2) by (auto simp: get_uopool_Ok)
    then show "pool_inv K (snd (case add_user_operation uo (pool_validate_user_operation uo None P) Q of
        (r, P') \<Rightarrow> (add_response (sv_text S) r, P')))"
      using add_validated_inv [of K P uo None] assms(2) v(3) by (simp add: case_prod_beta)
  qed
  with Ok v show ?thesis by (simp add: service_add_def)
qed (use assms in \<open>simp_all add: service_add_def\<close>)

lemma keeps_app: "keeps I f \<Longrightarrow> I s \<Longrightarrow> I (snd (f s))"
  by (simp add: ensures_def)

lemma add_mempool_inv:
  assumes "\<forall>us. into_uos uos = (Ok us :: (tonic_status, _) outcome) \<longrightarrow> list_all (digest_of K) us"
  shows "keeps (service_inv K)
    (service_add_mempool uos ep :: ((memory_tables, 'r) uopool_service, _, _) op)"
proof -
  have F: "keeps (pool_inv K) (bind_op (query (\<lambda>_. into_uos uos :: (tonic_status, _) outcome)) (\<lambda>uos P.
      case add_user_operations uos None P of
        (Ok _, P') \<Rightarrow> (Ok AddedMempool, P') | (Err _, P') \<Rightarrow> (Ok NotAddedMempool, P')
      | (Panic, P') \<Rightarrow> (Panic, P')) :: ((memory_tables, 'r) uopool, _, _) op)" (is "keeps _ ?F")
  proof (rule ensuresI)
    fix P :: "(memory_tables, 'r) uopool"
    assume P: "pool_inv K P"
    show "pool_inv K (snd (?F P))"
    proof (cases "into_uos uos :: (tonic_status, _) outcome")
      case (Ok us)
      then have "keeps (pool_inv K) (add_user_operations us None :: ((memory_tables, 'r) uopool, _, _) op)"
        using assms by (intro add_user_operations_inv) (auto simp: list_all_iff)
      from keeps_app [OF this P] Ok show ?thesis
        by (auto simp: bind_op_query split: prod.split outcome.split)
    qed (use P in \<open>simp_all add: bind_op_query\<close>)
  qed
  show ?thesis unfolding service_add_mempool_def by (intro keeps_bind_op keeps_basic with_uopool_keeps F)
qed

lemma keeps_case_prod: "(\<And>a b. keeps I (f a b)) \<Longrightarrow> keeps I (case p of (a, b) \<Rightarrow> f a b)"
  by (simp add: case_prod_beta)

lemma clears_inv:
  assumes "keeps (pool_inv K) f"
  shows "keeps (service_inv K) (\<lambda>S. for_each (\<lambda>m_id. on_builder m_id f) (g S) S)"
  by (rule ensuresI, rule keeps_app [of "service_inv K" "for_each _ _"])
    (intro keeps_intros assms, assumption)

lemma get_sorted_inv: "keeps (service_inv K) (service_get_sorted ep)"
  unfolding service_get_sorted_def [abs_def]
  by (rule ensuresI, rule keeps_app [of "service_inv K" "bind_op _ _"])
    (intro keeps_intros keeps_case_prod, assumption)

lemma set_reputation_keeps: "keeps (service_inv K) (service_set_reputation rep ep)"
proof -
  have "keeps (pool_inv K) (\<lambda>P. case pool_set_reputation ens P of
      (Ok _, P') \<Rightarrow> (Ok Set, P') | (Err _, P') \<Rightarrow> (Ok NotSet, P') | (Panic, P') \<Rightarrow> (Panic, P'))" for ens
    using set_reputation_inv [of K ens] by (auto simp: ensures_def split: prod.split outcome.split)
  then show ?thesis unfolding service_set_reputation_def by (intro keeps_intros)
qed

lemma requests_inv:
  "keeps (service_inv K) (service_remove uos ep)"
  "keeps (service_inv K) (service_block_update m_id txs decode)"
  "keeps (service_inv K) (service_hourly_update m_id)"
  unfolding service_remove_def service_block_update_def service_hourly_update_def
  by (intro keeps_intros)+

lemma clear_requests_inv:
  "keeps (service_inv K) service_clear_mempool"
  "keeps (service_inv K) service_clear_reputation"
  "keeps (service_inv K) service_clear"
  unfolding service_clear_mempool_def [abs_def] service_clear_reputation_def [abs_def] service_clear_def [abs_def]
  by (rule clears_inv, intro keeps_intros)+

lemma p2p_inv: "digest_of K uo \<Longrightarrow> keeps (service_inv K) (p2p_validate m_id uo vc)"
  unfolding p2p_validate_def by (intro keeps_intros ensuresI add_validated_inv)

lemma service_step_inv:
  assumes "service_step K S T" and "service_inv K S"
  shows "service_inv K T"
  using assms(1)
proof (cases rule: service_step.cases)
  case (req_add req r)
  with add_inv [OF assms(2)] show ?thesis by (metis snd_conv)
next
  case (req_add_mempool uos ep r)
  show ?thesis by (rule ensuresD [OF add_mempool_inv [OF req_add_mempool(1)] assms(2) req_add_mempool(2)])
next
  case (from_p2p uo m_id vc r)
  show ?thesis by (rule ensuresD [OF p2p_inv [OF from_p2p(1)] assms(2) from_p2p(2)])
next
  case (req_remove uos ep q)
  show ?thesis by (rule ensuresD [OF requests_inv(1) assms(2) req_remove])
next
  case (req_get_sorted ep q)
  show ?thesis by (rule ensuresD [OF get_sorted_inv assms(2) req_get_sorted])
next
  case (block_update m_id txs decode r)
  show ?thesis by (rule ensuresD [OF requests_inv(2) assms(2) block_update])
next
  case (hourly_update m_id r)
  show ?thesis by (rule ensuresD [OF requests_inv(3) assms(2) hourly_update])
next
  case (req_clear_mempool q)
  show ?thesis by (rule ensuresD [OF clear_requests_inv(1) assms(2) req_clear_mempool])
next
  case (req_clear_reputation q)
  show ?thesis by (rule ensuresD [OF clear_requests_inv(2) assms(2) req_clear_reputation])
next
  case (req_clear q)
  show ?thesis by (rule ensuresD [OF clear_requests_inv(3) assms(2) req_clear])
next
  case (req_set_reputation rep ep q)
  show ?thesis by (rule ensuresD [OF set_reputation_keeps assms(2) req_set_reputation])
qed

text \<open>C2: One operation per sender and nonce. Take the service with its pools in memory. From its start
  with empty tables, however many requests, network messages, block updates and hourly updates it
  serves one after the other, the pool never holds two operations with the same sender and nonce, and
  its indices stay exact. The operations that enter the service come under hashes that determine their
  sender, factory and paymaster.\<close>

theorem sequential_requests_keep_slots_unique:
  assumes "(service_step K)\<^sup>*\<^sup>*
      (uopool_service_run mode eps connect streams chain max_gas A T memory_mempool empty_tables R rep V p2p) S"
  shows "slots_unique (mem_ops (sv_tables S)) \<and> mem_consistent (sv_tables S)"
proof -
  have "service_inv K (uopool_service_run mode eps connect streams chain max_gas A T memory_mempool
      empty_tables R rep V p2p)"
    by (simp add: service_inv_def uopool_service_run_def ops_ok_def slots_unique_def)
  with assms have "service_inv K S" by (induction rule: rtranclp_induct) (auto intro: service_step_inv)
  then show ?thesis by (simp add: service_inv_def ops_ok_def)
qed

section \<open>A sample service\<close>

definition sample_bumped :: user_operation where
  "sample_bumped = \<lparr>hash = 43,
     user_operation = sample_signed\<lparr>max_fee_per_gas := 110, max_priority_fee_per_gas := 11\<rparr>\<rparr>"

definition sample_text :: service_text where
  "sample_text = \<lparr>
     st_codec = \<lparr>address_to_string = (\<lambda>_. []), address_from_str = (\<lambda>_. None), h256_to_string = (\<lambda>_. []),
       h256_from_str = (\<lambda>_. None)\<rparr>,
     st_bloom = (\<lambda>_. []), json_hash = (\<lambda>_. Ok []), json_error = (\<lambda>_. Ok []), json_gas = (\<lambda>_. Ok []),
     show_mempool_error = (\<lambda>_. []), show_report = (\<lambda>_. []), debug_report = (\<lambda>_. [])\<rparr>"

definition sample_service :: "(memory_tables, memory_entries) uopool_service" where
  "sample_service =
     uopool_service_run Unsafe [1000] (\<lambda>_. sample_eth) [()] 1 5000000 sample_abi sample_text memory_mempool
       empty_tables memory_entries_op empty_reputation sample_validator False"

definition sample_request :: "user_operation \<Rightarrow> add_request" where
  "sample_request uo = \<lparr>ar_uo = Some (pb_of_user_operation uo), ar_ep = Some (pb_of_address 1000)\<rparr>"

abbreviation sample_helper :: sanity_helper where
  "sample_helper \<equiv> \<lparr>sh_entry_point = sample_eth, sh_chain = 1, sh_val_config = default_validation_config\<rparr>"

lemma sample_numbers [simp]:
  "get_number_by_sender memory_mempool a empty_tables = 0"
  "get_number_by_entity memory_mempool a empty_tables = 0"
  by (simp_all add: get_number_by_sender_def get_number_by_entity_def get_number_by_address_def
      memory_mempool_def memory_addr_act_def hash_map_get_all_by_address_def empty_tables_def)

lemma sample_gas_checks:
  assumes "uo \<in> {sample_uo, sample_bumped}"
  shows "check_sender uo memory_mempool empty_tables sample_helper = Ok ()"
    and "check_verification_gas (v_max_verification_gas sample_validator) uo sample_helper = Ok ()"
    and "check_call_gas uo = Ok ()"
    and "check_max_fee (v_min_priority_fee_per_gas sample_validator) uo sample_helper = Ok ()"
    and "check_paymaster uo sample_helper = Ok ()"
proof -
  note defs = sample_bumped_def sample_uo_def sample_signed_def sample_eth_defs sample_validator_def
    new_canonical_unsafe_def
  show "check_sender uo memory_mempool empty_tables sample_helper = Ok ()"
    using assms by (auto simp: check_sender_def defs)
  show "check_verification_gas (v_max_verification_gas sample_validator) uo sample_helper = Ok ()"
    using assms
    by (auto simp: check_verification_gas_def defs calculate_pre_verification_gas_def pack_def
        call_data_cost_def default_overhead_def div_ceil_def checked_div_def checked_rem_def sat_add_def
        sat_mul_def Let_def)
  show "check_call_gas uo = Ok ()"
    using assms by (auto simp: check_call_gas_def defs)
  show "check_max_fee (v_min_priority_fee_per_gas sample_validator) uo sample_helper = Ok ()"
    using assms by (auto simp: check_max_fee_def defs)
  show "check_paymaster uo sample_helper = Ok ()"
    using assms
    by (auto simp: check_paymaster_def defs get_deposit_info_def get_address_def address_from_slice_def
        from_be_bytes_def replicate_20)
qed

lemma sample_status: "get_status memory_entries_op a empty_reputation = Ok (status_to_u64 OK)"
  by (simp add: get_status_def empty_reputation_def is_in_list_def memory_entries_op_def)

lemma sample_staked: "is_err (verify_stake empty_reputation ent (Some \<lparr>si_address = a, stake = 1000000,
    unstake_delay = 100\<rparr>) None None) = False"
  by (simp add: verify_stake_def empty_reputation_def is_in_list_def)

lemma sample_entity_checks:
  assumes "uo \<in> {sample_uo, sample_bumped}"
  shows "check_entities uo memory_mempool empty_tables memory_entries_op empty_reputation = Ok ()"
    and "check_unstaked_entities uo memory_mempool empty_tables memory_entries_op empty_reputation
      sample_helper = Ok ()"
proof -
  have ent: "get_entities (user_operation uo) = get_entities sample_signed"
    using assms by (auto simp: sample_bumped_def get_entities_def)
  show "check_entities uo memory_mempool empty_tables memory_entries_op empty_reputation = Ok ()"
    by (simp add: check_entities_def ent check_entity_status_def entities_get_status_def sample_status
        check_banned_def check_throttled_def status_from_u64_def)
  show "check_unstaked_entities uo memory_mempool empty_tables memory_entries_op empty_reputation
      sample_helper = Ok ()"
    by (simp add: check_unstaked_entities_def ent check_unstaked_entity_def get_stake_def
        get_deposit_info_def sample_eth_defs SAME_SENDER_MEMPOOL_COUNT_def sample_staked
        default_validation_config_def)
qed

lemma sample_validated:
  assumes "uo \<in> {sample_uo, sample_bumped}"
  shows "validate_user_operation sample_validator uo memory_mempool empty_tables memory_entries_op
    empty_reputation None {Sanity, Simulation, SimulationTrace} = Ok sample_outcome"
proof -
  have "pre_verification_gas (user_operation uo) = 60000" "verification_gas_limit (user_operation uo) = 200000"
    using assms by (auto simp: sample_bumped_def sample_uo_def sample_signed_def)
  note second = sample_second_validation [OF this]
  have helper: "\<lparr>sh_entry_point = v_entry_point sample_validator, sh_chain = v_chain sample_validator,
      sh_val_config = config_or_default None\<rparr> = sample_helper"
    by (simp add: sample_validator_def new_canonical_unsafe_def config_or_default_def)
  have "run_sanity sample_validator uo memory_mempool empty_tables memory_entries_op empty_reputation None
      {Sanity, Simulation, SimulationTrace} = Ok ()"
    unfolding run_sanity_def helper sanity_checks_def
    by (simp add: sample_gas_checks [OF assms] sample_entity_checks [OF assms])
  then show ?thesis
    using second by (simp add: validate_user_operation_def run_sanity_def run_simulation_def run_trace_def)
qed

section \<open>Requests that overlap\<close>

text \<open>A pool without network that holds exactly the operations \<open>m\<close>.\<close>

definition holds_ops ::
  "(user_operation_hash \<Rightarrow> user_operation_signed option) \<Rightarrow> (memory_tables, 'r) uopool \<Rightarrow> bool" where
  "holds_ops m P =
     (up_mempool P = memory_mempool \<and> mem_consistent (up_tables P) \<and> mem_ops (up_tables P) = m \<and>
      up_network P = None)"

lemma holds_ops_seen [keeps_intros]: "keeps (holds_ops m) (seen h a)"
  by (auto simp: ensures_def holds_ops_def seen_def map_err_op_def on_reputation_def split: prod.split)

lemma holds_ops_store [keeps_intros]:
  "keeps (holds_ops m) (store_code_hashes h hs :: ((memory_tables, 'r) uopool, 'e, unit) op)"
proof (rule ensuresI)
  fix P :: "(memory_tables, 'r) uopool"
  assume P: "holds_ops m P"
  then have m: "mem_consistent (up_tables P)" "up_mempool P = memory_mempool" by (simp_all add: holds_ops_def)
  show "holds_ops m (snd (store_code_hashes h hs P :: ('e, unit) outcome \<times> _))"
  proof (cases hs)
    case (Some xs)
    obtain t where "mempool_set_code_hashes memory_mempool h xs (up_tables P) = (Ok (), t)"
        "mem_consistent t" "mem_ops t = mem_ops (up_tables P)"
      using mem_refinements(4) [OF m(1), of h xs] by blast
    with P Some m(2) show ?thesis by (simp add: holds_ops_def store_code_hashes_def on_mempool_def)
  qed (use P in \<open>simp add: store_code_hashes_def\<close>)
qed

lemma add_without_prev:
  assumes P: "holds_ops m P" and "same_entities m uo" and "prev_hash out = None"
  shows "holds_ops (m(hash uo \<mapsto> user_operation uo)) (snd (add_user_operation uo (Ok out) P))"
proof -
  have "mem_consistent (up_tables P)" "same_entities (mem_ops (up_tables P)) uo"
    using assms by (simp_all add: holds_ops_def)
  from mem_refinements(1) [OF this] obtain t
    where t: "mempool_add memory_mempool uo (up_tables P) = (Ok (hash uo), t)" "mem_consistent t"
      "mem_ops t = m(hash uo \<mapsto> user_operation uo)"
    using P by (auto simp: holds_ops_def)
  have held: "holds_ops (m(hash uo \<mapsto> user_operation uo)) (P\<lparr>up_tables := t\<rparr>)"
    using P t by (simp add: holds_ops_def)
  have "map_err_op g (on_mempool (mempool_add memory_mempool uo)) P = (Ok (hash uo), P\<lparr>up_tables := t\<rparr>)"
    for g :: "mempool_error_kind \<Rightarrow> mempool_error"
    using t(1) by (simp add: map_err_op_def on_mempool_def)
  then have "add_user_operation uo (Ok out) P =
      bind_op (store_code_hashes (hash uo) (vo_code_hashes out)) (\<lambda>_.
      bind_op (seen (hash uo) (sender (user_operation uo))) (\<lambda>_.
      bind_op (when_some (get_address (init_code (user_operation uo))) (seen (hash uo))) (\<lambda>_.
      bind_op (when_some (get_address (paymaster_and_data (user_operation uo))) (seen (hash uo))) (\<lambda>_.
      ret (hash uo))))) (P\<lparr>up_tables := t\<rparr>)"
    using P assms(3)
    by (simp add: add_user_operation_def holds_ops_def publish_def bind_op_def [of "publish _ _"]
        bind_op_simps(1))
  then show ?thesis
    by (simp only:) (rule keeps_app [of "holds_ops _" "bind_op _ _", OF _ held], intro keeps_intros)
qed

lemma finish_without_prev:
  assumes "get_uopool S ep = Ok (m_id, P)" and "holds_ops m P" and "same_entities m uo"
    and "prev_hash out = None"
  shows "\<exists>P'. get_uopool (snd (add_finish uo ep (Ok out) S)) ep = Ok (m_id, P') \<and>
    holds_ops (m(hash uo \<mapsto> user_operation uo)) P' \<and>
    mem_ops (sv_tables (snd (add_finish uo ep (Ok out) S))) = m(hash uo \<mapsto> user_operation uo)"
proof -
  obtain r P1 where P1: "add_user_operation uo (Ok out) P = (r, P1)" by fastforce
  then have h: "holds_ops (m(hash uo \<mapsto> user_operation uo)) P1"
    using add_without_prev [OF assms(2-4)] by simp
  have S': "snd (add_finish uo ep (Ok out) S) = write_back m_id P1 S"
    using assms(1) P1 by (simp add: add_finish_def with_uopool_def)
  obtain b where b: "hm_get (sv_uopools S) m_id = Some b" "P = builder_uopool S b"
      "m_id = mempool_id (sv_abi S) ep (sv_chain S)"
    using assms(1) by (auto simp: get_uopool_Ok)
  have "holds_ops (m(hash uo \<mapsto> user_operation uo))
      (builder_uopool (write_back m_id P1 S) (b\<lparr>bd_network := up_network P1\<rparr>))"
    using h assms(2) b(2) by (simp add: holds_ops_def builder_uopool_def write_back_def)
  then show ?thesis
    unfolding S' using b h by (auto simp: get_uopool_def Let_def write_back_def holds_ops_def)
qed

text \<open>C3: Overlapping requests break the rule: when two operations with the same sender and nonce are
  both validated before either is added, the service ends up holding both. Nothing ties the
  validation of an operation to the pool it is later added to.\<close>

theorem overlapping_adds_share_slot:
  assumes "sv_mempool S = memory_mempool" and "mem_consistent (sv_tables S)"
    and "get_uopool S ep = Ok (m_id, P)" and "up_network P = None"
    and "add_validate req1 S = Ok (uo1, ep, Ok out1)" and "add_validate req2 S = Ok (uo2, ep, Ok out2)"
    and "hash uo1 \<noteq> hash uo2" and "sender (user_operation uo1) = sender (user_operation uo2)"
    and "nonce (user_operation uo1) = nonce (user_operation uo2)"
    and "\<And>p. \<not> same_slot (mem_ops (sv_tables S)) uo1 p"
    and "same_entities (mem_ops (sv_tables S)) uo1" and "same_entities (mem_ops (sv_tables S)) uo2"
  shows "\<not> slots_unique (mem_ops (sv_tables
    (snd (add_finish uo2 ep (Ok out2) (snd (add_finish uo1 ep (Ok out1) S))))))"
proof -
  let ?m = "mem_ops (sv_tables S)"
  have P: "up_mempool P = memory_mempool" "up_tables P = sv_tables S"
    using assms(1,3) by (auto simp: get_uopool_Ok builder_uopool_def)
  then have holds: "holds_ops ?m P" using assms(2,4) by (simp add: holds_ops_def)
  have none: "get_prev_by_sender memory_mempool uo (sv_tables S) = None"
    if "\<And>p. \<not> same_slot ?m uo p" for uo
    using mem.get_prev_by_sender_refines [folded mem_consistent_def, OF assms(2), of uo] that
    by (auto split: option.splits)
  have "\<not> same_slot ?m uo2 p" for p
    using assms(8-10) by (simp add: same_slot_def)
  moreover have "pool_validate_user_operation uo1 None P = Ok out1" "pool_validate_user_operation uo2 None P = Ok out2"
    using assms(3,5,6) by (auto simp: add_validate_def bind_ok_eq_Ok)
  ultimately have prev: "prev_hash out1 = None" "prev_hash out2 = None"
    using validated_prev_hash none [OF assms(10)] none [of uo2] P by fastforce+
  obtain P1 where P1: "get_uopool (snd (add_finish uo1 ep (Ok out1) S)) ep = Ok (m_id, P1)"
      "holds_ops (?m(hash uo1 \<mapsto> user_operation uo1)) P1"
    using finish_without_prev [OF assms(3) holds assms(11) prev(1)] by blast
  have "same_entities (?m(hash uo1 \<mapsto> user_operation uo1)) uo2"
    using assms(7,12) by (simp add: same_entities_def)
  from finish_without_prev [OF P1 this prev(2)]
  have final: "mem_ops (sv_tables (snd (add_finish uo2 ep (Ok out2) (snd (add_finish uo1 ep (Ok out1) S))))) =
      ?m(hash uo1 \<mapsto> user_operation uo1, hash uo2 \<mapsto> user_operation uo2)"
    by blast
  show ?thesis
    unfolding final slots_unique_def using assms(7-9) by (metis fun_upd_other fun_upd_same)
qed

section \<open>The sample service at work\<close>

abbreviation sample_pools :: "(memory_tables, memory_entries) uopool" where
  "sample_pools \<equiv> (sample_pool 5000000)\<lparr>up_id := mempool_id sample_abi 1000 1\<rparr>"

lemma sample_uopool: "get_uopool sample_service 1000 = Ok (mempool_id sample_abi 1000 1, sample_pools)"
  by (simp add: get_uopool_def sample_service_def uopool_service_run_def hm_collect_def hm_insert_def hm_get_def
      builder_uopool_def sample_pool_def sample_eth_def Let_def)

lemma sample_pools_simps:
  "up_mempool sample_pools = memory_mempool" "up_tables sample_pools = empty_tables"
  "up_network sample_pools = None" "sv_tables sample_service = empty_tables"
  "sv_mempool sample_service = memory_mempool"
  by (simp_all add: sample_pool_def sample_service_def uopool_service_run_def)

lemma sample_parse: "parse_uo (ar_uo (sample_request uo)) = Ok uo"
  by (simp add: sample_request_def parse_uo_def)

lemma sample_add_validate:
  assumes "uo \<in> {sample_uo, sample_bumped}"
  shows "add_validate (sample_request uo) sample_service = Ok (uo, 1000, Ok sample_outcome)"
proof -
  have "parse_addr (ar_ep (sample_request uo)) = Ok 1000"
    by (simp add: sample_request_def parse_addr_def)
  then show ?thesis
    using sample_validated [OF assms]
    by (simp add: add_validate_def sample_parse sample_uopool pool_validate_user_operation_def sample_pool_def)
qed

lemma sample_holds: "holds_ops Map.empty sample_pools"
  by (simp add: holds_ops_def sample_pools_simps)

theorem sequential_requests_keep_slots_unique_witness:
  "\<exists>S. (service_step (\<lambda>_. get_entities sample_signed))\<^sup>*\<^sup>* sample_service S \<and>
     mem_ops (sv_tables S) = [42 \<mapsto> sample_signed] \<and> slots_unique (mem_ops (sv_tables S))"
proof -
  let ?K = "\<lambda>_. get_entities sample_signed"
  obtain r S where S: "service_add (sample_request sample_uo) sample_service = (r, S)" by fastforce
  have "service_step ?K sample_service S"
    by (rule req_add [OF _ S]) (simp add: sample_parse digest_of_def)
  then have steps: "(service_step ?K)\<^sup>*\<^sup>* sample_service S" by blast
  have "S = snd (add_finish sample_uo 1000 (Ok sample_outcome) sample_service)"
    using S sample_add_validate [of sample_uo] by (simp add: service_add_def)
  moreover have "same_entities Map.empty sample_uo" "prev_hash sample_outcome = None"
    by (simp_all add: same_entities_def sample_outcome_def)
  note finish_without_prev [OF sample_uopool sample_holds this]
  ultimately have "mem_ops (sv_tables S) = [42 \<mapsto> sample_signed]" by auto
  with steps sequential_requests_keep_slots_unique [OF steps [unfolded sample_service_def]] show ?thesis
    by blast
qed

theorem overlapping_adds_share_slot_witness:
  "add_validate (sample_request sample_uo) sample_service = Ok (sample_uo, 1000, Ok sample_outcome) \<and>
   add_validate (sample_request sample_bumped) sample_service = Ok (sample_bumped, 1000, Ok sample_outcome) \<and>
   \<not> slots_unique (mem_ops (sv_tables (snd (add_finish sample_bumped 1000 (Ok sample_outcome)
       (snd (add_finish sample_uo 1000 (Ok sample_outcome) sample_service))))))"
proof -
  have v: "add_validate (sample_request sample_uo) sample_service = Ok (sample_uo, 1000, Ok sample_outcome)"
    "add_validate (sample_request sample_bumped) sample_service = Ok (sample_bumped, 1000, Ok sample_outcome)"
    by (simp_all add: sample_add_validate)
  have "\<not> slots_unique (mem_ops (sv_tables (snd (add_finish sample_bumped 1000 (Ok sample_outcome)
       (snd (add_finish sample_uo 1000 (Ok sample_outcome) sample_service))))))"
    by (rule overlapping_adds_share_slot [OF _ _ sample_uopool _ v])
      (simp_all add: sample_pools_simps same_slot_def same_entities_def sample_bumped_def)
  with v show ?thesis by blast
qed

end
