(* ===== verification/Pool_Effects.thy ===== *)
theory Pool_Effects
  imports Uopool
begin

text \<open>
  The whole effect of adding an operation to a pool in memory: which operations the pool holds
  afterwards, how often each entity has been seen, and what was sent to the network. Each step of
  \<open>add_user_operation\<close> has a lemma, and the lemma on the operation composes them.
\<close>

section \<open>What a pool holds and has counted\<close>

text \<open>
  The in-memory pool holds the operations \<open>m\<close>, has seen each entity \<open>k\<close> times and has the
  channel \<open>net\<close> to the network.
\<close>

definition seen_count :: "(memory_tables, memory_entries) uopool \<Rightarrow> address \<Rightarrow> u64" where
  "seen_count P a = uo_seen (entry_or_default (hm_get (entities (up_reputation P))) a)"

definition counts ::
  "(user_operation_hash \<rightharpoonup> user_operation_signed) \<Rightarrow> (address \<Rightarrow> u64) \<Rightarrow> network_channel option \<Rightarrow>
   (memory_tables, memory_entries) uopool \<Rightarrow> bool" where
  "counts m k net P =
     (up_mempool P = memory_mempool \<and> up_entries P = memory_entries_op \<and> mem_consistent (up_tables P) \<and>
      entries_ok (entities (up_reputation P)) \<and> mem_ops (up_tables P) = m \<and> seen_count P = k \<and>
      up_network P = net)"

text \<open>How many of the roles of an operation an address has.\<close>

definition roles :: "user_operation_signed \<Rightarrow> address \<Rightarrow> u64" where
  "roles uo a = of_bool (sender uo = a) + of_bool (get_address (init_code uo) = Some a) +
     of_bool (get_address (paymaster_and_data uo) = Some a)"

lemma counts_remove:
  assumes "counts m k net P"
  shows "\<exists>Q. remove_user_operation h P = (Ok (), Q) \<and> counts (m(h := None)) k net Q"
proof -
  have con: "mem_consistent (up_tables P)" "up_mempool P = memory_mempool" using assms by (simp_all add: counts_def)
  obtain t b where t: "mempool_remove memory_mempool h (up_tables P) = (Ok b, t)" "mem_consistent t"
      "mem_ops t = (mem_ops (up_tables P))(h := None)"
    using mem_refinements(2) [OF con(1), of h] by blast
  then show ?thesis
    using assms by (auto simp: remove_user_operation_def ignore_err_def on_mempool_def counts_def seen_count_def
        fun_eq_iff)
qed

lemma counts_remove_prev:
  assumes "counts m k net P"
  shows "\<exists>Q. when_some prev remove_user_operation P = (Ok (), Q) \<and>
    counts (case prev of None \<Rightarrow> m | Some h \<Rightarrow> m(h := None)) k net Q"
  using assms counts_remove [OF assms] by (cases prev) (auto simp: ret_def)

definition network_open :: "network_channel option \<Rightarrow> bool" where
  "network_open net = (case net of None \<Rightarrow> True | Some ch \<Rightarrow> nc_open ch)"

definition sent_to :: "user_operation \<Rightarrow> validation_outcome \<Rightarrow> network_channel option \<Rightarrow> network_channel option" where
  "sent_to uo res = map_option (\<lambda>ch. ch\<lparr>nc_sent := nc_sent ch @ [\<lparr>pm_user_operation = uo,
     verified_at_block_hash = verified_block res, pm_validation_config = vo_val_config res\<rparr>]\<rparr>)"

lemma counts_publish:
  "counts m k net P \<Longrightarrow> network_open net \<Longrightarrow>
   \<exists>Q. publish uo res P = (Ok (), Q) \<and> counts m k (sent_to uo res net) Q"
  by (auto simp: counts_def publish_def seen_count_def fun_eq_iff sent_to_def network_open_def
      split: option.splits)

lemma counts_publish_closed:
  "counts m k net P \<Longrightarrow> \<not> network_open net \<Longrightarrow> publish uo res P = (Panic, P)"
  by (auto simp: counts_def publish_def network_open_def split: option.splits)

lemma counts_add:
  assumes "counts m k net P" "same_entities m uo"
  shows "\<exists>Q. map_err_op g (on_mempool (mempool_add memory_mempool uo)) P = (Ok (hash uo), Q) \<and>
    counts (m(hash uo \<mapsto> user_operation uo)) k net Q"
proof -
  have con: "mem_consistent (up_tables P)" "same_entities (mem_ops (up_tables P)) uo"
    using assms by (simp_all add: counts_def)
  obtain t where t: "mempool_add memory_mempool uo (up_tables P) = (Ok (hash uo), t)" "mem_consistent t"
      "mem_ops t = (mem_ops (up_tables P))(hash uo \<mapsto> user_operation uo)"
    using mem_refinements(1) [OF con] by blast
  then show ?thesis
    using assms(1) by (auto simp: map_err_op_def on_mempool_def counts_def seen_count_def fun_eq_iff)
qed

lemma counts_store:
  assumes "counts m k net P"
  shows "\<exists>Q. store_code_hashes h hs P = (Ok (), Q) \<and> counts m k net Q"
proof (cases hs)
  case (Some cs)
  have con: "mem_consistent (up_tables P)" using assms by (simp add: counts_def)
  obtain t where t: "mempool_set_code_hashes memory_mempool h cs (up_tables P) = (Ok (), t)" "mem_consistent t"
      "mem_ops t = mem_ops (up_tables P)"
    using mem_refinements(4) [OF con, of h cs] by blast
  with assms Some show ?thesis
    by (auto simp: store_code_hashes_def ignore_err_def on_mempool_def counts_def seen_count_def fun_eq_iff)
qed (use assms in \<open>simp add: store_code_hashes_def\<close>)

lemma counts_seen:
  assumes "counts m k net P"
  shows "\<exists>Q. seen h a P = (Ok (), Q) \<and> counts m (k(a := k a + 1)) net Q"
proof -
  have "entries_ok (entities (up_reputation P))" "up_entries P = memory_entries_op"
    using assms by (simp_all add: counts_def)
  from increment_seen_exact [OF this(1), of a] obtain t where
    t: "increment_seen memory_entries_op a (up_reputation P) = (Ok (), (up_reputation P)\<lparr>entities := t\<rparr>)"
      "entries_ok t"
    and get: "hm_get t = (hm_get (entities (up_reputation P)))(a \<mapsto>
      (entry_or_default (hm_get (entities (up_reputation P))) a)\<lparr>uo_seen :=
         uo_seen (entry_or_default (hm_get (entities (up_reputation P))) a) + 1\<rparr>)"
    by (auto simp: Let_def)
  have "seen h a P = (Ok (), P\<lparr>up_reputation := (up_reputation P)\<lparr>entities := t\<rparr>\<rparr>)"
    using t(1) \<open>up_entries P = memory_entries_op\<close> by (simp add: seen_def map_err_op_def on_reputation_def)
  moreover have "seen_count (P\<lparr>up_reputation := (up_reputation P)\<lparr>entities := t\<rparr>\<rparr>) = k(a := k a + 1)"
    using assms by (auto simp: counts_def seen_count_def get entry_or_default_def fun_eq_iff)
  ultimately show ?thesis using assms t(2) by (simp add: counts_def)
qed

lemma counts_seen_some:
  assumes "counts m k net P"
  shows "\<exists>Q. when_some x (seen h) P = (Ok (), Q) \<and> counts m (\<lambda>a. k a + of_bool (x = Some a)) net Q"
proof (cases x)
  case (Some a)
  have "k(a := k a + 1) = (\<lambda>b. k b + of_bool (x = Some b))" by (auto simp: Some fun_eq_iff)
  then show ?thesis using counts_seen [OF assms, of h a] Some by simp
qed (use assms in \<open>simp add: ret_def\<close>)

lemma counts_add_user_operation:
  assumes "counts m k net P" "same_entities m uo" "network_open net"
  shows "\<exists>Q. add_user_operation uo (Ok res) P = (Ok (hash uo), Q) \<and>
    counts ((case prev_hash res of None \<Rightarrow> m | Some h \<Rightarrow> m(h := None))(hash uo \<mapsto> user_operation uo))
      (\<lambda>a. k a + roles (user_operation uo) a)
      (sent_to uo res net) Q"
proof -
  let ?m = "case prev_hash res of None \<Rightarrow> m | Some h \<Rightarrow> m(h := None)"
  let ?net = "sent_to uo res net"
  let ?g = "\<lambda>e. \<lparr>me_hash = hash uo, me_kind = e\<rparr>"
  have same: "same_entities ?m uo" using assms(2) by (auto simp: same_entities_def split: option.splits)
  have mp: "up_mempool P = memory_mempool" using assms(1) by (simp add: counts_def)
  obtain P1 where 1: "when_some (prev_hash res) remove_user_operation P = (Ok () :: (mempool_error, unit) outcome, P1)" "counts ?m k net P1"
    using counts_remove_prev [OF assms(1)] by blast
  obtain P2 where 2: "publish uo res P1 = (Ok () :: (mempool_error, unit) outcome, P2)" "counts ?m k ?net P2"
    using counts_publish [OF 1(2) assms(3)] by blast
  obtain P3 where 3: "map_err_op ?g (on_mempool (mempool_add memory_mempool uo)) P2 = (Ok (hash uo), P3)"
      "counts (?m(hash uo \<mapsto> user_operation uo)) k ?net P3"
    using counts_add [OF 2(2) same] by blast
  obtain P4 where 4: "store_code_hashes (hash uo) (vo_code_hashes res) P3 = (Ok () :: (mempool_error, unit) outcome, P4)"
      "counts (?m(hash uo \<mapsto> user_operation uo)) k ?net P4"
    using counts_store [OF 3(2)] by blast
  obtain P5 where 5: "seen (hash uo) (sender (user_operation uo)) P4 = (Ok (), P5)"
      "counts (?m(hash uo \<mapsto> user_operation uo)) (\<lambda>a. k a + of_bool (sender (user_operation uo) = a)) ?net P5"
    using counts_seen_some [OF 4(2), of "Some (sender (user_operation uo))"] by auto
  obtain P6 where 6: "when_some (get_address (init_code (user_operation uo))) (seen (hash uo)) P5 = (Ok (), P6)"
      "counts (?m(hash uo \<mapsto> user_operation uo)) (\<lambda>a. k a + of_bool (sender (user_operation uo) = a) +
         of_bool (get_address (init_code (user_operation uo)) = Some a)) ?net P6"
    using counts_seen_some [OF 5(2)] by blast
  obtain P7 where 7: "when_some (get_address (paymaster_and_data (user_operation uo))) (seen (hash uo)) P6 = (Ok (), P7)"
      "counts (?m(hash uo \<mapsto> user_operation uo)) (\<lambda>a. k a + of_bool (sender (user_operation uo) = a) +
         of_bool (get_address (init_code (user_operation uo)) = Some a) +
         of_bool (get_address (paymaster_and_data (user_operation uo)) = Some a)) ?net P7"
    using counts_seen_some [OF 6(2)] by blast
  have "add_user_operation uo (Ok res) P = (Ok (hash uo), P7)"
    by (simp add: add_user_operation_def mp bind_op_def 1(1) 2(1) 3(1) 4(1) 5(1) 6(1) 7(1))
  then show ?thesis using 7(2) by (auto simp: roles_def add.assoc)
qed

lemma counts_add_closed:
  assumes "counts m k net P" "\<not> network_open net"
  shows "fst (add_user_operation uo (Ok res) P) = Panic"
proof -
  obtain P1 where 1: "when_some (prev_hash res) remove_user_operation P = (Ok () :: (mempool_error, unit) outcome, P1)"
      "counts (case prev_hash res of None \<Rightarrow> m | Some h \<Rightarrow> m(h := None)) k net P1"
    using counts_remove_prev [OF assms(1)] by blast
  then show ?thesis
    by (simp add: add_user_operation_def bind_op_def 1(1) counts_publish_closed [OF 1(2) assms(2)])
qed

text \<open>A rejected operation: at most the operations of a banned entity leave the pool.\<close>

lemma counts_reject:
  assumes "counts m k net P"
  shows "\<exists>Q m'. add_user_operation uo (Err e) P = (Err \<lparr>me_hash = hash uo, me_kind = InvalidUserOperation e\<rparr>, Q) \<and>
    counts m' k net Q \<and> m' \<subseteq>\<^sub>m m"
proof -
  have con: "mem_consistent (up_tables P)" "up_mempool P = memory_mempool" using assms by (simp_all add: counts_def)
  have removed: "\<exists>Q m'. remove_user_operation_by_entity a P = (Ok () :: (mempool_error, unit) outcome, Q) \<and>
      counts m' k net Q \<and> m' \<subseteq>\<^sub>m m" for a
  proof -
    obtain t r where t: "mempool_remove_by_entity memory_mempool a (up_tables P) = (Ok r, t)" "mem_consistent t"
        "mem_ops t \<subseteq>\<^sub>m mem_ops (up_tables P)"
      using mem_refinements(3) [OF con(1), of a] by (auto simp: map_le_def)
    moreover have "mem_ops (up_tables P) = m" using assms by (simp add: counts_def)
    moreover have "counts (mem_ops t) k net (P\<lparr>up_tables := t\<rparr>)"
      using assms t(2) by (simp add: counts_def seen_count_def [abs_def])
    ultimately show ?thesis
      using con(2) by (auto simp: remove_user_operation_by_entity_def ignore_err_def on_mempool_def)
  qed
  show ?thesis
  proof (cases "\<exists>ent a. e = InvSanity (SanReputation (BannedEntity ent a))")
    case True
    then obtain ent a where e: "e = InvSanity (SanReputation (BannedEntity ent a))" by blast
    obtain Q m' where "remove_user_operation_by_entity a P = (Ok () :: (mempool_error, unit) outcome, Q)"
        "counts m' k net Q" "m' \<subseteq>\<^sub>m m"
      using removed by blast
    then show ?thesis by (auto simp: add_user_operation_def e bind_op_def fail_def)
  next
    case False
    then have "add_user_operation uo (Err e) P = (Err \<lparr>me_hash = hash uo, me_kind = InvalidUserOperation e\<rparr>, P)"
      by (auto simp: add_user_operation_def bind_op_def fail_def ret_def split: invalid_mempool_user_operation_error.splits
          sanity_error.splits reputation_error.splits)
    with assms map_le_refl show ?thesis by blast
  qed
qed

section \<open>A new block\<close>

text \<open>The pool holds the operations \<open>m\<close> and has counted \<open>k\<close> included operations of each entity.\<close>

definition included_count :: "(memory_tables, memory_entries) uopool \<Rightarrow> address \<Rightarrow> u64" where
  "included_count P a = uo_included (entry_or_default (hm_get (entities (up_reputation P))) a)"

definition mined_counts ::
  "(user_operation_hash \<rightharpoonup> user_operation_signed) \<Rightarrow> (address \<Rightarrow> u64) \<Rightarrow>
   (memory_tables, memory_entries) uopool \<Rightarrow> bool" where
  "mined_counts m k P =
     (up_mempool P = memory_mempool \<and> up_entries P = memory_entries_op \<and> mem_consistent (up_tables P) \<and>
      entries_ok (entities (up_reputation P)) \<and> mem_ops (up_tables P) = m \<and> included_count P = k)"

lemma mined_counts_remove:
  assumes "mined_counts m k P"
  shows "\<exists>Q. remove_user_operation h P = (Ok (), Q) \<and> mined_counts (m(h := None)) k Q"
proof -
  have con: "mem_consistent (up_tables P)" using assms by (simp add: mined_counts_def)
  obtain t b where "mempool_remove memory_mempool h (up_tables P) = (Ok b, t)" "mem_consistent t"
      "mem_ops t = (mem_ops (up_tables P))(h := None)"
    using mem_refinements(2) [OF con, of h] by blast
  then show ?thesis
    using assms by (auto simp: remove_user_operation_def ignore_err_def on_mempool_def mined_counts_def
        included_count_def fun_eq_iff)
qed

lemma mined_counts_included:
  assumes "mined_counts m k P"
  shows "\<exists>Q. included a P = (Ok () :: ('e, unit) outcome, Q) \<and> mined_counts m (\<lambda>b. k b + of_bool (a = b)) Q"
proof -
  let ?R = "up_reputation P"
  have ok: "entries_ok (entities ?R)" "up_entries P = memory_entries_op" using assms by (simp_all add: mined_counts_def)
  from mem_ents.modify_entry_refines [OF ok(1), of "\<lambda>ent. ent\<lparr>uo_included := uo_included ent + 1\<rparr>" a]
  obtain t where t: "increment_included memory_entries_op a ?R = (Ok (), ?R\<lparr>entities := t\<rparr>)" "entries_ok t"
    and get: "hm_get t = (hm_get (entities ?R))(a \<mapsto> (entry_or_default (hm_get (entities ?R)) a)\<lparr>uo_included :=
         uo_included (entry_or_default (hm_get (entities ?R)) a) + 1\<rparr>)"
    by (auto simp: increment_included_def on_entities_Ok)
  have "included a P = (Ok () :: ('e, unit) outcome, P\<lparr>up_reputation := ?R\<lparr>entities := t\<rparr>\<rparr>)"
    using t(1) ok(2) by (simp add: included_def ignore_err_def on_reputation_def)
  moreover have "included_count (P\<lparr>up_reputation := ?R\<lparr>entities := t\<rparr>\<rparr>) = (\<lambda>b. k b + of_bool (a = b))"
    using assms by (auto simp: mined_counts_def included_count_def get entry_or_default_def fun_eq_iff)
  then have "mined_counts m (\<lambda>b. k b + of_bool (a = b)) (P\<lparr>up_reputation := ?R\<lparr>entities := t\<rparr>\<rparr>)"
    using assms t(2) unfolding mined_counts_def by (intro conjI) simp_all
  ultimately show ?thesis by blast
qed

lemma mined_counts_included_some:
  assumes "mined_counts m k P"
  shows "\<exists>Q. when_some x included P = (Ok (), Q) \<and> mined_counts m (\<lambda>b. k b + of_bool (x = Some b)) Q"
  using mined_counts_included [OF assms] assms by (cases x) (auto simp: ret_def)

lemma mined_counts_remove_operations:
  assumes "mined_counts m k P"
  shows "\<exists>Q. remove_user_operations uos P = (Ok (), Q) \<and>
    mined_counts (m |` (- hash ` set uos)) (\<lambda>a. k a + sum_list (map (\<lambda>uo. roles (user_operation uo) a) uos)) Q"
  using assms
proof (induction uos arbitrary: m k P)
  case Nil
  then show ?case by (simp add: remove_user_operations_def ret_def)
next
  case (Cons uo uos)
  obtain P1 where 1: "remove_user_operation (hash uo) P = (Ok () :: ('a, unit) outcome, P1)" "mined_counts (m(hash uo := None)) k P1"
    using mined_counts_remove [OF Cons.prems] by blast
  obtain P2 where 2: "included (sender (user_operation uo)) P1 = (Ok () :: ('a, unit) outcome, P2)"
      "mined_counts (m(hash uo := None)) (\<lambda>a. k a + of_bool (sender (user_operation uo) = a)) P2"
    using mined_counts_included [OF 1(2)] by blast
  obtain P3 where 3: "when_some (get_address (paymaster_and_data (user_operation uo))) included P2 = (Ok () :: ('a, unit) outcome, P3)"
      "mined_counts (m(hash uo := None)) (\<lambda>a. k a + of_bool (sender (user_operation uo) = a) +
         of_bool (get_address (paymaster_and_data (user_operation uo)) = Some a)) P3"
    using mined_counts_included_some [OF 2(2)] by blast
  obtain P4 where 4: "when_some (get_address (init_code (user_operation uo))) included P3 = (Ok () :: ('a, unit) outcome, P4)"
      "mined_counts (m(hash uo := None)) (\<lambda>a. k a + of_bool (sender (user_operation uo) = a) +
         of_bool (get_address (paymaster_and_data (user_operation uo)) = Some a) +
         of_bool (get_address (init_code (user_operation uo)) = Some a)) P4"
    using mined_counts_included_some [OF 3(2)] by blast
  have "remove_user_operations (uo # uos) P = (remove_user_operations uos P4 :: ('a, unit) outcome \<times> _)"
    by (simp add: remove_user_operations_def bind_op_def 1(1) 2(1) 3(1) 4(1))
  moreover have m: "(m(hash uo := None)) |` (- hash ` set uos) = m |` (- hash ` set (uo # uos))"
    by (auto simp: restrict_map_def fun_eq_iff)
  have "(\<lambda>a. k a + of_bool (sender (user_operation uo) = a) +
         of_bool (get_address (paymaster_and_data (user_operation uo)) = Some a) +
         of_bool (get_address (init_code (user_operation uo)) = Some a) +
         sum_list (map (\<lambda>uo. roles (user_operation uo) a) uos)) =
      (\<lambda>a. k a + sum_list (map (\<lambda>uo. roles (user_operation uo) a) (uo # uos)))"
    by (simp add: roles_def fun_eq_iff)
  with Cons.IH [OF 4(2)] calculation show ?case unfolding m by simp
qed

text \<open>The operations that the transactions of a block to the entry point carry.\<close>

definition mined_operations ::
  "transaction list \<Rightarrow> (bytes \<Rightarrow> (user_operation_signed list \<times> address) option) \<Rightarrow>
   ('s, 'r) uopool \<Rightarrow> user_operation list" where
  "mined_operations txs decode P =
     map (\<lambda>uo. from_user_operation_signed (user_operation_hash (eth_abi (up_entry_point P)) uo
         (ep_address (up_entry_point P)) (up_chain P)) uo)
       (concat (map (\<lambda>tx. if tx_to tx = Some (ep_address (up_entry_point P))
          then (case decode (tx_input tx) of Some (uos, _) \<Rightarrow> uos | None \<Rightarrow> []) else []) txs))"

text \<open>C5: A block clears exactly what it includes. When the client gives the block, handling it succeeds,
  and the pool in memory afterwards holds exactly the operations that no transaction of the block to
  the entry point carries, recognised by their hash for this entry point and chain; the counter of
  included operations of each entity has grown by the number of roles it has in the operations of the
  block, whether the pool held them or not. When the client has no such block nothing changes, and
  when it fails its error is reported and nothing changes either, so that the operations of that block
  stay in the pool.\<close>

theorem block_clears_included:
  assumes "mem_consistent (up_tables P)" "up_mempool P = memory_mempool" "up_entries P = memory_entries_op"
    "entries_ok (entities (up_reputation P))"
  shows "case blk of
      Ok (Some txs) \<Rightarrow> \<exists>Q. handle_block_update blk decode P = (Ok (), Q) \<and> mem_consistent (up_tables Q) \<and>
        mem_ops (up_tables Q) = mem_ops (up_tables P) |` (- hash ` set (mined_operations txs decode P)) \<and>
        (\<forall>a. included_count Q a = included_count P a +
           sum_list (map (\<lambda>uo. roles (user_operation uo) a) (mined_operations txs decode P)))
    | Ok None \<Rightarrow> handle_block_update blk decode P = (Ok (), P)
    | Err e \<Rightarrow> handle_block_update blk decode P = (Err (ClientFailed e), P)
    | Panic \<Rightarrow> handle_block_update blk decode P = (Panic, P)"
proof -
  let ?ep = "ep_address (up_entry_point P)"
  let ?h = "\<lambda>uo. from_user_operation_signed (user_operation_hash (eth_abi (up_entry_point P)) uo ?ep (up_chain P)) uo"
  let ?f = "\<lambda>tx. if tx_to tx = Some ?ep then (case decode (tx_input tx) of
      Some (uos, _) \<Rightarrow> remove_user_operations (map ?h uos) | None \<Rightarrow> ret ()) else ret ()"
  let ?mined = "\<lambda>txs. mined_operations txs decode P"
  have step: "?f tx = remove_user_operations (?mined [tx])" for tx
    by (auto simp: mined_operations_def remove_user_operations_def split: option.splits)
  have all: "\<exists>R. for_each ?f txs Q = (Ok () :: (pool_error, unit) outcome, R) \<and> mined_counts (m |` (- hash ` set (?mined txs)))
      (\<lambda>a. k a + sum_list (map (\<lambda>uo. roles (user_operation uo) a) (?mined txs))) R" if "mined_counts m k Q" for m k Q txs
    using that
  proof (induction txs arbitrary: m k Q)
    case Nil
    then show ?case by (simp add: mined_operations_def ret_def)
  next
    case (Cons tx txs)
    have mined: "?mined (tx # txs) = ?mined [tx] @ ?mined txs" by (simp add: mined_operations_def)
    obtain R where R: "?f tx Q = (Ok () :: (pool_error, unit) outcome, R)" "mined_counts (m |` (- hash ` set (?mined [tx])))
        (\<lambda>a. k a + sum_list (map (\<lambda>uo. roles (user_operation uo) a) (?mined [tx]))) R"
      unfolding step using mined_counts_remove_operations [OF Cons.prems] by blast
    have "m |` (- hash ` set (?mined [tx])) |` (- hash ` set (?mined txs)) = m |` (- hash ` set (?mined (tx # txs)))"
      unfolding mined by (simp add: image_Un Compl_Un)
    with Cons.IH [OF R(2)] R(1) show ?case by (simp add: bind_op_def mined add.assoc)
  qed
  have "mined_counts (mem_ops (up_tables P)) (included_count P) P" using assms by (simp add: mined_counts_def)
  note mined = all [OF this]
  show ?thesis
  proof (cases "\<exists>txs. blk = Ok (Some txs)")
    case True
    then obtain txs where "blk = Ok (Some txs)" by blast
    then show ?thesis using mined [of txs] by (auto simp: handle_block_update_def mined_counts_def)
  next
    case False
    then show ?thesis by (auto simp: handle_block_update_def split: outcome.split option.split)
  qed
qed

text \<open>The sample pool with the sample operation, and a block that carries the operation.\<close>

definition sample_full_pool :: "(memory_tables, memory_entries) uopool" where
  "sample_full_pool = (sample_pool 5000000)\<lparr>up_entry_point := sample_eth\<lparr>eth_abi := sample_abi\<lparr>keccak256 := (\<lambda>_. 42)\<rparr>\<rparr>,
     up_tables := snd (mempool_add memory_mempool sample_uo empty_tables)\<rparr>"

theorem block_clears_included_witness:
  "mem_ops (up_tables sample_full_pool) = [42 \<mapsto> sample_signed] \<and>
   mem_ops (up_tables (snd (handle_block_update (Ok (Some [\<lparr>tx_to = Some 1000, tx_input = [1]\<rparr>]))
     (\<lambda>_. Some ([sample_signed], 9)) sample_full_pool))) = Map.empty"
proof -
  let ?P = sample_full_pool
  let ?d = "\<lambda>_. Some ([sample_signed], 9)"
  obtain t where t: "mempool_add memory_mempool sample_uo empty_tables = (Ok (hash sample_uo), t)" "mem_consistent t"
      "mem_ops t = [hash sample_uo \<mapsto> sample_signed]"
    using mem_refinements(1) [of empty_tables sample_uo] by (auto simp: same_entities_def)
  then have P: "mem_consistent (up_tables ?P)" "mem_ops (up_tables ?P) = [42 \<mapsto> sample_signed]"
    by (simp_all add: sample_full_pool_def)
  have "mined_operations [\<lparr>tx_to = Some 1000, tx_input = [1]\<rparr>] ?d ?P = [sample_uo]"
    by (simp add: mined_operations_def sample_full_pool_def sample_pool_def sample_eth_defs user_operation_hash_def
        from_user_operation_signed_def sample_uo_def)
  then show ?thesis
    using block_clears_included [OF P(1), of "Ok (Some [\<lparr>tx_to = Some 1000, tx_input = [1]\<rparr>])" ?d] P(2)
    by (auto simp: sample_full_pool_def sample_pool_def empty_reputation_def entries_ok_def hm_wf_def
        restrict_map_def fun_eq_iff)
qed

end
