(* ===== verification/Bundler_Core.thy ===== *)
theory Bundler_Core
  imports Entry_Point
begin

text \<open>
  The bundler crate (\<open>bundler/src\<close>): making the \<open>handleOps\<close> transaction of a bundle and the four clients
  that send it: to the execution client, over the conditional method, to the Fastlane relay and to
  the Flashbots relay.
\<close>

section \<open>Transactions and the node\<close>

type_synonym access_list = "(address \<times> h256 list) list"

text \<open>The transaction the contract binding makes for a call.\<close>

record tx_request =
  rq_to :: address
  rq_data :: bytes
  rq_access_list :: access_list

record eip1559_tx =
  et_to :: address
  et_from :: address
  et_data :: bytes
  et_chain_id :: u64
  et_max_priority_fee_per_gas :: U256
  et_max_fee_per_gas :: U256
  et_gas :: U256
  et_nonce :: U256
  et_access_list :: access_list

datatype account_storage = RootHash h256 | SlotValues "(string, string) hash_map"

record conditional_options =
  co_known_accounts :: "(address, account_storage) hash_map"
  co_block_number_min :: "u64 option"
  co_block_number_max :: "u64 option"
  co_timestamp_min :: "u64 option"
  co_timestamp_max :: "u64 option"

record latest_block =
  lb_number :: "u64 option"
  lb_timestamp :: U256

record bundle_request =
  br_transactions :: "(bytes \<times> bool) list"
  br_block :: "u64 option"
  br_simulation_block :: "u64 option"
  br_simulation_timestamp :: "u64 option"

record simulated_transaction =
  sim_error :: "string option"
  sim_revert :: "string option"

datatype pending_bundle = BundleIncluded h256 | BundleNotIncluded | PendingFailed string

text \<open>
  The execution client, the relay and the signer, over the state \<open>'n\<close> of the outside world. Queries
  read it; sending changes it.
\<close>

record 'n node =
  nd_encode_handle_ops :: "api_user_operation list \<Rightarrow> address \<Rightarrow> bytes"
  nd_transaction_count :: "address \<Rightarrow> 'n \<Rightarrow> (string, U256) outcome"
  nd_balance :: "address \<Rightarrow> 'n \<Rightarrow> (string, U256) outcome"
  nd_create_access_list :: "tx_request \<Rightarrow> 'n \<Rightarrow> (string, access_list) outcome"
  nd_estimate_gas :: "tx_request \<Rightarrow> 'n \<Rightarrow> (string, U256) outcome"
  nd_estimate_fees :: "'n \<Rightarrow> (string, U256 \<times> U256) outcome"
  nd_chain_id :: "'n \<Rightarrow> (string, U256) outcome"
  nd_block :: "'n \<Rightarrow> (string, latest_block option) outcome"
  nd_block_number :: "'n \<Rightarrow> (string, u64) outcome"
  nd_sign :: "eip1559_tx \<Rightarrow> (string, bytes) outcome"
  nd_send :: "eip1559_tx \<Rightarrow> ('n, string, h256) op"
  nd_send_conditional :: "bytes \<Rightarrow> string option \<Rightarrow> conditional_options \<Rightarrow> ('n, string, h256) op"
  nd_await :: "h256 \<Rightarrow> ('n, string, unit) op"
  nd_simulate_bundle :: "bundle_request \<Rightarrow> 'n \<Rightarrow> (string, simulated_transaction list) outcome"
  nd_send_bundle :: "bundle_request \<Rightarrow> ('n, string, pending_bundle) op"

section \<open>The bundler\<close>

text \<open>\<open>bl_send\<close> is the client that sends the bundle (\<open>SendBundleOp\<close>).\<close>

record 'n bundler =
  bl_wallet :: address
  bl_beneficiary :: address
  bl_entry_point :: address
  bl_chain :: u64
  bl_min_balance :: U256
  bl_node :: "'n node"
  bl_send :: "eip1559_tx \<Rightarrow> storage_map \<Rightarrow> ('n, string, h256) op"
  bl_enable_access_list :: bool

definition choose_beneficiary :: "'n bundler \<Rightarrow> U256 \<Rightarrow> address" where
  "choose_beneficiary B balance =
     (if balance < bl_min_balance B then bl_wallet B else bl_beneficiary B)"

definition create_bundle ::
  "'n bundler \<Rightarrow> user_operation list \<Rightarrow> 'n \<Rightarrow> (string, eip1559_tx) outcome" where
  "create_bundle B uos n =
     bind_ok (nd_transaction_count (bl_node B) (bl_wallet B) n) (\<lambda>nonce.
     bind_ok (nd_balance (bl_node B) (bl_wallet B) n) (\<lambda>balance.
       let tx = \<lparr>rq_to = bl_entry_point B,
             rq_data = nd_encode_handle_ops (bl_node B)
               (map (\<lambda>uo. api_of_signed (user_operation uo)) uos) (choose_beneficiary B balance),
             rq_access_list = []\<rparr> in
     bind_ok (if bl_enable_access_list B then nd_create_access_list (bl_node B) tx n else Ok []) (\<lambda>accesslist.
       let tx = (if bl_enable_access_list B then tx\<lparr>rq_access_list := accesslist\<rparr> else tx) in
     bind_ok (nd_estimate_gas (bl_node B) tx n) (\<lambda>estimated_gas.
     bind_ok (nd_estimate_fees (bl_node B) n) (\<lambda>(max_fee, max_priority_fee).
     Ok \<lparr>et_to = rq_to tx, et_from = bl_wallet B, et_data = rq_data tx, et_chain_id = bl_chain B,
         et_max_priority_fee_per_gas = max_priority_fee, et_max_fee_per_gas = max_fee,
         et_gas = estimated_gas, et_nonce = nonce, et_access_list = accesslist\<rparr>)))))"

definition bundler_send_bundle ::
  "'n bundler \<Rightarrow> user_operation list \<Rightarrow> storage_map \<Rightarrow> ('n, string, h256 option) op" where
  "bundler_send_bundle B uos sm =
     (if uos = [] then ret None
      else
        bind_op (query (create_bundle B uos)) (\<lambda>bundle.
        bind_op (bl_send B bundle sm) (\<lambda>h. ret (Some h))))"

section \<open>The clients\<close>

definition ethereum_send_bundle :: "'n node \<Rightarrow> eip1559_tx \<Rightarrow> storage_map \<Rightarrow> ('n, string, h256) op" where
  "ethereum_send_bundle N bundle _ =
     bind_op (nd_send N bundle) (\<lambda>tx_hash. bind_op (nd_await N tx_hash) (\<lambda>_. ret tx_hash))"

text \<open>The accounts a conditional transaction depends on: slots are inserted after root hashes.\<close>

definition known_accounts :: "storage_map \<Rightarrow> (address, account_storage) hash_map" where
  "known_accounts sm =
     fold (\<lambda>(k, v). hm_insert k (SlotValues v)) (slots sm)
       (fold (\<lambda>(k, v). hm_insert k (RootHash v)) (root_hashes sm) [])"

definition default_options :: "(address, account_storage) hash_map \<Rightarrow> conditional_options" where
  "default_options accounts = \<lparr>
     co_known_accounts = accounts, co_block_number_min = None, co_block_number_max = None,
     co_timestamp_min = None, co_timestamp_max = None\<rparr>"

definition conditional_send_bundle :: "'n node \<Rightarrow> eip1559_tx \<Rightarrow> storage_map \<Rightarrow> ('n, string, h256) op" where
  "conditional_send_bundle N bundle sm =
     bind_op (query (\<lambda>_. nd_sign N bundle)) (\<lambda>signed_tx.
     bind_op (query (nd_chain_id N)) (\<lambda>chain_id.
     bind_op (nd_send_conditional N signed_tx (if chain_id = 137 then Some ''bor'' else None)
         (default_options (known_accounts sm))) (\<lambda>tx_hash.
     bind_op (nd_await N tx_hash) (\<lambda>_. ret tx_hash))))"

text \<open>Adding to a \<open>U64\<close> panics on overflow, adding to a \<open>u64\<close> wraps.\<close>

definition fastlane_options ::
  "(address, account_storage) hash_map \<Rightarrow> latest_block option \<Rightarrow> (string, conditional_options) outcome" where
  "fastlane_options accounts blk =
     (case blk of
        None \<Rightarrow> Ok (default_options accounts)
      | Some b \<Rightarrow>
          (case lb_number b of
             None \<Rightarrow> Ok (default_options accounts)
           | Some block_number \<Rightarrow>
               if unat block_number + 100 \<ge> 2 ^ 64 then Panic
               else
                 bind_ok (as_u64 (lb_timestamp b)) (\<lambda>ts.
                 Ok ((default_options accounts)\<lparr>
                   co_block_number_min := Some block_number,
                   co_block_number_max := Some (block_number + 100),
                   co_timestamp_min := Some ts, co_timestamp_max := Some (ts + 420)\<rparr>))))"

definition fastlane_send_bundle :: "'n node \<Rightarrow> eip1559_tx \<Rightarrow> storage_map \<Rightarrow> ('n, string, h256) op" where
  "fastlane_send_bundle N bundle sm =
     bind_op (query (\<lambda>_. nd_sign N bundle)) (\<lambda>signed_tx.
     bind_op (query (nd_block N)) (\<lambda>blk.
     bind_op (query (\<lambda>_. fastlane_options (known_accounts sm) blk)) (\<lambda>options.
     bind_op (nd_send_conditional N signed_tx (Some ''pfl'') options) (\<lambda>tx_hash.
     bind_op (nd_await N tx_hash) (\<lambda>_. ret tx_hash)))))"

fun push_transactions ::
  "'n node \<Rightarrow> eip1559_tx list \<Rightarrow> bool \<Rightarrow> bundle_request \<Rightarrow> (string, bundle_request) outcome" where
  "push_transactions N [] revertible req = Ok req"
| "push_transactions N (tx # txs) revertible req =
     bind_ok (map_err (\<lambda>e. ''Failed to sign transaction: '' @ e) (nd_sign N tx)) (\<lambda>raw.
     push_transactions N txs revertible
       (req\<lparr>br_transactions := br_transactions req @ [(raw, revertible)]\<rparr>))"

definition generate_bundle_req ::
  "'n node \<Rightarrow> eip1559_tx list \<Rightarrow> bool \<Rightarrow> 'n \<Rightarrow> (string, bundle_request) outcome" where
  "generate_bundle_req N txs revertible n =
     bind_ok (push_transactions N txs revertible
         \<lparr>br_transactions = [], br_block = None, br_simulation_block = None, br_simulation_timestamp = None\<rparr>) (\<lambda>req.
     bind_ok (nd_block_number N n) (\<lambda>block_num.
     if block_num = - 1 then Panic
     else Ok (req\<lparr>br_block := Some (block_num + 1), br_simulation_block := Some block_num,
       br_simulation_timestamp := Some 0\<rparr>)))"

fun check_simulated :: "simulated_transaction list \<Rightarrow> (string, unit) outcome" where
  "check_simulated [] = Ok ()"
| "check_simulated (tx # txs) =
     (case sim_error tx of
        Some err \<Rightarrow> Err (''Transaction failed simulation with error: '' @ err)
      | None \<Rightarrow>
          (case sim_revert tx of
             Some revert \<Rightarrow> Err (''Transaction failed simulation with revert: '' @ revert)
           | None \<Rightarrow> check_simulated txs))"

definition simulate_flashbots_bundle :: "'n node \<Rightarrow> bundle_request \<Rightarrow> 'n \<Rightarrow> (string, unit) outcome" where
  "simulate_flashbots_bundle N req n = bind_ok (nd_simulate_bundle N req n) check_simulated"

definition send_flashbots_bundle :: "'n node \<Rightarrow> bundle_request \<Rightarrow> ('n, string, h256) op" where
  "send_flashbots_bundle N req =
     bind_op (map_err_op (\<lambda>e. ''Failed to send bundle: '' @ e) (nd_send_bundle N req)) (\<lambda>pending.
     case pending of
       BundleIncluded h \<Rightarrow> ret h
     | BundleNotIncluded \<Rightarrow> fail ''Bundle not included in the target block''
     | PendingFailed e \<Rightarrow> fail (''Bundle rejected: '' @ e))"

definition flashbots_send_bundle :: "'n node \<Rightarrow> eip1559_tx \<Rightarrow> storage_map \<Rightarrow> ('n, string, h256) op" where
  "flashbots_send_bundle N bundle _ =
     bind_op (query (generate_bundle_req N [bundle] False)) (\<lambda>req.
     bind_op (map_err_op (\<lambda>e. ''Bundle simulation failed: '' @ e)
         (query (simulate_flashbots_bundle N req))) (\<lambda>_.
     send_flashbots_bundle N req))"

text \<open>
  Creating the Flashbots client; \<open>parse_url\<close> is the library's. The result is the relay address and the
  key that signs the bundles.
\<close>

definition new_flashbots ::
  "(string \<Rightarrow> (string, 'u) outcome) \<Rightarrow> string list option \<Rightarrow> 'k option \<Rightarrow> (string, 'u \<times> 'k) outcome" where
  "new_flashbots parse_url relay_endpoints flashbots_signer =
     bind_ok (expect relay_endpoints) (\<lambda>endpoints.
     case endpoints of
       [] \<Rightarrow> Panic
     | relay_endpoint # _ \<Rightarrow>
         bind_ok (ok_or ''No Flashbots signer provided'' flashbots_signer) (\<lambda>key.
         bind_ok (parse_url relay_endpoint) (\<lambda>url. Ok (url, key))))"

section \<open>What the clients guarantee\<close>

lemma hm_get_fold_insert:
  "hm_get (fold (\<lambda>(k, v). hm_insert k (f v)) xs m) a =
     (case map_of (rev xs) a of Some v \<Rightarrow> Some (f v) | None \<Rightarrow> hm_get m a)"
  by (induction xs arbitrary: m) (auto simp: map_of_append map_add_def split: option.split)

lemma map_of_rev_wf:
  assumes "hm_wf xs"
  shows "map_of (rev xs) = hm_get xs"
proof -
  have "distinct (map fst xs)" using assms by (simp add: hm_wf_def)
  then show ?thesis by (simp add: hm_get_def map_of_inject_set distinct_map rev_map [symmetric])
qed

text \<open>A conditional transaction is tied to every account of the storage map, and to nothing else; an
  account that is listed with a root hash and with slots keeps only the slots, so the root hash is
  not required any more.\<close>

theorem known_accounts_exact:
  assumes "hm_wf (root_hashes sm)" and "hm_wf (slots sm)"
  shows "hm_get (known_accounts sm) a =
    (case hm_get (slots sm) a of
       Some v \<Rightarrow> Some (SlotValues v)
     | None \<Rightarrow> map_option RootHash (hm_get (root_hashes sm) a))"
  using assms
  by (simp add: known_accounts_def hm_get_fold_insert map_of_rev_wf split: option.split)

theorem known_accounts_exact_witness:
  "hm_get (known_accounts \<lparr>root_hashes = [(7, 5)], slots = [(7, [(''0x1'', ''0x2'')])]\<rparr>) 7 =
     Some (SlotValues [(''0x1'', ''0x2'')])"
  using known_accounts_exact [of "\<lparr>root_hashes = [(7, 5)], slots = [(7, [(''0x1'', ''0x2'')])]\<rparr>" 7]
  by (simp add: hm_wf_def hm_get_def)

lemma check_simulated_Ok:
  "check_simulated txs = Ok () \<longleftrightarrow> list_all (\<lambda>tx. sim_error tx = None \<and> sim_revert tx = None) txs"
  by (induction txs) (auto split: option.split)

lemma send_flashbots_exact:
  assumes "send_flashbots_bundle N req n = (r, n')"
  shows "n' = snd (nd_send_bundle N req n) \<and> (\<forall>g. r = Ok g \<longleftrightarrow> fst (nd_send_bundle N req n) = Ok (BundleIncluded g))"
proof (cases "nd_send_bundle N req n")
  case (Pair q m)
  then show ?thesis
    using assms by (cases q) (auto simp: send_flashbots_bundle_def bind_op_def map_err_op_def ret_def fail_def
        split: pending_bundle.splits)
qed

text \<open>C31: Flashbots bundles go out only after a clean simulation, and what goes out is what was
  simulated. Whenever sending has any effect on the outside world or succeeds, there is one request
  that holds exactly the signed transaction, marked as not revertible, and targets the block after the
  one it was simulated on; its simulation reported neither an error nor a revert; and the effect is
  that of handing this very request to the relay. Sending succeeds exactly when the relay reports the
  request as included, with the hash the relay gives.\<close>

theorem flashbots_sends_only_simulated:
  assumes "flashbots_send_bundle N bundle sm n = (r, n')" and "n' \<noteq> n \<or> r = Ok h"
  shows "\<exists>raw block req txs. nd_sign N bundle = Ok raw \<and> nd_block_number N n = Ok block \<and>
    req = \<lparr>br_transactions = [(raw, False)], br_block = Some (block + 1),
      br_simulation_block = Some block, br_simulation_timestamp = Some 0\<rparr> \<and>
    nd_simulate_bundle N req n = Ok txs \<and>
    (\<forall>tx \<in> set txs. sim_error tx = None \<and> sim_revert tx = None) \<and>
    n' = snd (nd_send_bundle N req n) \<and>
    (\<forall>g. r = Ok g \<longleftrightarrow> fst (nd_send_bundle N req n) = Ok (BundleIncluded g))"
proof -
  obtain req where req: "generate_bundle_req N [bundle] False n = Ok req"
    using assms by (cases "generate_bundle_req N [bundle] False n")
      (auto simp: flashbots_send_bundle_def bind_op_query)
  then obtain raw block where gen: "nd_sign N bundle = Ok raw" "nd_block_number N n = Ok block"
      "req = \<lparr>br_transactions = [(raw, False)], br_block = Some (block + 1),
        br_simulation_block = Some block, br_simulation_timestamp = Some 0\<rparr>"
    by (auto simp: generate_bundle_req_def bind_ok_eq_Ok split: if_splits)
  have sim: "simulate_flashbots_bundle N req n = Ok ()"
    using assms req by (cases "simulate_flashbots_bundle N req n")
      (auto simp: flashbots_send_bundle_def bind_op_query bind_op_def map_err_op_def)
  then obtain txs where "nd_simulate_bundle N req n = Ok txs" "check_simulated txs = Ok ()"
    by (auto simp: simulate_flashbots_bundle_def bind_ok_eq_Ok)
  moreover have "send_flashbots_bundle N req n = (r, n')"
    using assms(1) req sim by (simp add: flashbots_send_bundle_def bind_op_query bind_op_def map_err_op_def)
  ultimately show ?thesis
    using gen send_flashbots_exact [of N req n r n'] by (auto simp: check_simulated_Ok list_all_iff)
qed

text \<open>A node whose state is the list of hashes it was sent.\<close>

definition sample_node :: "h256 list node" where
  "sample_node = \<lparr>
     nd_encode_handle_ops = (\<lambda>_ _. []), nd_transaction_count = (\<lambda>_ _. Ok 3), nd_balance = (\<lambda>_ _. Ok 100),
     nd_create_access_list = (\<lambda>_ _. Ok []), nd_estimate_gas = (\<lambda>_ _. Ok 500000),
     nd_estimate_fees = (\<lambda>_. Ok (50, 1)), nd_chain_id = (\<lambda>_. Ok 1),
     nd_block = (\<lambda>_. Ok (Some \<lparr>lb_number = Some 90, lb_timestamp = 1000\<rparr>)), nd_block_number = (\<lambda>_. Ok 90),
     nd_sign = (\<lambda>tx. Ok (et_data tx)), nd_send = (\<lambda>tx n. (Ok 5, 5 # n)),
     nd_send_conditional = (\<lambda>_ _ _ n. (Ok 6, 6 # n)), nd_await = (\<lambda>_ n. (Ok (), n)),
     nd_simulate_bundle = (\<lambda>_ _. Ok [\<lparr>sim_error = None, sim_revert = None\<rparr>]),
     nd_send_bundle = (\<lambda>req n. if br_block req = Some 91 then (Ok (BundleIncluded 7), 7 # n)
       else (Ok BundleNotIncluded, n))\<rparr>"

definition sample_tx :: eip1559_tx where
  "sample_tx = \<lparr>
     et_to = 1000, et_from = 9, et_data = [1, 2], et_chain_id = 1, et_max_priority_fee_per_gas = 1,
     et_max_fee_per_gas = 50, et_gas = 500000, et_nonce = 3, et_access_list = []\<rparr>"

theorem flashbots_sends_only_simulated_witness:
  "flashbots_send_bundle sample_node sample_tx default_storage_map [] = (Ok 7, [7]) \<and>
   (\<exists>raw block req txs. nd_sign sample_node sample_tx = Ok raw \<and> nd_block_number sample_node [] = Ok block \<and>
     req = \<lparr>br_transactions = [(raw, False)], br_block = Some (block + 1),
       br_simulation_block = Some block, br_simulation_timestamp = Some 0\<rparr> \<and>
     nd_simulate_bundle sample_node req [] = Ok txs \<and>
     (\<forall>tx \<in> set txs. sim_error tx = None \<and> sim_revert tx = None) \<and>
     [7] = snd (nd_send_bundle sample_node req []) \<and>
     fst (nd_send_bundle sample_node req []) = Ok (BundleIncluded 7))"
proof -
  have "flashbots_send_bundle sample_node sample_tx default_storage_map [] = (Ok 7, [7])"
    by (simp add: flashbots_send_bundle_def generate_bundle_req_def simulate_flashbots_bundle_def
        send_flashbots_bundle_def sample_node_def bind_op_def map_err_op_def)
  with flashbots_sends_only_simulated [OF this, of 7] show ?thesis by auto
qed

end
