(* ===== verification/Bundler_Service.thy ===== *)
theory Bundler_Service
  imports Bundler_Core Pool_Service
begin

text \<open>
  The service of the bundler (\<open>grpc/src/bundler.rs\<close>): fetching the operations of a bundle from the pool
  service, the bundling loops that automatic mode starts and manual mode stops, and sending a bundle
  on request.
\<close>

section \<open>State\<close>

text \<open>
  The client of the pool service and the receipts of the execution client. Requests change the
  outside world \<open>'n\<close>; so does waiting.
\<close>

record 'n pool_client =
  pc_get_sorted :: "pb_h160 option \<Rightarrow> ('n, string, get_sorted_response) op"
  pc_remove :: "pb_user_operation list \<Rightarrow> pb_h160 option \<Rightarrow> ('n, string, unit) op"
  pc_text :: text_codec
  pc_receipt :: "h256 \<Rightarrow> 'n \<Rightarrow> (string, eth_receipt option) outcome"
  pc_sleep :: "'n \<Rightarrow> 'n"

text \<open>
  The task of a bundling loop: the position of its bundler, its interval in seconds and where it is
  suspended. A spawned task has not yet made its timer; then it awaits the next tick, the answer of
  the pool service, or the end of sending the operations it was given.
\<close>

datatype loop_phase = Spawned | Ticking | Fetching | Sending "user_operation list" storage_map

record bundling_loop =
  lp_bundler :: nat
  lp_interval :: u64
  lp_phase :: loop_phase

record 'n bundler_service =
  bs_bundlers :: "'n bundler list"
  bs_running :: bool
  bs_loops :: "bundling_loop list"
  bs_client :: "'n pool_client"

datatype bundler_mode = Auto u64 | Manual
datatype pb_mode = PbAuto | PbManual

fun bundler_mode_of_pb :: "pb_mode \<Rightarrow> bundler_mode" where
  "bundler_mode_of_pb PbAuto = Auto 0"
| "bundler_mode_of_pb PbManual = Manual"

fun pb_of_bundler_mode :: "bundler_mode \<Rightarrow> pb_mode" where
  "pb_of_bundler_mode (Auto _) = PbAuto"
| "pb_of_bundler_mode Manual = PbManual"

section \<open>Bundles\<close>

definition get_user_operations ::
  "'n pool_client \<Rightarrow> address \<Rightarrow> ('n, string, user_operation list \<times> storage_map) op" where
  "get_user_operations C ep =
     bind_op (pc_get_sorted C (Some (pb_of_address ep))) (\<lambda>res.
     bind_op (query (\<lambda>_. into_uos (gs_uos res))) (\<lambda>uos.
     ret (uos, case gs_storage_map res of
         Some sm \<Rightarrow> storage_map_of_pb (pc_text C) sm
       | None \<Rightarrow> default_storage_map)))"

fun send_each ::
  "'n pool_client \<Rightarrow> 'n bundler list \<Rightarrow> ('n, string, (user_operation list \<times> h256 option) list) op" where
  "send_each C [] = ret []"
| "send_each C (B # Bs) =
     bind_op (get_user_operations C (bl_entry_point B)) (\<lambda>(uos, sm).
     bind_op (bundler_send_bundle B uos sm) (\<lambda>tx_hash.
     bind_op (send_each C Bs) (\<lambda>rest. ret ((uos, tx_hash) # rest))))"

definition send_bundles ::
  "'n bundler_service \<Rightarrow> ('n, string, user_operation list \<times> h256 option) op" where
  "send_bundles S =
     bind_op (send_each (bs_client S) (bs_bundlers S)) (\<lambda>res.
     query (\<lambda>_. case res of x # _ \<Rightarrow> Ok x | [] \<Rightarrow> Panic))"

text \<open>Waiting for the transaction of the bundle, which may never be mined.\<close>

partial_function (option) wait_mined ::
  "'n pool_client \<Rightarrow> h256 \<Rightarrow> 'n \<Rightarrow> ((string, unit) outcome \<times> 'n) option" where
  "wait_mined C h n =
     (case pc_receipt C h n of
        Ok (Some _) \<Rightarrow> Some (Ok (), n)
      | Panic \<Rightarrow> Some (Panic, n)
      | _ \<Rightarrow> wait_mined C h (pc_sleep C n))"

definition send_bundle_now ::
  "'n bundler_service \<Rightarrow> 'n \<Rightarrow> ((string, h256) outcome \<times> 'n) option" where
  "send_bundle_now S n =
     (case map_err_op (\<lambda>e. ''Send bundle now with error: '' @ e) (send_bundles S) n of
        (Err e, n') \<Rightarrow> Some (Err e, n')
      | (Panic, n') \<Rightarrow> Some (Panic, n')
      | (Ok (uos, None), n') \<Rightarrow> Some (Ok 0, n')
      | (Ok (uos, Some tx_hash), n') \<Rightarrow>
          map_option (\<lambda>(r, m). case r of
              Ok _ \<Rightarrow>
                bind_op (pc_remove (bs_client S) (map pb_of_user_operation uos)
                  (Some (pb_of_address (bl_entry_point (hd (bs_bundlers S)))))) (\<lambda>_. ret tx_hash) m
            | Err e \<Rightarrow> (Err e, m)
            | Panic \<Rightarrow> (Panic, m)) (wait_mined (bs_client S) tx_hash n'))"

section \<open>The bundling loops\<close>

definition stop_bundling :: "'n bundler_service \<Rightarrow> 'n bundler_service" where
  "stop_bundling S = S\<lparr>bs_running := False\<rparr>"

definition start_bundling :: "u64 \<Rightarrow> 'n bundler_service \<Rightarrow> 'n bundler_service" where
  "start_bundling interval S =
     (if bs_running S then S
      else S\<lparr>bs_running := True,
        bs_loops := bs_loops S @
          map (\<lambda>i. \<lparr>lp_bundler = i, lp_interval = interval, lp_phase = Spawned\<rparr>) [0..<length (bs_bundlers S)]\<rparr>)"

definition set_bundler_mode :: "pb_mode \<Rightarrow> u64 \<Rightarrow> 'n bundler_service \<Rightarrow> 'n bundler_service" where
  "set_bundler_mode mode interval S =
     (case mode of PbManual \<Rightarrow> stop_bundling S | PbAuto \<Rightarrow> start_bundling interval S)"

definition drop_loop :: "nat \<Rightarrow> 'n bundler_service \<Rightarrow> 'n bundler_service" where
  "drop_loop k S = S\<lparr>bs_loops := take k (bs_loops S) @ drop (Suc k) (bs_loops S)\<rparr>"

definition set_phase :: "nat \<Rightarrow> loop_phase \<Rightarrow> 'n bundler_service \<Rightarrow> 'n bundler_service" where
  "set_phase k ph S = S\<lparr>bs_loops := (bs_loops S)[k := (bs_loops S ! k)\<lparr>lp_phase := ph\<rparr>]\<rparr>"

text \<open>
  One step of the task at position \<open>k\<close>, from one suspension to the next; between two steps anything
  else may happen. Making the timer panics for an interval of zero (\<open>tokio::time::interval\<close> documents
  it), which ends the task and nothing else. The flag is read only when the timer ticks, so a task
  that is past its tick finishes the round. Errors of a round are logged and a panic ends the task.
\<close>

definition loop_step :: "nat \<Rightarrow> 'n bundler_service \<times> 'n \<Rightarrow> 'n bundler_service \<times> 'n" where
  "loop_step k s =
     (case s of (S, n) \<Rightarrow>
        if k \<ge> length (bs_loops S) then (S, n)
        else
          (let l = bs_loops S ! k; B = bs_bundlers S ! lp_bundler l in
           case lp_phase l of
             Spawned \<Rightarrow> if lp_interval l = 0 then (drop_loop k S, n) else (set_phase k Ticking S, n)
           | Ticking \<Rightarrow> if \<not> bs_running S then (drop_loop k S, n) else (set_phase k Fetching S, n)
           | Fetching \<Rightarrow>
               (case get_user_operations (bs_client S) (bl_entry_point B) n of
                  (Ok (bundle, sm), n') \<Rightarrow> (set_phase k (Sending bundle sm) S, n')
                | (Err _, n') \<Rightarrow> (set_phase k Ticking S, n')
                | (Panic, n') \<Rightarrow> (drop_loop k S, n'))
           | Sending bundle sm \<Rightarrow>
               (case bundler_send_bundle B bundle sm n of
                  (Panic, n') \<Rightarrow> (drop_loop k S, n')
                | (_, n') \<Rightarrow> (set_phase k Ticking S, n'))))"

definition bundler_service_run :: "'n bundler list \<Rightarrow> 'n pool_client \<Rightarrow> u64 \<Rightarrow> 'n bundler_service" where
  "bundler_service_run bundlers C bundle_interval =
     start_bundling bundle_interval
       \<lparr>bs_bundlers = bundlers, bs_running = False, bs_loops = [], bs_client = C\<rparr>"

section \<open>Reachable states\<close>

text \<open>Mode requests, served one at a time, and steps of the tasks, in any order.\<close>

inductive bundler_step :: "'n bundler_service \<times> 'n \<Rightarrow> 'n bundler_service \<times> 'n \<Rightarrow> bool" where
  mode_step: "bundler_step (S, n) (set_bundler_mode mode interval S, n)"
| task_step: "bundler_step s (loop_step k s)"
| world_step: "bundler_step (S, n) (S, n')"

inductive_cases bundler_stepE: "bundler_step s t"

definition loops_of :: "nat \<Rightarrow> 'n bundler_service \<Rightarrow> nat" where
  "loops_of i S = length (filter (\<lambda>l. lp_bundler l = i) (bs_loops S))"

lemmas mode_defs = set_bundler_mode_def start_bundling_def stop_bundling_def

lemma loop_edit_simps [simp]:
  "bs_bundlers (drop_loop k S) = bs_bundlers S" "bs_client (drop_loop k S) = bs_client S"
  "bs_running (drop_loop k S) = bs_running S"
  "bs_bundlers (set_phase k ph S) = bs_bundlers S" "bs_client (set_phase k ph S) = bs_client S"
  "bs_running (set_phase k ph S) = bs_running S"
  "length (bs_loops (set_phase k ph S)) = length (bs_loops S)"
  by (simp_all add: drop_loop_def set_phase_def)

text \<open>A step keeps the list of tasks, ends its task, or moves it to another phase.\<close>

lemma loop_step_form:
  "fst (loop_step k (S, n)) = S \<or>
   k < length (bs_loops S) \<and> (fst (loop_step k (S, n)) = drop_loop k S \<or> (\<exists>ph. fst (loop_step k (S, n)) = set_phase k ph S))"
proof (cases "k < length (bs_loops S)")
  case True
  then show ?thesis
    by (cases "lp_phase (bs_loops S ! k)")
      (auto simp: loop_step_def Let_def split: if_split prod.split outcome.split)
qed (simp add: loop_step_def)

lemma loop_step_cases:
  obtains "fst (loop_step k (S, n)) = S" | "fst (loop_step k (S, n)) = drop_loop k S" "k < length (bs_loops S)"
  | ph where "fst (loop_step k (S, n)) = set_phase k ph S" "k < length (bs_loops S)"
  using loop_step_form [of k S n] by blast

text \<open>Every loop belongs to a bundler of the service, so a step never looks past the list.\<close>

definition loops_in_range :: "'n bundler_service \<Rightarrow> bool" where
  "loops_in_range S = list_all (\<lambda>l. lp_bundler l < length (bs_bundlers S)) (bs_loops S)"

lemma loop_step_in_range:
  assumes "loops_in_range S"
  shows "loops_in_range (fst (loop_step k (S, n))) \<and> bs_bundlers (fst (loop_step k (S, n))) = bs_bundlers S"
proof (rule loop_step_cases [of k S n])
  assume "fst (loop_step k (S, n)) = drop_loop k S"
  then show ?thesis
    using assms by (auto simp: loops_in_range_def drop_loop_def list_all_iff dest: in_set_takeD in_set_dropD)
next
  fix ph
  assume ph: "fst (loop_step k (S, n)) = set_phase k ph S" "k < length (bs_loops S)"
  then have "lp_bundler (bs_loops S ! k) < length (bs_bundlers S)"
    using assms by (auto simp: loops_in_range_def list_all_iff)
  then show ?thesis
    using assms ph by (auto simp: loops_in_range_def set_phase_def list_all_iff dest!: set_update_subset_insert [THEN subsetD])
qed (use assms in simp)

lemma reachable_loops_in_range:
  assumes "bundler_step\<^sup>*\<^sup>* (bundler_service_run bundlers C interval, n) (S, n')"
  shows "bs_bundlers S = bundlers \<and> loops_in_range S"
proof -
  have "bs_bundlers (fst s) = bundlers \<and> loops_in_range (fst s)"
    if "bundler_step\<^sup>*\<^sup>* (bundler_service_run bundlers C interval, n) s" for s
    using that
  proof (induction rule: rtranclp_induct)
    case base
    then show ?case by (auto simp: bundler_service_run_def start_bundling_def loops_in_range_def list_all_iff)
  next
    case (step s t)
    from step.hyps(2) show ?case
    proof (cases rule: bundler_step.cases)
      case (mode_step S n mode interval)
      with step.IH show ?thesis by (auto simp: mode_defs loops_in_range_def list_all_iff split: pb_mode.split)
    next
      case (task_step k)
      with step.IH show ?thesis using loop_step_in_range [of "fst s" k "snd s"] by auto
    next
      case (world_step S n n')
      with step.IH show ?thesis by simp
    qed
  qed
  from this [OF assms] show ?thesis by simp
qed

section \<open>Switching modes\<close>

text \<open>What a loop does in one round: fetch the operations of its bundler and send them.\<close>

definition bundle_round :: "'n pool_client \<Rightarrow> 'n bundler \<Rightarrow> ('n, string, unit) op" where
  "bundle_round C B n =
     (case get_user_operations C (bl_entry_point B) n of
        (Ok (bundle, sm), n') \<Rightarrow> ignore_err (bundler_send_bundle B bundle sm) n'
      | (Err _, n') \<Rightarrow> (Ok (), n')
      | (Panic, n') \<Rightarrow> (Panic, n'))"

lemma set_phase_simps:
  "k < length (bs_loops S) \<Longrightarrow> lp_phase (bs_loops (set_phase k ph S) ! k) = ph"
  "k < length (bs_loops S) \<Longrightarrow> lp_bundler (bs_loops (set_phase k ph S) ! k) = lp_bundler (bs_loops S ! k)"
  "k < length (bs_loops S) \<Longrightarrow> set_phase k ph (set_phase k ph' S) = set_phase k ph S"
  by (simp_all add: set_phase_def)

text \<open>A loop whose timer ticks while bundling is on carries out one round and awaits the next tick.\<close>

lemma ticking_round:
  assumes "k < length (bs_loops S)" "lp_phase (bs_loops S ! k) = Ticking" "bs_running S"
    and "bundle_round (bs_client S) (bs_bundlers S ! lp_bundler (bs_loops S ! k)) n = (r, n')" "r \<noteq> Panic"
  shows "\<exists>m \<le> 3. (loop_step k ^^ m) (S, n) = (set_phase k Ticking S, n')"
proof -
  let ?B = "bs_bundlers S ! lp_bundler (bs_loops S ! k)"
  have tick: "loop_step k (S, n) = (set_phase k Fetching S, n)"
    using assms(1-3) by (simp add: loop_step_def)
  show ?thesis
  proof (cases "get_user_operations (bs_client S) (bl_entry_point ?B) n")
    case (Pair q n1)
    note fetch = this
    show ?thesis
    proof (cases q)
      case (Ok x)
      obtain b sm where x: "x = (b, sm)" by (cases x)
      have f: "loop_step k (set_phase k Fetching S, n) = (set_phase k (Sending b sm) S, n1)"
        using assms(1) fetch Ok x by (simp add: loop_step_def set_phase_simps Let_def)
      have "loop_step k (set_phase k (Sending b sm) S, n1) = (set_phase k Ticking S, n')"
        using assms(1,4,5) fetch Ok x
        by (auto simp: loop_step_def set_phase_simps Let_def bundle_round_def ignore_err_def
            split: prod.splits outcome.splits)
      with tick f have "(loop_step k ^^ 3) (S, n) = (set_phase k Ticking S, n')"
        by (simp add: numeral_3_eq_3)
      then show ?thesis by blast
    next
      case (Err e)
      then have "loop_step k (set_phase k Fetching S, n) = (set_phase k Ticking S, n')"
        using assms(1,4) fetch by (auto simp: loop_step_def set_phase_simps Let_def bundle_round_def)
      with tick have "(loop_step k ^^ 2) (S, n) = (set_phase k Ticking S, n')"
        by (simp add: numeral_2_eq_2)
      then show ?thesis by (intro exI [of _ 2]) simp
    next
      case Panic
      then show ?thesis using assms(4,5) fetch by (simp add: bundle_round_def)
    qed
  qed
qed

lemma spawned_round:
  assumes "k < length (bs_loops S)" "lp_phase (bs_loops S ! k) = Spawned" "lp_interval (bs_loops S ! k) \<noteq> 0"
    and "bs_running S" and "bundle_round (bs_client S) (bs_bundlers S ! lp_bundler (bs_loops S ! k)) n = (r, n')" "r \<noteq> Panic"
  shows "\<exists>m \<le> 4. (loop_step k ^^ m) (S, n) = (set_phase k Ticking S, n')"
proof -
  let ?T = "set_phase k Ticking S"
  have "loop_step k (S, n) = (?T, n)" using assms(1-3) by (simp add: loop_step_def)
  moreover obtain m where "m \<le> 3" "(loop_step k ^^ m) (?T, n) = (set_phase k Ticking ?T, n')"
    using ticking_round [of k ?T n r n'] assms by (auto simp: set_phase_simps)
  ultimately show ?thesis
    using assms(1) by (intro exI [of _ "Suc m"]) (simp add: funpow_Suc_right set_phase_simps del: funpow.simps)
qed

lemma loops_of_start:
  "loops_of i (start_bundling interval S) =
     (if bs_running S \<or> i \<ge> length (bs_bundlers S) then loops_of i S else loops_of i S + 1)"
proof -
  have "length (filter (\<lambda>j. j = i) [0..<n]) = (if i < n then 1 else 0)" for n
    by (induction n) auto
  then show ?thesis by (simp add: loops_of_def start_bundling_def filter_map comp_def)
qed

text \<open>Switching to manual mode and back, \<open>k\<close> times.\<close>

definition mode_switches :: "u64 \<Rightarrow> nat \<Rightarrow> 'n bundler_service \<Rightarrow> 'n bundler_service" where
  "mode_switches interval k S =
     ((\<lambda>S. set_bundler_mode PbAuto interval (set_bundler_mode PbManual 0 S)) ^^ k) S"

lemma mode_switches_loops:
  assumes "bs_running S"
  shows "bs_running (mode_switches interval k S) \<and> bs_bundlers (mode_switches interval k S) = bs_bundlers S \<and>
    bs_client (mode_switches interval k S) = bs_client S \<and>
    (i < length (bs_bundlers S) \<longrightarrow> loops_of i (mode_switches interval k S) = loops_of i S + k) \<and>
    (\<exists>new. bs_loops (mode_switches interval k S) = bs_loops S @ new \<and>
      list_all (\<lambda>l. lp_interval l = interval \<and> lp_phase l = Spawned) new)"
proof (induction k)
  case (Suc k)
  let ?T = "mode_switches interval k S"
  have T: "mode_switches interval (Suc k) S = start_bundling interval (stop_bundling ?T)"
    by (simp add: mode_switches_def set_bundler_mode_def)
  have "loops_of i (stop_bundling ?T) = loops_of i ?T" by (simp add: loops_of_def stop_bundling_def)
  with Suc have "i < length (bs_bundlers S) \<longrightarrow> loops_of i (mode_switches interval (Suc k) S) = loops_of i S + Suc k"
    unfolding T by (simp add: loops_of_start) (simp add: stop_bundling_def)
  with Suc show ?case unfolding T by (auto simp: start_bundling_def stop_bundling_def list_all_iff)
qed (use assms in \<open>simp add: mode_switches_def\<close>)

text \<open>C32: Switching to manual mode and back multiplies the loops. As long as no task runs in between,
  every such switch keeps the old loops and adds one more for each bundler, and bundling is on
  afterwards. Every loop that was added with an interval other than zero then carries out rounds of
  its own: unless the round panics, it fetches the operations of its bundler and sends them within
  four steps and waits for its next tick.
\<close>

theorem mode_switches_multiply_loops:
  assumes "bs_running S" and "i < length (bs_bundlers S)" and "T = mode_switches interval k S"
  shows "loops_of i T = loops_of i S + k \<and> bs_running T \<and> take (length (bs_loops S)) (bs_loops T) = bs_loops S \<and>
    (\<forall>j < length (bs_loops T). length (bs_loops S) \<le> j \<longrightarrow> interval \<noteq> 0 \<longrightarrow>
      (\<forall>n r n'. bundle_round (bs_client S) (bs_bundlers S ! lp_bundler (bs_loops T ! j)) n = (r, n') \<longrightarrow> r \<noteq> Panic \<longrightarrow>
        (\<exists>m \<le> 4. (loop_step j ^^ m) (T, n) = (set_phase j Ticking T, n'))))"
proof -
  note T = mode_switches_loops [OF assms(1), of interval k i, folded assms(3)]
  then obtain new where new: "bs_loops T = bs_loops S @ new"
      "list_all (\<lambda>l. lp_interval l = interval \<and> lp_phase l = Spawned) new" by blast
  have "\<exists>m \<le> 4. (loop_step j ^^ m) (T, n) = (set_phase j Ticking T, n')"
    if "j < length (bs_loops T)" "length (bs_loops S) \<le> j" "interval \<noteq> 0" "r \<noteq> Panic"
      "bundle_round (bs_client S) (bs_bundlers S ! lp_bundler (bs_loops T ! j)) n = (r, n')" for j n r n'
  proof (rule spawned_round [of _ _ _ r])
    have "bs_loops T ! j \<in> set new" using that(1,2) new(1) by (simp add: nth_append)
    then show "lp_phase (bs_loops T ! j) = Spawned" "lp_interval (bs_loops T ! j) \<noteq> 0"
      using new(2) that(3) by (auto simp: list_all_iff)
  qed (use that T in auto)
  with T new(1) assms(2) show ?thesis by auto
qed

definition sample_bundler :: "h256 list bundler" where
  "sample_bundler = \<lparr>
     bl_wallet = 9, bl_beneficiary = 10, bl_entry_point = 1000, bl_chain = 1, bl_min_balance = 50,
     bl_node = sample_node, bl_send = ethereum_send_bundle sample_node, bl_enable_access_list = False\<rparr>"

definition sample_pool_client :: "h256 list pool_client" where
  "sample_pool_client = \<lparr>
     pc_get_sorted = (\<lambda>_ n. (Ok \<lparr>gs_uos = [pb_of_user_operation sample_uo], gs_storage_map = None\<rparr>, n)),
     pc_remove = (\<lambda>_ _ n. (Ok (), n)),
     pc_text = \<lparr>address_to_string = (\<lambda>_. []), address_from_str = (\<lambda>_. None), h256_to_string = (\<lambda>_. []),
       h256_from_str = (\<lambda>_. None)\<rparr>,
     pc_receipt = (\<lambda>_ _. Ok None), pc_sleep = id\<rparr>"

lemma sample_fetch: "get_user_operations sample_pool_client 1000 n = (Ok ([sample_uo], default_storage_map), n)"
  by (simp add: get_user_operations_def sample_pool_client_def bind_op_def query_def ret_def)

lemma sample_send: "bundler_send_bundle sample_bundler [sample_uo] sm n = (Ok (Some 5), 5 # n)"
  by (simp add: bundler_send_bundle_def create_bundle_def choose_beneficiary_def ethereum_send_bundle_def
      sample_bundler_def sample_node_def bind_op_def query_def ret_def Let_def)

lemma sample_round: "bundle_round sample_pool_client sample_bundler n = (Ok (), 5 # n)"
  using sample_fetch [of n] sample_send by (simp add: bundle_round_def ignore_err_def sample_bundler_def)

theorem mode_switches_multiply_loops_witness:
  "(\<exists>T m. T = mode_switches 10 1 (bundler_service_run [sample_bundler] sample_pool_client 10) \<and>
     loops_of 0 T = 2 \<and> m \<le> 4 \<and> (loop_step 1 ^^ m) (T, []) = (set_phase 1 Ticking T, [5]))"
proof -
  let ?S = "bundler_service_run [sample_bundler] sample_pool_client 10"
  let ?T = "mode_switches 10 1 ?S"
  have S: "bs_running ?S" "0 < length (bs_bundlers ?S)" "loops_of 0 ?S = 1" "length (bs_loops ?S) = 1"
      "bs_client ?S = sample_pool_client" "bs_bundlers ?S = [sample_bundler]"
    by (simp_all add: bundler_service_run_def start_bundling_def loops_of_def)
  have T: "length (bs_loops ?T) = 2" "lp_bundler (bs_loops ?T ! 1) = 0"
    by (simp_all add: mode_switches_def bundler_service_run_def mode_defs)
  note main = mode_switches_multiply_loops [OF S(1,2), of ?T 10 1]
  have "loops_of 0 ?T = 2" using main S(3) by simp
  moreover have "\<exists>m \<le> 4. (loop_step 1 ^^ m) (?T, []) = (set_phase 1 Ticking ?T, [5])"
    using main T S(4-6) sample_round by (auto simp del: One_nat_def)
  ultimately show ?thesis by blast
qed

section \<open>Stopping\<close>

text \<open>The scheduler gives the next turn to any of the tasks that are left.\<close>

definition loop_turn :: "nat \<Rightarrow> 'n bundler_service \<times> 'n \<Rightarrow> 'n bundler_service \<times> 'n" where
  "loop_turn k s = (if bs_loops (fst s) = [] then s else loop_step (k mod length (bs_loops (fst s))) s)"

definition in_round :: "bundling_loop \<Rightarrow> bool" where
  "in_round l = (case lp_phase l of Fetching \<Rightarrow> True | Sending _ _ \<Rightarrow> True | _ \<Rightarrow> False)"

definition is_sending :: "bundling_loop \<Rightarrow> bool" where
  "is_sending l = (case lp_phase l of Sending _ _ \<Rightarrow> True | _ \<Rightarrow> False)"

text \<open>How many of the turns send a bundle.\<close>

fun sends :: "nat list \<Rightarrow> 'n bundler_service \<times> 'n \<Rightarrow> nat" where
  "sends [] s = 0"
| "sends (k # ks) s =
     (let ls = bs_loops (fst s)
      in (if ls \<noteq> [] \<and> is_sending (ls ! (k mod length ls)) then 1 else 0) + sends ks (loop_turn k s))"

text \<open>The turns a task still needs once bundling is stopped.\<close>

fun turns_left :: "loop_phase \<Rightarrow> nat" where
  "turns_left Spawned = 2"
| "turns_left Ticking = 1"
| "turns_left Fetching = 3"
| "turns_left (Sending _ _) = 2"

definition turns :: "'n bundler_service \<Rightarrow> nat" where
  "turns S = sum_list (map (\<lambda>l. turns_left (lp_phase l)) (bs_loops S))"

definition rounds :: "'n bundler_service \<Rightarrow> nat" where
  "rounds S = sum_list (map (\<lambda>l. of_bool (in_round l)) (bs_loops S))"

lemma sum_list_drop_nth:
  fixes f :: "'a \<Rightarrow> nat"
  assumes "k < length xs"
  shows "sum_list (map f xs) = f (xs ! k) + sum_list (map f (take k xs @ drop (Suc k) xs))"
proof -
  have "sum_list (map f xs) = sum_list (map f (take k xs @ xs ! k # drop (Suc k) xs))"
    using id_take_nth_drop [OF assms] by simp
  then show ?thesis by simp
qed

lemma sum_list_set_nth:
  fixes f :: "'a \<Rightarrow> nat"
  assumes "k < length xs"
  shows "f (xs ! k) + sum_list (map f (xs[k := y])) = f y + sum_list (map f xs)"
  using sum_list_drop_nth [OF assms, of f] sum_list_drop_nth [of k "xs[k := y]" f] assms by simp

lemma count_drop_loop:
  assumes "k < length (bs_loops S)"
  shows "turns S = turns_left (lp_phase (bs_loops S ! k)) + turns (drop_loop k S)"
    and "rounds S = of_bool (in_round (bs_loops S ! k)) + rounds (drop_loop k S)"
  unfolding turns_def rounds_def drop_loop_def using sum_list_drop_nth [OF assms] by simp_all

lemma count_set_phase:
  assumes "k < length (bs_loops S)"
  shows "turns_left (lp_phase (bs_loops S ! k)) + turns (set_phase k ph S) = turns_left ph + turns S"
    and "of_bool (in_round (bs_loops S ! k)) + rounds (set_phase k ph S) =
      of_bool (in_round ((bs_loops S ! k)\<lparr>lp_phase := ph\<rparr>)) + rounds S"
proof -
  let ?l = "(bs_loops S ! k)\<lparr>lp_phase := ph\<rparr>"
  have ls: "bs_loops (set_phase k ph S) = (bs_loops S)[k := ?l]" by (simp add: set_phase_def)
  show "turns_left (lp_phase (bs_loops S ! k)) + turns (set_phase k ph S) = turns_left ph + turns S"
    using sum_list_set_nth [OF assms, of "\<lambda>l. turns_left (lp_phase l)" ?l] by (simp add: turns_def ls)
  show "of_bool (in_round (bs_loops S ! k)) + rounds (set_phase k ph S) = of_bool (in_round ?l) + rounds S"
    unfolding rounds_def ls by (rule sum_list_set_nth [OF assms])
qed

lemma stopped_turn:
  assumes "\<not> bs_running S" "k < length (bs_loops S)" "loop_step k (S, n) = (T, n')"
  shows "\<not> bs_running T \<and> bs_bundlers T = bs_bundlers S \<and> turns T < turns S \<and>
    of_bool (is_sending (bs_loops S ! k)) + rounds T \<le> rounds S \<and> (rounds S = 0 \<longrightarrow> n' = n)"
proof -
  note drop = count_drop_loop [OF assms(2)] and set = count_set_phase [OF assms(2)]
  show ?thesis
  proof (cases "lp_phase (bs_loops S ! k)")
    case Spawned
    then show ?thesis
      using assms drop set(1) [of Ticking] set(2) [of Ticking]
      by (auto simp: loop_step_def Let_def in_round_def is_sending_def split: if_splits)
  next
    case Ticking
    then show ?thesis using assms drop by (auto simp: loop_step_def Let_def in_round_def is_sending_def)
  next
    case Fetching
    have "T = drop_loop k S \<or> T = set_phase k Ticking S \<or> (\<exists>b sm. T = set_phase k (Sending b sm) S)"
      using assms(2,3) Fetching by (auto simp: loop_step_def Let_def split: prod.splits outcome.splits)
    then show ?thesis
      using assms(1) Fetching drop set(1) [of Ticking] set(2) [of Ticking] set(1) [of "Sending _ _"] set(2) [of "Sending _ _"]
      by (auto simp: in_round_def is_sending_def)
  next
    case (Sending b sm)
    have "T = drop_loop k S \<or> T = set_phase k Ticking S"
      using assms(2,3) Sending by (auto simp: loop_step_def Let_def split: prod.splits outcome.splits)
    then show ?thesis
      using assms(1) Sending drop set(1) [of Ticking] set(2) [of Ticking]
      by (auto simp: in_round_def is_sending_def)
  qed
qed

lemma turns_bounds: "turns S \<le> 3 * length (bs_loops S)" "turns S = 0 \<longleftrightarrow> bs_loops S = []"
proof -
  have "sum_list (map (\<lambda>l. turns_left (lp_phase l)) ls) \<le> 3 * length ls" for ls :: "bundling_loop list"
  proof (induction ls)
    case (Cons l ls)
    then show ?case by (cases "lp_phase l") simp_all
  qed simp
  then show "turns S \<le> 3 * length (bs_loops S)" by (simp add: turns_def)
  have "turns_left ph \<noteq> 0" for ph by (cases ph) simp_all
  then show "turns S = 0 \<longleftrightarrow> bs_loops S = []" by (cases "bs_loops S") (auto simp: turns_def)
qed

lemma stopped_turns:
  assumes "\<not> bs_running S" "turns S \<le> length ks"
  shows "\<exists>T n'. fold loop_turn ks (S, n) = (T, n') \<and> bs_loops T = [] \<and> \<not> bs_running T \<and>
    bs_bundlers T = bs_bundlers S \<and> sends ks (S, n) \<le> rounds S \<and> (rounds S = 0 \<longrightarrow> n' = n)"
  using assms
proof (induction ks arbitrary: S n)
  case Nil
  then show ?case using turns_bounds(2) [of S] by simp
next
  case (Cons k ks)
  show ?case
  proof (cases "bs_loops S = []")
    case True
    then have "turns S = 0" using turns_bounds(2) by blast
    then show ?thesis using Cons.IH [of S n] Cons.prems True by (simp add: loop_turn_def)
  next
    case False
    obtain T n1 where step: "loop_step (k mod length (bs_loops S)) (S, n) = (T, n1)" by fastforce
    then have turn: "loop_turn k (S, n) = (T, n1)" using False by (simp add: loop_turn_def)
    have "k mod length (bs_loops S) < length (bs_loops S)" using False by simp
    note t = stopped_turn [OF Cons.prems(1) this step]
    then have "\<not> bs_running T" "turns T \<le> length ks" using Cons.prems(2) by auto
    from Cons.IH [OF this, of n1] obtain U n' where "fold loop_turn ks (T, n1) = (U, n')" "bs_loops U = []"
        "\<not> bs_running U" "bs_bundlers U = bs_bundlers T" "sends ks (T, n1) \<le> rounds T" "rounds T = 0 \<longrightarrow> n' = n1"
      by (elim exE conjE)
    moreover have "sends (k # ks) (S, n) = of_bool (is_sending (bs_loops S ! (k mod length (bs_loops S)))) + sends ks (T, n1)"
      using False by (simp add: turn Let_def)
    ultimately show ?thesis using t turn by (intro exI [of _ U] exI [of _ n']) auto
  qed
qed

text \<open>C33: Stopping ends every loop. However the tasks are scheduled after bundling was stopped, three turns
  per loop are enough for all of them to be gone. Until then at most the rounds that were already
  past their tick send a bundle, one each, and when there was none the outside world is not touched; a
  round that has its operations at the stop still sends them. Starting again once the loops are gone
  spawns exactly one task per bundler.
\<close>

theorem stopped_loops_end:
  assumes "3 * length (bs_loops S) \<le> length ks"
  shows "\<exists>T n'. fold loop_turn ks (stop_bundling S, n) = (T, n') \<and> bs_loops T = [] \<and> \<not> bs_running T \<and>
    sends ks (stop_bundling S, n) \<le> length (filter in_round (bs_loops S)) \<and>
    (filter in_round (bs_loops S) = [] \<longrightarrow> n' = n) \<and>
    (\<forall>k b sm. k < length (bs_loops S) \<longrightarrow> lp_phase (bs_loops S ! k) = Sending b sm \<longrightarrow>
      snd (loop_turn k (stop_bundling S, n)) =
        snd (bundler_send_bundle (bs_bundlers S ! lp_bundler (bs_loops S ! k)) b sm n)) \<and>
    (\<forall>i < length (bs_bundlers S). loops_of i (start_bundling interval T) = 1)"
proof -
  let ?S = "stop_bundling S"
  have S: "bs_loops ?S = bs_loops S" "\<not> bs_running ?S" "bs_bundlers ?S = bs_bundlers S"
    by (simp_all add: stop_bundling_def)
  have "sum_list (map (\<lambda>l. of_bool (in_round l)) ls) = length (filter in_round ls)" for ls
    by (induction ls) simp_all
  then have rounds: "rounds ?S = length (filter in_round (bs_loops S))" by (simp add: rounds_def S(1))
  have "turns ?S \<le> length ks" using turns_bounds(1) [of ?S] assms S(1) by simp
  then obtain T n' where T: "fold loop_turn ks (?S, n) = (T, n')" "bs_loops T = []" "\<not> bs_running T"
      "bs_bundlers T = bs_bundlers S" "sends ks (?S, n) \<le> rounds ?S" "rounds ?S = 0 \<longrightarrow> n' = n"
    using stopped_turns [OF S(2), of ks n] S(3) by auto
  have "loops_of i (start_bundling interval T) = 1" if "i < length (bs_bundlers S)" for i
    using that T(2-4) by (simp add: loops_of_start) (simp add: loops_of_def)
  moreover have "snd (loop_turn k (?S, n)) = snd (bundler_send_bundle (bs_bundlers S ! lp_bundler (bs_loops S ! k)) b sm n)"
    if "k < length (bs_loops S)" "lp_phase (bs_loops S ! k) = Sending b sm" for k b sm
    using that S by (auto simp: loop_turn_def loop_step_def Let_def split: prod.splits outcome.splits)
  ultimately show ?thesis using T rounds by (intro exI [of _ T] exI [of _ n']) auto
qed

text \<open>The pool has handed the operation to the loop when bundling is stopped: the bundle still goes out.\<close>

definition sending_service :: "h256 list bundler_service" where
  "sending_service = fst ((loop_step 0 ^^ 3) (bundler_service_run [sample_bundler] sample_pool_client 10, []))"

lemma sending_service_loops:
  "bs_loops sending_service = [\<lparr>lp_bundler = 0, lp_interval = 10, lp_phase = Sending [sample_uo] default_storage_map\<rparr>]"
  "bs_bundlers sending_service = [sample_bundler]"
  using sample_fetch
  by (simp_all add: sending_service_def numeral_3_eq_3 bundler_service_run_def start_bundling_def loop_step_def
      set_phase_def sample_bundler_def)

theorem stopped_loops_end_witness:
  "\<exists>T. fold loop_turn [0, 0, 0] (stop_bundling sending_service, []) = (T, [5]) \<and> bs_loops T = [] \<and>
     sends [0, 0, 0] (stop_bundling sending_service, []) \<le> 1 \<and> loops_of 0 (start_bundling 5 T) = 1"
proof -
  let ?S = "stop_bundling sending_service"
  obtain T n' where T: "fold loop_turn [0, 0, 0] (?S, []) = (T, n')" "bs_loops T = []"
      "sends [0, 0, 0] (?S, []) \<le> 1" "loops_of 0 (start_bundling 5 T) = 1"
    using stopped_loops_end [of sending_service "[0, 0, 0]" "[]" 5] sending_service_loops
    by (auto simp: in_round_def)
  have "snd (fold loop_turn [0, 0, 0] (?S, [])) = [5]"
    using sample_send sending_service_loops
    by (simp add: loop_turn_def loop_step_def stop_bundling_def set_phase_def drop_loop_def)
  with T show ?thesis by auto
qed

section \<open>An interval of zero\<close>

lemma zero_turn:
  assumes "list_all (\<lambda>l. lp_phase l = Spawned \<and> lp_interval l = 0) (bs_loops S)" "bs_loops S \<noteq> []"
  shows "loop_turn k (S, n) = (drop_loop (k mod length (bs_loops S)) S, n)"
    and "list_all (\<lambda>l. lp_phase l = Spawned \<and> lp_interval l = 0) (bs_loops (drop_loop (k mod length (bs_loops S)) S))"
    and "length (bs_loops (drop_loop (k mod length (bs_loops S)) S)) = length (bs_loops S) - 1"
proof -
  have k: "k mod length (bs_loops S) < length (bs_loops S)" using assms(2) by simp
  then have "bs_loops S ! (k mod length (bs_loops S)) \<in> set (bs_loops S)" by (rule nth_mem)
  then have "lp_phase (bs_loops S ! (k mod length (bs_loops S))) = Spawned \<and>
      lp_interval (bs_loops S ! (k mod length (bs_loops S))) = 0"
    using assms(1) by (simp add: list_all_iff)
  then show "loop_turn k (S, n) = (drop_loop (k mod length (bs_loops S)) S, n)"
    using k assms(2) by (simp add: loop_turn_def loop_step_def del: mod_less_divisor length_greater_0_conv)
  show "list_all (\<lambda>l. lp_phase l = Spawned \<and> lp_interval l = 0) (bs_loops (drop_loop (k mod length (bs_loops S)) S))"
    using assms(1) by (auto simp: drop_loop_def list_all_iff dest: in_set_takeD in_set_dropD)
  show "length (bs_loops (drop_loop (k mod length (bs_loops S)) S)) = length (bs_loops S) - 1"
    using k by (simp add: drop_loop_def)
qed

lemma zero_turns:
  assumes "list_all (\<lambda>l. lp_phase l = Spawned \<and> lp_interval l = 0) (bs_loops S)" "length (bs_loops S) \<le> length ks"
  shows "fold loop_turn ks (S, n) = (S\<lparr>bs_loops := []\<rparr>, n)"
  using assms
proof (induction ks arbitrary: S)
  case (Cons k ks)
  show ?case
  proof (cases "bs_loops S = []")
    case True
    then show ?thesis using Cons.IH [of S] by (simp add: loop_turn_def)
  next
    case False
    note z = zero_turn [OF Cons.prems(1) False, of k]
    have "fold loop_turn ks (drop_loop (k mod length (bs_loops S)) S, n) =
        (drop_loop (k mod length (bs_loops S)) S\<lparr>bs_loops := []\<rparr>, n)"
      using Cons.IH [OF z(2)] z(3) Cons.prems(2) by simp
    then show ?thesis by (simp add: z(1) drop_loop_def)
  qed
qed simp

text \<open>An interval of zero leaves a service that counts as running and bundles nothing. When automatic
  mode is switched on with it while no loop is left, every task panics as it starts: however they are
  scheduled, after one turn each none is left and nothing was sent. The service still counts as
  running, so every further request for automatic mode, whatever its interval, changes nothing.
\<close>

theorem zero_interval_bundles_nothing:
  assumes "\<not> bs_running S" "bs_loops S = []" "length (bs_bundlers S) \<le> length ks"
  shows "\<exists>T. fold loop_turn ks (set_bundler_mode PbAuto 0 S, n) = (T, n) \<and> bs_loops T = [] \<and> bs_running T \<and>
    (\<forall>interval. set_bundler_mode PbAuto interval T = T)"
proof -
  let ?S = "set_bundler_mode PbAuto 0 S"
  have "list_all (\<lambda>l. lp_phase l = Spawned \<and> lp_interval l = 0) (bs_loops ?S)" "length (bs_loops ?S) \<le> length ks"
    using assms by (simp_all add: mode_defs list_all_iff)
  then have "fold loop_turn ks (?S, n) = (?S\<lparr>bs_loops := []\<rparr>, n)" by (rule zero_turns)
  moreover have "bs_running ?S" using assms(1) by (simp add: mode_defs)
  ultimately show ?thesis by (simp add: mode_defs)
qed

definition stopped_service :: "h256 list bundler_service" where
  "stopped_service = \<lparr>bs_bundlers = [sample_bundler], bs_running = False, bs_loops = [], bs_client = sample_pool_client\<rparr>"

theorem zero_interval_bundles_nothing_witness:
  "\<exists>T. fold loop_turn [3] (set_bundler_mode PbAuto 0 stopped_service, []) = (T, []) \<and> bs_loops T = [] \<and>
     bs_running T \<and> set_bundler_mode PbAuto 10 T = T"
  using zero_interval_bundles_nothing [of stopped_service "[3]" "[]"] by (auto simp: stopped_service_def)

section \<open>Waiting for a bundle\<close>

text \<open>Waiting ends with the first receipt; errors of the client do not end it.\<close>

lemma wait_mined_returns:
  assumes "pc_receipt C h ((pc_sleep C ^^ k) n) = Ok (Some rc)"
    and "\<And>j. j < k \<Longrightarrow> pc_receipt C h ((pc_sleep C ^^ j) n) \<noteq> Panic"
  shows "\<exists>j \<le> k. wait_mined C h n = Some (Ok (), (pc_sleep C ^^ j) n)"
  using assms
proof (induction k arbitrary: n)
  case 0
  then show ?case by (subst wait_mined.simps) simp
next
  case (Suc k)
  show ?case
  proof (cases "\<exists>r. pc_receipt C h n = Ok (Some r)")
    case True
    then show ?thesis by (subst wait_mined.simps) (auto intro!: exI [of _ 0])
  next
    case False
    have "pc_receipt C h n \<noteq> Panic" using Suc.prems(2) [of 0] by simp
    with False have "wait_mined C h n = wait_mined C h (pc_sleep C n)"
      by (subst wait_mined.simps) (auto split: outcome.splits option.splits)
    moreover have "pc_receipt C h ((pc_sleep C ^^ j) (pc_sleep C n)) \<noteq> Panic" if "j < k" for j
      using Suc.prems(2) [of "Suc j"] that by (simp add: funpow_swap1)
    with Suc.IH [of "pc_sleep C n"] Suc.prems(1) obtain j where "j \<le> k"
        "wait_mined C h (pc_sleep C n) = Some (Ok (), (pc_sleep C ^^ j) (pc_sleep C n))"
      by (auto simp: funpow_swap1)
    ultimately show ?thesis by (intro exI [of _ "Suc j"]) (simp add: funpow_swap1)
  qed
qed

end
