(* ===== verification/Json_Rpc.thy ===== *)
theory Json_Rpc
  imports Slot_Safety Pool_Effects Bundler_Service
begin

text \<open>
  The JSON-RPC server of the bundler (\<open>rpc/src/eth.rs\<close>, \<open>rpc/src/debug.rs\<close>, \<open>rpc/src/error.rs\<close>): the
  methods of the \<open>eth\<close> and \<open>debug_bundler\<close> namespaces, each a call of the service of the pool or of the
  bundler, and the codes under which their errors are reported.

  The client of the pool is a record of calls on a state; \<open>service_client\<close> is the client whose channel
  delivers every call to the service of \<open>Pool_Service\<close>. A handler that panics ends its stream, and the
  client then gets the status \<open>lost\<close> the transport makes for it. The texts of errors, the JSON of the answers and
  the numbers of the standard error codes belong to libraries and are the fields of \<open>jsonrpc_lib\<close>.
\<close>

section \<open>Errors\<close>

record error_object =
  eo_code :: int
  eo_message :: string

definition VALIDATION :: int where "VALIDATION = - 32500"

definition OPCODE :: int where "OPCODE = - 32502"

definition TIMESTAMP :: int where "TIMESTAMP = - 32503"

definition BANNED_OR_THROTTLED_ENTITY :: int where "BANNED_OR_THROTTLED_ENTITY = - 32504"

definition STAKE_TOO_LOW :: int where "STAKE_TOO_LOW = - 32505"

definition SIGNATURE :: int where "SIGNATURE = - 32507"

definition EXECUTION :: int where "EXECUTION = - 32521"

definition USER_OPERATION_HASH :: int where "USER_OPERATION_HASH = - 32601"

definition SANITY :: int where "SANITY = - 32602"

record jsonrpc_lib =
  jl_internal_error_code :: int
  jl_parse_error_code :: int
  jl_abi :: abi
  jl_show_mempool :: "mempool_error \<Rightarrow> string"
  jl_show_reputation :: "reputation_error \<Rightarrow> string"
  jl_show_sanity :: "sanity_error \<Rightarrow> string"
  jl_show_simulation :: "simulation_error \<Rightarrow> string"
  jl_hash_from_json :: "string \<Rightarrow> (string, user_operation_hash) outcome"
  jl_error_from_json :: "string \<Rightarrow> (string, mempool_error) outcome"
  jl_gas_from_json :: "string \<Rightarrow> (string, gas_estimation) outcome"
  jl_hash_from_str :: "string \<Rightarrow> user_operation_hash option"
  jl_bloom_from_str :: "string \<Rightarrow> bytes option"
  jl_to_checksum :: "address \<Rightarrow> string"

definition reputation_to_rpc :: "jsonrpc_lib \<Rightarrow> reputation_error \<Rightarrow> error_object" where
  "reputation_to_rpc L err =
     \<lparr>eo_code = (case err of
        BannedEntity _ _ \<Rightarrow> BANNED_OR_THROTTLED_ENTITY
      | ThrottledEntity _ _ \<Rightarrow> BANNED_OR_THROTTLED_ENTITY
      | StakeTooLow _ _ _ _ \<Rightarrow> STAKE_TOO_LOW
      | UnstakeDelayTooLow _ _ _ _ \<Rightarrow> STAKE_TOO_LOW
      | UnstakedEntity _ _ \<Rightarrow> STAKE_TOO_LOW
      | _ \<Rightarrow> jl_internal_error_code L), eo_message = jl_show_reputation L err\<rparr>"

definition sanity_to_rpc :: "jsonrpc_lib \<Rightarrow> sanity_error \<Rightarrow> error_object" where
  "sanity_to_rpc L err =
     (let owned = (\<lambda>c. \<lparr>eo_code = c, eo_message = jl_show_sanity L err\<rparr>) in
      case err of
        VerificationGasLimitTooHigh _ _ \<Rightarrow> owned SANITY
      | PreVerificationGasTooLow _ _ \<Rightarrow> owned SANITY
      | CallGasLimitTooLow _ _ \<Rightarrow> owned SANITY
      | MaxFeePerGasTooLow _ _ \<Rightarrow> owned SANITY
      | MaxPriorityFeePerGasTooHigh _ _ \<Rightarrow> owned SANITY
      | MaxPriorityFeePerGasTooLow _ _ \<Rightarrow> owned SANITY
      | SanPaymaster _ \<Rightarrow> owned SANITY
      | SanSender _ \<Rightarrow> owned SANITY
      | EntityRoles _ _ _ \<Rightarrow> owned OPCODE
      | SanReputation e \<Rightarrow> reputation_to_rpc L e
      | _ \<Rightarrow> owned (jl_internal_error_code L))"

definition simulation_to_rpc :: "jsonrpc_lib \<Rightarrow> simulation_error \<Rightarrow> error_object" where
  "simulation_to_rpc L err =
     (let owned = (\<lambda>c. \<lparr>eo_code = c, eo_message = jl_show_simulation L err\<rparr>) in
      case err of
        SimSignature \<Rightarrow> owned SIGNATURE
      | Timestamp _ \<Rightarrow> owned TIMESTAMP
      | SimValidation _ \<Rightarrow> owned VALIDATION
      | SimExecution _ \<Rightarrow> owned EXECUTION
      | Opcode _ _ \<Rightarrow> owned OPCODE
      | StorageAccess _ \<Rightarrow> owned OPCODE
      | Unstaked _ _ _ \<Rightarrow> owned OPCODE
      | CallStack _ \<Rightarrow> owned OPCODE
      | CodeHashes \<Rightarrow> owned OPCODE
      | OutOfGas \<Rightarrow> owned OPCODE
      | SimReputation e \<Rightarrow> reputation_to_rpc L e
      | _ \<Rightarrow> owned (jl_internal_error_code L))"

definition mempool_to_rpc :: "jsonrpc_lib \<Rightarrow> mempool_error \<Rightarrow> error_object" where
  "mempool_to_rpc L err =
     (case me_kind err of
        InvalidUserOperation (InvSanity e) \<Rightarrow> sanity_to_rpc L e
      | InvalidUserOperation (InvSimulation e) \<Rightarrow> simulation_to_rpc L e
      | InvalidUserOperation (InvReputation e) \<Rightarrow> reputation_to_rpc L e
      | _ \<Rightarrow> \<lparr>eo_code = jl_internal_error_code L, eo_message = jl_show_mempool L err\<rparr>)"

definition status_to_rpc :: "jsonrpc_lib \<Rightarrow> tonic_status \<Rightarrow> error_object" where
  "status_to_rpc L s = \<lparr>eo_code = jl_internal_error_code L, eo_message = ''gRPC error: '' @ ts_message s\<rparr>"

definition json_to_rpc :: "jsonrpc_lib \<Rightarrow> string \<Rightarrow> error_object" where
  "json_to_rpc L e = \<lparr>eo_code = jl_parse_error_code L, eo_message = ''JSON serializing error: '' @ e\<rparr>"

definition invalid_hash :: error_object where
  "invalid_hash = \<lparr>eo_code = USER_OPERATION_HASH, eo_message = ''Missing/invalid userOpHash''\<rparr>"

section \<open>The client of the pool\<close>

record 's grpc_client =
  gc_get_chain_id :: "('s, tonic_status, u64) op"
  gc_get_supported_entry_points :: "('s, tonic_status, pb_h160 list) op"
  gc_add :: "add_request \<Rightarrow> ('s, tonic_status, add_result \<times> string) op"
  gc_add_mempool :: "pb_user_operation list \<Rightarrow> pb_h160 option \<Rightarrow> ('s, tonic_status, add_mempool_result) op"
  gc_estimate :: "add_request \<Rightarrow> 's \<Rightarrow> ((tonic_status, estimate_result \<times> string) outcome \<times> 's) option"
  gc_get_receipt :: "pb_h256 option \<Rightarrow> ('s, tonic_status, receipt_response) op"
  gc_get_by_hash :: "pb_h256 option \<Rightarrow> ('s, tonic_status, by_hash_response) op"
  gc_get_all :: "pb_h160 option \<Rightarrow> ('s, tonic_status, pb_user_operation list) op"
  gc_clear_mempool :: "('s, tonic_status, unit) op"
  gc_clear_reputation :: "('s, tonic_status, unit) op"
  gc_clear :: "('s, tonic_status, unit) op"
  gc_set_reputation :: "pb_reputation_entry list \<Rightarrow> pb_h160 option \<Rightarrow> ('s, tonic_status, set_reputation_result) op"
  gc_get_all_reputation :: "pb_h160 option \<Rightarrow> ('s, tonic_status, pb_reputation_entry list) op"
  gc_get_stake_info :: "pb_h160 option \<Rightarrow> pb_h160 option \<Rightarrow> ('s, tonic_status, pb_stake_info \<times> bool) op"

text \<open>A panic ends the task of the handler; the other side of the channel sees a status.\<close>

definition over_channel :: "tonic_status \<Rightarrow> ('s, tonic_status, 'a) op \<Rightarrow> ('s, tonic_status, 'a) op" where
  "over_channel lost f s = (case f s of (Panic, s') \<Rightarrow> (Err lost, s') | (r, s') \<Rightarrow> (r, s'))"

definition service_client :: "tonic_status \<Rightarrow> ('s, 'r) uopool_service grpc_client" where
  "service_client lost = \<lparr>
     gc_get_chain_id = query (\<lambda>S. Ok (service_get_chain_id S)),
     gc_get_supported_entry_points = query (\<lambda>S. Ok (service_get_supported_entry_points S)),
     gc_add = (\<lambda>req. over_channel lost (service_add req)),
     gc_add_mempool = (\<lambda>uos ep. over_channel lost (service_add_mempool uos ep)),
     gc_estimate = (\<lambda>req S. map_option (\<lambda>r. over_channel lost (\<lambda>S. (r, S)) S)
       (service_estimate_user_operation_gas req S)),
     gc_get_receipt = (\<lambda>h. over_channel lost (query (service_get_user_operation_receipt h))),
     gc_get_by_hash = (\<lambda>h. over_channel lost (query (service_get_user_operation_by_hash h))),
     gc_get_all = (\<lambda>ep. over_channel lost (query (service_get_all ep))),
     gc_clear_mempool = over_channel lost service_clear_mempool,
     gc_clear_reputation = over_channel lost service_clear_reputation,
     gc_clear = over_channel lost service_clear,
     gc_set_reputation = (\<lambda>ens ep. over_channel lost (service_set_reputation ens ep)),
     gc_get_all_reputation = (\<lambda>ep. over_channel lost (query (service_get_all_reputation ep))),
     gc_get_stake_info = (\<lambda>addr ep. over_channel lost (query (service_get_stake_info ep addr)))\<rparr>"

section \<open>The eth namespace\<close>

definition eth_chain_id :: "jsonrpc_lib \<Rightarrow> 's grpc_client \<Rightarrow> ('s, error_object, u64) op" where
  "eth_chain_id L C = map_err_op (status_to_rpc L) (gc_get_chain_id C)"

definition eth_supported_entry_points :: "jsonrpc_lib \<Rightarrow> 's grpc_client \<Rightarrow> ('s, error_object, string list) op" where
  "eth_supported_entry_points L C =
     bind_op (map_err_op (status_to_rpc L) (gc_get_supported_entry_points C))
       (\<lambda>eps. ret (map (\<lambda>ep. jl_to_checksum L (address_of_pb ep)) eps))"

text \<open>The operation of a request with its hash, as a message.\<close>

definition hashed_request :: "jsonrpc_lib \<Rightarrow> user_operation_request \<Rightarrow> address \<Rightarrow> u64 \<Rightarrow> user_operation" where
  "hashed_request L r ep chain =
     (let uo = signed_of_request r
      in from_user_operation_signed (user_operation_hash (jl_abi L) uo ep chain) uo)"

definition request_message :: "jsonrpc_lib \<Rightarrow> user_operation_request \<Rightarrow> address \<Rightarrow> u64 \<Rightarrow> add_request" where
  "request_message L r ep chain =
     \<lparr>ar_uo = Some (pb_of_user_operation (hashed_request L r ep chain)), ar_ep = Some (pb_of_address ep)\<rparr>"


definition eth_estimate_user_operation_gas ::
  "jsonrpc_lib \<Rightarrow> 's grpc_client \<Rightarrow> user_operation_request \<Rightarrow> address \<Rightarrow> 's \<Rightarrow>
   ((error_object, gas_estimation) outcome \<times> 's) option" where
  "eth_estimate_user_operation_gas L C r ep s =
     (case map_err_op (status_to_rpc L) (gc_get_chain_id C) s of
        (Ok chain, s) \<Rightarrow>
          map_option (\<lambda>(r, s). (bind_ok (map_err (status_to_rpc L) r) (\<lambda>(res, data).
              if res = Estimated then map_err (json_to_rpc L) (jl_gas_from_json L data)
              else bind_ok (map_err (json_to_rpc L) (jl_error_from_json L data))
                (\<lambda>e. Err (mempool_to_rpc L e))), s))
            (gc_estimate C (request_message L r ep chain) s)
      | (Err e, s) \<Rightarrow> Some (Err e, s)
      | (Panic, s) \<Rightarrow> Some (Panic, s))"

text \<open>A missing field of an answer makes the whole answer null.\<close>

definition and_then :: "'a option \<Rightarrow> ('a \<Rightarrow> ('e, 'b option) outcome) \<Rightarrow> ('e, 'b option) outcome" where
  "and_then m f = (case m of Some x \<Rightarrow> f x | None \<Rightarrow> Ok None)"

definition receipt_of_response ::
  "jsonrpc_lib \<Rightarrow> receipt_response \<Rightarrow> ('e, user_operation_receipt option) outcome" where
  "receipt_of_response L res =
     and_then (rr_hash res) (\<lambda>uo_hash.
     and_then (rr_from res) (\<lambda>snd.
     and_then (rr_op_nonce res) (\<lambda>n. bind_ok (u256_of_pb n) (\<lambda>n.
     and_then (rr_actual_gas_cost res) (\<lambda>cost. bind_ok (u256_of_pb cost) (\<lambda>cost.
     and_then (rr_actual_gas_used res) (\<lambda>used. bind_ok (u256_of_pb used) (\<lambda>used.
     bind_ok (logs_of_pb (rr_logs res)) (\<lambda>logs.
     and_then (rr_tx_receipt res) (\<lambda>tx. bind_ok (receipt_of_pb (jl_bloom_from_str L) tx) (\<lambda>tx.
     Ok (Some \<lparr>rc_user_operation_hash = h256_of_pb uo_hash, rc_sender = address_of_pb snd, rc_nonce = n,
         rc_paymaster = map_option address_of_pb (rr_paymaster res), rc_actual_gas_cost = cost,
         rc_actual_gas_used = used, rc_success = rr_success res, rc_reason = [], rc_logs = logs,
         rc_tx_receipt = tx\<rparr>))))))))))))"

definition by_hash_of_response :: "by_hash_response \<Rightarrow> ('e, user_operation_by_hash option) outcome" where
  "by_hash_of_response res =
     and_then (br_user_operation res) (\<lambda>uo.
     and_then (br_entry_point res) (\<lambda>ep.
     and_then (br_block_hash res) (\<lambda>block_hash.
     and_then (br_transaction_hash res) (\<lambda>tx_hash. bind_ok (signed_of_pb uo) (\<lambda>uo.
     Ok (Some \<lparr>bh_user_operation = uo, bh_entry_point = address_of_pb ep,
         bh_transaction_hash = h256_of_pb tx_hash, bh_block_hash = h256_of_pb block_hash,
         bh_block_number = br_block_number res\<rparr>))))))"

text \<open>Both lookups answer null when the service found nothing.\<close>

definition lookup_answer ::
  "('a \<Rightarrow> (error_object, 'b option) outcome) \<Rightarrow> (tonic_status, 'a) outcome \<Rightarrow> (error_object, 'b option) outcome" where
  "lookup_answer f r =
     (case r of
        Ok res \<Rightarrow> f res
      | Err s \<Rightarrow> if ts_code s = NotFoundCode then Ok None else Err invalid_hash
      | Panic \<Rightarrow> Panic)"

definition eth_get_user_operation_receipt ::
  "jsonrpc_lib \<Rightarrow> 's grpc_client \<Rightarrow> string \<Rightarrow> ('s, error_object, user_operation_receipt option) op" where
  "eth_get_user_operation_receipt L C uo_hash s =
     (case jl_hash_from_str L uo_hash of
        Some h \<Rightarrow> (case gc_get_receipt C (Some (pb_of_h256 h)) s of (r, s) \<Rightarrow> (lookup_answer (receipt_of_response L) r, s))
      | None \<Rightarrow> (Err invalid_hash, s))"

definition eth_get_user_operation_by_hash ::
  "jsonrpc_lib \<Rightarrow> 's grpc_client \<Rightarrow> string \<Rightarrow> ('s, error_object, user_operation_by_hash option) op" where
  "eth_get_user_operation_by_hash L C uo_hash s =
     (case jl_hash_from_str L uo_hash of
        Some h \<Rightarrow> (case gc_get_by_hash C (Some (pb_of_h256 h)) s of (r, s) \<Rightarrow> (lookup_answer by_hash_of_response r, s))
      | None \<Rightarrow> (Err invalid_hash, s))"

section \<open>The debug namespace\<close>

definition debug_clear_mempool :: "jsonrpc_lib \<Rightarrow> 's grpc_client \<Rightarrow> ('s, error_object, unit) op" where
  "debug_clear_mempool L C = map_err_op (status_to_rpc L) (gc_clear_mempool C)"

definition debug_clear_reputation :: "jsonrpc_lib \<Rightarrow> 's grpc_client \<Rightarrow> ('s, error_object, unit) op" where
  "debug_clear_reputation L C = map_err_op (status_to_rpc L) (gc_clear_reputation C)"

definition debug_clear_state :: "jsonrpc_lib \<Rightarrow> 's grpc_client \<Rightarrow> ('s, error_object, unit) op" where
  "debug_clear_state L C = map_err_op (status_to_rpc L) (gc_clear C)"

definition debug_add_user_ops ::
  "jsonrpc_lib \<Rightarrow> 's grpc_client \<Rightarrow> user_operation_request list \<Rightarrow> address \<Rightarrow> ('s, error_object, unit) op" where
  "debug_add_user_ops L C rs ep =
     bind_op (map_err_op (status_to_rpc L) (gc_get_chain_id C)) (\<lambda>chain.
     bind_op (map_err_op (status_to_rpc L) (gc_add_mempool C
         (map (\<lambda>r. pb_of_user_operation (hashed_request L r ep chain)) rs) (Some (pb_of_address ep)))) (\<lambda>_.
     ret ()))"

definition debug_dump_mempool ::
  "jsonrpc_lib \<Rightarrow> 's grpc_client \<Rightarrow> address \<Rightarrow> ('s, error_object, user_operation_request list) op" where
  "debug_dump_mempool L C ep =
     bind_op (map_err_op (status_to_rpc L) (gc_get_all C (Some (pb_of_address ep)))) (\<lambda>res.
     bind_op (query (\<lambda>_. into_uos res)) (\<lambda>uos.
     ret (sort_key req_nonce (map (\<lambda>uo. request_of_signed (user_operation uo)) uos))))"

definition debug_set_reputation ::
  "jsonrpc_lib \<Rightarrow> 's grpc_client \<Rightarrow> reputation_entry list \<Rightarrow> address \<Rightarrow> ('s, error_object, unit) op" where
  "debug_set_reputation L C ens ep =
     bind_op (map_err_op (status_to_rpc L)
       (gc_set_reputation C (map pb_of_reputation_entry ens) (Some (pb_of_address ep)))) (\<lambda>res.
     if res = Set then ret ()
     else fail \<lparr>eo_code = jl_internal_error_code L, eo_message = ''Error setting reputation''\<rparr>)"

definition debug_dump_reputation ::
  "jsonrpc_lib \<Rightarrow> 's grpc_client \<Rightarrow> address \<Rightarrow> ('s, error_object, reputation_entry list) op" where
  "debug_dump_reputation L C ep =
     bind_op (map_err_op (status_to_rpc L) (gc_get_all_reputation C (Some (pb_of_address ep))))
       (\<lambda>rep. ret (map reputation_entry_of_pb rep))"

definition debug_get_stake_status ::
  "jsonrpc_lib \<Rightarrow> 's grpc_client \<Rightarrow> address \<Rightarrow> address \<Rightarrow> ('s, error_object, stake_info_response) op" where
  "debug_get_stake_status L C addr ep =
     bind_op (map_err_op (status_to_rpc L)
       (gc_get_stake_info C (Some (pb_of_address addr)) (Some (pb_of_address ep)))) (\<lambda>(info, staked).
     ret \<lparr>sir_stake_info = stake_info_of_pb info, sir_is_staked = staked\<rparr>)"

definition BUNDLE_INTERVAL :: u64 where "BUNDLE_INTERVAL = 10"

definition debug_set_bundling_mode :: "bundler_mode \<Rightarrow> 'n bundler_service \<Rightarrow> 'n bundler_service" where
  "debug_set_bundling_mode mode = set_bundler_mode (pb_of_bundler_mode mode) BUNDLE_INTERVAL"

definition debug_send_bundle_now ::
  "jsonrpc_lib \<Rightarrow> tonic_status \<Rightarrow> 'n bundler_service \<Rightarrow> 'n \<Rightarrow> ((error_object, h256) outcome \<times> 'n) option" where
  "debug_send_bundle_now L lost S n =
     map_option (\<lambda>(r, n). map_err_op (status_to_rpc L)
         (over_channel lost (\<lambda>n. (map_err status_internal r, n))) n) (send_bundle_now S n)"

section \<open>The libraries\<close>


section \<open>Properties\<close>




lemma signed_round_trip [simp]: "signed_of_pb (pb_of_signed uo) = Ok uo"
  by (cases uo) (simp add: signed_of_pb_def pb_of_signed_def)

lemma first_found_find:
  "first_found st f bs = (case find (\<lambda>r. \<not> is_err r) (map f bs) of
     None \<Rightarrow> Err st | Some (Ok x) \<Rightarrow> Ok x | Some (Err _) \<Rightarrow> Err st | Some Panic \<Rightarrow> Panic)"
  by (induction bs) (auto split: outcome.splits)

text \<open>C19: A lookup by hash hides the errors of the node. For a well-formed hash the answer of
  eth_getUserOperationByHash is the first operation a pool finds, with all fields as the pool found
  them; when no pool answers, even because every request to the node failed, the answer is null, as
  for an operation that does not exist. Only a pool that panics before another one answers is
  reported, and then as a missing or invalid hash, although the hash is well-formed.\<close>

theorem eth_by_hash_hides_errors:
  assumes "jl_hash_from_str L str = Some h" "ts_code lost \<noteq> NotFoundCode"
  shows "eth_get_user_operation_by_hash L (service_client lost) str S =
    (case find (\<lambda>r. \<not> is_err r) (map (\<lambda>(_, b). get_user_operation_by_hash h (builder_uopool S b)) (sv_uopools S)) of
       Some (Ok x) \<Rightarrow> Ok (Some x)
     | Some Panic \<Rightarrow> Err invalid_hash
     | _ \<Rightarrow> Ok None, S)"
proof -
  let ?f = "\<lambda>b. get_user_operation_by_hash h (builder_uopool S b)"
  have answers: "map (\<lambda>(_, b). ?f b) (sv_uopools S) = map ?f (map snd (sv_uopools S))" by (simp add: split_def)
  have none: "find (\<lambda>r. \<not> is_err r) xs \<noteq> Some (Err e)" for xs :: "(pool_error, user_operation_by_hash) outcome list" and e
    by (metis find_Some_iff is_err.simps(2))
  show ?thesis
    unfolding answers using assms(2)
    by (auto simp: eth_get_user_operation_by_hash_def assms(1) service_client_def query_def over_channel_def
        service_get_user_operation_by_hash_def parse_hash_def first_found_find lookup_answer_def
        by_hash_of_response_def and_then_def none split: option.splits outcome.splits)
qed

section \<open>The sample service behind JSON-RPC\<close>



definition sample_failure :: mempool_error where
  "sample_failure = \<lparr>me_hash = 42,
     me_kind = InvalidUserOperation (InvSanity (VerificationGasLimitTooHigh 6000000 1000000))\<rparr>"

definition sample_lib :: jsonrpc_lib where
  "sample_lib = \<lparr>jl_internal_error_code = - 32603, jl_parse_error_code = - 32700,
     jl_abi = sample_abi\<lparr>keccak256 := (\<lambda>_. 42)\<rparr>, jl_show_mempool = (\<lambda>_. []), jl_show_reputation = (\<lambda>_. []),
     jl_show_sanity = (\<lambda>_. []), jl_show_simulation = (\<lambda>_. []),
     jl_hash_from_json = (\<lambda>d. Ok (from_be_bytes (map (\<lambda>c. of_nat (of_char c)) d))),
     jl_error_from_json = (\<lambda>d. if d = ''error'' then Ok sample_failure else Err ''unsupported''), jl_gas_from_json = (\<lambda>_. Err ''unsupported''),
     jl_hash_from_str = (\<lambda>s. if s = ''0x2a'' then Some 42 else None), jl_bloom_from_str = (\<lambda>_. None),
     jl_to_checksum = (\<lambda>_. [])\<rparr>"









abbreviation lost_stream :: tonic_status where
  "lost_stream \<equiv> \<lparr>ts_code = CancelledCode, ts_message = ''h2 protocol error''\<rparr>"


text \<open>The same service with one pool, over a node given by its history.\<close>

definition history_service :: "history \<Rightarrow> (memory_tables, memory_entries) uopool_service" where
  "history_service H =
     uopool_service_run Unsafe [1000] (\<lambda>_. sample_eth\<lparr>past := H\<rparr>) [()] 1 5000000 sample_abi sample_text memory_mempool
       empty_tables memory_entries_op empty_reputation sample_validator False"

text \<open>A node that cannot be reached, and one whose chain is shorter than the depth of the filter.\<close>

theorem eth_by_hash_hides_errors_witness:
  "fst (eth_get_user_operation_by_hash sample_lib (service_client lost_stream) ''0x2a''
     (history_service ((past sample_eth)\<lparr>hist_block_number := Err ''connection refused''\<rparr>))) = Ok None \<and>
   fst (eth_get_user_operation_by_hash sample_lib (service_client lost_stream) ''0x2a''
     (history_service ((past sample_eth)\<lparr>hist_block_number := Ok 3\<rparr>))) = Err invalid_hash"
proof -
  have str: "jl_hash_from_str sample_lib ''0x2a'' = Some 42" by (simp add: sample_lib_def)
  have lost: "ts_code lost_stream \<noteq> NotFoundCode" by simp
  have pools: "map (\<lambda>(_, b). get_user_operation_by_hash 42 (builder_uopool (history_service H) b))
      (sv_uopools (history_service H)) =
      [get_user_operation_by_hash 42 (sample_pools\<lparr>up_entry_point := sample_eth\<lparr>past := H\<rparr>\<rparr>)]" for H
    by (simp add: history_service_def uopool_service_run_def hm_collect_def hm_insert_def builder_uopool_def
        get_user_operation_by_hash_def get_user_operation_event_meta_def)
  show ?thesis
    using eth_by_hash_hides_errors [OF str lost, of "history_service _", unfolded pools]
    by (simp add: get_user_operation_by_hash_def get_user_operation_event_meta_def FILTER_MAX_DEPTH_def)
qed

end
