(* ===== verification/Ssz_Codec.thy ===== *)
theory Ssz_Codec
  imports Primitives
begin

text \<open>
  The encoding of a user operation on the network (\<open>primitives/src/user_operation/mod.rs\<close>): the
  operation is an SSZ container of eleven fields, four of them byte strings of variable length.

  The serializer and the readers of fixed-size values belong to the library \<open>ssz_rs\<close>; they are the
  fields of the record \<open>ssz_rs\<close>, and \<open>ssz_documented\<close> says that they follow the Simple Serialize
  specification: little endian numbers, byte vectors as they are, and for a container first the
  fixed parts, with a four byte offset in the place of a variable part, and then the variable
  parts. The theorems are about what the repository adds: the hand-written deserializer.
\<close>

section \<open>The library\<close>

datatype serialize_error = MaximumEncodedLengthReached nat | Serialize_Other

datatype deserialize_error =
    ExpectedFurtherInput nat nat
  | AdditionalInput nat nat
  | Deserialize_Other

text \<open>The values handed to \<open>with_element\<close>: an array of bytes, an array of \<open>u64\<close>, a list of bytes.\<close>

datatype ssz_element = Byte_Vector bytes | U64_Vector "u64 list" | Byte_List bytes

record ssz_rs =
  container :: "ssz_element list \<Rightarrow> (serialize_error, bytes) outcome"
  list_fits :: "nat \<Rightarrow> bytes \<Rightarrow> bool"
  read_bytes :: "bytes \<Rightarrow> (deserialize_error, bytes) outcome"
  read_u64s :: "bytes \<Rightarrow> (deserialize_error, u64 list) outcome"
  read_u32 :: "bytes \<Rightarrow> (deserialize_error, 32 word) outcome"

definition to_le_bytes :: "nat \<Rightarrow> 'a::len word \<Rightarrow> bytes" where
  "to_le_bytes n w = rev (to_be_bytes n w)"

definition from_le_bytes :: "bytes \<Rightarrow> 'a::len word" where
  "from_le_bytes bs = from_be_bytes (rev bs)"

text \<open>The encoding that the specification of Simple Serialize gives to a container.\<close>

fun part_size :: "ssz_element \<Rightarrow> nat" where
  "part_size (Byte_Vector bs) = length bs"
| "part_size (U64_Vector ws) = 8 * length ws"
| "part_size (Byte_List bs) = 4"

fun fixed_parts :: "nat \<Rightarrow> ssz_element list \<Rightarrow> bytes" where
  "fixed_parts offset [] = []"
| "fixed_parts offset (Byte_Vector bs # es) = bs @ fixed_parts offset es"
| "fixed_parts offset (U64_Vector ws # es) = concat (map (to_le_bytes 8) ws) @ fixed_parts offset es"
| "fixed_parts offset (Byte_List bs # es) =
     to_le_bytes 4 (of_nat offset :: 32 word) @ fixed_parts (offset + length bs) es"

fun variable_parts :: "ssz_element list \<Rightarrow> bytes" where
  "variable_parts [] = []"
| "variable_parts (Byte_List bs # es) = bs @ variable_parts es"
| "variable_parts (e # es) = variable_parts es"

definition simple_serialize :: "ssz_element list \<Rightarrow> bytes" where
  "simple_serialize es = fixed_parts (sum_list (map part_size es)) es @ variable_parts es"

definition chunks_of_8 :: "bytes \<Rightarrow> bytes list" where
  "chunks_of_8 bs = map (\<lambda>i. take 8 (drop (8 * i) bs)) [0..<length bs div 8]"

definition ssz_documented :: "ssz_rs \<Rightarrow> bool" where
  "ssz_documented L =
     ((\<forall>es. length (simple_serialize es) < 2 ^ 32 \<longrightarrow> container L es = Ok (simple_serialize es)) \<and>
      (\<forall>n bs. list_fits L n bs = (length bs \<le> n)) \<and>
      (\<forall>bs. length bs = 20 \<longrightarrow> read_bytes L bs = Ok bs) \<and>
      (\<forall>bs. length bs = 32 \<longrightarrow> read_u64s L bs = Ok (map from_le_bytes (chunks_of_8 bs))) \<and>
      (\<forall>bs. length bs = 4 \<longrightarrow> read_u32 L bs = Ok (from_le_bytes bs)))"

section \<open>Serialization\<close>

definition MAXIMUM_SSZ_BYTES_LENGTH :: nat where
  "MAXIMUM_SSZ_BYTES_LENGTH = 1024"

text \<open>A \<open>U256\<close> is an array of four \<open>u64\<close>, the least significant first.\<close>

definition limbs :: "U256 \<Rightarrow> u64 list" where
  "limbs w = [ucast w, ucast (drop_bit 64 w), ucast (drop_bit 128 w), ucast (drop_bit 192 w)]"

definition u256_of_limbs :: "u64 list \<Rightarrow> U256" where
  "u256_of_limbs ws = foldr (\<lambda>w acc. push_bit 64 acc + ucast w) ws 0"

definition btyes_to_list :: "ssz_rs \<Rightarrow> bytes \<Rightarrow> (serialize_error, ssz_element) outcome" where
  "btyes_to_list L val =
     (if list_fits L MAXIMUM_SSZ_BYTES_LENGTH val then Ok (Byte_List val)
      else Err (MaximumEncodedLengthReached (length val)))"

text \<open>\<open>serialize\<close> appends to the buffer and returns the number of bytes it wrote.\<close>

definition ssz_serialize ::
  "ssz_rs \<Rightarrow> user_operation_signed \<Rightarrow> bytes \<Rightarrow> (serialize_error, nat \<times> bytes) outcome" where
  "ssz_serialize L uo buffer =
     bind_ok (btyes_to_list L (init_code uo)) (\<lambda>ic.
     bind_ok (btyes_to_list L (call_data uo)) (\<lambda>cd.
     bind_ok (btyes_to_list L (paymaster_and_data uo)) (\<lambda>pd.
     bind_ok (btyes_to_list L (signature uo)) (\<lambda>sig.
     bind_ok (container L
       [Byte_Vector (to_fixed_bytes (sender uo)), U64_Vector (limbs (nonce uo)), ic, cd,
        U64_Vector (limbs (call_gas_limit uo)), U64_Vector (limbs (verification_gas_limit uo)),
        U64_Vector (limbs (pre_verification_gas uo)), U64_Vector (limbs (max_fee_per_gas uo)),
        U64_Vector (limbs (max_priority_fee_per_gas uo)), pd, sig]) (\<lambda>bs.
     Ok (length bs, buffer @ bs))))))"

section \<open>Deserialization\<close>

text \<open>Indexing a slice with a range panics when the range is inverted or ends past the slice.\<close>

definition slice_range :: "'a list \<Rightarrow> nat \<Rightarrow> nat \<Rightarrow> ('e, 'a list) outcome" where
  "slice_range xs s e = (if s \<le> e \<and> e \<le> length xs then Ok (take (e - s) (drop s xs)) else Panic)"

definition slice_get :: "'a list \<Rightarrow> nat \<Rightarrow> nat \<Rightarrow> 'a list option" where
  "slice_get xs s e = (if s \<le> e \<and> e \<le> length xs then Some (take (e - s) (drop s xs)) else None)"

definition ssz_unpack_bytes_length ::
  "ssz_rs \<Rightarrow> nat \<Rightarrow> bytes \<Rightarrow> nat list \<Rightarrow> (deserialize_error, nat list) outcome" where
  "ssz_unpack_bytes_length L start encoding offsets =
     bind_ok (slice_range encoding start (start + 4)) (\<lambda>bs.
     bind_ok (read_u32 L bs) (\<lambda>next_offset. Ok (offsets @ [unat next_offset])))"

definition ssz_unpack_u256 ::
  "ssz_rs \<Rightarrow> nat \<Rightarrow> bytes \<Rightarrow> (deserialize_error, U256 \<times> nat) outcome" where
  "ssz_unpack_u256 L start encoding =
     bind_ok (slice_range encoding start (start + 32)) (\<lambda>bs.
     bind_ok (read_u64s L bs) (\<lambda>res. Ok (u256_of_limbs res, 32)))"

text \<open>The iterator \<open>windows(2)\<close> is the list of the pairs it has still to give.\<close>

definition windows2 :: "'a list \<Rightarrow> ('a \<times> 'a) list" where
  "windows2 xs = zip xs (tl xs)"

fun ssz_unpack_bytes ::
  "(nat \<times> nat) list \<Rightarrow> bytes \<Rightarrow> nat \<Rightarrow>
   (deserialize_error, (bytes \<times> nat) \<times> (nat \<times> nat) list) outcome" where
  "ssz_unpack_bytes [] encoding total_bytes_read =
     Err (AdditionalInput (length encoding) total_bytes_read)"
| "ssz_unpack_bytes ((s, e) # zone) encoding total_bytes_read =
     bind_ok (slice_range encoding s e) (\<lambda>bs. Ok ((bs, e - s), zone))"

text \<open>The two halves of the deserializer: the fixed part, and the byte strings it points to.\<close>

definition ssz_read_fixed ::
  "ssz_rs \<Rightarrow> bytes \<Rightarrow> (deserialize_error, user_operation_signed \<times> nat list \<times> nat) outcome" where
  "ssz_read_fixed L encoding =
     bind_ok (ok_or (ExpectedFurtherInput (length encoding) 20) (slice_get encoding 0 20)) (\<lambda>target.
     bind_ok (read_bytes L target) (\<lambda>s.
     let start = 0 + 20 in
     bind_ok (ssz_unpack_u256 L start encoding) (\<lambda>(n, byte_read).
     let start = start + byte_read in
     bind_ok (ssz_unpack_bytes_length L start encoding []) (\<lambda>offsets.
     let start = start + 4 in
     bind_ok (ssz_unpack_bytes_length L start encoding offsets) (\<lambda>offsets.
     let start = start + 4 in
     bind_ok (ssz_unpack_u256 L start encoding) (\<lambda>(cgl, byte_read).
     let start = start + byte_read in
     bind_ok (ssz_unpack_u256 L start encoding) (\<lambda>(vgl, byte_read).
     let start = start + byte_read in
     bind_ok (ssz_unpack_u256 L start encoding) (\<lambda>(pvg, byte_read).
     let start = start + byte_read in
     bind_ok (ssz_unpack_u256 L start encoding) (\<lambda>(mf, byte_read).
     let start = start + byte_read in
     bind_ok (ssz_unpack_u256 L start encoding) (\<lambda>(mpf, byte_read).
     let start = start + byte_read in
     bind_ok (ssz_unpack_bytes_length L start encoding offsets) (\<lambda>offsets.
     let start = start + 4 in
     bind_ok (ssz_unpack_bytes_length L start encoding offsets) (\<lambda>offsets.
     let start = start + 4 in
     Ok (\<lparr>sender = address_from_slice s, nonce = n, init_code = [], call_data = [],
          call_gas_limit = cgl, verification_gas_limit = vgl, pre_verification_gas = pvg,
          max_fee_per_gas = mf, max_priority_fee_per_gas = mpf, paymaster_and_data = [],
          signature = []\<rparr>, offsets, start)))))))))))))"

definition ssz_deserialize :: "ssz_rs \<Rightarrow> bytes \<Rightarrow> (deserialize_error, user_operation_signed) outcome" where
  "ssz_deserialize L encoding =
     bind_ok (ssz_read_fixed L encoding) (\<lambda>(uo, offsets, start).
     let total = start; zone = windows2 (offsets @ [length encoding]) in
     bind_ok (ssz_unpack_bytes zone encoding total) (\<lambda>((ic, len), zone).
     let total = total + len in
     bind_ok (ssz_unpack_bytes zone encoding total) (\<lambda>((cd, len), zone).
     let total = total + len in
     bind_ok (ssz_unpack_bytes zone encoding total) (\<lambda>((pd, len), zone).
     let total = total + len in
     bind_ok (ssz_unpack_bytes zone encoding total) (\<lambda>((sig, len), zone).
     let total = total + len in
     if length encoding < total then Err (ExpectedFurtherInput (length encoding) total)
     else if total < length encoding then Err (AdditionalInput (length encoding) total)
     else Ok (uo\<lparr>init_code := ic, call_data := cd, paymaster_and_data := pd,
                 signature := sig\<rparr>))))))"

section \<open>Numbers\<close>

lemma length_to_le_bytes [simp]: "length (to_le_bytes n w) = n"
  by (simp add: to_le_bytes_def)

lemma from_to_le_bytes:
  "8 * n = LENGTH('a) \<Longrightarrow> 0 < n \<Longrightarrow> from_le_bytes (to_le_bytes n w) = (w :: 'a::len word)"
  by (simp add: from_le_bytes_def to_le_bytes_def from_to_be_bytes)

lemma to_from_le_bytes:
  "8 * n = LENGTH('a) \<Longrightarrow> length bs = n \<Longrightarrow> to_le_bytes n (from_le_bytes bs :: 'a::len word) = bs"
  using to_from_be_bytes [of "rev bs", where 'a = 'a]
  by (auto simp: from_le_bytes_def to_le_bytes_def)

lemma limb_add: "push_bit 64 a + ucast b = or (push_bit 64 a) (ucast b)" for a :: U256 and b :: u64
  by (rule disjunctive_add) (auto simp: bit_simps dest: bit_imp_le_length)

lemma u256_of_limbs_limbs [simp]: "u256_of_limbs (limbs w) = w"
proof (rule bit_word_eqI)
  fix n :: nat
  consider "n < 64" | "64 \<le> n" "n < 128" | "128 \<le> n" "n < 192" | "192 \<le> n" by linarith
  then show "bit (u256_of_limbs (limbs w)) n = bit w n" if "n < LENGTH(256)"
    using that by cases (auto simp: u256_of_limbs_def limbs_def limb_add bit_simps)
qed

lemma limbs_u256_of_limbs: "limbs (u256_of_limbs [a, b, c, d]) = [a, b, c, d]"
  unfolding u256_of_limbs_def limbs_def
  by (simp add: limb_add) (intro conjI; rule bit_word_eqI; auto simp: bit_simps dest: bit_imp_le_length)

text \<open>The 32 bytes of a number, and the number in 32 bytes.\<close>

definition u256_bytes :: "U256 \<Rightarrow> bytes" where
  "u256_bytes w = concat (map (to_le_bytes 8) (limbs w))"

definition u256_of_bytes :: "bytes \<Rightarrow> U256" where
  "u256_of_bytes bs = u256_of_limbs (map from_le_bytes (chunks_of_8 bs))"

lemma length_u256_bytes [simp]: "length (u256_bytes w) = 32"
  by (simp add: u256_bytes_def limbs_def)

lemma chunks_of_32:
  "length bs = 32 \<Longrightarrow>
   chunks_of_8 bs = [take 8 bs, take 8 (drop 8 bs), take 8 (drop 16 bs), take 8 (drop 24 bs)]"
  by (simp add: chunks_of_8_def upt_conv_Cons)

lemma u256_of_bytes_bytes [simp]: "u256_of_bytes (u256_bytes w) = w"
proof -
  have "map from_le_bytes (chunks_of_8 (u256_bytes w)) = limbs w"
    by (simp add: chunks_of_32) (simp add: u256_bytes_def limbs_def from_to_le_bytes)
  then show ?thesis by (simp add: u256_of_bytes_def)
qed

lemma u256_bytes_of_bytes [simp]:
  assumes "length bs = 32"
  shows "u256_bytes (u256_of_bytes bs) = bs"
proof -
  have "bs = take 8 bs @ take 8 (drop 8 bs) @ take 8 (drop 16 bs) @ take 8 (drop 24 bs)"
    using assms append_take_drop_id [of 8 bs] append_take_drop_id [of 8 "drop 8 bs"]
      append_take_drop_id [of 8 "drop 16 bs"] by simp
  then show ?thesis
    using assms
    by (simp add: u256_bytes_def u256_of_bytes_def chunks_of_32 limbs_u256_of_limbs to_from_le_bytes)
qed

section \<open>What the deserializer reads\<close>

definition bytes_at :: "nat \<Rightarrow> nat \<Rightarrow> bytes \<Rightarrow> bytes" where
  "bytes_at i n enc = take n (drop i enc)"

definition offset_at :: "nat \<Rightarrow> bytes \<Rightarrow> nat" where
  "offset_at i enc = unat (from_le_bytes (bytes_at i 4 enc) :: 32 word)"

definition message_offsets :: "bytes \<Rightarrow> nat list" where
  "message_offsets enc = [offset_at 52 enc, offset_at 56 enc, offset_at 220 enc, offset_at 224 enc]"

definition fixed_of :: "bytes \<Rightarrow> user_operation_signed" where
  "fixed_of enc = \<lparr>sender = address_from_slice (take 20 enc), nonce = u256_of_bytes (bytes_at 20 32 enc),
     init_code = [], call_data = [], call_gas_limit = u256_of_bytes (bytes_at 60 32 enc),
     verification_gas_limit = u256_of_bytes (bytes_at 92 32 enc),
     pre_verification_gas = u256_of_bytes (bytes_at 124 32 enc),
     max_fee_per_gas = u256_of_bytes (bytes_at 156 32 enc),
     max_priority_fee_per_gas = u256_of_bytes (bytes_at 188 32 enc),
     paymaster_and_data = [], signature = []\<rparr>"

lemma length_bytes_at [simp]: "i + n \<le> length enc \<Longrightarrow> length (bytes_at i n enc) = n"
  by (simp add: bytes_at_def)

lemma unpack_u256:
  "ssz_documented L \<Longrightarrow>
   ssz_unpack_u256 L i enc =
     (if i + 32 \<le> length enc then Ok (u256_of_bytes (bytes_at i 32 enc), 32) else Panic)"
  by (simp add: ssz_unpack_u256_def slice_range_def ssz_documented_def u256_of_bytes_def bytes_at_def)

lemma unpack_bytes_length:
  "ssz_documented L \<Longrightarrow>
   ssz_unpack_bytes_length L i enc os =
     (if i + 4 \<le> length enc then Ok (os @ [offset_at i enc]) else Panic)"
  by (simp add: ssz_unpack_bytes_length_def slice_range_def ssz_documented_def offset_at_def bytes_at_def)

lemma read_fixed:
  assumes "ssz_documented L"
  shows "ssz_read_fixed L enc =
     (if length enc < 20 then Err (ExpectedFurtherInput (length enc) 20)
      else if length enc < 228 then Panic
      else Ok (fixed_of enc, message_offsets enc, 228))"
proof -
  have "length bs = 20 \<Longrightarrow> read_bytes L bs = Ok bs" for bs
    using assms by (simp add: ssz_documented_def)
  then show ?thesis
    by (simp add: ssz_read_fixed_def slice_get_def unpack_u256 [OF assms] unpack_bytes_length [OF assms]
        fixed_of_def message_offsets_def Let_def)
qed

lemma deserialize_long:
  assumes "ssz_documented L" "228 \<le> length enc" "message_offsets enc = [a, b, c, d]"
  shows "ssz_deserialize L enc =
     (if \<not> (a \<le> b \<and> b \<le> c \<and> c \<le> d \<and> d \<le> length enc) then Panic
      else if a < 228 then Err (ExpectedFurtherInput (length enc) (228 + (length enc - a)))
      else if 228 < a then Err (AdditionalInput (length enc) (228 + (length enc - a)))
      else Ok ((fixed_of enc)\<lparr>init_code := bytes_at a (b - a) enc, call_data := bytes_at b (c - b) enc,
        paymaster_and_data := bytes_at c (d - c) enc, signature := drop d enc\<rparr>))"
  using assms(2,3)
  by (auto simp: ssz_deserialize_def read_fixed [OF assms(1)] windows2_def slice_range_def Let_def
      bytes_at_def)

text \<open>C12: Which messages crash the reader. The deserializer rejects a message of fewer than twenty bytes
  with an error. It panics on every message of 20 to 227 bytes, and on every longer message whose
  four offsets are not increasing or point past the end of the message; it panics on no other
  message. Only the first field is read with a checked access.
\<close>

theorem ssz_deserialize_panics_iff:
  assumes "ssz_documented L"
  shows "ssz_deserialize L enc = Panic \<longleftrightarrow>
    20 \<le> length enc \<and> (length enc < 228 \<or> \<not> sorted (message_offsets enc @ [length enc]))"
proof (cases "length enc < 228")
  case True
  then show ?thesis by (auto simp: ssz_deserialize_def read_fixed [OF assms])
next
  case False
  then show ?thesis
    using deserialize_long [OF assms, of enc, OF _ message_offsets_def]
    by (auto simp: message_offsets_def)
qed

section \<open>The encoding is canonical\<close>

definition encoded :: "user_operation_signed \<Rightarrow> bytes" where
  "encoded uo =
     to_fixed_bytes (sender uo) @ u256_bytes (nonce uo) @
     to_le_bytes 4 (228 :: 32 word) @
     to_le_bytes 4 (of_nat (228 + length (init_code uo)) :: 32 word) @
     u256_bytes (call_gas_limit uo) @ u256_bytes (verification_gas_limit uo) @
     u256_bytes (pre_verification_gas uo) @ u256_bytes (max_fee_per_gas uo) @
     u256_bytes (max_priority_fee_per_gas uo) @
     to_le_bytes 4 (of_nat (228 + length (init_code uo) + length (call_data uo)) :: 32 word) @
     to_le_bytes 4 (of_nat (228 + length (init_code uo) + length (call_data uo) +
       length (paymaster_and_data uo)) :: 32 word) @
     init_code uo @ call_data uo @ paymaster_and_data uo @ signature uo"

definition fields_fit :: "user_operation_signed \<Rightarrow> bool" where
  "fields_fit uo = list_all (\<lambda>bs. length bs \<le> 1024)
     [init_code uo, call_data uo, paymaster_and_data uo, signature uo]"

lemma length_encoded:
  "length (encoded uo) = 228 + length (init_code uo) + length (call_data uo) +
     length (paymaster_and_data uo) + length (signature uo)"
  by (simp add: encoded_def to_fixed_bytes_def)

lemma ssz_serialize_eq:
  assumes "ssz_documented L"
  shows "(ssz_serialize L uo buffer = Ok r) = (fields_fit uo \<and> r = (length (encoded uo), buffer @ encoded uo))"
proof -
  let ?es = "[Byte_Vector (to_fixed_bytes (sender uo)), U64_Vector (limbs (nonce uo)),
    Byte_List (init_code uo), Byte_List (call_data uo), U64_Vector (limbs (call_gas_limit uo)),
    U64_Vector (limbs (verification_gas_limit uo)), U64_Vector (limbs (pre_verification_gas uo)),
    U64_Vector (limbs (max_fee_per_gas uo)), U64_Vector (limbs (max_priority_fee_per_gas uo)),
    Byte_List (paymaster_and_data uo), Byte_List (signature uo)]"
  have "length (limbs w) = 4" for w by (simp add: limbs_def)
  then have "simple_serialize ?es = encoded uo"
    by (simp add: simple_serialize_def encoded_def to_fixed_bytes_def u256_bytes_def)
  then have "fields_fit uo \<Longrightarrow> container L ?es = Ok (encoded uo)"
    using assms length_encoded [of uo] by (simp add: ssz_documented_def fields_fit_def)
  then show ?thesis
    using assms
    by (auto simp: ssz_serialize_def btyes_to_list_def ssz_documented_def fields_fit_def
        MAXIMUM_SSZ_BYTES_LENGTH_def)
qed

lemma offset_of_nat: "n < 2 ^ 32 \<Longrightarrow> unat (from_le_bytes (to_le_bytes 4 (of_nat n :: 32 word)) :: 32 word) = n"
  by (simp add: from_to_le_bytes unat_of_nat_small)

lemma deserialize_encoded:
  assumes "ssz_documented L" "fields_fit uo"
  shows "ssz_deserialize L (encoded uo) = Ok uo"
proof -
  let ?a = "228 :: nat"
  let ?b = "?a + length (init_code uo)"
  let ?c = "?b + length (call_data uo)"
  let ?d = "?c + length (paymaster_and_data uo)"
  have lens: "?b < 2 ^ 32" "?c < 2 ^ 32" "?d < 2 ^ 32"
    using assms(2) by (simp_all add: fields_fit_def)
  have offs: "message_offsets (encoded uo) = [?a, ?b, ?c, ?d]"
    using offset_of_nat [OF lens(1)] offset_of_nat [OF lens(2)] offset_of_nat [OF lens(3)]
      offset_of_nat [of 228]
    by (simp add: message_offsets_def offset_at_def bytes_at_def encoded_def to_fixed_bytes_def)
  have "(fixed_of (encoded uo))\<lparr>init_code := init_code uo, call_data := call_data uo,
      paymaster_and_data := paymaster_and_data uo, signature := signature uo\<rparr> = uo"
    by (cases uo) (simp add: fixed_of_def bytes_at_def encoded_def to_fixed_bytes_def
        address_from_slice_def from_to_be_bytes)
  then show ?thesis
    using deserialize_long [OF assms(1) _ offs] length_encoded [of uo]
    by (simp add: bytes_at_def encoded_def to_fixed_bytes_def)
qed

lemma bytes_at_append: "bytes_at i n enc @ drop (i + n) enc = drop i enc"
  by (metis append_take_drop_id bytes_at_def drop_drop add.commute)

lemma encoded_deserialized:
  assumes "ssz_documented L" "ssz_deserialize L enc = Ok uo"
  shows "encoded uo = enc"
proof -
  have len: "228 \<le> length enc"
    using assms(2) by (auto simp: ssz_deserialize_def read_fixed [OF assms(1)] split: if_splits)
  obtain a b c d where offs: "message_offsets enc = [a, b, c, d]"
    by (simp add: message_offsets_def)
  have a: "a = 228" "a \<le> b" "b \<le> c" "c \<le> d" "d \<le> length enc"
    and uo: "uo = (fixed_of enc)\<lparr>init_code := bytes_at a (b - a) enc,
      call_data := bytes_at b (c - b) enc, paymaster_and_data := bytes_at c (d - c) enc,
      signature := drop d enc\<rparr>"
    using assms(2) deserialize_long [OF assms(1) len offs] by (auto split: if_splits)
  have w: "of_nat (offset_at i enc) = (from_le_bytes (bytes_at i 4 enc) :: 32 word)" for i
    by (simp add: offset_at_def)
  have "to_le_bytes 4 (of_nat (offset_at i enc) :: 32 word) = bytes_at i 4 enc" if "i + 4 \<le> 228" for i
    using that len by (simp add: w to_from_le_bytes)
  then have words: "to_le_bytes 4 (of_nat a :: 32 word) = bytes_at 52 4 enc"
    "to_le_bytes 4 (of_nat b :: 32 word) = bytes_at 56 4 enc"
    "to_le_bytes 4 (of_nat c :: 32 word) = bytes_at 220 4 enc"
    "to_le_bytes 4 (of_nat d :: 32 word) = bytes_at 224 4 enc"
    using offs by (auto simp: message_offsets_def)
  have "to_fixed_bytes (address_from_slice (take 20 enc)) = take 20 enc"
    using len to_from_be_bytes [of "take 20 enc", where 'a = 160]
    by (simp add: to_fixed_bytes_def address_from_slice_def)
  moreover have "bytes_at a (b - a) enc @ bytes_at b (c - b) enc @ bytes_at c (d - c) enc @ drop d enc
      = drop a enc"
    using a bytes_at_append [of c "d - c" enc] bytes_at_append [of b "c - b" enc]
      bytes_at_append [of a "b - a" enc] by simp
  moreover have "a + (b - a) = b" "b + (c - b) = c" "c + (d - c) = d" using a by simp_all
  ultimately show ?thesis
    using len a words bytes_at_append [of 20 32 enc] bytes_at_append [of 52 4 enc]
      bytes_at_append [of 56 4 enc] bytes_at_append [of 60 32 enc] bytes_at_append [of 92 32 enc]
      bytes_at_append [of 124 32 enc] bytes_at_append [of 156 32 enc] bytes_at_append [of 188 32 enc]
      bytes_at_append [of 220 4 enc] bytes_at_append [of 224 4 enc] append_take_drop_id [of 20 enc]
    by (simp add: encoded_def uo fixed_of_def)
qed

text \<open>C11: The encoding on the network is canonical. Serializing an operation into an empty buffer gives
  certain bytes exactly when deserializing these bytes gives the operation and its four byte strings
  have at most 1024 bytes each: what one node sends every other node reads back unchanged, two
  messages for the same operation do not exist, and an accepted message is written back byte for
  byte unless one of its byte strings is longer than the sending side allows.
\<close>

theorem ssz_encoding_canonical:
  assumes "ssz_documented L"
  shows "ssz_serialize L uo [] = Ok (length enc, enc) \<longleftrightarrow>
    ssz_deserialize L enc = Ok uo \<and>
    list_all (\<lambda>bs. length bs \<le> 1024) [init_code uo, call_data uo, paymaster_and_data uo, signature uo]"
  using deserialize_encoded [OF assms, of uo] encoded_deserialized [OF assms, of enc uo]
  by (auto simp: ssz_serialize_eq [OF assms] fields_fit_def)

section \<open>An instance of the library\<close>

definition reference_ssz :: ssz_rs where
  "reference_ssz = \<lparr>
     container = (\<lambda>es. if length (simple_serialize es) < 2 ^ 32 then Ok (simple_serialize es)
       else Err (MaximumEncodedLengthReached (length (simple_serialize es)))),
     list_fits = (\<lambda>n bs. length bs \<le> n),
     read_bytes = (\<lambda>bs. if length bs = 20 then Ok bs else Err Deserialize_Other),
     read_u64s = (\<lambda>bs. if length bs = 32 then Ok (map from_le_bytes (chunks_of_8 bs))
       else Err Deserialize_Other),
     read_u32 = (\<lambda>bs. if length bs = 4 then Ok (from_le_bytes bs) else Err Deserialize_Other)\<rparr>"

lemma reference_ssz_documented: "ssz_documented reference_ssz"
  by (simp add: ssz_documented_def reference_ssz_def)

theorem ssz_deserialize_panics_iff_witness:
  "ssz_documented reference_ssz \<and> ssz_deserialize reference_ssz (replicate 20 0) = Panic"
  using ssz_deserialize_panics_iff [OF reference_ssz_documented, of "replicate 20 0"]
    reference_ssz_documented by simp

definition sample_signed :: user_operation_signed where
  "sample_signed = \<lparr>sender = 7, nonce = 2 ^ 200, init_code = [], call_data = [1, 2], call_gas_limit = 3,
     verification_gas_limit = 4, pre_verification_gas = 5, max_fee_per_gas = 6,
     max_priority_fee_per_gas = 1, paymaster_and_data = [], signature = [9]\<rparr>"

theorem ssz_encoding_canonical_witness:
  "ssz_documented reference_ssz \<and>
   ssz_serialize reference_ssz sample_signed [] = Ok (231, encoded sample_signed) \<and>
   ssz_deserialize reference_ssz (encoded sample_signed) = Ok sample_signed"
proof -
  have "fields_fit sample_signed" by (simp add: fields_fit_def sample_signed_def)
  moreover have "length (encoded sample_signed) = 231"
    by (simp add: length_encoded sample_signed_def)
  ultimately have "ssz_serialize reference_ssz sample_signed [] = Ok (231, encoded sample_signed)"
    by (simp add: ssz_serialize_eq [OF reference_ssz_documented])
  then show ?thesis
    using ssz_encoding_canonical [OF reference_ssz_documented, of sample_signed "encoded sample_signed"]
      reference_ssz_documented \<open>length (encoded sample_signed) = 231\<close> by simp
qed

end
