(* ===== verification/Wire_Codec.thy ===== *)
theory Wire_Codec
  imports Ssz_Codec
begin

text \<open>
  The messages of the request-response protocol between nodes (\<open>p2p/src/rpc\<close>): their types, the two
  codecs, and the work of a connection handler on one substream.

  A message is \<open>[result byte] varint(length) snappy(ssz)\<close>; only a response has the result byte. The
  variable length integers, the snappy frames and the derived serialization of the message structs
  belong to libraries and are fields of the record \<open>wire\<close>; \<open>wire_documented\<close> says that reading inverts
  writing. An \<open>io::Error\<close> is its message.
\<close>

section \<open>Messages\<close>

record verified_user_operation =
  v_user_operation :: user_operation_signed
  v_entry_point :: bytes
  v_verified_at_block_hash :: U256

definition new_verified :: "user_operation_signed \<Rightarrow> address \<Rightarrow> U256 \<Rightarrow> verified_user_operation" where
  "new_verified uo ep block = \<lparr>v_user_operation = uo, v_entry_point = to_fixed_bytes ep,
     v_verified_at_block_hash = block\<rparr>"

definition verified_entry_point :: "verified_user_operation \<Rightarrow> address" where
  "verified_entry_point v = address_from_slice (v_entry_point v)"

record meta_data =
  seq_number :: u64
  supported_mempools :: "bytes list"

record status_message =
  st_chain_id :: u64
  st_block_hash :: bytes
  st_block_number :: u64

datatype goodbye_reason = ClientShutdown | IrrelevantNetwork | GoodbyeError | Unknown u64

definition goodbye_of_u64 :: "u64 \<Rightarrow> goodbye_reason" where
  "goodbye_of_u64 v =
     (if v = 1 then ClientShutdown else if v = 2 then IrrelevantNetwork
      else if v = 3 then GoodbyeError else Unknown v)"

fun u64_of_goodbye :: "goodbye_reason \<Rightarrow> u64" where
  "u64_of_goodbye ClientShutdown = 1"
| "u64_of_goodbye IrrelevantNetwork = 2"
| "u64_of_goodbye GoodbyeError = 3"
| "u64_of_goodbye (Unknown v) = v"

record ping = ping_data :: u64

record hashes_request = hr_cursor :: bytes

record by_hash_request = br_hashes :: "bytes list"

record hashes_response =
  hresp_hashes :: "bytes list"
  hresp_next_cursor :: bytes

record ops_by_hash_response = bresp_hashes :: "verified_user_operation list"

datatype protocol = PStatus | PGoodbye | PPing | PMetaData | PPooledUserOpHashes | PPooledUserOpsByHash

text \<open>\<open>InboundRequest\<close> and \<open>OutboundRequest\<close> have the same six constructors.\<close>

datatype rpc_request =
    Q_Status status_message
  | Q_Goodbye goodbye_reason
  | Q_Ping ping
  | Q_MetaData
  | Q_PooledUserOpHashes hashes_request
  | Q_PooledUserOpsByHash by_hash_request

datatype rpc_response =
    R_Status status_message
  | R_Goodbye goodbye_reason
  | R_Pong ping
  | R_MetaData meta_data
  | R_PooledUserOpHashes hashes_response
  | R_PooledUserOpsByHash ops_by_hash_response

fun protocol_info :: "rpc_request \<Rightarrow> protocol" where
  "protocol_info (Q_Status _) = PStatus"
| "protocol_info (Q_Goodbye _) = PGoodbye"
| "protocol_info (Q_Ping _) = PPing"
| "protocol_info Q_MetaData = PMetaData"
| "protocol_info (Q_PooledUserOpHashes _) = PPooledUserOpHashes"
| "protocol_info (Q_PooledUserOpsByHash _) = PPooledUserOpsByHash"

fun show_protocol :: "protocol \<Rightarrow> string" where
  "show_protocol PStatus = ''status''"
| "show_protocol PGoodbye = ''goodbye''"
| "show_protocol PPing = ''ping''"
| "show_protocol PMetaData = ''metadata''"
| "show_protocol PPooledUserOpHashes = ''pooled_user_op_hashes''"
| "show_protocol PPooledUserOpsByHash = ''pooled_user_ops_by_hash''"

definition protocol_id :: "protocol \<Rightarrow> string" where
  "protocol_id p = ''/account_abstraction/req'' @ ''/'' @ show_protocol p @ ''/'' @ ''1'' @ ''/'' @ ''ssz_snappy''"

definition SUPPORTED_PROTOCOLS :: "protocol list" where
  "SUPPORTED_PROTOCOLS =
     [PStatus, PGoodbye, PPing, PMetaData, PPooledUserOpHashes, PPooledUserOpsByHash]"

datatype handler_error =
    IoError string
  | SSZError string
  | HandlerDeserialize deserialize_error
  | HandlerSerialize serialize_error

section \<open>The libraries\<close>

record 'a ssz_codec =
  ser :: "'a \<Rightarrow> (serialize_error, bytes) outcome"
  de :: "bytes \<Rightarrow> (deserialize_error, 'a) outcome"

record wire =
  uvi_encode :: "nat \<Rightarrow> bytes"
  uvi_decode :: "bytes \<Rightarrow> (string, nat option \<times> bytes) outcome"
  snap_encode :: "bytes \<Rightarrow> (string, bytes) outcome"
  snap_decode :: "bytes \<Rightarrow> (string, bytes) outcome"
  status_ssz :: "status_message ssz_codec"
  u64_ssz :: "u64 ssz_codec"
  ping_ssz :: "ping ssz_codec"
  metadata_ssz :: "meta_data ssz_codec"
  hashes_request_ssz :: "hashes_request ssz_codec"
  by_hash_request_ssz :: "by_hash_request ssz_codec"
  hashes_response_ssz :: "hashes_response ssz_codec"
  by_hash_response_ssz :: "ops_by_hash_response ssz_codec"

definition ssz_inverts :: "'a ssz_codec \<Rightarrow> bool" where
  "ssz_inverts c = (\<forall>x bs. ser c x = Ok bs \<longrightarrow> de c bs = Ok x)"

definition wire_documented :: "wire \<Rightarrow> bool" where
  "wire_documented W =
     ((\<forall>n rest. uvi_decode W (uvi_encode W n @ rest) = Ok (Some n, rest)) \<and>
      (\<forall>n. uvi_encode W n \<noteq> []) \<and>
      (\<forall>bs c. snap_encode W bs = Ok c \<longrightarrow> snap_decode W c = Ok bs) \<and>
      ssz_inverts (status_ssz W) \<and> ssz_inverts (u64_ssz W) \<and> ssz_inverts (ping_ssz W) \<and>
      ssz_inverts (metadata_ssz W) \<and> ssz_inverts (hashes_request_ssz W) \<and>
      ssz_inverts (by_hash_request_ssz W) \<and> ssz_inverts (hashes_response_ssz W) \<and>
      ssz_inverts (by_hash_response_ssz W))"

section \<open>Codecs\<close>

definition goodbye_serialize :: "wire \<Rightarrow> goodbye_reason \<Rightarrow> (serialize_error, bytes) outcome" where
  "goodbye_serialize W r = ser (u64_ssz W) (u64_of_goodbye r)"

definition goodbye_deserialize :: "wire \<Rightarrow> bytes \<Rightarrow> (deserialize_error, goodbye_reason) outcome" where
  "goodbye_deserialize W bs = bind_ok (de (u64_ssz W) bs) (\<lambda>v. Ok (goodbye_of_u64 v))"

definition response_serialize :: "wire \<Rightarrow> rpc_response \<Rightarrow> (serialize_error, bytes) outcome" where
  "response_serialize W r =
     (case r of
        R_Status s \<Rightarrow> ser (status_ssz W) s
      | R_Goodbye g \<Rightarrow> goodbye_serialize W g
      | R_Pong p \<Rightarrow> ser (ping_ssz W) p
      | R_MetaData m \<Rightarrow> ser (metadata_ssz W) m
      | R_PooledUserOpHashes h \<Rightarrow> ser (hashes_response_ssz W) h
      | R_PooledUserOpsByHash h \<Rightarrow> ser (by_hash_response_ssz W) h)"

text \<open>The codec of the answering side; encoding appends to the buffer.\<close>

definition inbound_encode :: "wire \<Rightarrow> rpc_response \<Rightarrow> bytes \<Rightarrow> (handler_error, bytes) outcome" where
  "inbound_encode W item dst =
     (let dst = dst @ [0] in
      bind_ok (map_err HandlerSerialize (response_serialize W item)) (\<lambda>ssz_bytes.
      let dst = dst @ uvi_encode W (length ssz_bytes) in
      bind_ok (map_err IoError (snap_encode W ssz_bytes)) (\<lambda>compressed_data.
      Ok (dst @ compressed_data))))"

definition inbound_decode :: "wire \<Rightarrow> protocol \<Rightarrow> bytes \<Rightarrow> (handler_error, rpc_request option) outcome" where
  "inbound_decode W p src =
     (if src = [] \<and> p \<noteq> PMetaData then Err (IoError ''No data received'')
      else
        bind_ok (map_err IoError (uvi_decode W src)) (\<lambda>(_, src).
        bind_ok (map_err IoError (snap_decode W src)) (\<lambda>buffer.
        bind_ok (map_err HandlerDeserialize (case p of
            PStatus \<Rightarrow> bind_ok (de (status_ssz W) buffer) (\<lambda>x. Ok (Q_Status x))
          | PGoodbye \<Rightarrow> bind_ok (goodbye_deserialize W buffer) (\<lambda>x. Ok (Q_Goodbye x))
          | PPing \<Rightarrow> bind_ok (de (ping_ssz W) buffer) (\<lambda>x. Ok (Q_Ping x))
          | PMetaData \<Rightarrow> Ok Q_MetaData
          | PPooledUserOpHashes \<Rightarrow> bind_ok (de (hashes_request_ssz W) buffer) (\<lambda>x. Ok (Q_PooledUserOpHashes x))
          | PPooledUserOpsByHash \<Rightarrow>
              bind_ok (de (by_hash_request_ssz W) buffer) (\<lambda>x. Ok (Q_PooledUserOpsByHash x))))
        (\<lambda>request. Ok (Some request)))))"

text \<open>The codec of the asking side.\<close>

definition outbound_encode :: "wire \<Rightarrow> rpc_request \<Rightarrow> bytes \<Rightarrow> (handler_error, bytes) outcome" where
  "outbound_encode W item dst =
     bind_ok (map_err HandlerSerialize (case item of
         Q_Status s \<Rightarrow> ser (status_ssz W) s
       | Q_Goodbye g \<Rightarrow> goodbye_serialize W g
       | Q_Ping p \<Rightarrow> ser (ping_ssz W) p
       | Q_MetaData \<Rightarrow> Ok []
       | Q_PooledUserOpHashes h \<Rightarrow> ser (hashes_request_ssz W) h
       | Q_PooledUserOpsByHash h \<Rightarrow> ser (by_hash_request_ssz W) h)) (\<lambda>buffer.
     let dst = dst @ uvi_encode W (length buffer) in
     bind_ok (map_err IoError (snap_encode W buffer)) (\<lambda>compressed_data.
     Ok (dst @ compressed_data)))"

text \<open>\<open>split_to(1)\<close> panics when the buffer is empty.\<close>

definition outbound_decode :: "wire \<Rightarrow> protocol \<Rightarrow> bytes \<Rightarrow> (handler_error, rpc_response option) outcome" where
  "outbound_decode W p src =
     (case src of
        [] \<Rightarrow> Panic
      | _ # src \<Rightarrow>
        bind_ok (map_err IoError (uvi_decode W src)) (\<lambda>(_, src).
        bind_ok (map_err IoError (snap_decode W src)) (\<lambda>decompressed_data.
        bind_ok (map_err HandlerDeserialize (case p of
            PStatus \<Rightarrow> bind_ok (de (status_ssz W) decompressed_data) (\<lambda>x. Ok (R_Status x))
          | PGoodbye \<Rightarrow> bind_ok (goodbye_deserialize W decompressed_data) (\<lambda>x. Ok (R_Goodbye x))
          | PPing \<Rightarrow> bind_ok (de (ping_ssz W) decompressed_data) (\<lambda>x. Ok (R_Pong x))
          | PMetaData \<Rightarrow> bind_ok (de (metadata_ssz W) decompressed_data) (\<lambda>x. Ok (R_MetaData x))
          | PPooledUserOpHashes \<Rightarrow>
              bind_ok (de (hashes_response_ssz W) decompressed_data) (\<lambda>x. Ok (R_PooledUserOpHashes x))
          | PPooledUserOpsByHash \<Rightarrow>
              bind_ok (de (by_hash_response_ssz W) decompressed_data) (\<lambda>x. Ok (R_PooledUserOpsByHash x))))
        (\<lambda>response. Ok (Some response)))))"

section \<open>One substream of a connection\<close>

type_synonym request_id = u64

definition REQUEST_SIZE_MAXIMUM :: nat where
  "REQUEST_SIZE_MAXIMUM = 1024 * 1024"

definition RESPONSE_SIZE_MAXIMUM :: nat where
  "RESPONSE_SIZE_MAXIMUM = 10 * 1024 * 1024"

datatype handler_event =
    H_Request request_id rpc_request
  | H_Response request_id rpc_response
  | H_ResponseSent request_id
  | H_ResponseOmission request_id
  | H_InboundTimeout request_id
  | H_OutboundTimeout request_id
  | H_InboundError request_id handler_error
  | H_OutboundError request_id handler_error
  | H_DialUpgradeTimeout request_id
  | H_OutboundUnsuportedProtocol request_id

text \<open>
  What the other side does: the bytes it sends before it closes the stream, and the results of our
  writes and closes. \<open>answer\<close> is what the rest of the node sends back for a request, if anything, and
  \<open>alive\<close> says whether the protocol handler still holds the receiver of the request; the worker panics
  when it does not.
\<close>

record socket =
  sk_read :: "(string, bytes) outcome"
  sk_write_all :: "bytes \<Rightarrow> (string, unit) outcome"
  sk_close :: "(string, unit) outcome"

definition inbound_worker ::
  "wire \<Rightarrow> protocol \<Rightarrow> request_id \<Rightarrow> bool \<Rightarrow> (rpc_request \<Rightarrow> rpc_response option) \<Rightarrow> socket \<Rightarrow>
   (handler_error, handler_event) outcome" where
  "inbound_worker W p req_id alive answer sock =
     bind_ok (map_err IoError (sk_read sock)) (\<lambda>data.
     bind_ok (inbound_decode W p (take REQUEST_SIZE_MAXIMUM data)) (\<lambda>decoded.
     bind_ok (ok_or (IoError ''Failed to decode request'') decoded) (\<lambda>request.
     bind_ok (if alive then Ok () else Panic) (\<lambda>_.
     case answer request of
       Some response \<Rightarrow>
         bind_ok (inbound_encode W response []) (\<lambda>bytes.
         bind_ok (map_err IoError (sk_write_all sock bytes)) (\<lambda>_.
         bind_ok (map_err IoError (sk_close sock)) (\<lambda>_.
         Ok (H_ResponseSent req_id))))
     | None \<Rightarrow>
         bind_ok (map_err IoError (sk_close sock)) (\<lambda>_. Ok (H_ResponseOmission req_id))))))"

definition outbound_worker ::
  "wire \<Rightarrow> protocol \<Rightarrow> request_id \<Rightarrow> rpc_request \<Rightarrow> socket \<Rightarrow> (handler_error, handler_event) outcome" where
  "outbound_worker W p req_id request sock =
     bind_ok (outbound_encode W request []) (\<lambda>bytes.
     bind_ok (map_err IoError (sk_write_all sock bytes)) (\<lambda>_.
     bind_ok (map_err IoError (sk_close sock)) (\<lambda>_.
     bind_ok (map_err IoError (sk_read sock)) (\<lambda>data.
     bind_ok (outbound_decode W p (take RESPONSE_SIZE_MAXIMUM data)) (\<lambda>decoded.
     bind_ok (ok_or (IoError ''Failed to decode response'') decoded) (\<lambda>response.
     Ok (H_Response req_id response)))))))"

section \<open>Round trips\<close>

text \<open>An unknown reason whose number is a known one is read back as the known one.\<close>

definition normal_goodbye :: "goodbye_reason \<Rightarrow> goodbye_reason" where
  "normal_goodbye g = goodbye_of_u64 (u64_of_goodbye g)"

fun normal_request :: "rpc_request \<Rightarrow> rpc_request" where
  "normal_request (Q_Goodbye g) = Q_Goodbye (normal_goodbye g)"
| "normal_request q = q"

fun normal_response :: "rpc_response \<Rightarrow> rpc_response" where
  "normal_response (R_Goodbye g) = R_Goodbye (normal_goodbye g)"
| "normal_response r = r"

fun response_protocol :: "rpc_response \<Rightarrow> protocol" where
  "response_protocol (R_Status _) = PStatus"
| "response_protocol (R_Goodbye _) = PGoodbye"
| "response_protocol (R_Pong _) = PPing"
| "response_protocol (R_MetaData _) = PMetaData"
| "response_protocol (R_PooledUserOpHashes _) = PPooledUserOpHashes"
| "response_protocol (R_PooledUserOpsByHash _) = PPooledUserOpsByHash"

lemma goodbye_round [simp]: "u64_of_goodbye (goodbye_of_u64 v) = v"
  by (simp add: goodbye_of_u64_def)

lemma normal_goodbye_eq: "normal_goodbye g = (case g of Unknown v \<Rightarrow> goodbye_of_u64 v | _ \<Rightarrow> g)"
  by (cases g) (simp_all add: normal_goodbye_def goodbye_of_u64_def)

lemma wireD:
  assumes "wire_documented W"
  shows "uvi_decode W (uvi_encode W n @ rest) = Ok (Some n, rest)"
    and "uvi_encode W n \<noteq> []"
    and "snap_encode W bs = Ok c \<Longrightarrow> snap_decode W c = Ok bs"
    and "ser (status_ssz W) st = Ok bs \<Longrightarrow> de (status_ssz W) bs = Ok st"
    and "ser (u64_ssz W) v = Ok bs \<Longrightarrow> de (u64_ssz W) bs = Ok v"
    and "ser (ping_ssz W) p = Ok bs \<Longrightarrow> de (ping_ssz W) bs = Ok p"
    and "ser (metadata_ssz W) m = Ok bs \<Longrightarrow> de (metadata_ssz W) bs = Ok m"
    and "ser (hashes_request_ssz W) hq = Ok bs \<Longrightarrow> de (hashes_request_ssz W) bs = Ok hq"
    and "ser (by_hash_request_ssz W) bq = Ok bs \<Longrightarrow> de (by_hash_request_ssz W) bs = Ok bq"
    and "ser (hashes_response_ssz W) hr = Ok bs \<Longrightarrow> de (hashes_response_ssz W) bs = Ok hr"
    and "ser (by_hash_response_ssz W) br = Ok bs \<Longrightarrow> de (by_hash_response_ssz W) bs = Ok br"
  using assms by (simp_all add: wire_documented_def ssz_inverts_def)

lemma request_round:
  assumes "wire_documented W" "outbound_encode W q [] = Ok bs"
  shows "inbound_decode W (protocol_info q) bs = Ok (Some (normal_request q))"
proof -
  note w = wireD [OF assms(1)]
  show ?thesis
    using assms(2)
    by (cases q) (auto simp: outbound_encode_def inbound_decode_def bind_ok_eq_Ok w goodbye_serialize_def
        goodbye_deserialize_def normal_goodbye_def dest: w(3) w(5) w(4) w(6-11))
qed

lemma response_round:
  assumes "wire_documented W" "inbound_encode W r [] = Ok bs"
  shows "outbound_decode W (response_protocol r) bs = Ok (Some (normal_response r))"
proof -
  note w = wireD [OF assms(1)]
  show ?thesis
    using assms(2)
    by (cases r) (auto simp: inbound_encode_def outbound_decode_def response_serialize_def bind_ok_eq_Ok
        w goodbye_serialize_def goodbye_deserialize_def normal_goodbye_def Let_def
        dest: w(3) w(5) w(4) w(6-11))
qed

text \<open>C13: A request and its answer survive the wire. Let the protocol handler of the answering side be
  alive. Let the asking side write a request of at most one
  MiB, and let the answering side have a response of the same protocol that encodes to at most ten
  MiB. Then the answering side reads exactly that request, writes the response and reports it sent,
  and the asking side reads exactly that response. The only change in transit is that an unknown
  goodbye reason with the number of a known one arrives as the known one.
\<close>

theorem exchange_round_trip:
  assumes "wire_documented W"
    and "outbound_encode W q [] = Ok sent" "length sent \<le> 1024 * 1024"
    and "answer (normal_request q) = Some r" "response_protocol r = protocol_info q"
    and "inbound_encode W r [] = Ok reply" "length reply \<le> 10 * 1024 * 1024"
    and "sk_read server = Ok sent" "sk_write_all server reply = Ok ()" "sk_close server = Ok ()"
    and "sk_read client = Ok reply" "sk_write_all client sent = Ok ()" "sk_close client = Ok ()"
  shows "inbound_worker W (protocol_info q) i True answer server = Ok (H_ResponseSent i) \<and>
    outbound_worker W (protocol_info q) j q client = Ok (H_Response j (normal_response r))"
  using request_round [OF assms(1,2)] response_round [OF assms(1,6)] assms(2-)
  by (simp add: inbound_worker_def outbound_worker_def REQUEST_SIZE_MAXIMUM_def RESPONSE_SIZE_MAXIMUM_def)

text \<open>C18: A missing answer crashes the asking side. When the answering side, whose protocol handler is
  alive, drops a request it closes the
  stream without writing anything and reports an omission; the asking side, which reads no bytes, then
  does not report an error but panics, whatever it had asked.
\<close>

theorem omitted_response_panics:
  assumes "wire_documented W"
    and "outbound_encode W q [] = Ok sent" "length sent \<le> 1024 * 1024"
    and "answer (normal_request q) = None"
    and "sk_read server = Ok sent" "sk_close server = Ok ()"
    and "sk_read client = Ok []" "sk_write_all client sent = Ok ()" "sk_close client = Ok ()"
  shows "inbound_worker W (protocol_info q) i True answer server = Ok (H_ResponseOmission i) \<and>
    outbound_worker W (protocol_info q) j q client = Panic"
  using request_round [OF assms(1,2)] assms(2-)
  by (simp add: inbound_worker_def outbound_worker_def REQUEST_SIZE_MAXIMUM_def outbound_decode_def)

section \<open>An instance of the libraries\<close>

definition no_ssz :: "'a ssz_codec" where
  "no_ssz = \<lparr>ser = (\<lambda>_. Err Serialize_Other), de = (\<lambda>_. Err Deserialize_Other)\<rparr>"

definition le_ssz :: "('a \<Rightarrow> u64) \<Rightarrow> (u64 \<Rightarrow> 'a) \<Rightarrow> 'a ssz_codec" where
  "le_ssz f g = \<lparr>ser = (\<lambda>x. Ok (to_le_bytes 8 (f x))),
     de = (\<lambda>bs. if length bs = 8 then Ok (g (from_le_bytes bs)) else Err (ExpectedFurtherInput (length bs) 8))\<rparr>"

text \<open>The instance writes the length in unary and does not compress.\<close>

definition ref_wire :: wire where
  "ref_wire = \<lparr>
     uvi_encode = (\<lambda>n. replicate n 1 @ [0]),
     uvi_decode = (\<lambda>bs. Ok (Some (length (takeWhile (\<lambda>b. b = 1) bs)), drop 1 (dropWhile (\<lambda>b. b = 1) bs))),
     snap_encode = Ok, snap_decode = Ok,
     status_ssz = no_ssz, u64_ssz = le_ssz id id, ping_ssz = le_ssz ping_data (\<lambda>v. \<lparr>ping_data = v\<rparr>),
     metadata_ssz = no_ssz, hashes_request_ssz = no_ssz, by_hash_request_ssz = no_ssz,
     hashes_response_ssz = no_ssz, by_hash_response_ssz = no_ssz\<rparr>"

lemma ref_wire_documented: "wire_documented ref_wire"
proof -
  have "takeWhile (\<lambda>b. b = 1) (replicate n 1 @ 0 # rest) = replicate n (1 :: u8)"
    and "dropWhile (\<lambda>b. b = 1) (replicate n 1 @ 0 # rest) = 0 # (rest :: bytes)" for n rest
    by (induction n) auto
  then show ?thesis
    by (simp add: wire_documented_def ref_wire_def ssz_inverts_def no_ssz_def le_ssz_def from_to_le_bytes)
qed

definition sample_ping :: rpc_request where
  "sample_ping = Q_Ping \<lparr>ping_data = 3\<rparr>"

definition ping_bytes :: bytes where
  "ping_bytes = replicate 8 1 @ [0] @ to_le_bytes 8 (3 :: u64)"

definition socket_reading :: "bytes \<Rightarrow> socket" where
  "socket_reading bs = \<lparr>sk_read = Ok bs, sk_write_all = (\<lambda>_. Ok ()), sk_close = Ok ()\<rparr>"

lemma sample_ping_encoded:
  "outbound_encode ref_wire sample_ping [] = Ok ping_bytes"
  "inbound_encode ref_wire (R_Pong \<lparr>ping_data = 3\<rparr>) [] = Ok (0 # ping_bytes)"
  by (simp_all add: outbound_encode_def inbound_encode_def response_serialize_def sample_ping_def ref_wire_def
      le_ssz_def ping_bytes_def)

lemma length_ping_bytes: "length ping_bytes = 17"
  by (simp add: ping_bytes_def)

theorem exchange_round_trip_witness:
  "wire_documented ref_wire \<and>
   inbound_worker ref_wire PPing 1 True (\<lambda>_. Some (R_Pong \<lparr>ping_data = 3\<rparr>)) (socket_reading ping_bytes)
     = Ok (H_ResponseSent 1) \<and>
   outbound_worker ref_wire PPing 2 sample_ping (socket_reading (0 # ping_bytes))
     = Ok (H_Response 2 (R_Pong \<lparr>ping_data = 3\<rparr>))"
  using exchange_round_trip [OF ref_wire_documented sample_ping_encoded(1), of
      "\<lambda>_. Some (R_Pong \<lparr>ping_data = 3\<rparr>)" "R_Pong \<lparr>ping_data = 3\<rparr>" "0 # ping_bytes"
      "socket_reading ping_bytes" "socket_reading (0 # ping_bytes)" 1 2]
    sample_ping_encoded(2) ref_wire_documented
  by (simp add: socket_reading_def sample_ping_def length_ping_bytes)

theorem omitted_response_panics_witness:
  "wire_documented ref_wire \<and>
   inbound_worker ref_wire PPing 1 True (\<lambda>_. None) (socket_reading ping_bytes) = Ok (H_ResponseOmission 1) \<and>
   outbound_worker ref_wire PPing 2 sample_ping (socket_reading []) = Panic"
  using omitted_response_panics [OF ref_wire_documented sample_ping_encoded(1), of
      "\<lambda>_. None" "socket_reading ping_bytes" "socket_reading []" 1 2] ref_wire_documented
  by (simp add: socket_reading_def sample_ping_def length_ping_bytes)

end
