(* ===== verification/Rpc_Behaviour.thy ===== *)
theory Rpc_Behaviour
  imports Wire_Codec
begin

text \<open>
  The request-response behaviour of a node (\<open>RPC\<close> in \<open>p2p/src/rpc/mod.rs\<close>): which requests wait for a
  connection, which are in flight on one, and the events handed to the swarm.

  Every method is one definition on the record \<open>rpc\<close>. The calls the swarm makes are the steps of
  \<open>rpc_step\<close>, together with the connections that the swarm has open: libp2p reports a connection as
  established with a fresh identifier and the number of other connections to the peer, and as closed
  only after it was established, with the number of connections that remain. A oneshot sender is
  represented by the identifier of its request. The methods take a flag \<open>debug\<close>: whether the build
  checks its debug assertions, which a release build does not.
\<close>

section \<open>State\<close>

type_synonym peer_id = nat
type_synonym connection_id = nat

record outbound_info =
  oi_req_id :: request_id
  oi_request :: rpc_request

datatype inbound_failure =
    IF_Timeout | IF_ConnectionClosed | IF_UnsupportedProtocols | IF_ResponseOmission | IF_Error handler_error

datatype outbound_failure =
    OF_DialFailure | OF_Timeout | OF_ConnectionClosed | OF_UnsupportedProtocols | OF_Error handler_error

datatype rpc_event =
    E_Request peer_id rpc_request request_id
  | E_Response peer_id request_id rpc_response
  | E_InboundFailure peer_id request_id inbound_failure
  | E_OutboundFailure peer_id request_id outbound_failure
  | E_ResponseSent peer_id request_id

datatype rpc_to_swarm =
    NotifyHandler peer_id connection_id outbound_info
  | DialPeer peer_id
  | GenerateEvent rpc_event

record connection =
  conn_id :: connection_id
  pending_inbound_responses :: "request_id hash_set"
  pending_outbound_responses :: "request_id hash_set"

definition new_connection :: "connection_id \<Rightarrow> connection" where
  "new_connection i = \<lparr>conn_id = i, pending_inbound_responses = [], pending_outbound_responses = []\<rparr>"

record rpc =
  rpc_next_request_id :: request_id
  rpc_pending_events :: "rpc_to_swarm list"
  rpc_connected :: "(peer_id, connection list) hash_map"
  rpc_pending_outbound :: "(peer_id, outbound_info list) hash_map"

definition new_rpc :: rpc where
  "new_rpc = \<lparr>rpc_next_request_id = 1, rpc_pending_events = [], rpc_connected = [], rpc_pending_outbound = []\<rparr>"

section \<open>Methods\<close>

definition debug_assert :: "bool \<Rightarrow> bool \<Rightarrow> ('e, unit) outcome" where
  "debug_assert debug b = (if debug \<and> \<not> b then Panic else Ok ())"

definition push_event :: "rpc_to_swarm \<Rightarrow> rpc \<Rightarrow> rpc" where
  "push_event e s = s\<lparr>rpc_pending_events := rpc_pending_events s @ [e]\<rparr>"

definition next_request_id :: "rpc \<Rightarrow> request_id \<times> rpc" where
  "next_request_id s = (rpc_next_request_id s, s\<lparr>rpc_next_request_id := rpc_next_request_id s + 1\<rparr>)"

definition try_send_request :: "peer_id \<Rightarrow> outbound_info \<Rightarrow> rpc \<Rightarrow> outbound_info option \<times> rpc" where
  "try_send_request p req s =
     (case hm_get (rpc_connected s) p of
        Some connections \<Rightarrow>
          if connections = [] then (Some req, s)
          else
            (let i = unat (oi_req_id req) mod length connections;
                 conn = connections ! i;
                 conn' = conn\<lparr>pending_inbound_responses :=
                   snd (hs_insert (oi_req_id req) (pending_inbound_responses conn))\<rparr>
             in (None, push_event (NotifyHandler p (conn_id conn) req)
                  (s\<lparr>rpc_connected := hm_insert p (connections[i := conn']) (rpc_connected s)\<rparr>)))
      | None \<Rightarrow> (Some req, s))"

definition send_request :: "peer_id \<Rightarrow> rpc_request \<Rightarrow> rpc \<Rightarrow> request_id \<times> rpc" where
  "send_request p q s =
     (case next_request_id s of (req_id, s) \<Rightarrow>
      case try_send_request p \<lparr>oi_req_id = req_id, oi_request = q\<rparr> s of
        (Some req, s) \<Rightarrow>
          (let s = push_event (DialPeer p) s;
               waiting = (case hm_get (rpc_pending_outbound s) p of Some rs \<Rightarrow> rs | None \<Rightarrow> [])
           in (req_id, s\<lparr>rpc_pending_outbound := hm_insert p (waiting @ [req]) (rpc_pending_outbound s)\<rparr>))
      | (None, s) \<Rightarrow> (req_id, s))"

text \<open>
  \<open>get_connection_mut\<close> gives the first connection of the peer with that identifier; the callers remove
  an identifier from one of its two sets.
\<close>

fun update_first :: "('a \<Rightarrow> bool) \<Rightarrow> ('a \<Rightarrow> 'a) \<Rightarrow> 'a list \<Rightarrow> 'a list" where
  "update_first P f [] = []"
| "update_first P f (x # xs) = (if P x then f x # xs else x # update_first P f xs)"

definition get_connection :: "peer_id \<Rightarrow> connection_id \<Rightarrow> rpc \<Rightarrow> connection option" where
  "get_connection p c s =
     (case hm_get (rpc_connected s) p of
        Some conns \<Rightarrow> find (\<lambda>x. conn_id x = c) conns
      | None \<Rightarrow> None)"

definition update_connection :: "peer_id \<Rightarrow> connection_id \<Rightarrow> (connection \<Rightarrow> connection) \<Rightarrow> rpc \<Rightarrow> rpc" where
  "update_connection p c f s =
     (case hm_get (rpc_connected s) p of
        Some conns \<Rightarrow>
          s\<lparr>rpc_connected := hm_insert p (update_first (\<lambda>x. conn_id x = c) f conns) (rpc_connected s)\<rparr>
      | None \<Rightarrow> s)"

definition remove_pending_outbound_response ::
  "peer_id \<Rightarrow> connection_id \<Rightarrow> request_id \<Rightarrow> rpc \<Rightarrow> bool \<times> rpc" where
  "remove_pending_outbound_response p c r s =
     (case get_connection p c s of
        Some x \<Rightarrow> (fst (hs_remove r (pending_outbound_responses x)),
          update_connection p c (\<lambda>x. x\<lparr>pending_outbound_responses :=
            snd (hs_remove r (pending_outbound_responses x))\<rparr>) s)
      | None \<Rightarrow> (False, s))"

definition remove_pending_inbound_response ::
  "peer_id \<Rightarrow> connection_id \<Rightarrow> request_id \<Rightarrow> rpc \<Rightarrow> bool \<times> rpc" where
  "remove_pending_inbound_response p c r s =
     (case get_connection p c s of
        Some x \<Rightarrow> (fst (hs_remove r (pending_inbound_responses x)),
          update_connection p c (\<lambda>x. x\<lparr>pending_inbound_responses :=
            snd (hs_remove r (pending_inbound_responses x))\<rparr>) s)
      | None \<Rightarrow> (False, s))"

text \<open>\<open>position\<close> and \<open>remove\<close>: the first connection with that identifier is taken out.\<close>

fun take_first :: "('a \<Rightarrow> bool) \<Rightarrow> 'a list \<Rightarrow> ('a \<times> 'a list) option" where
  "take_first P [] = None"
| "take_first P (x # xs) =
     (if P x then Some (x, xs)
      else (case take_first P xs of Some (y, ys) \<Rightarrow> Some (y, x # ys) | None \<Rightarrow> None))"

definition rpc_on_connection_closed ::
  "bool \<Rightarrow> peer_id \<Rightarrow> connection_id \<Rightarrow> nat \<Rightarrow> rpc \<Rightarrow> (unit, rpc) outcome" where
  "rpc_on_connection_closed debug p c remaining_established s =
     bind_ok (expect (hm_get (rpc_connected s) p)) (\<lambda>connections.
     bind_ok (expect (take_first (\<lambda>x. conn_id x = c) connections)) (\<lambda>(conn, connections).
     bind_ok (debug_assert debug ((connections = []) = (remaining_established = 0))) (\<lambda>_.
     let s = s\<lparr>rpc_connected := (if connections = [] then hm_remove p (rpc_connected s)
               else hm_insert p connections (rpc_connected s))\<rparr>;
         s = fold (\<lambda>r. push_event (GenerateEvent (E_InboundFailure p r IF_ConnectionClosed)))
               (pending_outbound_responses conn) s;
         s = fold (\<lambda>r. push_event (GenerateEvent (E_OutboundFailure p r OF_ConnectionClosed)))
               (pending_inbound_responses conn) s
     in Ok s)))"

definition rpc_on_dial_failure :: "peer_id option \<Rightarrow> rpc \<Rightarrow> rpc" where
  "rpc_on_dial_failure maybe_peer s =
     (case maybe_peer of
        Some p \<Rightarrow>
          (case hm_get (rpc_pending_outbound s) p of
             Some pending \<Rightarrow>
               fold (\<lambda>req. push_event (GenerateEvent (E_OutboundFailure p (oi_req_id req) OF_DialFailure)))
                 pending (s\<lparr>rpc_pending_outbound := hm_remove p (rpc_pending_outbound s)\<rparr>)
           | None \<Rightarrow> s)
      | None \<Rightarrow> s)"

text \<open>Draining the waiting requests asserts that each of them could be sent.\<close>

fun drain_pending :: "peer_id \<Rightarrow> outbound_info list \<Rightarrow> rpc \<Rightarrow> (unit, rpc) outcome" where
  "drain_pending p [] s = Ok s"
| "drain_pending p (req # reqs) s =
     (case try_send_request p req s of
        (None, s) \<Rightarrow> drain_pending p reqs s
      | (Some _, s) \<Rightarrow> Panic)"

definition rpc_on_connection_established ::
  "peer_id \<Rightarrow> connection_id \<Rightarrow> nat \<Rightarrow> rpc \<Rightarrow> (unit, rpc) outcome" where
  "rpc_on_connection_established p c other_established s =
     (let conns = (case hm_get (rpc_connected s) p of Some cs \<Rightarrow> cs | None \<Rightarrow> []);
          s = s\<lparr>rpc_connected := hm_insert p (conns @ [new_connection c]) (rpc_connected s)\<rparr>
      in if other_established = 0 then
           (case hm_get (rpc_pending_outbound s) p of
              Some pending \<Rightarrow>
                drain_pending p pending (s\<lparr>rpc_pending_outbound := hm_remove p (rpc_pending_outbound s)\<rparr>)
            | None \<Rightarrow> Ok s)
         else Ok s)"

datatype swarm_event =
    ConnectionEstablished peer_id connection_id nat
  | ConnectionClosed peer_id connection_id nat
  | DialFailure "peer_id option"

definition rpc_on_swarm_event :: "bool \<Rightarrow> swarm_event \<Rightarrow> rpc \<Rightarrow> (unit, rpc) outcome" where
  "rpc_on_swarm_event debug e s =
     (case e of
        ConnectionEstablished p c n \<Rightarrow> rpc_on_connection_established p c n s
      | ConnectionClosed p c n \<Rightarrow> rpc_on_connection_closed debug p c n s
      | DialFailure mp \<Rightarrow> Ok (rpc_on_dial_failure mp s))"

definition rpc_on_handler_event ::
  "bool \<Rightarrow> peer_id \<Rightarrow> connection_id \<Rightarrow> handler_event \<Rightarrow> rpc \<Rightarrow> (unit, rpc) outcome" where
  "rpc_on_handler_event debug p c e s =
     (case e of
        H_Request r q \<Rightarrow>
          (let s = push_event (GenerateEvent (E_Request p q r)) s
           in Ok (case get_connection p c s of
                Some _ \<Rightarrow> update_connection p c (\<lambda>x. x\<lparr>pending_outbound_responses :=
                  snd (hs_insert r (pending_outbound_responses x))\<rparr>) s
              | None \<Rightarrow> push_event (GenerateEvent (E_InboundFailure p r IF_ConnectionClosed)) s))
      | H_Response r resp \<Rightarrow>
          Ok (push_event (GenerateEvent (E_Response p r resp)) (snd (remove_pending_inbound_response p c r s)))
      | H_InboundTimeout r \<Rightarrow>
          Ok (push_event (GenerateEvent (E_InboundFailure p r IF_Timeout))
            (snd (remove_pending_inbound_response p c r s)))
      | H_InboundError r err \<Rightarrow>
          Ok (push_event (GenerateEvent (E_InboundFailure p r (IF_Error err)))
            (snd (remove_pending_inbound_response p c r s)))
      | H_OutboundError r err \<Rightarrow>
          Ok (push_event (GenerateEvent (E_OutboundFailure p r (OF_Error err)))
            (snd (remove_pending_outbound_response p c r s)))
      | H_DialUpgradeTimeout r \<Rightarrow> Ok s
      | H_ResponseSent r \<Rightarrow>
          Ok (push_event (GenerateEvent (E_ResponseSent p r)) (snd (remove_pending_outbound_response p c r s)))
      | H_ResponseOmission r \<Rightarrow>
          Ok (push_event (GenerateEvent (E_InboundFailure p r IF_ResponseOmission))
            (snd (remove_pending_outbound_response p c r s)))
      | H_OutboundTimeout r \<Rightarrow>
          Ok (push_event (GenerateEvent (E_OutboundFailure p r OF_Timeout))
            (snd (remove_pending_outbound_response p c r s)))
      | H_OutboundUnsuportedProtocol r \<Rightarrow>
          (let removed = remove_pending_inbound_response p c r s
           in bind_ok (debug_assert debug (fst removed)) (\<lambda>_.
             Ok (push_event (GenerateEvent (E_OutboundFailure p r OF_UnsupportedProtocols)) (snd removed)))))"

definition rpc_poll :: "rpc \<Rightarrow> rpc_to_swarm option \<times> rpc" where
  "rpc_poll s =
     (case rpc_pending_events s of
        [] \<Rightarrow> (None, s)
      | e # es \<Rightarrow> (Some e, s\<lparr>rpc_pending_events := es\<rparr>))"

section \<open>The behaviour under the swarm\<close>

text \<open>
  A run records, next to the state of the behaviour, the connections the swarm has open to each peer,
  in the order they were opened, the requests handed to \<open>send_request\<close> with their peers, and what has
  been polled so far.
\<close>

record rpc_run =
  run_rpc :: rpc
  run_open :: "peer_id \<Rightarrow> connection_id list"
  run_sent :: "(peer_id \<times> request_id) list"
  run_polled :: "rpc_to_swarm list"

definition start_run :: rpc_run where
  "start_run = \<lparr>run_rpc = new_rpc, run_open = (\<lambda>_. []), run_sent = [], run_polled = []\<rparr>"

text \<open>A step in which the behaviour panics leads to \<open>None\<close>.\<close>

inductive rpc_step :: "bool \<Rightarrow> rpc_run \<Rightarrow> rpc_run option \<Rightarrow> bool" for debug where
  step_send: "send_request p q (run_rpc R) = (i, s) \<Longrightarrow>
    rpc_step debug R (Some (R\<lparr>run_rpc := s, run_sent := (p, i) # run_sent R\<rparr>))"
| step_established: "c \<notin> set (run_open R p) \<Longrightarrow>
    rpc_on_swarm_event debug (ConnectionEstablished p c (length (run_open R p))) (run_rpc R) = Ok s \<Longrightarrow>
    rpc_step debug R (Some (R\<lparr>run_rpc := s, run_open := (run_open R)(p := run_open R p @ [c])\<rparr>))"
| step_established_crash: "c \<notin> set (run_open R p) \<Longrightarrow>
    rpc_on_swarm_event debug (ConnectionEstablished p c (length (run_open R p))) (run_rpc R) = Panic \<Longrightarrow>
    rpc_step debug R None"
| step_closed: "c \<in> set (run_open R p) \<Longrightarrow>
    rpc_on_swarm_event debug (ConnectionClosed p c (length (remove1 c (run_open R p)))) (run_rpc R) = Ok s \<Longrightarrow>
    rpc_step debug R (Some (R\<lparr>run_rpc := s, run_open := (run_open R)(p := remove1 c (run_open R p))\<rparr>))"
| step_closed_crash: "c \<in> set (run_open R p) \<Longrightarrow>
    rpc_on_swarm_event debug (ConnectionClosed p c (length (remove1 c (run_open R p)))) (run_rpc R) = Panic \<Longrightarrow>
    rpc_step debug R None"
| step_dial_failure: "rpc_on_swarm_event debug (DialFailure mp) (run_rpc R) = Ok s \<Longrightarrow>
    rpc_step debug R (Some (R\<lparr>run_rpc := s\<rparr>))"
| step_handler: "rpc_on_handler_event debug p c e (run_rpc R) = Ok s \<Longrightarrow>
    rpc_step debug R (Some (R\<lparr>run_rpc := s\<rparr>))"
| step_handler_crash: "rpc_on_handler_event debug p c e (run_rpc R) = Panic \<Longrightarrow> rpc_step debug R None"
| step_poll: "rpc_poll (run_rpc R) = (Some e, s) \<Longrightarrow>
    rpc_step debug R (Some (R\<lparr>run_rpc := s, run_polled := run_polled R @ [e]\<rparr>))"

inductive rpc_reachable :: "bool \<Rightarrow> rpc_run \<Rightarrow> bool" for debug where
  rpc_start: "rpc_reachable debug start_run"
| rpc_next: "rpc_reachable debug R \<Longrightarrow> rpc_step debug R (Some R') \<Longrightarrow> rpc_reachable debug R'"

inductive_cases rpc_crashE: "rpc_step debug R None"

section \<open>What the methods change\<close>

definition shape :: "rpc \<Rightarrow> peer_id \<Rightarrow> connection_id list option" where
  "shape s p = map_option (map conn_id) (hm_get (rpc_connected s) p)"

lemma push_event_simps [simp]:
  "rpc_pending_events (push_event e s) = rpc_pending_events s @ [e]"
  "rpc_connected (push_event e s) = rpc_connected s"
  "rpc_pending_outbound (push_event e s) = rpc_pending_outbound s"
  "rpc_next_request_id (push_event e s) = rpc_next_request_id s"
  by (simp_all add: push_event_def)

lemma fold_push_event:
  "fold (\<lambda>x. push_event (g x)) xs s = s\<lparr>rpc_pending_events := rpc_pending_events s @ map g xs\<rparr>"
  by (induction xs arbitrary: s) (simp_all add: push_event_def)

lemma update_first_keeps: "(\<And>x. g (f x) = g x) \<Longrightarrow> map g (update_first P f xs) = map g xs"
  by (induction xs) auto

lemma update_first_take:
  assumes "find P xs = Some x" "\<And>y. P (f y) = P y"
  shows "\<exists>ys. take_first P (update_first P f xs) = Some (f x, ys) \<and> take_first P xs = Some (x, ys)"
  using assms(1)
proof (induction xs)
  case (Cons y ys)
  then show ?case using assms(2) by (cases "P y") auto
qed simp

lemma take_first_find: "take_first P xs = Some (x, ys) \<Longrightarrow> find P xs = Some x"
  by (induction xs arbitrary: ys) (auto split: if_splits option.splits)

lemma take_first_total: "take_first P xs = None \<longleftrightarrow> (\<forall>x \<in> set xs. \<not> P x)"
  by (induction xs) (auto split: option.splits)

lemma take_first_map:
  "take_first (\<lambda>x. g x = c) xs = Some (x, ys) \<Longrightarrow> map g ys = remove1 c (map g xs) \<and> g x = c \<and>
     set xs = insert x (set ys)"
  by (induction xs arbitrary: ys) (auto split: if_splits option.splits)

lemma take_first_length: "take_first P xs = Some (x, ys) \<Longrightarrow> length xs = Suc (length ys)"
  by (induction xs arbitrary: ys) (auto split: if_splits option.splits)

lemma length_update_first [simp]: "length (update_first P f xs) = length xs"
  by (induction xs) auto

lemma update_connection_simps [simp]:
  "rpc_pending_outbound (update_connection p c f s) = rpc_pending_outbound s"
  "rpc_pending_events (update_connection p c f s) = rpc_pending_events s"
  "rpc_next_request_id (update_connection p c f s) = rpc_next_request_id s"
  by (simp_all add: update_connection_def split: option.splits)

lemma shape_update_connection:
  "(\<And>x. conn_id (f x) = conn_id x) \<Longrightarrow> shape (update_connection p c f s) = shape s"
  by (rule ext) (auto simp: shape_def update_connection_def update_first_keeps split: option.splits)

lemma remove_pending_simps [simp]:
  "rpc_pending_outbound (snd (remove_pending_outbound_response p c r s)) = rpc_pending_outbound s"
  "rpc_pending_outbound (snd (remove_pending_inbound_response p c r s)) = rpc_pending_outbound s"
  "rpc_pending_events (snd (remove_pending_outbound_response p c r s)) = rpc_pending_events s"
  "rpc_pending_events (snd (remove_pending_inbound_response p c r s)) = rpc_pending_events s"
  "shape (snd (remove_pending_outbound_response p c r s)) = shape s"
  "shape (snd (remove_pending_inbound_response p c r s)) = shape s"
  by (simp_all add: remove_pending_outbound_response_def remove_pending_inbound_response_def
      shape_update_connection split: option.splits)

lemma shape_push_event [simp]: "shape (push_event e s) = shape s"
  by (simp add: shape_def fun_eq_iff)

lemma handler_event_shape:
  assumes "rpc_on_handler_event debug p c e s = Ok t"
  shows "shape t = shape s" and "rpc_pending_outbound t = rpc_pending_outbound s"
proof -
  have "shape t = shape s \<and> rpc_pending_outbound t = rpc_pending_outbound s"
    using assms by (cases e) (auto simp: rpc_on_handler_event_def Let_def shape_update_connection debug_assert_def
        split: option.splits if_splits)
  then show "shape t = shape s" "rpc_pending_outbound t = rpc_pending_outbound s" by simp_all
qed

lemma try_send_connected:
  assumes "hm_get (rpc_connected s) p = Some cs" "cs \<noteq> []"
  shows "\<exists>s'. try_send_request p req s = (None, s') \<and> shape s' = shape s \<and>
    rpc_pending_outbound s' = rpc_pending_outbound s"
proof -
  let ?i = "unat (oi_req_id req) mod length cs"
  let ?c = "(cs ! ?i)\<lparr>pending_inbound_responses :=
    snd (hs_insert (oi_req_id req) (pending_inbound_responses (cs ! ?i)))\<rparr>"
  have "?i < length cs" using assms(2) by simp
  then have "map conn_id (cs[?i := ?c]) = map conn_id cs" by (simp add: map_update list_update_same_conv)
  then show ?thesis
    using assms by (auto simp: try_send_request_def shape_def fun_eq_iff Let_def)
qed

lemma shape_Some: "shape s p = Some is \<longleftrightarrow> (\<exists>cs. hm_get (rpc_connected s) p = Some cs \<and> map conn_id cs = is)"
  by (auto simp: shape_def)

lemma shape_None: "shape s p = None \<longleftrightarrow> hm_get (rpc_connected s) p = None"
  by (simp add: shape_def)

section \<open>The behaviour never panics\<close>

text \<open>
  The connections of the behaviour are those of the swarm, no peer is kept without a connection, and
  requests wait only for peers without a connection.
\<close>

definition rpc_inv :: "rpc_run \<Rightarrow> bool" where
  "rpc_inv R =
     (\<forall>p. distinct (run_open R p) \<and>
        shape (run_rpc R) p = (if run_open R p = [] then None else Some (run_open R p)) \<and>
        (run_open R p \<noteq> [] \<longrightarrow> hm_get (rpc_pending_outbound (run_rpc R)) p = None))"

lemma drain_pending_ok:
  assumes "shape s p = Some is" "is \<noteq> []"
  shows "\<exists>s'. drain_pending p reqs s = Ok s' \<and> shape s' = shape s \<and>
    rpc_pending_outbound s' = rpc_pending_outbound s"
  using assms
proof (induction reqs arbitrary: s)
  case (Cons req reqs)
  obtain cs where "hm_get (rpc_connected s) p = Some cs" "cs \<noteq> []"
    using Cons.prems by (auto simp: shape_Some)
  then obtain s1 where s1: "try_send_request p req s = (None, s1)" "shape s1 = shape s"
      "rpc_pending_outbound s1 = rpc_pending_outbound s"
    using try_send_connected by blast
  then obtain s2 where "drain_pending p reqs s1 = Ok s2" "shape s2 = shape s1"
      "rpc_pending_outbound s2 = rpc_pending_outbound s1"
    using Cons.IH [of s1] Cons.prems by auto
  with s1 show ?case by auto
qed simp

lemma established_ok:
  assumes "rpc_inv R"
  shows "\<exists>s. rpc_on_connection_established p c (length (run_open R p)) (run_rpc R) = Ok s \<and>
    shape s = (shape (run_rpc R))(p \<mapsto> run_open R p @ [c]) \<and>
    hm_get (rpc_pending_outbound s) = (hm_get (rpc_pending_outbound (run_rpc R)))(p := None)"
proof -
  let ?s = "run_rpc R"
  define cs where "cs = (case hm_get (rpc_connected ?s) p of Some cs \<Rightarrow> cs | None \<Rightarrow> [])"
  let ?t = "?s\<lparr>rpc_connected := hm_insert p (cs @ [new_connection c]) (rpc_connected ?s)\<rparr>"
  have ids: "map conn_id cs = run_open R p"
    using assms by (auto simp: rpc_inv_def cs_def shape_def split: option.splits if_splits dest!: spec [of _ p])
  have sh: "shape ?t = (shape ?s)(p \<mapsto> run_open R p @ [c])"
    by (rule ext) (simp add: shape_def ids new_connection_def)
  show ?thesis
  proof (cases "run_open R p = [] \<and> hm_get (rpc_pending_outbound ?s) p \<noteq> None")
    case True
    then obtain pending where pe: "hm_get (rpc_pending_outbound ?s) p = Some pending" by blast
    let ?u = "?t\<lparr>rpc_pending_outbound := hm_remove p (rpc_pending_outbound ?s)\<rparr>"
    have "shape ?u = shape ?t" by (rule ext) (simp add: shape_def)
    then obtain s' where "drain_pending p pending ?u = Ok s'" "shape s' = shape ?t"
        "rpc_pending_outbound s' = rpc_pending_outbound ?u"
      using drain_pending_ok [of ?u p "run_open R p @ [c]" pending] sh by auto
    then show ?thesis using True pe sh by (simp add: rpc_on_connection_established_def cs_def [symmetric] Let_def)
  next
    case False
    have "hm_get (rpc_pending_outbound ?s) p = None"
      using False assms by (auto simp: rpc_inv_def)
    then have "(hm_get (rpc_pending_outbound ?s))(p := None) = hm_get (rpc_pending_outbound ?s)"
      by (simp add: fun_upd_idem)
    moreover have "rpc_on_connection_established p c (length (run_open R p)) ?s = Ok ?t"
      using \<open>hm_get (rpc_pending_outbound ?s) p = None\<close>
      by (simp add: rpc_on_connection_established_def cs_def [symmetric] Let_def)
    ultimately show ?thesis using sh by auto
  qed
qed

lemma closed_ok:
  assumes "rpc_inv R" "c \<in> set (run_open R p)"
  shows "\<exists>s. rpc_on_connection_closed debug p c (length (remove1 c (run_open R p))) (run_rpc R) = Ok s \<and>
    shape s = (shape (run_rpc R))(p := (if remove1 c (run_open R p) = [] then None
      else Some (remove1 c (run_open R p)))) \<and>
    rpc_pending_outbound s = rpc_pending_outbound (run_rpc R)"
proof -
  let ?s = "run_rpc R"
  have "shape ?s p = Some (run_open R p)" using assms by (auto simp: rpc_inv_def)
  then obtain cs where cs: "hm_get (rpc_connected ?s) p = Some cs" "map conn_id cs = run_open R p"
    by (auto simp: shape_Some)
  then have "take_first (\<lambda>x. conn_id x = c) cs \<noteq> None"
    using assms(2) unfolding take_first_total cs(2) [symmetric] by auto
  then obtain x ys where x: "take_first (\<lambda>x. conn_id x = c) cs = Some (x, ys)" by auto
  then have ys: "map conn_id ys = remove1 c (run_open R p)" using take_first_map cs(2) by metis
  then have "ys = [] \<longleftrightarrow> remove1 c (run_open R p) = []" by (metis map_is_Nil_conv)
  then show ?thesis
    using cs(1) x ys by (auto simp: rpc_on_connection_closed_def fold_push_event shape_def fun_eq_iff Let_def
        debug_assert_def)
qed

lemma send_request_shape:
  assumes "send_request p q s = (i, s')" "\<And>p. shape s p \<noteq> Some []"
  shows "shape s' = shape s" and "i = rpc_next_request_id s"
    and "shape s p \<noteq> None \<Longrightarrow> rpc_pending_outbound s' = rpc_pending_outbound s"
    and "p' \<noteq> p \<Longrightarrow> hm_get (rpc_pending_outbound s') p' = hm_get (rpc_pending_outbound s) p'"
proof -
  let ?t = "s\<lparr>rpc_next_request_id := rpc_next_request_id s + 1\<rparr>"
    and ?q = "\<lparr>oi_req_id = rpc_next_request_id s, oi_request = q\<rparr>"
  have t: "shape ?t = shape s" by (rule ext) (simp add: shape_def)
  have "shape s' = shape s \<and> i = rpc_next_request_id s \<and>
      (shape s p \<noteq> None \<longrightarrow> rpc_pending_outbound s' = rpc_pending_outbound s) \<and>
      (\<forall>p'. p' \<noteq> p \<longrightarrow> hm_get (rpc_pending_outbound s') p' = hm_get (rpc_pending_outbound s) p')"
  proof (cases "hm_get (rpc_connected s) p")
    case None
    then have "try_send_request p ?q ?t = (Some ?q, ?t)" by (simp add: try_send_request_def)
    with None assms(1) show ?thesis
      by (auto simp: send_request_def next_request_id_def Let_def shape_def push_event_def fun_eq_iff)
  next
    case (Some cs)
    have ne: "cs \<noteq> []" using assms(2) [of p] Some by (auto simp: shape_def)
    obtain u where u: "try_send_request p ?q ?t = (None, u)" "shape u = shape ?t"
        "rpc_pending_outbound u = rpc_pending_outbound ?t"
      using try_send_connected [of ?t p cs ?q] Some ne by auto
    have "i = rpc_next_request_id s \<and> s' = u"
      using assms(1) u(1) by (simp add: send_request_def next_request_id_def)
    then show ?thesis using u(2,3) t by auto
  qed
  then show "shape s' = shape s" "i = rpc_next_request_id s"
    "shape s p \<noteq> None \<Longrightarrow> rpc_pending_outbound s' = rpc_pending_outbound s"
    "p' \<noteq> p \<Longrightarrow> hm_get (rpc_pending_outbound s') p' = hm_get (rpc_pending_outbound s) p'"
    by auto
qed

lemma rpc_inv_start: "rpc_inv start_run"
  by (simp add: rpc_inv_def start_run_def new_rpc_def shape_def)

lemma rpc_inv_no_Nil: "rpc_inv R \<Longrightarrow> shape (run_rpc R) p \<noteq> Some []"
  by (simp add: rpc_inv_def)

lemma rpc_step_inv:
  assumes "rpc_step debug R (Some R')" "rpc_inv R"
  shows "rpc_inv R'"
  using assms(1)
proof cases
  case (step_send p q i s)
  note sh = send_request_shape [OF step_send(2) rpc_inv_no_Nil [OF assms(2)]]
  have "hm_get (rpc_pending_outbound s) x = None" if "run_open R x \<noteq> []" for x
    using assms(2) that sh(3) sh(4) [of x] by (cases "x = p") (auto simp: rpc_inv_def)
  then show ?thesis using assms(2) step_send(1) sh(1) by (simp add: rpc_inv_def)
next
  case (step_established c p s)
  then show ?thesis
    using established_ok [OF assms(2), of p c] assms(2) by (auto simp: rpc_inv_def rpc_on_swarm_event_def)
next
  case (step_closed c p s)
  then have "rpc_on_connection_closed debug p c (length (remove1 c (run_open R p))) (run_rpc R) = Ok s"
    by (simp add: rpc_on_swarm_event_def)
  then have s: "shape s = (shape (run_rpc R))(p := (if remove1 c (run_open R p) = [] then None
        else Some (remove1 c (run_open R p))))" "rpc_pending_outbound s = rpc_pending_outbound (run_rpc R)"
    using closed_ok [OF assms(2) step_closed(2), of debug] by auto
  have "run_open R p \<noteq> []" using step_closed(2) by auto
  with s assms(2) step_closed(1) show ?thesis by (auto simp: rpc_inv_def)
next
  case (step_dial_failure mp s)
  have "shape (rpc_on_dial_failure mp (run_rpc R)) = shape (run_rpc R)"
    by (rule ext) (simp add: shape_def rpc_on_dial_failure_def fold_push_event split: option.splits)
  moreover have "hm_get (rpc_pending_outbound (run_rpc R)) x = None \<Longrightarrow>
      hm_get (rpc_pending_outbound (rpc_on_dial_failure mp (run_rpc R))) x = None" for x
    by (simp add: rpc_on_dial_failure_def fold_push_event split: option.splits)
  ultimately show ?thesis
    using step_dial_failure assms(2) by (auto simp: rpc_inv_def rpc_on_swarm_event_def)
next
  case (step_handler p c e s)
  then show ?thesis using assms(2) handler_event_shape [OF step_handler(2)] by (simp add: rpc_inv_def)
next
  case (step_poll e s)
  then have "rpc_connected s = rpc_connected (run_rpc R)"
    "rpc_pending_outbound s = rpc_pending_outbound (run_rpc R)"
    by (auto simp: rpc_poll_def split: list.splits)
  then show ?thesis using step_poll assms(2) by (simp add: rpc_inv_def shape_def)
qed

lemma rpc_reachable_inv: "rpc_reachable debug R \<Longrightarrow> rpc_inv R"
  by (induction rule: rpc_reachable.induct) (simp_all add: rpc_inv_start rpc_step_inv)

definition pending_on :: "rpc \<Rightarrow> peer_id \<Rightarrow> connection_id \<Rightarrow> request_id \<Rightarrow> bool" where
  "pending_on s p c r =
     (case get_connection p c s of Some x \<Rightarrow> r \<in> set (pending_inbound_responses x) | None \<Rightarrow> False)"

lemma handler_event_Panic:
  "rpc_on_handler_event debug p c e s = Panic \<longleftrightarrow>
     debug \<and> (\<exists>r. e = H_OutboundUnsuportedProtocol r \<and> \<not> pending_on s p c r)"
  by (cases e) (auto simp: rpc_on_handler_event_def Let_def debug_assert_def remove_pending_inbound_response_def
      pending_on_def hs_remove_def split: option.splits if_splits)

text \<open>C8: When the request-response behaviour panics. Whatever requests are sent, whatever the connection
  handlers report and in whatever order libp2p opens and closes connections, no event of the swarm
  makes the behaviour panic, in a debug build or in a release build: the two lookups of a closing
  connection succeed, the remaining connections are as many as libp2p says, and every waiting request
  can be sent as soon as the first connection to its peer is up. An event of a handler panics exactly
  in a debug build, when the handler reports that the peer does not support the protocol of a request
  that is not recorded as pending on that connection.
\<close>

theorem rpc_panics_iff:
  assumes "rpc_reachable debug R"
  shows "(c \<notin> set (run_open R p) \<longrightarrow>
      rpc_on_swarm_event debug (ConnectionEstablished p c (length (run_open R p))) (run_rpc R) \<noteq> Panic) \<and>
    (c \<in> set (run_open R p) \<longrightarrow>
      rpc_on_swarm_event debug (ConnectionClosed p c (length (run_open R p) - 1)) (run_rpc R) \<noteq> Panic) \<and>
    rpc_on_swarm_event debug (DialFailure mp) (run_rpc R) \<noteq> Panic \<and>
    (rpc_on_handler_event debug p c e (run_rpc R) = Panic \<longleftrightarrow>
      debug \<and> (\<exists>r. e = H_OutboundUnsuportedProtocol r \<and> \<not> pending_on (run_rpc R) p c r))"
proof -
  note inv = rpc_reachable_inv [OF assms]
  have "rpc_on_swarm_event debug (ConnectionClosed p c (length (run_open R p) - 1)) (run_rpc R) \<noteq> Panic"
    if "c \<in> set (run_open R p)"
    using closed_ok [OF inv that, of debug] that by (auto simp: rpc_on_swarm_event_def length_remove1)
  then show ?thesis
    using established_ok [OF inv, of p c] handler_event_Panic [of debug p c e "run_rpc R"]
    by (auto simp: rpc_on_swarm_event_def)
qed

section \<open>Every request is accounted for\<close>

definition run_history :: "rpc_run \<Rightarrow> rpc_to_swarm list" where
  "run_history R = run_polled R @ rpc_pending_events (run_rpc R)"

definition waiting :: "rpc \<Rightarrow> peer_id \<Rightarrow> request_id \<Rightarrow> bool" where
  "waiting s p i = (\<exists>reqs. hm_get (rpc_pending_outbound s) p = Some reqs \<and> i \<in> oi_req_id ` set reqs)"

definition in_flight :: "rpc \<Rightarrow> peer_id \<Rightarrow> request_id \<Rightarrow> bool" where
  "in_flight s p i = (\<exists>cs x. hm_get (rpc_connected s) p = Some cs \<and> x \<in> set cs \<and> i \<in> set (pending_inbound_responses x))"

fun answers :: "peer_id \<Rightarrow> request_id \<Rightarrow> rpc_to_swarm \<Rightarrow> bool" where
  "answers p i (GenerateEvent (E_Response p' i' _)) = (p' = p \<and> i' = i)"
| "answers p i (GenerateEvent (E_OutboundFailure p' i' _)) = (p' = p \<and> i' = i)"
| "answers p i _ = False"

fun inbound_failed :: "peer_id \<Rightarrow> request_id \<Rightarrow> rpc_to_swarm \<Rightarrow> bool" where
  "inbound_failed p i (GenerateEvent (E_InboundFailure p' i' f)) =
     (p' = p \<and> i' = i \<and> f \<noteq> IF_ConnectionClosed \<and> f \<noteq> IF_ResponseOmission)"
| "inbound_failed p i _ = False"

definition accounted :: "rpc_run \<Rightarrow> peer_id \<Rightarrow> request_id \<Rightarrow> bool" where
  "accounted R p i =
     (waiting (run_rpc R) p i \<or> in_flight (run_rpc R) p i \<or>
      list_ex (\<lambda>e. answers p i e \<or> inbound_failed p i e) (run_history R))"

text \<open>A step of the behaviour neither drops events nor loses track of a request without an event.\<close>

definition tracks :: "peer_id \<Rightarrow> request_id \<Rightarrow> rpc \<Rightarrow> rpc \<Rightarrow> bool" where
  "tracks p i s t =
     (\<exists>new. rpc_pending_events t = rpc_pending_events s @ new \<and>
        (waiting s p i \<or> in_flight s p i \<longrightarrow> waiting t p i \<or> in_flight t p i \<or>
          list_ex (\<lambda>e. answers p i e \<or> inbound_failed p i e) new))"

lemma tracks_trans: "tracks p i s t \<Longrightarrow> tracks p i t u \<Longrightarrow> tracks p i s u"
  unfolding tracks_def by (elim exE conjE, simp) metis

lemma tracks_same:
  "rpc_connected t = rpc_connected s \<Longrightarrow> rpc_pending_outbound t = rpc_pending_outbound s \<Longrightarrow>
   rpc_pending_events t = rpc_pending_events s @ new \<Longrightarrow> tracks p i s t"
  by (auto simp: tracks_def waiting_def in_flight_def)

lemma update_first_mem:
  "x \<in> set xs \<Longrightarrow> x \<in> set (update_first P f xs) \<or> f x \<in> set (update_first P f xs)"
  by (induction xs) auto

lemma in_flight_update:
  assumes "\<And>x. i \<in> set (pending_inbound_responses x) \<Longrightarrow> i \<in> set (pending_inbound_responses (f x))"
    and "in_flight s p i"
  shows "in_flight (update_connection p' c f s) p i"
proof -
  obtain cs x where x: "hm_get (rpc_connected s) p = Some cs" "x \<in> set cs" "i \<in> set (pending_inbound_responses x)"
    using assms(2) by (auto simp: in_flight_def)
  show ?thesis
  proof (cases "p' = p")
    case True
    then show ?thesis
      using x update_first_mem [OF x(2), of "\<lambda>x. conn_id x = c" f] assms(1)
      by (auto simp: in_flight_def update_connection_def)
  next
    case False
    then show ?thesis using x by (auto simp: in_flight_def update_connection_def split: option.splits)
  qed
qed

lemma waiting_cong: "rpc_pending_outbound t = rpc_pending_outbound s \<Longrightarrow> waiting t p i = waiting s p i"
  by (simp add: waiting_def)

lemma in_flight_cong: "rpc_connected t = rpc_connected s \<Longrightarrow> in_flight t p i = in_flight s p i"
  by (simp add: in_flight_def)

lemma in_flight_remove:
  "in_flight s p i \<Longrightarrow> in_flight (snd (remove_pending_outbound_response p' c r s)) p i"
  "in_flight s p i \<Longrightarrow> i \<noteq> r \<or> p \<noteq> p' \<Longrightarrow> in_flight (snd (remove_pending_inbound_response p' c r s)) p i"
proof -
  show "in_flight s p i \<Longrightarrow> in_flight (snd (remove_pending_outbound_response p' c r s)) p i"
    by (auto simp: remove_pending_outbound_response_def intro: in_flight_update split: option.splits)
  assume a: "in_flight s p i" "i \<noteq> r \<or> p \<noteq> p'"
  show "in_flight (snd (remove_pending_inbound_response p' c r s)) p i"
  proof (cases "p = p'")
    case True
    then have "i \<noteq> r" using a(2) by simp
    then show ?thesis
      using a(1) by (auto simp: remove_pending_inbound_response_def hs_remove_def intro: in_flight_update
          split: option.splits)
  next
    case False
    then show ?thesis
      using a(1) by (auto simp: remove_pending_inbound_response_def in_flight_def update_connection_def
          split: option.splits)
  qed
qed

lemma tracks_handler_event:
  assumes "rpc_on_handler_event debug p' c e s = Ok t"
  shows "tracks p i s t"
proof -
  have wait: "waiting t p i = waiting s p i" by (rule waiting_cong) (rule handler_event_shape(2) [OF assms])
  have "\<exists>new. rpc_pending_events t = rpc_pending_events s @ new \<and>
      (in_flight s p i \<longrightarrow> in_flight t p i \<or> list_ex (\<lambda>e. answers p i e \<or> inbound_failed p i e) new)"
  proof (cases e)
    case (H_Request r q)
    then show ?thesis
      using assms by (auto simp: rpc_on_handler_event_def Let_def in_flight_cong [of "push_event _ _"]
          intro!: in_flight_update split: option.splits)
  next
    case (H_Response r resp)
    then show ?thesis
      using assms in_flight_remove(2) [of s p i r p' c]
      by (cases "p = p' \<and> i = r") (auto simp: rpc_on_handler_event_def in_flight_cong [of "push_event _ _"])
  next
    case (H_InboundTimeout r)
    then show ?thesis
      using assms in_flight_remove(2) [of s p i r p' c]
      by (cases "p = p' \<and> i = r") (auto simp: rpc_on_handler_event_def in_flight_cong [of "push_event _ _"])
  next
    case (H_InboundError r err)
    then show ?thesis
      using assms in_flight_remove(2) [of s p i r p' c]
      by (cases "p = p' \<and> i = r") (auto simp: rpc_on_handler_event_def in_flight_cong [of "push_event _ _"])
  next
    case (H_OutboundUnsuportedProtocol r)
    then show ?thesis
      using assms in_flight_remove(2) [of s p i r p' c]
      by (cases "p = p' \<and> i = r") (auto simp: rpc_on_handler_event_def Let_def debug_assert_def in_flight_cong [of "push_event _ _"]
          split: if_splits)
  qed (use assms in_flight_remove(1) in
      \<open>auto simp: rpc_on_handler_event_def in_flight_cong [of "push_event _ _"]\<close>)
  then show ?thesis unfolding tracks_def wait by blast
qed

lemma try_send_flies:
  assumes "hm_get (rpc_connected s) p = Some cs" "cs \<noteq> []" "try_send_request p req s = (None, t)"
  shows "in_flight t p (oi_req_id req)" and "in_flight s p' i \<Longrightarrow> in_flight t p' i"
    and "\<exists>new. rpc_pending_events t = rpc_pending_events s @ new"
    and "rpc_pending_outbound t = rpc_pending_outbound s"
proof -
  define k where "k = unat (oi_req_id req) mod length cs"
  define c where "c = (cs ! k)\<lparr>pending_inbound_responses :=
    snd (hs_insert (oi_req_id req) (pending_inbound_responses (cs ! k)))\<rparr>"
  have k: "k < length cs" using assms(2) by (simp add: k_def)
  have t: "t = push_event (NotifyHandler p (conn_id (cs ! k)) req)
      (s\<lparr>rpc_connected := hm_insert p (cs[k := c]) (rpc_connected s)\<rparr>)"
    using assms by (simp add: try_send_request_def Let_def k_def c_def)
  have "c \<in> set (cs[k := c])" using k by (rule set_update_memI)
  moreover have "oi_req_id req \<in> set (pending_inbound_responses c)" by (simp add: c_def hs_insert_def)
  ultimately show "in_flight t p (oi_req_id req)" by (auto simp: in_flight_def t)
  have mono: "\<exists>y \<in> set (cs[k := c]). set (pending_inbound_responses x) \<subseteq> set (pending_inbound_responses y)"
    if x: "x \<in> set cs" for x
  proof (cases "x = cs ! k")
    case True
    then have "set (pending_inbound_responses x) \<subseteq> set (pending_inbound_responses c)"
      by (auto simp: c_def hs_insert_def)
    then show ?thesis using \<open>c \<in> set (cs[k := c])\<close> by blast
  next
    case False
    then show ?thesis using x by (metis in_set_conv_nth length_list_update nth_list_update_neq order_refl)
  qed
  show "in_flight s p' i \<Longrightarrow> in_flight t p' i"
  proof -
    assume "in_flight s p' i"
    then obtain ds x where x: "hm_get (rpc_connected s) p' = Some ds" "x \<in> set ds"
        "i \<in> set (pending_inbound_responses x)" by (auto simp: in_flight_def)
    show "in_flight t p' i"
    proof (cases "p' = p")
      case True
      then show ?thesis using x assms(1) mono [of x] by (auto simp: in_flight_def t)
    next
      case False
      then show ?thesis using x by (auto simp: in_flight_def t)
    qed
  qed
  show "\<exists>new. rpc_pending_events t = rpc_pending_events s @ new"
    "rpc_pending_outbound t = rpc_pending_outbound s"
    by (simp_all add: t)
qed

lemma drain_flies:
  assumes "shape s p = Some is" "is \<noteq> []" "drain_pending p reqs s = Ok t"
  shows "(\<forall>req \<in> set reqs. in_flight t p (oi_req_id req)) \<and> (\<forall>p' i. in_flight s p' i \<longrightarrow> in_flight t p' i) \<and>
    (\<exists>new. rpc_pending_events t = rpc_pending_events s @ new) \<and>
    rpc_pending_outbound t = rpc_pending_outbound s"
  using assms
proof (induction reqs arbitrary: s)
  case (Cons req reqs)
  obtain cs where cs: "hm_get (rpc_connected s) p = Some cs" "cs \<noteq> []"
    using Cons.prems(1,2) by (auto simp: shape_Some)
  obtain u where u: "try_send_request p req s = (None, u)" "shape u = shape s"
    using try_send_connected [OF cs] by blast
  note f = try_send_flies [OF cs u(1)]
  have rest: "drain_pending p reqs u = Ok t" using Cons.prems(3) u(1) by simp
  show ?case using Cons.IH [of u] Cons.prems(1,2) rest u(2) f by (auto 0 3)
qed auto

lemma tracks_established:
  assumes inv: "rpc_inv R"
    and est: "rpc_on_connection_established p c (length (run_open R p)) (run_rpc R) = Ok t"
  shows "tracks p' i (run_rpc R) t"
proof -
  let ?s = "run_rpc R"
  define cs where "cs = (case hm_get (rpc_connected ?s) p of Some cs \<Rightarrow> cs | None \<Rightarrow> [])"
  let ?t = "?s\<lparr>rpc_connected := hm_insert p (cs @ [new_connection c]) (rpc_connected ?s)\<rparr>"
  have mono: "in_flight ?s p' i \<Longrightarrow> in_flight ?t p' i"
    by (auto simp: in_flight_def cs_def split: option.splits)
  show ?thesis
  proof (cases "run_open R p = [] \<and> hm_get (rpc_pending_outbound ?s) p \<noteq> None")
    case True
    then obtain pending where pe: "hm_get (rpc_pending_outbound ?s) p = Some pending" by blast
    let ?u = "?t\<lparr>rpc_pending_outbound := hm_remove p (rpc_pending_outbound ?s)\<rparr>"
    have dr: "drain_pending p pending ?u = Ok t"
      using est True pe by (simp add: rpc_on_connection_established_def cs_def [symmetric] Let_def)
    have "shape ?u p = Some (map conn_id cs @ [c])" by (simp add: shape_def new_connection_def)
    note d = drain_flies [OF this _ dr]
    have "in_flight ?t p' i \<Longrightarrow> in_flight t p' i" using d in_flight_cong [of ?u ?t p' i] by auto
    moreover have "waiting ?s p' i \<Longrightarrow> waiting t p' i \<or> in_flight t p' i"
      using d pe by (cases "p' = p") (auto simp: waiting_def)
    ultimately show ?thesis using d mono by (auto simp: tracks_def)
  next
    case False
    then have "t = ?t"
      using est inv by (auto simp: rpc_on_connection_established_def cs_def [symmetric] Let_def rpc_inv_def
          split: option.splits if_splits)
    then show ?thesis using mono by (auto simp: tracks_def waiting_def)
  qed
qed

lemma closed_events:
  assumes "rpc_on_connection_closed debug p c n s = Ok t" "hm_get (rpc_connected s) p = Some cs"
    "take_first (\<lambda>x. conn_id x = c) cs = Some (x, ys)"
  shows "rpc_pending_events t = rpc_pending_events s @
      map (\<lambda>r. GenerateEvent (E_InboundFailure p r IF_ConnectionClosed)) (pending_outbound_responses x) @
      map (\<lambda>r. GenerateEvent (E_OutboundFailure p r OF_ConnectionClosed)) (pending_inbound_responses x)"
    and "rpc_pending_outbound t = rpc_pending_outbound s"
    and "hm_get (rpc_connected t) = (hm_get (rpc_connected s))(p := (if ys = [] then None else Some ys))"
  using assms by (auto simp: rpc_on_connection_closed_def fold_push_event Let_def debug_assert_def split: if_splits)

lemma tracks_closed:
  assumes "rpc_on_connection_closed debug p c n s = Ok t"
  shows "tracks p' i s t"
proof -
  obtain cs x ys where x: "hm_get (rpc_connected s) p = Some cs"
      "take_first (\<lambda>x. conn_id x = c) cs = Some (x, ys)"
    using assms by (cases "hm_get (rpc_connected s) p"; cases "take_first (\<lambda>x. conn_id x = c) (the (hm_get (rpc_connected s) p))")
      (auto simp: rpc_on_connection_closed_def)
  note ev = closed_events [OF assms x]
  have "set cs = insert x (set ys)" using take_first_map [OF x(2)] by simp
  then have "in_flight t p' i \<or> p' = p \<and> i \<in> set (pending_inbound_responses x)" if "in_flight s p' i"
    using that x(1) ev(3) by (cases "p' = p") (auto simp: in_flight_def split: if_splits)
  moreover have "list_ex (\<lambda>e. answers p i e \<or> inbound_failed p i e)
      (map (\<lambda>r. GenerateEvent (E_OutboundFailure p r OF_ConnectionClosed)) (pending_inbound_responses x))"
    if "i \<in> set (pending_inbound_responses x)"
    using that by (auto simp: list_ex_iff)
  ultimately show ?thesis unfolding tracks_def ev(1)
    by (intro exI conjI) (rule refl, auto simp: waiting_def ev(2))
qed

lemma tracks_dial_failure: "tracks p i s (rpc_on_dial_failure mp s)"
proof (cases "\<exists>p' pending. mp = Some p' \<and> hm_get (rpc_pending_outbound s) p' = Some pending")
  case True
  then obtain p' pending where p': "mp = Some p'" "hm_get (rpc_pending_outbound s) p' = Some pending" by blast
  then have "in_flight (rpc_on_dial_failure mp s) p i = in_flight s p i"
    by (auto simp: rpc_on_dial_failure_def fold_push_event in_flight_def)
  with p' show ?thesis
    by (cases "p = p'") (auto simp: tracks_def rpc_on_dial_failure_def fold_push_event waiting_def list_ex_iff)
next
  case False
  then have "rpc_on_dial_failure mp s = s" by (auto simp: rpc_on_dial_failure_def split: option.splits)
  then show ?thesis by (simp add: tracks_def)
qed

lemma send_request_tracks:
  assumes "send_request p q s = (i, t)" "\<And>p. shape s p \<noteq> Some []"
  shows "tracks p' j s t" and "waiting t p i \<or> in_flight t p i"
proof -
  let ?t = "s\<lparr>rpc_next_request_id := rpc_next_request_id s + 1\<rparr>"
    and ?q = "\<lparr>oi_req_id = rpc_next_request_id s, oi_request = q\<rparr>"
  have "tracks p' j s t \<and> (waiting t p i \<or> in_flight t p i)"
  proof (cases "hm_get (rpc_connected s) p")
    case None
    then have "try_send_request p ?q ?t = (Some ?q, ?t)" by (simp add: try_send_request_def)
    with assms(1) show ?thesis
      by (cases "p' = p") (auto simp: send_request_def next_request_id_def Let_def tracks_def waiting_def
          in_flight_def split: option.splits)
  next
    case (Some cs)
    have cs: "hm_get (rpc_connected ?t) p = Some cs" "cs \<noteq> []"
      using assms(2) [of p] Some by (auto simp: shape_def)
    obtain u where u: "try_send_request p ?q ?t = (None, u)" using try_send_connected [OF cs] by blast
    then have "t = u" "i = rpc_next_request_id s"
      using assms(1) by (simp_all add: send_request_def next_request_id_def)
    then show ?thesis
      using try_send_flies [OF cs u] by (auto simp: tracks_def waiting_def in_flight_def)
  qed
  then show "tracks p' j s t" "waiting t p i \<or> in_flight t p i" by auto
qed

lemma tracks_accounted:
  assumes "tracks p i (run_rpc R) s" "accounted R p i"
    "run_polled R' = run_polled R" "run_rpc R' = s"
  shows "accounted R' p i"
  using assms by (auto simp: tracks_def accounted_def run_history_def)

lemma rpc_step_accounted:
  assumes step: "rpc_step debug R (Some R')" and inv: "rpc_inv R"
    and acc: "\<And>p i. (p, i) \<in> set (run_sent R) \<Longrightarrow> accounted R p i"
    and sent: "(p, i) \<in> set (run_sent R')"
  shows "accounted R' p i"
  using step
proof cases
  case (step_send p' q i' s)
  note t = send_request_tracks [OF step_send(2) rpc_inv_no_Nil [OF inv]]
  show ?thesis
  proof (cases "(p, i) = (p', i')")
    case True
    then show ?thesis using t(2) step_send(1) by (auto simp: accounted_def)
  next
    case False
    then have "(p, i) \<in> set (run_sent R)" using sent step_send(1) by auto
    then show ?thesis using tracks_accounted [OF t(1) acc] step_send(1) by simp
  qed
next
  case (step_established c p' s)
  then have "tracks p i (run_rpc R) s" using tracks_established [OF inv] by (simp add: rpc_on_swarm_event_def)
  from tracks_accounted [OF this acc] show ?thesis using sent step_established(1) by simp
next
  case (step_closed c p' s)
  then have "tracks p i (run_rpc R) s" using tracks_closed by (simp add: rpc_on_swarm_event_def)
  from tracks_accounted [OF this acc] show ?thesis using sent step_closed(1) by simp
next
  case (step_dial_failure mp s)
  then have "tracks p i (run_rpc R) s" using tracks_dial_failure by (auto simp: rpc_on_swarm_event_def)
  from tracks_accounted [OF this acc] show ?thesis using sent step_dial_failure(1) by simp
next
  case (step_handler p' c e s)
  from tracks_accounted [OF tracks_handler_event [OF step_handler(2)] acc] show ?thesis
    using sent step_handler(1) by simp
next
  case (step_poll e s)
  then have "rpc_connected s = rpc_connected (run_rpc R)" "rpc_pending_outbound s = rpc_pending_outbound (run_rpc R)"
    "rpc_pending_events (run_rpc R) = e # rpc_pending_events s"
    by (auto simp: rpc_poll_def split: list.splits)
  moreover have "accounted R p i" using sent step_poll(1) acc by simp
  ultimately show ?thesis
    using step_poll(1) by (auto simp: accounted_def run_history_def waiting_def in_flight_def)
qed

text \<open>C7: No request is forgotten while the handlers report no failure of an incoming request under its
  number. In every reachable state a request that was sent is waiting for a connection to its peer, or
  in flight on an open one, or its response or its failure has been reported, or an incoming request
  with the same number from that peer has timed out or failed.
\<close>

theorem requests_accounted:
  assumes "rpc_reachable debug R" "(p, i) \<in> set (run_sent R)"
  shows "waiting (run_rpc R) p i \<or> in_flight (run_rpc R) p i \<or>
    list_ex (answers p i) (run_history R) \<or> list_ex (inbound_failed p i) (run_history R)"
proof -
  have "(p, i) \<in> set (run_sent R) \<Longrightarrow> accounted R p i" for p i
    using assms(1)
  proof (induction arbitrary: p i rule: rpc_reachable.induct)
    case rpc_start
    then show ?case by (simp add: start_run_def)
  next
    case (rpc_next R R')
    then show ?case using rpc_step_accounted rpc_reachable_inv by blast
  qed
  then show ?thesis using assms(2) by (fastforce simp: accounted_def list_ex_iff)
qed

section \<open>Timeouts and errors look in the wrong set\<close>

text \<open>C17: Timeouts remove the request from the wrong set, in a release build and in a debug build (where libp2p has to
  report truthfully whether connections remain). Take a request in flight on a connection. If the
  handler reports that this outgoing request timed out, it stays recorded, so that closing the
  connection reports a second failure for it. If the handler reports that the incoming request with
  the same number timed out, the outgoing request is dropped from the record instead, so that closing
  the connection reports nothing for it.
\<close>

theorem timeouts_mistracked:
  assumes "get_connection p c s = Some x" "i \<in> set (pending_inbound_responses x)"
    and "debug \<Longrightarrow> remaining = 0 \<longleftrightarrow> map_option length (hm_get (rpc_connected s) p) = Some 1"
  shows "(\<exists>t. bind_ok (rpc_on_handler_event debug p c (H_OutboundTimeout i) s)
        (rpc_on_swarm_event debug (ConnectionClosed p c remaining)) = Ok t \<and>
      GenerateEvent (E_OutboundFailure p i OF_Timeout) \<in> set (rpc_pending_events t) \<and>
      GenerateEvent (E_OutboundFailure p i OF_ConnectionClosed) \<in> set (rpc_pending_events t)) \<and>
    (\<exists>t new. bind_ok (rpc_on_handler_event debug p c (H_InboundTimeout i) s)
        (rpc_on_swarm_event debug (ConnectionClosed p c remaining)) = Ok t \<and>
      rpc_pending_events t = rpc_pending_events s @ new \<and> list_all (\<lambda>e. \<not> answers p i e) new)"
proof -
  obtain cs where cs: "hm_get (rpc_connected s) p = Some cs" "find (\<lambda>x. conn_id x = c) cs = Some x"
    using assms(1) by (auto simp: get_connection_def split: option.splits)
  let ?out = "\<lambda>x. x\<lparr>pending_outbound_responses := removeAll i (pending_outbound_responses x)\<rparr>"
  let ?inb = "\<lambda>x. x\<lparr>pending_inbound_responses := removeAll i (pending_inbound_responses x)\<rparr>"
  obtain ys where ys: "take_first (\<lambda>x. conn_id x = c) (update_first (\<lambda>x. conn_id x = c) ?out cs) = Some (?out x, ys)"
    using update_first_take [OF cs(2), of ?out] by auto
  obtain zs where zs: "take_first (\<lambda>x. conn_id x = c) (update_first (\<lambda>x. conn_id x = c) ?inb cs) = Some (?inb x, zs)"
    using update_first_take [OF cs(2), of ?inb] by auto
  have left: "debug \<Longrightarrow> (ys = []) = (remaining = 0)" "debug \<Longrightarrow> (zs = []) = (remaining = 0)"
    using assms(3) cs(1) take_first_length [OF ys] take_first_length [OF zs] by auto
  note defs = rpc_on_swarm_event_def rpc_on_handler_event_def remove_pending_outbound_response_def
    remove_pending_inbound_response_def update_connection_def rpc_on_connection_closed_def fold_push_event
    hs_remove_def list_all_iff Let_def debug_assert_def
  show ?thesis
    using assms(1,2) cs(1) ys zs left by (intro conjI) (auto simp: defs)
qed

text \<open>
  The identifiers of incoming requests also start at one, so a handler can report the time-out of an
  incoming request and then, for the outgoing request with the same number, that its protocol is not
  supported: the first report has taken the outgoing request out of the record, and the assertion of
  a debug build fails on the second.
\<close>

lemma equal_numbers_trip_assertion:
  assumes "get_connection p c s = Some x" "rpc_on_handler_event True p c (H_InboundTimeout i) s = Ok t"
  shows "rpc_on_handler_event True p c (H_OutboundUnsuportedProtocol i) t = Panic"
proof -
  obtain cs where cs: "hm_get (rpc_connected s) p = Some cs" "find (\<lambda>x. conn_id x = c) cs = Some x"
    using assms(1) by (auto simp: get_connection_def split: option.splits)
  let ?f = "\<lambda>x. x\<lparr>pending_inbound_responses := removeAll i (pending_inbound_responses x)\<rparr>"
  have "find (\<lambda>x. conn_id x = c) (update_first (\<lambda>x. conn_id x = c) ?f cs) = Some (?f x)"
    using update_first_take [OF cs(2), of ?f] take_first_find by fastforce
  then have "\<not> pending_on t p c i"
    using assms cs by (auto simp: pending_on_def get_connection_def rpc_on_handler_event_def push_event_def
        remove_pending_inbound_response_def update_connection_def hs_remove_def)
  then show ?thesis by (simp add: handler_event_Panic)
qed

section \<open>Concrete runs\<close>

definition sent_run :: rpc_run where
  "sent_run = \<lparr>run_rpc = snd (send_request 7 Q_MetaData new_rpc), run_open = (\<lambda>_. []), run_sent = [(7, 1)],
     run_polled = []\<rparr>"

definition connected_run :: rpc_run where
  "connected_run = \<lparr>run_rpc = \<lparr>rpc_next_request_id = 2,
       rpc_pending_events = [DialPeer 7, NotifyHandler 7 3 \<lparr>oi_req_id = 1, oi_request = Q_MetaData\<rparr>],
       rpc_connected = [(7, [\<lparr>conn_id = 3, pending_inbound_responses = [1], pending_outbound_responses = []\<rparr>])],
       rpc_pending_outbound = []\<rparr>,
     run_open = (\<lambda>_. [])(7 := [3]), run_sent = [(7, 1)], run_polled = []\<rparr>"

lemmas rpc_eval = send_request_def next_request_id_def try_send_request_def new_rpc_def push_event_def
  hm_get_def hm_insert_def hm_remove_def hs_insert_def Let_def

lemma sent_run_reachable: "rpc_reachable debug sent_run"
proof (rule rpc_next [OF rpc_start])
  have "send_request 7 Q_MetaData (run_rpc start_run) = (1, run_rpc sent_run)"
    by (simp add: rpc_eval sent_run_def start_run_def)
  from step_send [OF this] show "rpc_step debug start_run (Some sent_run)"
    by (simp add: sent_run_def start_run_def)
qed

lemma connected_run_reachable: "rpc_reachable debug connected_run"
proof (rule rpc_next [OF sent_run_reachable])
  have "rpc_on_swarm_event debug (ConnectionEstablished 7 3 (length (run_open sent_run 7))) (run_rpc sent_run) =
      Ok (run_rpc connected_run)"
    by (simp add: rpc_on_swarm_event_def rpc_on_connection_established_def sent_run_def connected_run_def
        new_connection_def rpc_eval)
  from step_established [OF _ this] show "rpc_step debug sent_run (Some connected_run)"
    by (simp add: sent_run_def connected_run_def)
qed

theorem rpc_panics_iff_witness:
  "rpc_reachable True connected_run \<and>
   rpc_on_swarm_event True (ConnectionClosed 7 3 0) (run_rpc connected_run) \<noteq> Panic \<and>
   rpc_on_handler_event True 7 3 (H_OutboundUnsuportedProtocol 1) (run_rpc connected_run) \<noteq> Panic \<and>
   rpc_on_handler_event True 7 3 (H_OutboundUnsuportedProtocol 2) (run_rpc connected_run) = Panic"
proof -
  note main = rpc_panics_iff [OF connected_run_reachable [of True], of 3 7]
  have "3 \<in> set (run_open connected_run 7)" "length (run_open connected_run 7) = 1"
    "pending_on (run_rpc connected_run) 7 3 1" "\<not> pending_on (run_rpc connected_run) 7 3 2"
    by (simp_all add: connected_run_def pending_on_def get_connection_def hm_get_def)
  then show ?thesis
    using main [of _ "H_OutboundUnsuportedProtocol 1"] main [of _ "H_OutboundUnsuportedProtocol 2"]
      connected_run_reachable by auto
qed

theorem requests_accounted_witness:
  "rpc_reachable False connected_run \<and> (7, 1) \<in> set (run_sent connected_run) \<and>
   in_flight (run_rpc connected_run) 7 1"
proof -
  have "(7, 1) \<in> set (run_sent connected_run)" by (simp add: connected_run_def)
  from requests_accounted [OF connected_run_reachable [of False] this] this connected_run_reachable [of False]
  show ?thesis by (simp add: waiting_def run_history_def connected_run_def hm_get_def)
qed

theorem timeouts_mistracked_witness:
  "rpc_reachable True connected_run \<and> get_connection 7 3 (run_rpc connected_run) \<noteq> None \<and>
   (\<exists>t new. bind_ok (rpc_on_handler_event True 7 3 (H_InboundTimeout 1) (run_rpc connected_run))
      (rpc_on_swarm_event True (ConnectionClosed 7 3 0)) = Ok t \<and>
    rpc_pending_events t = rpc_pending_events (run_rpc connected_run) @ new \<and>
    list_all (\<lambda>e. \<not> answers 7 1 e) new)"
proof -
  let ?x = "\<lparr>conn_id = 3, pending_inbound_responses = [1], pending_outbound_responses = []\<rparr>"
  have g: "get_connection 7 3 (run_rpc connected_run) = Some ?x"
    by (simp add: get_connection_def connected_run_def hm_get_def)
  have len: "map_option length (hm_get (rpc_connected (run_rpc connected_run)) 7) = Some 1"
    by (simp add: connected_run_def hm_get_def)
  show ?thesis using timeouts_mistracked [OF g, of 1 True 0] g len connected_run_reachable [of True] by auto
qed

end
