(* ===== verification/Rpc_Handler.thy ===== *)
theory Rpc_Handler
  imports Rpc_Behaviour
begin

text \<open>
  The connection handler of the request-response protocol (\<open>RPCHandler\<close> in \<open>p2p/src/rpc/handler.rs\<close>):
  one per connection, between the swarm, which negotiates substreams, and the behaviour \<open>RPC\<close>.

  A future in \<open>worker_streams\<close> is represented by the point at which it waits: an inbound one reads the
  request and then waits for the response, an outbound one talks to the remote peer. A oneshot channel
  for a request is represented by its receiving end, the entry of \<open>inbound\<close>. The bounded map of futures
  (\<open>futures_bounded::FuturesMap\<close>) is the parameter \<open>try_push\<close>; \<open>FuturesUnordered\<close> keeps no order, so a
  step may reorder \<open>inbound\<close>.
\<close>

section \<open>State\<close>

datatype bound_type_id = Inbound request_id | Outbound request_id

datatype worker =
    Reading protocol socket
  | Awaiting socket
  | Requesting protocol rpc_request socket

datatype channel = Waiting | Arrived rpc_request | Canceled

type_synonym workers = "(bound_type_id, worker) hash_map"

record handler =
  inbound_req_id :: request_id
  pending_events :: "handler_event list"
  outbound :: "outbound_info list"
  inbound :: "(request_id \<times> channel) list"
  worker_streams :: workers

definition new_handler :: "request_id \<Rightarrow> handler" where
  "new_handler counter =
     \<lparr>inbound_req_id = counter, pending_events = [], outbound = [], inbound = [], worker_streams = []\<rparr>"

definition WORKER_CAPACITY :: nat where
  "WORKER_CAPACITY = 100"

section \<open>The map of futures\<close>

datatype push_result = Pushed | BeyondCapacity | Replaced worker

type_synonym try_push = "nat \<Rightarrow> bound_type_id \<Rightarrow> worker \<Rightarrow> workers \<Rightarrow> push_result \<times> workers"

text \<open>
  Documented behaviour of \<open>FuturesMap::try_push\<close>: at capacity the future is handed back, a future under
  the same identifier is replaced and handed back, otherwise the future is inserted.
\<close>

definition try_push_documented :: "try_push \<Rightarrow> bool" where
  "try_push_documented T =
     (\<forall>cap b w ws.
        (cap \<le> length ws \<longrightarrow> T cap b w ws = (BeyondCapacity, ws)) \<and>
        (length ws < cap \<longrightarrow> T cap b w ws =
           ((case hm_get ws b of Some old \<Rightarrow> Replaced old | None \<Rightarrow> Pushed), hm_insert b w ws)))"

text \<open>Dropping a future that has not sent its request yet drops the sending end of its channel.\<close>

definition set_channel :: "request_id \<Rightarrow> channel \<Rightarrow> (request_id \<times> channel) list \<Rightarrow> (request_id \<times> channel) list" where
  "set_channel i ch = map (\<lambda>(j, old). (j, if j = i then ch else old))"

definition drop_future :: "bound_type_id \<Rightarrow> worker \<Rightarrow> handler \<Rightarrow> handler" where
  "drop_future b w h =
     (case (b, w) of
        (Inbound i, Reading _ _) \<Rightarrow> h\<lparr>inbound := set_channel i Canceled (inbound h)\<rparr>
      | _ \<Rightarrow> h)"

definition push_worker :: "try_push \<Rightarrow> bound_type_id \<Rightarrow> worker \<Rightarrow> handler \<Rightarrow> handler" where
  "push_worker T b w h =
     (case T WORKER_CAPACITY b w (worker_streams h) of
        (Pushed, ws) \<Rightarrow> h\<lparr>worker_streams := ws\<rparr>
      | (BeyondCapacity, ws) \<Rightarrow> drop_future b w (h\<lparr>worker_streams := ws\<rparr>)
      | (Replaced old, ws) \<Rightarrow> drop_future b old (h\<lparr>worker_streams := ws\<rparr>))"

section \<open>The workers\<close>

text \<open>The inbound worker up to the point where it sends the request, and from the response on.\<close>

definition read_request :: "wire \<Rightarrow> protocol \<Rightarrow> socket \<Rightarrow> (handler_error, rpc_request) outcome" where
  "read_request W p sock =
     bind_ok (map_err IoError (sk_read sock)) (\<lambda>data.
     bind_ok (inbound_decode W p (take REQUEST_SIZE_MAXIMUM data)) (\<lambda>decoded.
     ok_or (IoError ''Failed to decode request'') decoded))"

definition write_reply ::
  "wire \<Rightarrow> request_id \<Rightarrow> rpc_response option \<Rightarrow> socket \<Rightarrow> (handler_error, handler_event) outcome" where
  "write_reply W req_id answer sock =
     (case answer of
        Some response \<Rightarrow>
          bind_ok (inbound_encode W response []) (\<lambda>bytes.
          bind_ok (map_err IoError (sk_write_all sock bytes)) (\<lambda>_.
          bind_ok (map_err IoError (sk_close sock)) (\<lambda>_.
          Ok (H_ResponseSent req_id))))
      | None \<Rightarrow> bind_ok (map_err IoError (sk_close sock)) (\<lambda>_. Ok (H_ResponseOmission req_id)))"

lemma inbound_worker_parts:
  "inbound_worker W p i alive answer sock =
     bind_ok (read_request W p sock) (\<lambda>q. if alive then write_reply W i (answer q) sock else Panic)"
  by (simp add: inbound_worker_def read_request_def write_reply_def bind_ok_def ok_or_def map_err_def
      split: outcome.splits option.splits)

text \<open>
  Reading the request sends it to the handler; the worker panics when the receiving end is gone. A
  request that cannot be read leaves the worker where it is: it is about to return the error.
\<close>

definition deliver_request :: "request_id \<Rightarrow> rpc_request \<Rightarrow> handler \<Rightarrow> (handler_error, handler) outcome" where
  "deliver_request i q h =
     (if (i, Waiting) \<in> set (inbound h)
      then Ok (h\<lparr>inbound := set_channel i (Arrived q) (inbound h)\<rparr>)
      else Panic)"

definition worker_reads :: "wire \<Rightarrow> request_id \<Rightarrow> handler \<Rightarrow> (handler_error, handler) outcome" where
  "worker_reads W i h =
     (case hm_get (worker_streams h) (Inbound i) of
        Some (Reading p sock) \<Rightarrow>
          bind_ok (read_request W p sock) (\<lambda>q.
          bind_ok (deliver_request i q h) (\<lambda>h.
          Ok (h\<lparr>worker_streams := hm_insert (Inbound i) (Awaiting sock) (worker_streams h)\<rparr>)))
      | _ \<Rightarrow> Ok h)"

text \<open>
  What a worker returns once it is done; \<open>None\<close> while it still waits. The response to an inbound
  request is there once its sender has been used (\<open>Some (Some r)\<close>) or dropped (\<open>Some None\<close>).
\<close>

definition worker_output ::
  "wire \<Rightarrow> bound_type_id \<Rightarrow> worker \<Rightarrow> rpc_response option option \<Rightarrow>
   (handler_error, handler_event) outcome option" where
  "worker_output W b w answered =
     (case (b, w) of
        (Inbound i, Reading p sock) \<Rightarrow>
          (case read_request W p sock of Err e \<Rightarrow> Some (Err e) | _ \<Rightarrow> None)
      | (Inbound i, Awaiting sock) \<Rightarrow> map_option (\<lambda>a. write_reply W i a sock) answered
      | (Outbound i, Requesting p q sock) \<Rightarrow> Some (outbound_worker W p i q sock)
      | _ \<Rightarrow> None)"

section \<open>The methods\<close>

definition on_fully_negotiated_inbound ::
  "try_push \<Rightarrow> socket \<Rightarrow> protocol \<Rightarrow> request_id \<Rightarrow> handler \<Rightarrow> handler" where
  "on_fully_negotiated_inbound T sock p req_id h = push_worker T (Inbound req_id) (Reading p sock) h"

definition on_fully_negotiated_outbound ::
  "try_push \<Rightarrow> socket \<Rightarrow> protocol \<Rightarrow> outbound_info \<Rightarrow> handler \<Rightarrow> handler" where
  "on_fully_negotiated_outbound T sock p info h =
     push_worker T (Outbound (oi_req_id info)) (Requesting p (oi_request info) sock) h"

definition listen_protocol :: "handler \<Rightarrow> request_id \<times> handler" where
  "listen_protocol h =
     (let req_id = inbound_req_id h
      in (req_id, h\<lparr>inbound_req_id := req_id + 1, inbound := inbound h @ [(req_id, Waiting)]\<rparr>))"

definition on_behaviour_event :: "outbound_info \<Rightarrow> handler \<Rightarrow> handler" where
  "on_behaviour_event event h = h\<lparr>outbound := outbound h @ [event]\<rparr>"

datatype stream_upgrade_error = UpgradeTimeout | NegotiationFailed | UpgradeApply | UpgradeIo

datatype connection_event =
    FullyNegotiatedInbound socket protocol request_id
  | FullyNegotiatedOutbound socket protocol outbound_info
  | DialUpgradeError outbound_info stream_upgrade_error
  | OtherConnectionEvent

definition on_connection_event :: "try_push \<Rightarrow> connection_event \<Rightarrow> handler \<Rightarrow> handler" where
  "on_connection_event T event h =
     (case event of
        FullyNegotiatedInbound sock p i \<Rightarrow> on_fully_negotiated_inbound T sock p i h
      | FullyNegotiatedOutbound sock p info \<Rightarrow> on_fully_negotiated_outbound T sock p info h
      | DialUpgradeError info error \<Rightarrow>
          (case error of
             UpgradeTimeout \<Rightarrow>
               h\<lparr>pending_events := pending_events h @ [H_DialUpgradeTimeout (oi_req_id info)]\<rparr>
           | NegotiationFailed \<Rightarrow>
               h\<lparr>pending_events := pending_events h @ [H_OutboundUnsuportedProtocol (oi_req_id info)]\<rparr>
           | _ \<Rightarrow> h)
      | OtherConnectionEvent \<Rightarrow> h)"

text \<open>The loop over \<open>inbound\<close>: cancelled channels are skipped, waiting ones stay.\<close>

fun poll_inbound ::
  "(request_id \<times> channel) list \<Rightarrow> (request_id \<times> rpc_request) option \<times> (request_id \<times> channel) list" where
  "poll_inbound [] = (None, [])"
| "poll_inbound ((i, Waiting) # xs) = (case poll_inbound xs of (r, ys) \<Rightarrow> (r, (i, Waiting) # ys))"
| "poll_inbound ((i, Arrived q) # xs) = (Some (i, q), xs)"
| "poll_inbound ((i, Canceled) # xs) = poll_inbound xs"

datatype ready = Finished handler_event | Failed handler_error | TimedOut

datatype handler_output = NotifyBehaviour handler_event | OutboundSubstreamRequest outbound_info

text \<open>A future that is done, or whose time is up, is taken out of the map and dropped.\<close>

definition take_worker :: "bound_type_id \<Rightarrow> handler \<Rightarrow> handler" where
  "take_worker b h =
     (let h' = h\<lparr>worker_streams := hm_remove b (worker_streams h)\<rparr>
      in case hm_get (worker_streams h) b of Some w \<Rightarrow> drop_future b w h' | None \<Rightarrow> h')"

definition handler_poll :: "(bound_type_id \<times> ready) option \<Rightarrow> handler \<Rightarrow> handler_output option \<times> handler" where
  "handler_poll streams h =
     (case streams of
        Some (b, Finished event) \<Rightarrow> (Some (NotifyBehaviour event), take_worker b h)
      | Some (Inbound i, TimedOut) \<Rightarrow>
          (Some (NotifyBehaviour (H_InboundTimeout i)), take_worker (Inbound i) h)
      | Some (Outbound i, TimedOut) \<Rightarrow>
          (Some (NotifyBehaviour (H_OutboundTimeout i)), take_worker (Outbound i) h)
      | Some (Inbound i, Failed err) \<Rightarrow>
          (Some (NotifyBehaviour (H_InboundError i err)), take_worker (Inbound i) h)
      | Some (Outbound i, Failed err) \<Rightarrow>
          (Some (NotifyBehaviour (H_OutboundError i err)), take_worker (Outbound i) h)
      | None \<Rightarrow>
          (case pending_events h of
             event # events \<Rightarrow> (Some (NotifyBehaviour event), h\<lparr>pending_events := events\<rparr>)
           | [] \<Rightarrow>
               (case poll_inbound (inbound h) of
                  (Some (i, q), rest) \<Rightarrow> (Some (NotifyBehaviour (H_Request i q)), h\<lparr>inbound := rest\<rparr>)
                | (None, rest) \<Rightarrow>
                    (case outbound h of
                       request # requests \<Rightarrow>
                         (Some (OutboundSubstreamRequest request),
                          h\<lparr>inbound := rest, outbound := requests\<rparr>)
                     | [] \<Rightarrow> (None, h\<lparr>inbound := rest\<rparr>)))))"

section \<open>The handler under the swarm\<close>

text \<open>
  A run adds what happens outside the handler: the identifiers handed to the swarm for inbound
  substreams that are still being negotiated, the outbound substreams that are being opened, and, as a
  record, the requests given to the handler, the substreams it asked for, the events it reported and
  the requests that ended without an event. \<open>run_listens\<close> counts the identifiers taken from the counter,
  which all handlers of the node share.
\<close>

record handler_run =
  hr_handler :: handler
  hr_offered :: "request_id list"
  hr_opening :: "outbound_info list"
  hr_given :: "outbound_info list"
  hr_requested :: "outbound_info list"
  hr_events :: "handler_event list"
  hr_lost :: "request_id list"
  hr_listens :: nat

definition start_handler :: handler_run where
  "start_handler =
     \<lparr>hr_handler = new_handler 1, hr_offered = [], hr_opening = [], hr_given = [], hr_requested = [],
      hr_events = [], hr_lost = [], hr_listens = 0\<rparr>"

text \<open>The request whose substream was pushed, if pushing it lost a request.\<close>

definition lost_by_push :: "try_push \<Rightarrow> request_id \<Rightarrow> worker \<Rightarrow> handler \<Rightarrow> request_id list" where
  "lost_by_push T i w h =
     (case fst (T WORKER_CAPACITY (Outbound i) w (worker_streams h)) of Pushed \<Rightarrow> [] | _ \<Rightarrow> [i])"

definition ready_of :: "(handler_error, handler_event) outcome \<Rightarrow> ready option" where
  "ready_of r = (case r of Ok ev \<Rightarrow> Some (Finished ev) | Err e \<Rightarrow> Some (Failed e) | Panic \<Rightarrow> None)"

definition report :: "handler_output option \<times> handler \<Rightarrow> handler_run \<Rightarrow> handler_run" where
  "report r R =
     (case r of
        (Some (NotifyBehaviour ev), h) \<Rightarrow> R\<lparr>hr_handler := h, hr_events := hr_events R @ [ev]\<rparr>
      | (Some (OutboundSubstreamRequest info), h) \<Rightarrow>
          R\<lparr>hr_handler := h, hr_opening := hr_opening R @ [info], hr_requested := hr_requested R @ [info]\<rparr>
      | (None, h) \<Rightarrow> R\<lparr>hr_handler := h\<rparr>)"

text \<open>
  The response to a request is there only after the request has left the handler, which holds the
  sender of the response until then. A step in which a worker finds the receiver of its request gone,
  and panics, leads to \<open>None\<close>.
\<close>

inductive handler_step :: "wire \<Rightarrow> try_push \<Rightarrow> handler_run \<Rightarrow> handler_run option \<Rightarrow> bool"
  for W :: wire and T :: try_push where
  hs_listen: "listen_protocol (hr_handler R) = (i, h) \<Longrightarrow>
    handler_step W T R (Some (R\<lparr>hr_handler := h, hr_offered := i # hr_offered R, hr_listens := Suc (hr_listens R)\<rparr>))"
| hs_listen_elsewhere: "handler_step W T R
    (Some (R\<lparr>hr_handler := (hr_handler R)\<lparr>inbound_req_id := inbound_req_id (hr_handler R) + 1\<rparr>,
             hr_listens := Suc (hr_listens R)\<rparr>))"
| hs_upgrade_failed: "i \<in> set (hr_offered R) \<Longrightarrow>
    handler_step W T R
      (Some (R\<lparr>hr_handler := (hr_handler R)\<lparr>inbound := set_channel i Canceled (inbound (hr_handler R))\<rparr>,
               hr_offered := remove1 i (hr_offered R)\<rparr>))"
| hs_inbound: "i \<in> set (hr_offered R) \<Longrightarrow>
    handler_step W T R
      (Some (R\<lparr>hr_handler := on_connection_event T (FullyNegotiatedInbound sock p i) (hr_handler R),
               hr_offered := remove1 i (hr_offered R)\<rparr>))"
| hs_send: "handler_step W T R
    (Some (R\<lparr>hr_handler := on_behaviour_event info (hr_handler R), hr_given := hr_given R @ [info]\<rparr>))"
| hs_outbound: "info \<in> set (hr_opening R) \<Longrightarrow>
    handler_step W T R
      (Some (R\<lparr>hr_handler := on_connection_event T (FullyNegotiatedOutbound sock p info) (hr_handler R),
               hr_opening := remove1 info (hr_opening R),
               hr_lost := hr_lost R @
                 lost_by_push T (oi_req_id info) (Requesting p (oi_request info) sock) (hr_handler R)\<rparr>))"
| hs_dial_error: "info \<in> set (hr_opening R) \<Longrightarrow>
    handler_step W T R
      (Some (R\<lparr>hr_handler := on_connection_event T (DialUpgradeError info err) (hr_handler R),
               hr_opening := remove1 info (hr_opening R),
               hr_lost := hr_lost R @ (if err \<in> {UpgradeTimeout, NegotiationFailed} then [] else [oi_req_id info])\<rparr>))"
| hs_reorder: "mset xs = mset (inbound (hr_handler R)) \<Longrightarrow>
    handler_step W T R (Some (R\<lparr>hr_handler := (hr_handler R)\<lparr>inbound := xs\<rparr>\<rparr>))"
| hs_read: "worker_reads W i (hr_handler R) = Ok h \<Longrightarrow>
    handler_step W T R (Some (R\<lparr>hr_handler := h\<rparr>))"
| hs_read_crash: "hm_get (worker_streams (hr_handler R)) (Inbound i) = Some (Reading p sock) \<Longrightarrow>
    read_request W p sock = Ok q \<Longrightarrow> worker_reads W i (hr_handler R) = Panic \<Longrightarrow> handler_step W T R None"
| hs_done: "hm_get (worker_streams (hr_handler R)) b = Some w \<Longrightarrow>
    answered \<noteq> None \<longrightarrow> (\<forall>i. b = Inbound i \<longrightarrow> i \<notin> fst ` set (inbound (hr_handler R))) \<Longrightarrow>
    worker_output W b w answered = Some out \<Longrightarrow> ready_of out = Some r \<Longrightarrow>
    handler_step W T R (Some (report (handler_poll (Some (b, r)) (hr_handler R)) R))"
| hs_timeout: "hm_get (worker_streams (hr_handler R)) b = Some w \<Longrightarrow>
    handler_step W T R (Some (report (handler_poll (Some (b, TimedOut)) (hr_handler R)) R))"
| hs_poll: "handler_step W T R (Some (report (handler_poll None (hr_handler R)) R))"

inductive handler_reachable :: "wire \<Rightarrow> try_push \<Rightarrow> handler_run \<Rightarrow> bool"
  for W :: wire and T :: try_push where
  hr_start: "handler_reachable W T start_handler"
| hr_next: "handler_reachable W T R \<Longrightarrow> handler_step W T R (Some R') \<Longrightarrow> handler_reachable W T R'"

inductive_cases handler_crashE: "handler_step W T R None"

section \<open>Requests given to the handler\<close>

fun event_out :: "handler_event \<Rightarrow> request_id option" where
  "event_out (H_Response i _) = Some i"
| "event_out (H_OutboundTimeout i) = Some i"
| "event_out (H_OutboundError i _) = Some i"
| "event_out (H_DialUpgradeTimeout i) = Some i"
| "event_out (H_OutboundUnsuportedProtocol i) = Some i"
| "event_out _ = None"

fun key_out :: "bound_type_id \<Rightarrow> request_id option" where
  "key_out (Outbound i) = Some i"
| "key_out (Inbound i) = None"

definition picked :: "('a \<Rightarrow> 'b option) \<Rightarrow> 'a list \<Rightarrow> 'b multiset" where
  "picked f xs = mset (List.map_filter f xs)"

abbreviation worker_out :: "workers \<Rightarrow> request_id multiset" where
  "worker_out ws \<equiv> picked key_out (hm_keys ws)"

lemma picked_simps [simp]:
  "picked f [] = {#}"
  "picked f (x # xs) = (case f x of Some y \<Rightarrow> add_mset y (picked f xs) | None \<Rightarrow> picked f xs)"
  "picked f (xs @ ys) = picked f xs + picked f ys"
  by (simp_all add: picked_def map_filter_def split: option.splits)

lemma picked_update:
  "picked f (hm_keys (hm_insert b w ws)) =
     (if b \<in> dom (hm_get ws) then picked f (hm_keys ws) else picked f (hm_keys ws) + picked f [b])"
  by (induction ws) (auto simp: hm_insert_def hm_get_def split: option.splits)

lemma picked_delete:
  assumes "hm_wf ws" "hm_get ws b = Some w"
  shows "picked f (hm_keys ws) = picked f (hm_keys (hm_remove b ws)) + picked f [b]"
  by (rule hm_remove_split [OF assms]) (simp split: option.splits)

lemma drop_future_simps [simp]:
  "worker_streams (drop_future b w h) = worker_streams h"
  "outbound (drop_future b w h) = outbound h"
  "pending_events (drop_future b w h) = pending_events h"
  "inbound_req_id (drop_future b w h) = inbound_req_id h"
  by (simp_all add: drop_future_def split: bound_type_id.splits worker.splits)

lemma take_worker_simps [simp]:
  "worker_streams (take_worker b h) = hm_remove b (worker_streams h)"
  "outbound (take_worker b h) = outbound h"
  "pending_events (take_worker b h) = pending_events h"
  "inbound_req_id (take_worker b h) = inbound_req_id h"
  by (simp_all add: take_worker_def Let_def split: option.splits)

lemma push_worker_cases:
  assumes "try_push_documented T"
  obtains (full) "WORKER_CAPACITY \<le> length (worker_streams h)" "push_worker T b w h = drop_future b w h"
      "fst (T WORKER_CAPACITY b w (worker_streams h)) = BeyondCapacity"
  | (old) old where "hm_get (worker_streams h) b = Some old"
      "push_worker T b w h = drop_future b old (h\<lparr>worker_streams := hm_insert b w (worker_streams h)\<rparr>)"
      "fst (T WORKER_CAPACITY b w (worker_streams h)) = Replaced old"
  | (new) "hm_get (worker_streams h) b = None" "length (worker_streams h) < WORKER_CAPACITY"
      "push_worker T b w h = h\<lparr>worker_streams := hm_insert b w (worker_streams h)\<rparr>"
      "fst (T WORKER_CAPACITY b w (worker_streams h)) = Pushed"
proof (cases "WORKER_CAPACITY \<le> length (worker_streams h)")
  case True
  then have "T WORKER_CAPACITY b w (worker_streams h) = (BeyondCapacity, worker_streams h)"
    using assms by (simp add: try_push_documented_def)
  then show thesis using full True by (simp add: push_worker_def)
next
  case False
  then have "T WORKER_CAPACITY b w (worker_streams h) =
      ((case hm_get (worker_streams h) b of Some old \<Rightarrow> Replaced old | None \<Rightarrow> Pushed),
       hm_insert b w (worker_streams h))"
    using assms by (simp add: try_push_documented_def)
  then show thesis using new old False by (cases "hm_get (worker_streams h) b") (simp_all add: push_worker_def)
qed

lemma push_worker_simps [simp]:
  assumes "try_push_documented T"
  shows "outbound (push_worker T b w h) = outbound h"
    and "pending_events (push_worker T b w h) = pending_events h"
    and "inbound_req_id (push_worker T b w h) = inbound_req_id h"
  by (cases rule: push_worker_cases [OF assms, of h b w]; simp)+

text \<open>Every worker has the kind its identifier says, and no identifier is used twice.\<close>

fun worker_typed :: "bound_type_id \<times> worker \<Rightarrow> bool" where
  "worker_typed (Inbound _, Requesting _ _ _) = False"
| "worker_typed (Outbound _, Requesting _ _ _) = True"
| "worker_typed (Outbound _, _) = False"
| "worker_typed (Inbound _, _) = True"

definition workers_ok :: "workers \<Rightarrow> bool" where
  "workers_ok ws = (hm_wf ws \<and> (\<forall>b w. hm_get ws b = Some w \<longrightarrow> worker_typed (b, w)))"

lemma workers_ok_insert: "workers_ok ws \<Longrightarrow> worker_typed (b, w) \<Longrightarrow> workers_ok (hm_insert b w ws)"
  by (auto simp: workers_ok_def)

lemma workers_ok_remove: "workers_ok ws \<Longrightarrow> workers_ok (hm_remove b ws)"
  by (auto simp: workers_ok_def)

lemma workers_ok_push:
  assumes "try_push_documented T" "workers_ok (worker_streams h)" "worker_typed (b, w)"
  shows "workers_ok (worker_streams (push_worker T b w h))"
  using assms by (cases rule: push_worker_cases [OF assms(1), of h b w]) (simp_all add: workers_ok_insert)

text \<open>What a worker reports concerns its own request.\<close>

lemma write_reply_event:
  "write_reply W i answer sock = Ok ev \<Longrightarrow> ev = (case answer of Some _ \<Rightarrow> H_ResponseSent i | None \<Rightarrow> H_ResponseOmission i)"
  by (cases answer) (auto simp: write_reply_def bind_ok_def split: outcome.splits)

lemma outbound_worker_event: "outbound_worker W p i q sock = Ok ev \<Longrightarrow> \<exists>r. ev = H_Response i r"
  by (auto simp: outbound_worker_def bind_ok_def split: outcome.splits)

lemma worker_output_event:
  assumes "worker_output W b w answered = Some (Ok ev)"
  shows "event_out ev = key_out b"
  using assms
  by (auto simp: worker_output_def dest!: write_reply_event outbound_worker_event
      split: bound_type_id.splits worker.splits outcome.splits option.splits)

lemma poll_ready_event:
  assumes "worker_output W b w answered = Some out" "ready_of out = Some r \<or> r = TimedOut"
  shows "\<exists>ev. handler_poll (Some (b, r)) h = (Some (NotifyBehaviour ev), take_worker b h) \<and>
     event_out ev = key_out b"
  using assms worker_output_event [of W b w answered]
  by (cases out; cases b) (auto simp: ready_of_def handler_poll_def)

lemma poll_timeout_event:
  "\<exists>ev. handler_poll (Some (b, TimedOut)) h = (Some (NotifyBehaviour ev), take_worker b h) \<and>
     event_out ev = key_out b"
  by (cases b) (simp_all add: handler_poll_def)

definition requests_kept :: "handler_run \<Rightarrow> bool" where
  "requests_kept R =
     (let h = hr_handler R in
        workers_ok (worker_streams h) \<and>
        hr_given R = hr_requested R @ outbound h \<and>
        mset (map oi_req_id (hr_requested R)) =
          mset (map oi_req_id (hr_opening R)) + worker_out (worker_streams h) +
          picked event_out (pending_events h) + picked event_out (hr_events R) + mset (hr_lost R))"

lemma worker_reads_simps:
  assumes "worker_reads W i h = Ok h'"
  shows "outbound h' = outbound h" "pending_events h' = pending_events h" "inbound_req_id h' = inbound_req_id h"
    and "workers_ok (worker_streams h) \<Longrightarrow> workers_ok (worker_streams h')"
    and "picked f (hm_keys (worker_streams h')) = picked f (hm_keys (worker_streams h))"
  using assms
  by (auto simp: worker_reads_def deliver_request_def bind_ok_eq_Ok workers_ok_insert picked_update
      split: option.splits worker.splits if_splits)

lemma kept_finish:
  assumes "requests_kept R" "hm_get (worker_streams (hr_handler R)) b = Some w"
    and "r = (Some (NotifyBehaviour ev), take_worker b (hr_handler R))" "event_out ev = key_out b"
  shows "requests_kept (report r R)"
  using assms picked_delete [OF _ assms(2), of key_out]
  by (auto simp: requests_kept_def report_def Let_def workers_ok_remove workers_ok_def split: option.splits)

lemma kept_quiet_poll:
  assumes "requests_kept R"
  shows "requests_kept (report (handler_poll None (hr_handler R)) R)"
  using assms
  by (auto simp: requests_kept_def report_def handler_poll_def Let_def split: list.splits prod.splits option.splits)

lemma kept_remove1:
  assumes "info \<in> set xs"
  shows "mset (map oi_req_id xs) = add_mset (oi_req_id info) (mset (map oi_req_id (remove1 info xs)))"
  using assms by (induction xs) auto

lemma kept_outbound:
  assumes T: "try_push_documented T" and kept: "requests_kept R" and inopening: "info \<in> set (hr_opening R)"
  shows "requests_kept (R\<lparr>hr_handler := on_connection_event T (FullyNegotiatedOutbound sock p info) (hr_handler R),
     hr_opening := remove1 info (hr_opening R),
     hr_lost := hr_lost R @ lost_by_push T (oi_req_id info) (Requesting p (oi_request info) sock) (hr_handler R)\<rparr>)"
proof -
  let ?h = "hr_handler R" and ?b = "Outbound (oi_req_id info)" and ?w = "Requesting p (oi_request info) sock"
  have ok: "workers_ok (worker_streams ?h)" using kept by (simp add: requests_kept_def Let_def)
  show ?thesis
    using kept workers_ok_push [OF T ok, of ?b ?w] kept_remove1 [OF inopening]
    by (cases rule: push_worker_cases [OF T, of ?h ?b ?w])
      (auto simp: requests_kept_def Let_def on_connection_event_def on_fully_negotiated_outbound_def
        lost_by_push_def picked_update T)
qed

lemma kept_inbound:
  assumes T: "try_push_documented T" and kept: "requests_kept R"
  shows "requests_kept (R\<lparr>hr_handler := on_connection_event T (FullyNegotiatedInbound sock p i) (hr_handler R),
     hr_offered := offered\<rparr>)"
proof -
  let ?h = "hr_handler R" and ?b = "Inbound i" and ?w = "Reading p sock"
  have ok: "workers_ok (worker_streams ?h)" using kept by (simp add: requests_kept_def Let_def)
  show ?thesis
    using kept workers_ok_push [OF T ok, of ?b ?w]
    by (cases rule: push_worker_cases [OF T, of ?h ?b ?w])
      (auto simp: requests_kept_def Let_def on_connection_event_def on_fully_negotiated_inbound_def
        picked_update T)
qed

lemma kept_dial_error:
  assumes "requests_kept R" "info \<in> set (hr_opening R)"
  shows "requests_kept (R\<lparr>hr_handler := on_connection_event T (DialUpgradeError info err) (hr_handler R),
     hr_opening := remove1 info (hr_opening R),
     hr_lost := hr_lost R @ (if err \<in> {UpgradeTimeout, NegotiationFailed} then [] else [oi_req_id info])\<rparr>)"
  using assms kept_remove1 [OF assms(2)]
  by (cases err) (auto simp: requests_kept_def Let_def on_connection_event_def)

lemma handler_step_kept:
  assumes "handler_step W T R (Some R')" "try_push_documented T" "requests_kept R"
  shows "requests_kept R'"
  using assms(1)
proof cases
  case (hs_done b w answered out r)
  then obtain ev where "handler_poll (Some (b, r)) (hr_handler R) = (Some (NotifyBehaviour ev), take_worker b (hr_handler R))"
    and "event_out ev = key_out b" using poll_ready_event [OF hs_done(4), of r "hr_handler R"] by auto
  then show ?thesis using hs_done(1) kept_finish [OF assms(3) hs_done(2)] by simp
next
  case (hs_timeout b w)
  obtain ev where "handler_poll (Some (b, TimedOut)) (hr_handler R) = (Some (NotifyBehaviour ev), take_worker b (hr_handler R))"
    and "event_out ev = key_out b" using poll_timeout_event [of b "hr_handler R"] by auto
  then show ?thesis using hs_timeout(1) kept_finish [OF assms(3) hs_timeout(2)] by simp
next
  case (hs_read i h)
  then show ?thesis using assms(3) by (simp add: requests_kept_def Let_def worker_reads_simps [OF hs_read(2)])
next
  case (hs_listen i h)
  then show ?thesis using assms(3) by (auto simp: requests_kept_def Let_def listen_protocol_def)
next
  case hs_listen_elsewhere
  then show ?thesis using assms(3) by (simp add: requests_kept_def Let_def)
next
  case (hs_upgrade_failed i)
  then show ?thesis using assms(3) by (simp add: requests_kept_def Let_def)
next
  case (hs_inbound i sock p)
  then show ?thesis using kept_inbound [OF assms(2,3)] by simp
next
  case (hs_send info)
  then show ?thesis using assms(3) by (simp add: requests_kept_def Let_def on_behaviour_event_def)
next
  case (hs_outbound info sock p)
  then show ?thesis using kept_outbound [OF assms(2,3)] by simp
next
  case (hs_dial_error info err)
  then show ?thesis using kept_dial_error [OF assms(3)] by simp
next
  case (hs_reorder xs)
  then show ?thesis using assms(3) by (simp add: requests_kept_def Let_def)
next
  case hs_poll
  then show ?thesis using kept_quiet_poll [OF assms(3)] by simp
qed

lemma handler_reachable_kept:
  assumes "handler_reachable W T R" "try_push_documented T"
  shows "requests_kept R"
  using assms
proof (induction rule: handler_reachable.induct)
  case hr_start
  then show ?case by (simp add: requests_kept_def start_handler_def new_handler_def workers_ok_def)
next
  case (hr_next R R')
  then show ?case using handler_step_kept [OF hr_next.hyps(2)] by simp
qed

section \<open>Channels of inbound requests\<close>

fun replies :: "handler_event \<Rightarrow> request_id option" where
  "replies (H_ResponseSent i) = Some i"
| "replies (H_ResponseOmission i) = Some i"
| "replies _ = None"

definition replies_after_request :: "handler_event list \<Rightarrow> bool" where
  "replies_after_request es =
     (\<forall>k < length es. \<forall>i. replies (es ! k) = Some i \<longrightarrow> (\<exists>m < k. \<exists>q. es ! m = H_Request i q))"

lemma replies_after_snoc:
  assumes "replies_after_request es" "\<And>i. replies e = Some i \<Longrightarrow> \<exists>q. H_Request i q \<in> set es"
  shows "replies_after_request (es @ [e])"
  unfolding replies_after_request_def
proof (intro allI impI)
  fix k i
  assume k: "k < length (es @ [e])" and r: "replies ((es @ [e]) ! k) = Some i"
  show "\<exists>m < k. \<exists>q. (es @ [e]) ! m = H_Request i q"
  proof (cases "k < length es")
    case True
    then have "replies (es ! k) = Some i" using r by (simp add: nth_append)
    then obtain m q where "m < k" "es ! m = H_Request i q"
      using assms(1) True unfolding replies_after_request_def by blast
    then show ?thesis using True by (intro exI [of _ m]) (simp add: nth_append)
  next
    case False
    then have "k = length es" "replies e = Some i" using k r by (simp_all add: nth_append)
    then obtain q where "H_Request i q \<in> set es" using assms(2) by blast
    then obtain m where "m < length es" "es ! m = H_Request i q" by (auto simp: in_set_conv_nth)
    then show ?thesis using \<open>k = length es\<close> by (intro exI [of _ m]) (auto simp: nth_append)
  qed
qed

text \<open>The identifiers taken from the counter so far; below the width of the counter the next is new.\<close>

definition issued :: "nat \<Rightarrow> request_id \<Rightarrow> bool" where
  "issued n i = (\<exists>k < n. i = 1 + of_nat k)"

lemma issued_Suc: "issued n i \<Longrightarrow> issued (Suc n) i"
  by (auto simp: issued_def intro: less_SucI)

lemma issued_new: "issued (Suc n) (1 + of_nat n)"
  by (auto simp: issued_def)

lemma not_issued:
  assumes "n < 2 ^ 64"
  shows "\<not> issued n (1 + of_nat n)"
proof
  assume "issued n (1 + of_nat n)"
  then obtain k where k: "k < n" "(of_nat n :: 64 word) = of_nat k" by (auto simp: issued_def)
  then have "unat (of_nat n :: 64 word) = unat (of_nat k :: 64 word)" by simp
  then show False using k(1) assms by (simp add: unat_of_nat)
qed

definition chan_ids :: "(request_id \<times> channel) list \<Rightarrow> request_id set" where
  "chan_ids inb = fst ` set inb"

definition channels_ok ::
  "nat \<Rightarrow> request_id list \<Rightarrow> workers \<Rightarrow> (request_id \<times> channel) list \<Rightarrow> handler_event list \<Rightarrow> bool" where
  "channels_ok n off ws inb es =
     (distinct (map fst inb) \<and> distinct off \<and>
      (\<forall>i \<in> set off. (i, Waiting) \<in> set inb \<and> hm_get ws (Inbound i) = None) \<and>
      (\<forall>i p sock. hm_get ws (Inbound i) = Some (Reading p sock) \<longrightarrow> (i, Waiting) \<in> set inb) \<and>
      (\<forall>i sock. hm_get ws (Inbound i) = Some (Awaiting sock) \<longrightarrow>
         (\<exists>q. (i, Arrived q) \<in> set inb \<or> H_Request i q \<in> set es)) \<and>
      (\<forall>i \<in> chan_ids inb. issued n i) \<and> (\<forall>i w. hm_get ws (Inbound i) = Some w \<longrightarrow> issued n i) \<and>
      replies_after_request es)"

lemma channels_okI:
  assumes "distinct (map fst inb)" "distinct off" "replies_after_request es"
    and "\<And>i. i \<in> set off \<Longrightarrow> (i, Waiting) \<in> set inb \<and> hm_get ws (Inbound i) = None"
    and "\<And>i p sock. hm_get ws (Inbound i) = Some (Reading p sock) \<Longrightarrow> (i, Waiting) \<in> set inb"
    and "\<And>i sock. hm_get ws (Inbound i) = Some (Awaiting sock) \<Longrightarrow>
           \<exists>q. (i, Arrived q) \<in> set inb \<or> H_Request i q \<in> set es"
    and "\<And>i. i \<in> chan_ids inb \<Longrightarrow> issued n i"
    and "\<And>i w. hm_get ws (Inbound i) = Some w \<Longrightarrow> issued n i"
  shows "channels_ok n off ws inb es"
  using assms unfolding channels_ok_def by blast

lemma channels_okD:
  assumes "channels_ok n off ws inb es"
  shows "distinct (map fst inb)" "distinct off" "replies_after_request es"
    and "i \<in> set off \<Longrightarrow> (i, Waiting) \<in> set inb" "i \<in> set off \<Longrightarrow> hm_get ws (Inbound i) = None"
    and "hm_get ws (Inbound i) = Some (Reading p sock) \<Longrightarrow> (i, Waiting) \<in> set inb"
    and "hm_get ws (Inbound i) = Some (Awaiting sock) \<Longrightarrow>
           \<exists>q. (i, Arrived q) \<in> set inb \<or> H_Request i q \<in> set es"
    and "i \<in> chan_ids inb \<Longrightarrow> issued n i"
    and "hm_get ws (Inbound i) = Some w \<Longrightarrow> issued n i"
  using assms unfolding channels_ok_def by blast+

lemma chan_ids_simps [simp]:
  "chan_ids [] = {}" "chan_ids (x # xs) = insert (fst x) (chan_ids xs)"
  "chan_ids (xs @ ys) = chan_ids xs \<union> chan_ids ys"
  by (auto simp: chan_ids_def)

lemma chan_ids_mem: "(i, ch) \<in> set inb \<Longrightarrow> i \<in> chan_ids inb"
  by (force simp: chan_ids_def)

lemma distinct_chan_ids: "distinct (map fst inb) \<Longrightarrow> i \<notin> chan_ids inb \<Longrightarrow> distinct (map fst (inb @ [(i, ch)]))"
  by (simp add: chan_ids_def)

lemma set_channel_simps [simp]:
  "map fst (set_channel i ch xs) = map fst xs" "chan_ids (set_channel i ch xs) = chan_ids xs"
proof -
  show keys: "map fst (set_channel i ch xs) = map fst xs" by (simp add: set_channel_def comp_def case_prod_unfold)
  show "chan_ids (set_channel i ch xs) = chan_ids xs"
    using arg_cong [OF keys, of set] by (simp add: chan_ids_def)
qed

lemma set_channel_here: "i \<in> chan_ids xs \<Longrightarrow> (i, ch) \<in> set (set_channel i ch xs)"
  by (force simp: set_channel_def chan_ids_def)

lemma set_channel_mem: "(j, ch) \<in> set xs \<Longrightarrow> j \<noteq> i \<Longrightarrow> (j, ch) \<in> set (set_channel i ch' xs)"
  by (force simp: set_channel_def)

lemma channels_listen:
  assumes ok: "channels_ok n off ws inb es" and "n < 2 ^ 64"
  shows "channels_ok (Suc n) ((1 + of_nat n) # off) ws (inb @ [(1 + of_nat n, Waiting)]) es"
proof -
  have new: "1 + of_nat n \<notin> chan_ids inb" "hm_get ws (Inbound (1 + of_nat n)) = None"
    using channels_okD(8,9) [OF ok] not_issued [OF assms(2)] by (auto intro: option.exhaust)
  then have "1 + of_nat n \<notin> set off" using channels_okD(4) [OF ok] chan_ids_mem by blast
  then show ?thesis
    using channels_okD [OF ok] new issued_Suc issued_new distinct_chan_ids
    by (intro channels_okI) (auto simp: issued_new)
qed

lemma channels_elsewhere:
  assumes "channels_ok n off ws inb es"
  shows "channels_ok (Suc n) off ws inb es"
  using channels_okD [OF assms] issued_Suc by (intro channels_okI) simp_all

lemma channels_cancel_offered:
  assumes "channels_ok n off ws inb es" "i \<in> set off"
  shows "channels_ok n (remove1 i off) ws (set_channel i Canceled inb) es"
proof -
  have differs: "j \<noteq> i" if "hm_get ws (Inbound j) = Some w" for j w using that channels_okD(5) [OF assms] by auto
  then have "\<exists>q. (j, Arrived q) \<in> set (set_channel i Canceled inb) \<or> H_Request j q \<in> set es"
    if "hm_get ws (Inbound j) = Some (Awaiting sock)" for j sock
    using that channels_okD(7) [OF assms(1) that] set_channel_mem by blast
  then show ?thesis
    using channels_okD(1-6,8,9) [OF assms(1)] differs by (intro channels_okI) (simp_all add: set_channel_mem)
qed

lemma channels_push:
  assumes "channels_ok n off ws inb es" "i \<in> set off"
  shows "channels_ok n (remove1 i off) (hm_insert (Inbound i) (Reading p sock) ws) inb es"
proof -
  have "issued n i" using channels_okD(4,8) [OF assms(1)] assms(2) chan_ids_mem by blast
  then show ?thesis
    using channels_okD [OF assms(1)] assms(2) by (intro channels_okI) (auto split: if_splits)
qed

lemma channels_outbound:
  "channels_ok n off (hm_insert (Outbound i) w ws) inb es = channels_ok n off ws inb es"
  by (simp add: channels_ok_def)

lemma channels_reorder: "mset xs = mset inb \<Longrightarrow> channels_ok n off ws inb es \<Longrightarrow> channels_ok n off ws xs es"
  using mset_eq_imp_distinct_iff [of "map fst xs" "map fst inb"] mset_eq_setD [of xs inb]
  by (simp add: channels_ok_def chan_ids_def)

lemma channels_read:
  assumes ok: "channels_ok n off ws inb es" and worker: "hm_get ws (Inbound i) = Some (Reading p sock)"
  shows "channels_ok n off (hm_insert (Inbound i) (Awaiting sock) ws) (set_channel i (Arrived q) inb) es"
proof -
  have i: "i \<in> chan_ids inb" "i \<notin> set off"
    using channels_okD(5,6) [OF ok, of i] worker chan_ids_mem by auto
  have arrived: "\<exists>q'. (j, Arrived q') \<in> set (set_channel i (Arrived q) inb) \<or> H_Request j q' \<in> set es"
    if "hm_get (hm_insert (Inbound i) (Awaiting sock) ws) (Inbound j) = Some (Awaiting sock')" for j sock'
  proof (cases "j = i")
    case True
    then show ?thesis using set_channel_here [OF i(1)] by blast
  next
    case False
    then show ?thesis using that channels_okD(7) [OF ok, of j sock'] set_channel_mem [of j _ inb i] by auto
  qed
  show ?thesis
    using channels_okD(1-6,8,9) [OF ok] i worker
    by (intro channels_okI arrived) (auto simp: set_channel_mem split: if_splits)
qed

lemma channels_event:
  assumes "channels_ok n off ws inb es" "replies e = None"
  shows "channels_ok n off ws inb (es @ [e])"
  using channels_okD [OF assms(1)] replies_after_snoc [of es e] assms(2)
  by (intro channels_okI) (simp_all; blast)+

lemma channels_shrink:
  assumes ok: "channels_ok n off ws inb es" and "hm_get ws b = Some w"
    and "distinct (map fst inb')" "chan_ids inb' \<subseteq> chan_ids inb"
    and mem: "\<And>j ch. (j, ch) \<in> set inb \<Longrightarrow> Inbound j \<noteq> b \<Longrightarrow> (j, ch) \<in> set inb'"
    and "replies_after_request (es @ [e])"
  shows "channels_ok n off (hm_remove b ws) inb' (es @ [e])"
proof (rule channels_okI)
  fix i assume off: "i \<in> set off"
  then have "Inbound i \<noteq> b" using channels_okD(5) [OF ok] assms(2) by auto
  then show "(i, Waiting) \<in> set inb' \<and> hm_get (hm_remove b ws) (Inbound i) = None"
    using channels_okD(4,5) [OF ok off] mem by simp
next
  fix i sock assume "hm_get (hm_remove b ws) (Inbound i) = Some (Awaiting sock)"
  then have "hm_get ws (Inbound i) = Some (Awaiting sock)" "Inbound i \<noteq> b" by (auto split: if_splits)
  then show "\<exists>q. (i, Arrived q) \<in> set inb' \<or> H_Request i q \<in> set (es @ [e])"
    using channels_okD(7) [OF ok] mem by fastforce
qed (use assms channels_okD [OF ok] mem in \<open>auto split: if_splits\<close>)

lemma channels_finish:
  assumes "channels_ok n off (worker_streams h) (inbound h) es" "hm_get (worker_streams h) b = Some w"
    and "\<And>i. replies e = Some i \<Longrightarrow> \<exists>q. H_Request i q \<in> set es"
  shows "channels_ok n off (worker_streams (take_worker b h)) (inbound (take_worker b h)) (es @ [e])"
proof -
  have inb: "inbound (take_worker b h) =
      (case (b, w) of (Inbound i, Reading _ _) \<Rightarrow> set_channel i Canceled (inbound h) | _ \<Rightarrow> inbound h)"
    using assms(2)
    by (simp add: take_worker_def drop_future_def Let_def split: bound_type_id.splits worker.splits)
  have "distinct (map fst (inbound (take_worker b h)))" "chan_ids (inbound (take_worker b h)) \<subseteq> chan_ids (inbound h)"
    using channels_okD(1) [OF assms(1)] by (simp_all add: inb split: bound_type_id.splits worker.splits)
  moreover have "(j, ch) \<in> set (inbound (take_worker b h))" if "(j, ch) \<in> set (inbound h)" "Inbound j \<noteq> b" for j ch
    using that by (auto simp: inb intro!: set_channel_mem split: bound_type_id.splits worker.splits)
  ultimately show ?thesis
    using channels_shrink [OF assms(1,2)] replies_after_snoc [OF channels_okD(3) [OF assms(1)] assms(3)] by simp
qed

lemma poll_inbound_spec:
  "poll_inbound inb = (r, rest) \<Longrightarrow>
     set rest \<subseteq> set inb \<and> (distinct (map fst inb) \<longrightarrow> distinct (map fst rest)) \<and> (\<forall>i. (i, Waiting) \<in> set inb \<longrightarrow> (i, Waiting) \<in> set rest) \<and>
     (case r of
        Some (i, q) \<Rightarrow> (i, Arrived q) \<in> set inb \<and> (\<forall>j q'. (j, Arrived q') \<in> set inb \<longrightarrow> (j, Arrived q') \<in> set rest \<or> (j, q') = (i, q))
      | None \<Rightarrow> (\<forall>j q. (j, Arrived q) \<notin> set inb) \<and> set rest \<subseteq> {e. snd e = Waiting})"
proof (induction inb arbitrary: r rest rule: poll_inbound.induct)
  case (2 i xs)
  obtain r' ys where ys: "poll_inbound xs = (r', ys)" by (cases "poll_inbound xs")
  then have "r = r'" "rest = (i, Waiting) # ys" using 2(2) by simp_all
  then show ?case using 2(1) [OF ys] by (auto split: option.splits)
next
  case (4 i xs)
  then show ?case by (auto split: option.splits)
qed auto

lemma channels_poll_inbound:
  assumes poll: "poll_inbound inb = (r, rest)" and ok: "channels_ok n off ws inb es"
  shows "channels_ok n off ws rest (case r of Some (i, q) \<Rightarrow> es @ [H_Request i q] | None \<Rightarrow> es)"
    (is "channels_ok _ _ _ _ ?es")
proof -
  note spec = poll_inbound_spec [OF poll]
  have "distinct (map fst rest)" using spec channels_okD(1) [OF ok] by blast
  moreover have "chan_ids rest \<subseteq> chan_ids inb" using spec by (auto simp: chan_ids_def)
  moreover have "replies_after_request ?es"
    using channels_okD(3) [OF ok] by (auto split: option.splits intro: replies_after_snoc)
  moreover have "\<exists>q. (i, Arrived q) \<in> set rest \<or> H_Request i q \<in> set ?es"
    if awaiting: "hm_get ws (Inbound i) = Some (Awaiting sock)" for i sock
  proof -
    obtain q where "(i, Arrived q) \<in> set inb \<or> H_Request i q \<in> set es" using channels_okD(7) [OF ok awaiting] by blast
    then show ?thesis using spec by (cases r; force)
  qed
  moreover have "(i, Waiting) \<in> set rest" if "(i, Waiting) \<in> set inb" for i using spec that by blast
  ultimately show ?thesis using channels_okD(2,4,5,6,8,9) [OF ok] by (intro channels_okI) blast+
qed

definition channels_kept :: "handler_run \<Rightarrow> bool" where
  "channels_kept R =
     (let h = hr_handler R in
        inbound_req_id h = 1 + of_nat (hr_listens R) \<and>
        list_all (\<lambda>e. event_out e \<noteq> None) (pending_events h) \<and>
        channels_ok (hr_listens R) (hr_offered R) (worker_streams h) (inbound h) (hr_events R))"

lemma channels_keptD:
  assumes "channels_kept R"
  shows "inbound_req_id (hr_handler R) = 1 + of_nat (hr_listens R)"
    and "list_all (\<lambda>e. event_out e \<noteq> None) (pending_events (hr_handler R))"
    and "channels_ok (hr_listens R) (hr_offered R) (worker_streams (hr_handler R)) (inbound (hr_handler R)) (hr_events R)"
  using assms by (simp_all add: channels_kept_def Let_def)

lemma event_out_replies: "event_out e \<noteq> None \<Longrightarrow> replies e = None"
  by (cases e) simp_all

lemma worker_output_replies:
  assumes "worker_output W b w answered = Some (Ok ev)" "replies ev = Some i"
  shows "b = Inbound i \<and> (\<exists>sock. w = Awaiting sock) \<and> answered \<noteq> None"
  using assms
  by (auto simp: worker_output_def dest!: write_reply_event outbound_worker_event
      split: bound_type_id.splits worker.splits outcome.splits option.splits)

lemma ready_output:
  assumes "worker_output W b w answered = Some out" "ready_of out = Some r"
  shows "\<exists>ev. handler_poll (Some (b, r)) h = (Some (NotifyBehaviour ev), take_worker b h) \<and>
     (\<forall>i. replies ev = Some i \<longrightarrow> b = Inbound i \<and> (\<exists>sock. w = Awaiting sock) \<and> answered \<noteq> None)"
  using assms worker_output_replies [of W b w answered]
  by (cases out; cases b; cases r) (auto simp: ready_of_def handler_poll_def intro: option.exhaust)

lemma timeout_output:
  "\<exists>ev. handler_poll (Some (b, TimedOut)) h = (Some (NotifyBehaviour ev), take_worker b h) \<and> replies ev = None"
  by (cases b) (simp_all add: handler_poll_def)

lemma channels_kept_finish:
  assumes "channels_kept R" "hm_get (worker_streams (hr_handler R)) b = Some w"
    and "r = (Some (NotifyBehaviour ev), take_worker b (hr_handler R))"
    and "\<And>i. replies ev = Some i \<Longrightarrow> \<exists>q. H_Request i q \<in> set (hr_events R)"
  shows "channels_kept (report r R)"
  using channels_finish [OF channels_keptD(3) [OF assms(1)] assms(2,4)] channels_keptD(1,2) [OF assms(1)] assms(3)
  by (simp add: channels_kept_def report_def)

lemma channels_kept_done:
  assumes kept: "channels_kept R" and worker: "hm_get (worker_streams (hr_handler R)) b = Some w"
    and left: "answered \<noteq> None \<longrightarrow> (\<forall>i. b = Inbound i \<longrightarrow> i \<notin> fst ` set (inbound (hr_handler R)))"
    and out: "worker_output W b w answered = Some out" "ready_of out = Some r"
  shows "channels_kept (report (handler_poll (Some (b, r)) (hr_handler R)) R)"
proof -
  obtain ev where ev: "handler_poll (Some (b, r)) (hr_handler R) = (Some (NotifyBehaviour ev), take_worker b (hr_handler R))"
    and rep: "\<forall>i. replies ev = Some i \<longrightarrow> b = Inbound i \<and> (\<exists>sock. w = Awaiting sock) \<and> answered \<noteq> None"
    using ready_output [OF out] by blast
  have "\<exists>q. H_Request i q \<in> set (hr_events R)" if replied: "replies ev = Some i" for i
  proof -
    obtain sock where b: "b = Inbound i" and w: "w = Awaiting sock" and "answered \<noteq> None" using rep replied by blast
    then have "i \<notin> fst ` set (inbound (hr_handler R))" using left by blast
    moreover have "\<exists>q. (i, Arrived q) \<in> set (inbound (hr_handler R)) \<or> H_Request i q \<in> set (hr_events R)"
      using channels_okD(7) [OF channels_keptD(3) [OF kept]] worker b w by simp
    ultimately show ?thesis by force
  qed
  then show ?thesis using channels_kept_finish [OF kept worker ev] by simp
qed

lemma channels_kept_quiet_poll:
  assumes kept: "channels_kept R"
  shows "channels_kept (report (handler_poll None (hr_handler R)) R)"
proof (cases "pending_events (hr_handler R)")
  case (Cons e es)
  then have "replies e = None" using channels_keptD(2) [OF kept] event_out_replies by simp
  then show ?thesis
    using Cons channels_event [OF channels_keptD(3) [OF kept]] channels_keptD(1,2) [OF kept]
    by (simp add: handler_poll_def report_def channels_kept_def)
next
  case Nil
  obtain r rest where poll: "poll_inbound (inbound (hr_handler R)) = (r, rest)" by fastforce
  show ?thesis
    using Nil channels_poll_inbound [OF poll channels_keptD(3) [OF kept]] channels_keptD(1) [OF kept] poll
    by (cases r) (auto simp: handler_poll_def report_def channels_kept_def split: list.splits)
qed

lemma channels_kept_inbound:
  assumes T: "try_push_documented T" and kept: "channels_kept R" and offered: "i \<in> set (hr_offered R)"
  shows "channels_kept (R\<lparr>hr_handler := on_connection_event T (FullyNegotiatedInbound sock p i) (hr_handler R),
    hr_offered := remove1 i (hr_offered R)\<rparr>)"
proof -
  let ?h = "hr_handler R"
  note ok = channels_keptD(3) [OF kept]
  have fresh: "hm_get (worker_streams ?h) (Inbound i) = None" using channels_okD(5) [OF ok offered] .
  show ?thesis
    using fresh channels_keptD(1,2) [OF kept] channels_push [OF ok offered] channels_cancel_offered [OF ok offered]
    by (cases rule: push_worker_cases [OF T, of ?h "Inbound i" "Reading p sock"])
      (simp_all add: channels_kept_def on_connection_event_def on_fully_negotiated_inbound_def drop_future_def)
qed

lemma channels_kept_outbound:
  assumes T: "try_push_documented T" and kept: "channels_kept R"
  shows "channels_kept (R\<lparr>hr_handler := on_connection_event T (FullyNegotiatedOutbound sock p info) (hr_handler R),
    hr_opening := opn, hr_lost := lost\<rparr>)"
  using channels_keptD [OF kept]
  by (cases rule: push_worker_cases [OF T, of "hr_handler R" "Outbound (oi_req_id info)" "Requesting p (oi_request info) sock"])
    (simp_all add: channels_kept_def on_connection_event_def on_fully_negotiated_outbound_def drop_future_def
      channels_outbound)

lemma worker_reads_cases:
  assumes "worker_reads W i h = Ok h'"
  shows "h' = h \<or> (\<exists>p sock q. hm_get (worker_streams h) (Inbound i) = Some (Reading p sock) \<and>
     h' = h\<lparr>inbound := set_channel i (Arrived q) (inbound h),
            worker_streams := hm_insert (Inbound i) (Awaiting sock) (worker_streams h)\<rparr>)"
  using assms
  by (auto simp: worker_reads_def deliver_request_def bind_ok_eq_Ok split: option.splits worker.splits if_splits)

lemma handler_step_channels:
  assumes step: "handler_step W T R (Some R')" and T: "try_push_documented T" and kept: "channels_kept R"
    and listens: "hr_listens R < 2 ^ 64"
  shows "channels_kept R'"
  using step
proof cases
  case (hs_listen i h)
  then show ?thesis
    using channels_listen [OF channels_keptD(3) [OF kept] listens] channels_keptD(1,2) [OF kept]
    by (auto simp: channels_kept_def listen_protocol_def Let_def)
next
  case hs_listen_elsewhere
  then show ?thesis
    using channels_elsewhere [OF channels_keptD(3) [OF kept]] channels_keptD(1,2) [OF kept]
    by (simp add: channels_kept_def)
next
  case (hs_upgrade_failed i)
  then show ?thesis
    using channels_cancel_offered [OF channels_keptD(3) [OF kept]] channels_keptD(1,2) [OF kept]
    by (simp add: channels_kept_def)
next
  case (hs_inbound i sock p)
  then show ?thesis using channels_kept_inbound [OF T kept] by simp
next
  case (hs_send info)
  then show ?thesis using kept by (simp add: channels_kept_def Let_def on_behaviour_event_def)
next
  case (hs_outbound info sock p)
  then show ?thesis using channels_kept_outbound [OF T kept] by simp
next
  case (hs_dial_error info err)
  then show ?thesis using kept by (cases err) (simp_all add: channels_kept_def Let_def on_connection_event_def)
next
  case (hs_reorder xs)
  then show ?thesis
    using channels_reorder [OF _ channels_keptD(3) [OF kept]] channels_keptD(1,2) [OF kept]
    by (simp add: channels_kept_def)
next
  case (hs_read i h)
  then show ?thesis
    using worker_reads_cases [OF hs_read(2)] channels_keptD [OF kept] channels_read [OF channels_keptD(3) [OF kept]]
    by (auto simp: channels_kept_def)
next
  case (hs_done b w answered out r)
  then show ?thesis using channels_kept_done [OF kept] by simp
next
  case (hs_timeout b w)
  obtain ev where "handler_poll (Some (b, TimedOut)) (hr_handler R) = (Some (NotifyBehaviour ev), take_worker b (hr_handler R))"
    and "replies ev = None" using timeout_output [of b "hr_handler R"] by auto
  then show ?thesis using hs_timeout(1) channels_kept_finish [OF kept hs_timeout(2) refl, of ev] by simp
next
  case hs_poll
  then show ?thesis using channels_kept_quiet_poll [OF kept] by simp
qed

lemma handler_step_listens: "handler_step W T R (Some R') \<Longrightarrow> hr_listens R \<le> hr_listens R'"
  by (erule handler_step.cases) (auto simp: report_def split: prod.splits option.splits handler_output.splits)

lemma handler_reachable_channels:
  assumes "handler_reachable W T R" "try_push_documented T" "hr_listens R < 2 ^ 64"
  shows "channels_kept R"
  using assms
proof (induction rule: handler_reachable.induct)
  case hr_start
  then show ?case
    by (simp add: channels_kept_def start_handler_def new_handler_def channels_ok_def replies_after_request_def)
next
  case (hr_next R R')
  then show ?case using handler_step_channels [OF hr_next.hyps(2)] handler_step_listens [OF hr_next.hyps(2)] by simp
qed

section \<open>Properties of the handler\<close>

text \<open>C36: Every request given to a connection handler is in exactly one place. In every run, the requests handed to the handler are, in order, those it asked
  substreams for followed by those still queued; and those it asked substreams for are, counted with
  multiplicity, exactly the ones still being opened, in a worker, reported to the behaviour, about to
  be reported, or lost (a substream pushed beyond the capacity of 100 or over another one, or an opening
  that failed other than by timeout or negotiation). Every worker has the kind of its identifier.\<close>

theorem handler_accounts_requests:
  assumes "handler_reachable W T R" "try_push_documented T"
  shows "workers_ok (worker_streams (hr_handler R)) \<and>
    hr_given R = hr_requested R @ outbound (hr_handler R) \<and>
    mset (map oi_req_id (hr_requested R)) =
      mset (map oi_req_id (hr_opening R)) + worker_out (worker_streams (hr_handler R)) +
      picked event_out (pending_events (hr_handler R)) + picked event_out (hr_events R) + mset (hr_lost R)"
  using handler_reachable_kept [OF assms] by (simp add: requests_kept_def Let_def)

text \<open>The panic of the inbound worker, on a request whose receiver is gone, is unreachable, and the
  handler reports a response as sent or omitted only after it reported the request itself; both as long
  as the shared counter of inbound requests has not wrapped around.\<close>

theorem handler_channels_alive:
  assumes "handler_reachable W T R" "try_push_documented T" "hr_listens R < 2 ^ 64"
  shows "\<not> handler_step W T R None \<and> replies_after_request (hr_events R)"
proof -
  have ok: "channels_ok (hr_listens R) (hr_offered R) (worker_streams (hr_handler R)) (inbound (hr_handler R)) (hr_events R)"
    using handler_reachable_channels [OF assms] by (rule channels_keptD(3))
  have "\<not> handler_step W T R None"
  proof
    assume "handler_step W T R None"
    then show False
    proof (rule handler_crashE)
      fix i p sock q
      assume w: "hm_get (worker_streams (hr_handler R)) (Inbound i) = Some (Reading p sock)"
        and "read_request W p sock = Ok q" "worker_reads W i (hr_handler R) = Panic"
      then show False using channels_okD(6) [OF ok w] by (simp add: worker_reads_def deliver_request_def)
    qed
  qed
  then show ?thesis using channels_okD(3) [OF ok] by simp
qed

text \<open>A request of the behaviour stays in flight under every event of the handler that is not its own.\<close>

fun event_in :: "handler_event \<Rightarrow> request_id option" where
  "event_in (H_InboundTimeout i) = Some i"
| "event_in (H_InboundError i _) = Some i"
| "event_in _ = None"

lemma in_flight_handler_event:
  assumes "in_flight s p i" "event_out e \<noteq> Some i" "event_in e \<noteq> Some i"
    and "rpc_on_handler_event debug p c e s = Ok t"
  shows "in_flight t p i"
  using assms
  by (cases e) (auto simp: rpc_on_handler_event_def Let_def in_flight_cong [of "push_event _ _"] debug_assert_def
      intro!: in_flight_remove in_flight_update split: option.splits if_splits)

text \<open>The behaviour fed a list of events of one handler.\<close>

definition rpc_on_handler_events ::
  "bool \<Rightarrow> peer_id \<Rightarrow> connection_id \<Rightarrow> handler_event list \<Rightarrow> rpc \<Rightarrow> (unit, rpc) outcome" where
  "rpc_on_handler_events debug p c es s =
     fold (\<lambda>e r. bind_ok r (rpc_on_handler_event debug p c e)) es (Ok s)"

lemma rpc_on_handler_events_simps [simp]:
  "rpc_on_handler_events debug p c [] s = Ok s"
  "rpc_on_handler_events debug p c (e # es) s =
     bind_ok (rpc_on_handler_event debug p c e s) (rpc_on_handler_events debug p c es)"
proof -
  have "fold (\<lambda>e r. bind_ok r (rpc_on_handler_event debug p c e)) es r = r" if "\<And>t. r \<noteq> Ok t" for r es
    using that by (induction es) (cases r, auto)+
  then show "rpc_on_handler_events debug p c (e # es) s =
      bind_ok (rpc_on_handler_event debug p c e s) (rpc_on_handler_events debug p c es)"
    by (cases "rpc_on_handler_event debug p c e s") (simp_all add: rpc_on_handler_events_def)
qed (simp add: rpc_on_handler_events_def)

lemma in_flight_handler_events:
  assumes "in_flight s p i" "\<And>e. e \<in> set es \<Longrightarrow> event_out e \<noteq> Some i \<and> event_in e \<noteq> Some i"
    and "rpc_on_handler_events debug p c es s = Ok t"
  shows "in_flight t p i"
  using assms
proof (induction es arbitrary: s)
  case (Cons e es)
  then obtain u where u: "rpc_on_handler_event debug p c e s = Ok u" "rpc_on_handler_events debug p c es u = Ok t"
    by (auto simp: bind_ok_eq_Ok)
  have "in_flight u p i" using in_flight_handler_event [OF Cons.prems(1) _ _ u(1)] Cons.prems(2) by simp
  with Cons.IH [of u] Cons.prems(2) u(2) show ?case by simp
qed simp

lemma release_handler_events: "\<exists>t. rpc_on_handler_events False p c es s = Ok t"
proof (induction es arbitrary: s)
  case (Cons e es)
  have "\<exists>u. rpc_on_handler_event False p c e s = Ok u"
    by (cases e) (simp_all add: rpc_on_handler_event_def debug_assert_def Let_def)
  with Cons show ?case by auto
qed simp

lemma picked_mem: "x \<in> set xs \<Longrightarrow> f x = Some y \<Longrightarrow> y \<in># picked f xs"
  by (induction xs) (auto split: option.splits)

text \<open>A lost request is never answered. When the handler of a connection has dropped a substream (at
  capacity, or on a failed opening that it only logs), no event for that request has been reported, and
  the behaviour of a release build, fed all the events of the handler, still counts the request as in
  flight; only the end of the connection can end it. (Provided that request identifiers are not reused, and that no inbound request
  that happens to have the same number has failed: that removes the wrong entry.)\<close>

theorem lost_request_stays_in_flight:
  assumes "handler_reachable W T R" "try_push_documented T"
    and "distinct (map oi_req_id (hr_given R))" "i \<in> set (hr_lost R)"
    and "in_flight s p i" "\<forall>e \<in> set (hr_events R). event_in e \<noteq> Some i"
  shows "(\<forall>e \<in> set (hr_events R). event_out e \<noteq> Some i) \<and>
    (\<exists>t. rpc_on_handler_events False p c (hr_events R) s = Ok t \<and> in_flight t p i)"
proof -
  have kept: "hr_given R = hr_requested R @ outbound (hr_handler R)"
    "mset (map oi_req_id (hr_requested R)) =
      mset (map oi_req_id (hr_opening R)) + worker_out (worker_streams (hr_handler R)) +
      picked event_out (pending_events (hr_handler R)) + picked event_out (hr_events R) + mset (hr_lost R)"
    using handler_reachable_kept [OF assms(1,2)] by (simp_all add: requests_kept_def Let_def)
  have "distinct (map oi_req_id (hr_requested R))" using assms(3) unfolding kept(1) by simp
  then have "count (mset (map oi_req_id (hr_requested R))) i \<le> 1"
    by (simp add: distinct_count_atmost_1 del: mset_map)
  moreover have "count (mset (hr_lost R)) i \<ge> 1" using assms(4) by (simp add: Suc_le_eq)
  ultimately have "count (picked event_out (hr_events R)) i = 0" unfolding kept(2) count_union by linarith
  then have no: "\<forall>e \<in> set (hr_events R). event_out e \<noteq> Some i"
    using picked_mem [of _ "hr_events R" event_out i] by (auto simp: count_eq_zero_iff)
  obtain t where t: "rpc_on_handler_events False p c (hr_events R) s = Ok t" using release_handler_events by blast
  have "in_flight t p i" using in_flight_handler_events [OF assms(5) _ t] no assms(6) by auto
  with no t show ?thesis by blast
qed

section \<open>Polling\<close>

fun run_polls :: "nat \<Rightarrow> handler \<Rightarrow> handler_output option list \<times> handler" where
  "run_polls 0 h = ([], h)"
| "run_polls (Suc n) h =
     (case handler_poll None h of (out, h) \<Rightarrow> case run_polls n h of (outs, h) \<Rightarrow> (out # outs, h))"

fun arrived :: "(request_id \<times> channel) list \<Rightarrow> handler_event list" where
  "arrived [] = []"
| "arrived ((i, Arrived q) # xs) = H_Request i q # arrived xs"
| "arrived (_ # xs) = arrived xs"

lemma poll_inbound_none:
  "poll_inbound inb = (None, rest) \<Longrightarrow> arrived inb = [] \<and> rest = filter (\<lambda>e. snd e = Waiting) inb"
  by (induction inb arbitrary: rest rule: poll_inbound.induct) (auto split: prod.splits)

lemma poll_inbound_some:
  "poll_inbound inb = (Some (i, q), rest) \<Longrightarrow> arrived inb = H_Request i q # arrived rest \<and>
     filter (\<lambda>e. snd e = Waiting) rest = filter (\<lambda>e. snd e = Waiting) inb"
  by (induction inb arbitrary: rest rule: poll_inbound.induct) (auto split: prod.splits)

lemma polls_outbound:
  "pending_events h = [] \<Longrightarrow> arrived (inbound h) = [] \<Longrightarrow>
   run_polls (Suc (length (outbound h))) h =
     (map (\<lambda>r. Some (OutboundSubstreamRequest r)) (outbound h) @ [None],
      h\<lparr>inbound := filter (\<lambda>e. snd e = Waiting) (inbound h), outbound := []\<rparr>)"
proof (induction "outbound h" arbitrary: h)
  case Nil
  obtain r rest where poll: "poll_inbound (inbound h) = (r, rest)" by fastforce
  then have "r = None" using Nil.prems(2) poll_inbound_some by (cases r) fastforce+
  then show ?case using Nil poll_inbound_none [of "inbound h" rest] poll by (simp add: handler_poll_def)
next
  case (Cons req reqs)
  obtain r rest where poll: "poll_inbound (inbound h) = (r, rest)" by fastforce
  then have r: "r = None" using Cons.prems(2) poll_inbound_some by (cases r) fastforce+
  then have rest: "rest = filter (\<lambda>e. snd e = Waiting) (inbound h)" using poll_inbound_none poll by blast
  have waiting: "arrived (filter (\<lambda>e. snd e = Waiting) xs) = []" for xs by (induction xs rule: arrived.induct) auto
  let ?h = "h\<lparr>inbound := rest, outbound := reqs\<rparr>"
  have "handler_poll None h = (Some (OutboundSubstreamRequest req), ?h)"
    using Cons.hyps(2) [symmetric] Cons.prems(1) poll r by (simp add: handler_poll_def)
  then show ?case
    using Cons.hyps(1) [of ?h] Cons.prems(1) Cons.hyps(2) [symmetric] by (simp add: rest waiting)
qed

lemma polls_inbound:
  "pending_events h = [] \<Longrightarrow>
   run_polls (length (arrived (inbound h)) + Suc (length (outbound h))) h =
     (map (Some \<circ> NotifyBehaviour) (arrived (inbound h)) @
        map (\<lambda>r. Some (OutboundSubstreamRequest r)) (outbound h) @ [None],
      h\<lparr>inbound := filter (\<lambda>e. snd e = Waiting) (inbound h), outbound := []\<rparr>)"
proof (induction "arrived (inbound h)" arbitrary: h)
  case Nil
  then show ?case using polls_outbound [of h] by simp
next
  case (Cons e es)
  obtain r rest where poll: "poll_inbound (inbound h) = (r, rest)" by fastforce
  then obtain i q where r: "r = Some (i, q)" using Cons.hyps(2) poll_inbound_none by (cases r) fastforce+
  note some = poll_inbound_some [OF poll [unfolded r]]
  let ?h = "h\<lparr>inbound := rest\<rparr>"
  have "handler_poll None h = (Some (NotifyBehaviour (H_Request i q)), ?h)"
    using Cons.prems poll r by (simp add: handler_poll_def)
  then show ?case using Cons.hyps(1) [of ?h] Cons.hyps(2) Cons.prems some by simp
qed

text \<open>Polling makes progress in a fixed order. While no worker is ready, as many polls as there are
  events, arrived requests and queued requests report first all pending events, then all inbound requests
  that have arrived, then ask for a substream for every queued request, each in order; the next poll is
  pending, and only the inbound channels whose request has not arrived are left.\<close>

theorem quiet_polls_drain:
  "run_polls (length (pending_events h) + length (arrived (inbound h)) + Suc (length (outbound h))) h =
     (map (Some \<circ> NotifyBehaviour) (pending_events h @ arrived (inbound h)) @
        map (\<lambda>r. Some (OutboundSubstreamRequest r)) (outbound h) @ [None],
      h\<lparr>pending_events := [], inbound := filter (\<lambda>e. snd e = Waiting) (inbound h), outbound := []\<rparr>)"
proof (induction "pending_events h" arbitrary: h)
  case Nil
  then show ?case using polls_inbound [of h] by simp
next
  case (Cons e es)
  have "handler_poll None h = (Some (NotifyBehaviour e), h\<lparr>pending_events := es\<rparr>)"
    using Cons.hyps(2) [symmetric] by (simp add: handler_poll_def)
  then show ?case using Cons.hyps(1) [of "h\<lparr>pending_events := es\<rparr>"] Cons.hyps(2) [symmetric] by simp
qed

section \<open>Concrete runs\<close>

definition ref_push :: try_push where
  "ref_push cap b w ws =
     (if cap \<le> length ws then (BeyondCapacity, ws)
      else ((case hm_get ws b of Some old \<Rightarrow> Replaced old | None \<Rightarrow> Pushed), hm_insert b w ws))"

lemma ref_push_documented: "try_push_documented ref_push"
  by (simp add: try_push_documented_def ref_push_def)

definition sample_info :: outbound_info where
  "sample_info = \<lparr>oi_req_id = 1, oi_request = Q_MetaData\<rparr>"

text \<open>A request whose substream fails to open with an I/O error.\<close>

definition lost_run :: handler_run where
  "lost_run = start_handler\<lparr>hr_given := [sample_info], hr_requested := [sample_info], hr_lost := [1]\<rparr>"

lemma lost_run_reachable: "handler_reachable W T lost_run"
proof -
  let ?h = "new_handler 1"
  let ?R1 = "start_handler\<lparr>hr_handler := ?h\<lparr>outbound := [sample_info]\<rparr>, hr_given := [sample_info]\<rparr>"
  let ?R2 = "start_handler\<lparr>hr_given := [sample_info], hr_opening := [sample_info], hr_requested := [sample_info]\<rparr>"
  have "handler_step W T start_handler (Some ?R1)"
    using hs_send [of W T start_handler sample_info]
    by (simp add: on_behaviour_event_def start_handler_def new_handler_def)
  from hr_next [OF hr_start this] have R1: "handler_reachable W T ?R1" .
  have "handler_step W T ?R1 (Some ?R2)"
    using hs_poll [of W T ?R1] by (simp add: handler_poll_def report_def new_handler_def start_handler_def)
  from hr_next [OF R1 this] have R2: "handler_reachable W T ?R2" .
  have "handler_step W T ?R2 (Some lost_run)"
    using hs_dial_error [of sample_info ?R2 W T UpgradeIo]
    by (simp add: on_connection_event_def lost_run_def start_handler_def sample_info_def)
  from hr_next [OF R2 this] show ?thesis .
qed

text \<open>A ping that is read, reported and answered.\<close>

definition served_run :: handler_run where
  "served_run = start_handler\<lparr>hr_handler := new_handler 2,
     hr_events := [H_Request 1 sample_ping, H_ResponseSent 1], hr_listens := 1\<rparr>"

lemma read_sample: "read_request ref_wire PPing (socket_reading ping_bytes) = Ok sample_ping"
  using request_round [OF ref_wire_documented sample_ping_encoded(1)] length_ping_bytes
  by (simp add: read_request_def socket_reading_def REQUEST_SIZE_MAXIMUM_def sample_ping_def)

lemma served_run_reachable: "handler_reachable ref_wire ref_push served_run"
proof -
  let ?sock = "socket_reading ping_bytes" and ?pong = "R_Pong \<lparr>ping_data = 3\<rparr>"
  let ?h = "new_handler 2"
  let ?R1 = "start_handler\<lparr>hr_handler := ?h\<lparr>inbound := [(1, Waiting)]\<rparr>, hr_offered := [1], hr_listens := 1\<rparr>"
  let ?R2 = "start_handler\<lparr>hr_handler := ?h\<lparr>inbound := [(1, Waiting)], worker_streams := [(Inbound 1, Reading PPing ?sock)]\<rparr>,
    hr_listens := 1\<rparr>"
  let ?R3 = "start_handler\<lparr>hr_handler := ?h\<lparr>inbound := [(1, Arrived sample_ping)], worker_streams := [(Inbound 1, Awaiting ?sock)]\<rparr>,
    hr_listens := 1\<rparr>"
  let ?R4 = "start_handler\<lparr>hr_handler := ?h\<lparr>worker_streams := [(Inbound 1, Awaiting ?sock)]\<rparr>,
    hr_events := [H_Request 1 sample_ping], hr_listens := 1\<rparr>"
  let ?step = "\<lambda>R R'. handler_step ref_wire ref_push R (Some R')"
  have "?step start_handler ?R1"
    using hs_listen [of start_handler 1 "?h\<lparr>inbound := [(1, Waiting)]\<rparr>" ref_wire ref_push]
    by (simp add: listen_protocol_def start_handler_def new_handler_def)
  from hr_next [OF hr_start this] have R1: "handler_reachable ref_wire ref_push ?R1" .
  have "?step ?R1 ?R2"
    using hs_inbound [of 1 ?R1 ref_wire ref_push ?sock PPing]
    by (simp add: on_connection_event_def on_fully_negotiated_inbound_def push_worker_def ref_push_def
        WORKER_CAPACITY_def start_handler_def new_handler_def hm_insert_def)
  from hr_next [OF R1 this] have R2: "handler_reachable ref_wire ref_push ?R2" .
  have "?step ?R2 ?R3"
    using hs_read [of ref_wire 1 ?R2 "hr_handler ?R3" ref_push] read_sample
    by (simp add: worker_reads_def deliver_request_def set_channel_def start_handler_def new_handler_def
        hm_insert_def hm_get_def)
  from hr_next [OF R2 this] have R3: "handler_reachable ref_wire ref_push ?R3" .
  have "?step ?R3 ?R4"
    using hs_poll [of ref_wire ref_push ?R3] by (simp add: handler_poll_def report_def start_handler_def new_handler_def)
  from hr_next [OF R3 this] have R4: "handler_reachable ref_wire ref_push ?R4" .
  have "?step ?R4 served_run"
    using hs_done [of ?R4 "Inbound 1" "Awaiting ?sock" "Some (Some ?pong)" ref_wire "Ok (H_ResponseSent 1)"
        "Finished (H_ResponseSent 1)" ref_push] sample_ping_encoded(2)
    by (simp add: worker_output_def write_reply_def socket_reading_def ready_of_def handler_poll_def report_def
        take_worker_def drop_future_def served_run_def start_handler_def new_handler_def hm_get_def hm_remove_def)
  from hr_next [OF R4 this] show ?thesis .
qed

theorem handler_accounts_requests_witness:
  "handler_reachable ref_wire ref_push lost_run \<and> try_push_documented ref_push \<and>
   mset (map oi_req_id (hr_requested lost_run)) = {#1#} \<and> mset (hr_lost lost_run) = {#1#} \<and>
   picked event_out (hr_events lost_run) = {#}"
  using handler_accounts_requests [OF lost_run_reachable ref_push_documented] lost_run_reachable
    ref_push_documented
  by (simp add: lost_run_def start_handler_def new_handler_def sample_info_def)

theorem handler_channels_alive_witness:
  "handler_reachable ref_wire ref_push served_run \<and> try_push_documented ref_push \<and>
   hr_listens served_run < 2 ^ 64 \<and> replies_after_request [H_Request 1 sample_ping, H_ResponseSent 1] \<and>
   \<not> handler_step ref_wire ref_push served_run None"
  using handler_channels_alive [OF served_run_reachable ref_push_documented] served_run_reachable
    ref_push_documented
  by (simp add: served_run_def)

theorem lost_request_stays_in_flight_witness:
  "handler_reachable ref_wire ref_push lost_run \<and> try_push_documented ref_push \<and>
   distinct (map oi_req_id (hr_given lost_run)) \<and> 1 \<in> set (hr_lost lost_run) \<and>
   in_flight (run_rpc connected_run) 7 1 \<and>
   (\<exists>t. rpc_on_handler_events False 7 3 (hr_events lost_run) (run_rpc connected_run) = Ok t \<and> in_flight t 7 1)"
proof -
  have flight: "in_flight (run_rpc connected_run) 7 1" by (simp add: in_flight_def connected_run_def hm_get_def)
  have lost: "distinct (map oi_req_id (hr_given lost_run))" "1 \<in> set (hr_lost lost_run)"
    "\<forall>e \<in> set (hr_events lost_run). event_in e \<noteq> Some 1"
    by (simp_all add: lost_run_def start_handler_def)
  show ?thesis
    using lost_request_stays_in_flight [OF lost_run_reachable ref_push_documented lost(1,2) flight lost(3)]
      lost_run_reachable ref_push_documented lost(1,2) flight by blast
qed

end
