(* ===== verification/Rpc_Server.thy ===== *)
theory Rpc_Server
  imports Primitives
begin

text \<open>
  The JSON-RPC server of the crate \<open>silius-rpc\<close> (\<open>rpc.rs\<close>), the proxy in front of it (\<open>middleware.rs\<close>)
  and its launch by the binary (\<open>RpcArgs\<close> of \<open>cli/args.rs\<close>, \<open>launch_rpc\<close> of \<open>bundler.rs\<close>).

  The libraries are parameters: \<open>merge\<close> and the server of jsonrpsee, the header parser and the client of
  hyper, and the decoder of serde. What they promise is in \<open>merge_documented\<close> and
  \<open>server_documented\<close>.
\<close>

section \<open>Methods\<close>

text \<open>The three API traits and the names their attributes give to their methods.\<close>

datatype rpc_api = Web3Api | EthApi | DebugApi

fun namespace :: "rpc_api \<Rightarrow> string" where
  "namespace Web3Api = ''web3''"
| "namespace EthApi = ''eth''"
| "namespace DebugApi = ''debug_bundler''"

definition web3_methods :: "string list" where
  "web3_methods = [''clientVersion'']"

definition eth_methods :: "string list" where
  "eth_methods =
     [''chainId'', ''supportedEntryPoints'', ''sendUserOperation'', ''estimateUserOperationGas'',
      ''getUserOperationReceipt'', ''getUserOperationByHash'']"

definition debug_methods :: "string list" where
  "debug_methods =
     [''clearMempool'', ''clearReputation'', ''clearState'', ''addUserOps'', ''dumpMempool'',
      ''setReputation'', ''dumpReputation'', ''setBundlingMode'', ''sendBundleNow'', ''getStakeStatus'']"

fun method_names :: "rpc_api \<Rightarrow> string list" where
  "method_names Web3Api = web3_methods"
| "method_names EthApi = eth_methods"
| "method_names DebugApi = debug_methods"

text \<open>A value of jsonrpsee's \<open>Methods\<close>: the API that implements each registered method.\<close>

type_synonym methods = "string \<rightharpoonup> rpc_api"

definition into_rpc :: "rpc_api \<Rightarrow> methods" where
  "into_rpc api = map_of (map (\<lambda>name. (namespace api @ ''_'' @ name, api)) (method_names api))"

type_synonym merge = "methods \<Rightarrow> methods \<Rightarrow> (string, methods) outcome"

text \<open>Merging adds the methods of the other value and fails when one of them is registered already.\<close>

definition merge_documented :: "merge \<Rightarrow> bool" where
  "merge_documented merge \<longleftrightarrow>
     (\<forall>a b. (dom a \<inter> dom b = {} \<longrightarrow> merge a b = Ok (a ++ b)) \<and>
            (dom a \<inter> dom b \<noteq> {} \<longrightarrow> (\<exists>e. merge a b = Err e)))"

section \<open>The server\<close>

type_synonym ip_addr = string
type_synonym header_value = string

datatype allow_origin = AnyOrigin | OriginList "header_value list"

record cors_layer =
  cl_any_headers :: bool
  cl_methods :: "string list"
  cl_origin :: allow_origin

record json_rpc_server =
  js_http :: bool
  js_http_addr :: ip_addr
  js_http_port :: "16 word"
  js_http_methods :: methods
  js_http_cors_layer :: "cors_layer option"
  js_ws :: bool
  js_ws_addr :: ip_addr
  js_ws_port :: "16 word"
  js_ws_methods :: methods
  js_ws_cors_layer :: "cors_layer option"
  js_proxy_layer :: "string option"
  js_metric_layer :: "unit option"

datatype json_rpc_server_type = Both | Http | Ws

definition new_server ::
  "bool \<Rightarrow> ip_addr \<Rightarrow> 16 word \<Rightarrow> bool \<Rightarrow> ip_addr \<Rightarrow> 16 word \<Rightarrow> json_rpc_server" where
  "new_server http http_addr http_port ws ws_addr ws_port = \<lparr>
     js_http = http, js_http_addr = http_addr, js_http_port = http_port,
     js_http_methods = (\<lambda>_. None), js_http_cors_layer = None,
     js_ws = ws, js_ws_addr = ws_addr, js_ws_port = ws_port,
     js_ws_methods = (\<lambda>_. None), js_ws_cors_layer = None,
     js_proxy_layer = None, js_metric_layer = None\<rparr>"

definition with_cors ::
  "(string \<Rightarrow> header_value option) \<Rightarrow> string list \<Rightarrow> json_rpc_server_type \<Rightarrow> json_rpc_server \<Rightarrow> json_rpc_server" where
  "with_cors parse_header cors_domain typ S =
     (let layer = \<lparr>cl_any_headers = True, cl_methods = [''POST''],
        cl_origin = (if ''*'' \<in> set cors_domain then AnyOrigin
          else OriginList (List.map_filter parse_header cors_domain))\<rparr> in
      case typ of
        Both \<Rightarrow> S\<lparr>js_http_cors_layer := Some layer, js_ws_cors_layer := Some layer\<rparr>
      | Http \<Rightarrow> S\<lparr>js_http_cors_layer := Some layer\<rparr>
      | Ws \<Rightarrow> S\<lparr>js_ws_cors_layer := Some layer\<rparr>)"

definition with_proxy :: "string \<Rightarrow> json_rpc_server \<Rightarrow> json_rpc_server" where
  "with_proxy eth_client_address S = S\<lparr>js_proxy_layer := Some eth_client_address\<rparr>"

definition with_metrics :: "json_rpc_server \<Rightarrow> json_rpc_server" where
  "with_metrics S = S\<lparr>js_metric_layer := Some ()\<rparr>"

text \<open>\<open>Methods::merge\<close> leaves the methods as they are when it fails.\<close>

definition add_http_methods :: "merge \<Rightarrow> methods \<Rightarrow> (json_rpc_server, string, unit) op" where
  "add_http_methods merge ms S =
     (case merge (js_http_methods S) ms of
        Ok ms' \<Rightarrow> (Ok (), S\<lparr>js_http_methods := ms'\<rparr>) | Err e \<Rightarrow> (Err e, S) | Panic \<Rightarrow> (Panic, S))"

definition add_ws_methods :: "merge \<Rightarrow> methods \<Rightarrow> (json_rpc_server, string, unit) op" where
  "add_ws_methods merge ms S =
     (case merge (js_ws_methods S) ms of
        Ok ms' \<Rightarrow> (Ok (), S\<lparr>js_ws_methods := ms'\<rparr>) | Err e \<Rightarrow> (Err e, S) | Panic \<Rightarrow> (Panic, S))"

definition add_methods ::
  "merge \<Rightarrow> methods \<Rightarrow> json_rpc_server_type \<Rightarrow> (json_rpc_server, string, unit) op" where
  "add_methods merge ms typ =
     (case typ of
        Both \<Rightarrow> bind_op (add_http_methods merge ms) (\<lambda>_. add_ws_methods merge ms)
      | Http \<Rightarrow> add_http_methods merge ms
      | Ws \<Rightarrow> add_ws_methods merge ms)"

text \<open>A started server: its address, its methods and the layers in front of them.\<close>

record server_handle =
  sh_addr :: "ip_addr \<times> 16 word"
  sh_methods :: methods
  sh_cors :: "cors_layer option"
  sh_proxy :: "string option"
  sh_metrics :: "unit option"

definition start ::
  "(ip_addr \<times> 16 word \<Rightarrow> (string, unit) outcome) \<Rightarrow> json_rpc_server \<Rightarrow>
   (string, server_handle option \<times> server_handle option) outcome" where
  "start build S =
     bind_ok (if js_http S
       then bind_ok (build (js_http_addr S, js_http_port S)) (\<lambda>_.
         Ok (Some \<lparr>sh_addr = (js_http_addr S, js_http_port S), sh_methods = js_http_methods S,
           sh_cors = js_http_cors_layer S, sh_proxy = js_proxy_layer S, sh_metrics = js_metric_layer S\<rparr>))
       else Ok None) (\<lambda>http_handle.
     bind_ok (if js_ws S
       then bind_ok (build (js_ws_addr S, js_ws_port S)) (\<lambda>_.
         Ok (Some \<lparr>sh_addr = (js_ws_addr S, js_ws_port S), sh_methods = js_ws_methods S,
           sh_cors = js_ws_cors_layer S, sh_proxy = js_proxy_layer S, sh_metrics = js_metric_layer S\<rparr>))
       else Ok None) (\<lambda>ws_handle.
     Ok (http_handle, ws_handle)))"

section \<open>The proxy\<close>

text \<open>
  A request of a client and the request that the proxy makes of it, over the state \<open>'n\<close> of the outside
  world. The body of a request arrives as a whole or not at all (\<open>None\<close>).
\<close>

record http_request =
  hr_head :: string
  hr_body :: "bytes option"

record http_response =
  hs_head :: string
  hs_body :: "bytes option"

record post_request =
  pr_uri :: string
  pr_content_type :: string
  pr_body :: bytes

record error_object =
  eo_code :: int
  eo_message :: string

record 'n hyper =
  hy_decode_error :: "bytes \<Rightarrow> error_object option"
  hy_valid_uri :: "string \<Rightarrow> bool"
  hy_https_client :: "post_request \<Rightarrow> ('n, string, http_response) op"
  hy_client :: "post_request \<Rightarrow> ('n, string, http_response) op"

definition METHOD_NOT_FOUND :: int where "METHOD_NOT_FOUND = -32601"
definition METHOD_NOT_FOUND_MSG :: string where "METHOD_NOT_FOUND_MSG = ''Method not found''"

definition to_bytes :: "bytes option \<Rightarrow> (string, bytes) outcome" where
  "to_bytes body = ok_or ''body'' body"

definition not_found :: "'n hyper \<Rightarrow> bytes \<Rightarrow> bool" where
  "not_found H res_bb =
     (case hy_decode_error H res_bb of
        Some err \<Rightarrow> eo_code err = METHOD_NOT_FOUND \<and> eo_message err = METHOD_NOT_FOUND_MSG
      | None \<Rightarrow> False)"

definition forward_request :: "'n hyper \<Rightarrow> string \<Rightarrow> bytes \<Rightarrow> ('n, string, http_response) op" where
  "forward_request H addr req_bb =
     (let req = \<lparr>pr_uri = addr, pr_content_type = ''application/json'', pr_body = req_bb\<rparr> in
      if \<not> hy_valid_uri H addr then fail ''uri''
      else if take 5 addr = ''https'' then hy_https_client H req
      else hy_client H req)"

definition proxy_call ::
  "'n hyper \<Rightarrow> string \<Rightarrow> (http_request \<Rightarrow> ('n, string, http_response) op) \<Rightarrow> http_request \<Rightarrow>
   ('n, string, http_response) op" where
  "proxy_call H addr inner req =
     bind_op (query (\<lambda>_. to_bytes (hr_body req))) (\<lambda>req_bb.
     bind_op (inner \<lparr>hr_head = hr_head req, hr_body = Some req_bb\<rparr>) (\<lambda>res.
     bind_op (query (\<lambda>_. to_bytes (hs_body res))) (\<lambda>res_bb.
     if not_found H res_bb then forward_request H addr req_bb
     else ret \<lparr>hs_head = hs_head res, hs_body = Some res_bb\<rparr>)))"

text \<open>The HTTP service of a started server: jsonrpsee's service on its methods, behind the proxy if one
  is set. \<open>serve\<close> is jsonrpsee's.\<close>

definition http_service ::
  "'n hyper \<Rightarrow> (methods \<Rightarrow> http_request \<Rightarrow> ('n, string, http_response) op) \<Rightarrow> server_handle \<Rightarrow> http_request \<Rightarrow>
   ('n, string, http_response) op" where
  "http_service H serve h =
     (case sh_proxy h of
        Some addr \<Rightarrow> proxy_call H addr (serve (sh_methods h))
      | None \<Rightarrow> serve (sh_methods h))"

section \<open>The launch\<close>

record rpc_args =
  ra_http :: bool
  ra_http_addr :: ip_addr
  ra_http_port :: "16 word"
  ra_http_api :: "string list"
  ra_http_corsdomain :: "string list"
  ra_ws :: bool
  ra_ws_addr :: ip_addr
  ra_ws_port :: "16 word"
  ra_ws_api :: "string list"
  ra_ws_origins :: "string list"
  ra_eth_client_proxy_address :: "string option"

definition is_enabled :: "rpc_args \<Rightarrow> bool" where
  "is_enabled args \<longleftrightarrow> ra_http args \<or> ra_ws args"

definition is_api_method_enabled :: "rpc_args \<Rightarrow> string \<Rightarrow> bool" where
  "is_api_method_enabled args m \<longleftrightarrow> m \<in> set (ra_http_api args) \<or> m \<in> set (ra_ws_api args)"

text \<open>The configuration name of an API and the pair of \<open>add_methods\<close> calls the launch makes for it.\<close>

fun api_name :: "rpc_api \<Rightarrow> string" where
  "api_name Web3Api = ''web3''"
| "api_name EthApi = ''eth''"
| "api_name DebugApi = ''debug''"

definition add_api :: "merge \<Rightarrow> rpc_args \<Rightarrow> rpc_api \<Rightarrow> (json_rpc_server, string, unit) op" where
  "add_api merge args api =
     bind_op (if api_name api \<in> set (ra_http_api args) then add_methods merge (into_rpc api) Http else ret ()) (\<lambda>_.
     if api_name api \<in> set (ra_ws_api args) then add_methods merge (into_rpc api) Ws else ret ())"

definition configured_server ::
  "(string \<Rightarrow> header_value option) \<Rightarrow> rpc_args \<Rightarrow> bool \<Rightarrow> json_rpc_server" where
  "configured_server parse_header args enable_metrics =
     (let S = with_cors parse_header (ra_ws_origins args) Ws
            (with_cors parse_header (ra_http_corsdomain args) Http
              (new_server (ra_http args) (ra_http_addr args) (ra_http_port args)
                (ra_ws args) (ra_ws_addr args) (ra_ws_port args)));
          S = (case ra_eth_client_proxy_address args of Some a \<Rightarrow> with_proxy a S | None \<Rightarrow> S)
      in if enable_metrics then with_metrics S else S)"

text \<open>
  The launch up to the task it spawns, which starts the server. \<open>uopool\<close> and \<open>bundler\<close> are the results of
  connecting to the two gRPC services.
\<close>

definition launch_rpc ::
  "merge \<Rightarrow> (string \<Rightarrow> header_value option) \<Rightarrow> rpc_args \<Rightarrow> (string, unit) outcome \<Rightarrow> (string, unit) outcome \<Rightarrow>
   bool \<Rightarrow> (string, json_rpc_server) outcome" where
  "launch_rpc merge parse_header args uopool bundler enable_metrics =
     (if \<not> is_enabled args then Err ''No RPC protocol is enabled''
      else case
        bind_op (add_api merge args Web3Api) (\<lambda>_.
        bind_op (query (\<lambda>_. uopool)) (\<lambda>_.
        bind_op (if is_api_method_enabled args ''eth'' then add_api merge args EthApi else ret ()) (\<lambda>_.
        if is_api_method_enabled args ''debug''
        then bind_op (query (\<lambda>_. bundler)) (\<lambda>_. add_api merge args DebugApi)
        else ret ()))) (configured_server parse_header args enable_metrics) of
          (Ok _, S) \<Rightarrow> Ok S | (Err e, S) \<Rightarrow> Err e | (Panic, S) \<Rightarrow> Panic)"

section \<open>The methods of a launched server\<close>

text \<open>The methods of the APIs that a list of names configures.\<close>

definition exposed :: "string list \<Rightarrow> methods" where
  "exposed apis m =
     List.find (\<lambda>api. api_name api \<in> set apis \<and> into_rpc api m \<noteq> None) [Web3Api, EthApi, DebugApi]"

definition own :: "string list \<Rightarrow> rpc_api \<Rightarrow> methods" where
  "own apis api = (if api_name api \<in> set apis then into_rpc api else (\<lambda>_. None))"

lemma into_rpc_owner: "into_rpc api m = Some api' \<Longrightarrow> api' = api"
  unfolding into_rpc_def by (drule map_of_SomeD) auto

lemma namespaces_disjoint: "api \<noteq> api' \<Longrightarrow> dom (into_rpc api) \<inter> dom (into_rpc api') = {}"
  by (cases api; cases api') (auto simp: into_rpc_def dom_map_of_conv_image_fst web3_methods_def eth_methods_def debug_methods_def)

lemma own_disjoint: "api \<noteq> api' \<Longrightarrow> dom (own apis api) \<inter> dom (own apis api') = {}"
  using namespaces_disjoint [of api api'] by (simp add: own_def)

lemma exposed_split: "exposed apis = own apis Web3Api ++ own apis EthApi ++ own apis DebugApi"
proof
  fix m
  have D: "into_rpc api m = None \<or> into_rpc api' m = None" if "api \<noteq> api'" for api api'
    using namespaces_disjoint [OF that] by (auto simp: dom_def)
  have O: "into_rpc api m \<noteq> None \<Longrightarrow> into_rpc api m = Some api" for api
    using into_rpc_owner [of api m] by auto
  show "exposed apis m = (own apis Web3Api ++ own apis EthApi ++ own apis DebugApi) m"
    using D [of Web3Api EthApi] D [of Web3Api DebugApi] D [of EthApi DebugApi] O [of Web3Api] O [of EthApi]
      O [of DebugApi]
    by (auto simp: exposed_def own_def map_add_def split: option.split)
qed

lemma add_api_effect:
  assumes "merge_documented merge"
    and "dom (js_http_methods S) \<inter> dom (own (ra_http_api args) api) = {}"
    and "dom (js_ws_methods S) \<inter> dom (own (ra_ws_api args) api) = {}"
  shows "add_api merge args api S =
    (Ok (), S\<lparr>js_http_methods := js_http_methods S ++ own (ra_http_api args) api,
              js_ws_methods := js_ws_methods S ++ own (ra_ws_api args) api\<rparr>)"
proof -
  have M: "merge a b = Ok (a ++ b)" if "dom a \<inter> dom b = {}" for a b
    using assms(1) that by (simp add: merge_documented_def)
  have E: "a ++ (\<lambda>_. None) = a" for a :: methods by (simp add: map_add_def fun_eq_iff)
  show ?thesis
    using M [of "js_http_methods S" "own (ra_http_api args) api"] M [of "js_ws_methods S" "own (ra_ws_api args) api"]
      assms(2,3)
    by (simp add: add_api_def add_methods_def add_http_methods_def add_ws_methods_def bind_op_def own_def E
        split: if_splits)
qed

lemma add_api_skipped: "\<not> is_api_method_enabled args (api_name api) \<Longrightarrow> add_api merge args api = ret ()"
  by (simp add: add_api_def is_api_method_enabled_def ret_def bind_op_def fun_eq_iff)

lemma configured_methods [simp]:
  "js_http_methods (configured_server ph args em) = (\<lambda>_. None)"
  "js_ws_methods (configured_server ph args em) = (\<lambda>_. None)"
  by (simp_all add: configured_server_def with_metrics_def with_proxy_def with_cors_def new_server_def Let_def
      split: option.split)

lemma launched_methods:
  assumes "merge_documented merge"
  shows "launch_rpc merge parse_header args uopool bundler enable_metrics =
    (if \<not> ra_http args \<and> \<not> ra_ws args then Err ''No RPC protocol is enabled''
     else bind_ok uopool (\<lambda>_.
       bind_ok (if ''debug'' \<in> set (ra_http_api args @ ra_ws_api args) then bundler else Ok ()) (\<lambda>_.
       Ok ((configured_server parse_header args enable_metrics)\<lparr>
         js_http_methods := exposed (ra_http_api args), js_ws_methods := exposed (ra_ws_api args)\<rparr>))))"
proof -
  let ?h = "ra_http_api args" and ?w = "ra_ws_api args"
  let ?C = "configured_server parse_header args enable_metrics"
  let ?S1 = "?C\<lparr>js_http_methods := own ?h Web3Api, js_ws_methods := own ?w Web3Api\<rparr>"
  let ?S2 = "?C\<lparr>js_http_methods := own ?h Web3Api ++ own ?h EthApi, js_ws_methods := own ?w Web3Api ++ own ?w EthApi\<rparr>"
  let ?S3 = "?C\<lparr>js_http_methods := exposed ?h, js_ws_methods := exposed ?w\<rparr>"
  have D: "dom (own apis Web3Api ++ own apis EthApi) \<inter> dom (own apis DebugApi) = {}" for apis
    using own_disjoint [of Web3Api DebugApi apis] own_disjoint [of EthApi DebugApi apis] by auto
  have web3: "add_api merge args Web3Api ?C = (Ok (), ?S1)"
    using add_api_effect [OF assms, of ?C args Web3Api] by simp
  have eth: "add_api merge args EthApi ?S1 = (Ok (), ?S2)"
    using add_api_effect [OF assms, of ?S1 args EthApi] own_disjoint [of Web3Api EthApi] by simp
  have debug: "add_api merge args DebugApi ?S2 = (Ok (), ?S3)"
    using add_api_effect [OF assms, of ?S2 args DebugApi] D by (simp add: exposed_split)
  have skip: "?S3 = ?S2" if "\<not> is_api_method_enabled args ''debug''"
    using debug add_api_skipped [of args DebugApi merge] that by (simp add: ret_def)
  have eth_if: "(if is_api_method_enabled args ''eth'' then add_api merge args EthApi else ret ()) = add_api merge args EthApi"
    using add_api_skipped [of args EthApi merge] by simp
  have "''debug'' \<in> set (?h @ ?w) \<longleftrightarrow> is_api_method_enabled args ''debug''"
    by (simp add: is_api_method_enabled_def)
  then show ?thesis
    using web3 eth debug skip
    by (cases uopool; cases bundler) (simp_all add: launch_rpc_def eth_if is_enabled_def bind_op_def query_def ret_def)
qed

text \<open>The launch of the JSON-RPC server succeeds exactly when a protocol is enabled and the services
  can be reached (the bundler's only when an API list names \<open>debug\<close>). The server then has, over HTTP and
  over WebSocket, exactly the methods of the APIs named for that protocol, however often and in whatever
  order the names are listed: registering them never fails.\<close>

theorem launched_rpc_exact:
  assumes "merge_documented merge"
  shows "launch_rpc merge parse_header args uopool bundler enable_metrics =
    (if \<not> ra_http args \<and> \<not> ra_ws args then Err ''No RPC protocol is enabled''
     else bind_ok uopool (\<lambda>_.
       bind_ok (if ''debug'' \<in> set (ra_http_api args @ ra_ws_api args) then bundler else Ok ()) (\<lambda>_.
       Ok ((configured_server parse_header args enable_metrics)\<lparr>
         js_http_methods := exposed (ra_http_api args), js_ws_methods := exposed (ra_ws_api args)\<rparr>))))"
  by (rule launched_methods [OF assms])

definition ref_merge :: merge where
  "ref_merge a b = (if dom a \<inter> dom b = {} then Ok (a ++ b) else Err ''Method already registered'')"

lemma ref_merge_documented: "merge_documented ref_merge"
  by (simp add: merge_documented_def ref_merge_def)

definition sample_args :: rpc_args where
  "sample_args = \<lparr>
     ra_http = True, ra_http_addr = ''127.0.0.1'', ra_http_port = 3000, ra_http_api = [''eth'', ''eth''],
     ra_http_corsdomain = [''*''], ra_ws = False, ra_ws_addr = ''127.0.0.1'', ra_ws_port = 3001,
     ra_ws_api = [''eth''], ra_ws_origins = [''*''],
     ra_eth_client_proxy_address = Some ''http://geth:8545''\<rparr>"

definition sample_server :: json_rpc_server where
  "sample_server = (configured_server Some sample_args False)\<lparr>
     js_http_methods := into_rpc EthApi, js_ws_methods := into_rpc EthApi\<rparr>"

lemma sample_exposed: "exposed [''eth'', ''eth''] = into_rpc EthApi" "exposed [''eth''] = into_rpc EthApi"
  by (simp_all add: exposed_split own_def map_add_def fun_eq_iff split: option.split)

theorem launched_rpc_exact_witness:
  "launch_rpc ref_merge Some sample_args (Ok ()) (Err ''refused'') False = Ok sample_server"
  using launched_rpc_exact [OF ref_merge_documented, of Some sample_args "Ok ()" "Err ''refused''" False]
  by (simp add: sample_args_def sample_server_def sample_exposed)

section \<open>Calls behind the proxy\<close>

text \<open>
  jsonrpsee answers a call of an unregistered method with the error of the JSON-RPC specification, and
  runs nothing. \<open>method_of\<close> reads the method that a request body calls.
\<close>

definition server_documented ::
  "'n hyper \<Rightarrow> (bytes \<Rightarrow> string option) \<Rightarrow> (methods \<Rightarrow> http_request \<Rightarrow> ('n, string, http_response) op) \<Rightarrow> bool" where
  "server_documented H method_of serve \<longleftrightarrow>
     (\<forall>ms req body m n. hr_body req = Some body \<and> method_of body = Some m \<and> ms m = None \<longrightarrow>
        (\<exists>res b. serve ms req n = (Ok res, n) \<and> hs_body res = Some b \<and>
           hy_decode_error H b = Some \<lparr>eo_code = -32601, eo_message = ''Method not found''\<rparr>))"

text \<open>A launched node with a proxy address splits the calls that arrive over HTTP: a call of a method
  outside the configured APIs is posted with its body unchanged to the execution client (over TLS exactly
  for an address that starts with \<open>https\<close>) and is answered with the client's answer; a call of a configured
  method that is answered with anything but \<open>Method not found\<close> returns that answer and reaches no other
  server.\<close>

theorem proxied_calls_exact:
  assumes "merge_documented merge" and "server_documented H method_of serve"
    and "launch_rpc merge parse_header args uopool bundler em = Ok S" and "start build S = Ok (Some h, ws)"
    and "ra_eth_client_proxy_address args = Some addr" and "hy_valid_uri H addr"
    and "hr_body req = Some body" and "method_of body = Some m"
  shows "(exposed (ra_http_api args) m = None \<longrightarrow>
      http_service H serve h req n =
        (if take 5 addr = ''https'' then hy_https_client H else hy_client H)
          \<lparr>pr_uri = addr, pr_content_type = ''application/json'', pr_body = body\<rparr> n) \<and>
    (\<forall>res b n'. serve (exposed (ra_http_api args)) req n = (Ok res, n') \<and> hs_body res = Some b \<and> \<not> not_found H b \<longrightarrow>
      http_service H serve h req n = (Ok res, n'))"
proof -
  have "S = (configured_server parse_header args em)\<lparr>
      js_http_methods := exposed (ra_http_api args), js_ws_methods := exposed (ra_ws_api args)\<rparr>"
    using assms(3) unfolding launched_methods [OF assms(1)]
    by (auto simp: bind_ok_eq_Ok split: if_splits)
  then have h: "sh_proxy h = Some addr" "sh_methods h = exposed (ra_http_api args)"
    using assms(4,5)
    by (auto simp: start_def bind_ok_eq_Ok configured_server_def with_metrics_def with_proxy_def with_cors_def
        new_server_def Let_def split: if_splits)
  have req: "\<lparr>hr_head = hr_head req, hr_body = Some body\<rparr> = req"
    using assms(7) by simp
  note call = http_service_def h proxy_call_def to_bytes_def ok_or_def bind_op_def query_def req assms(7)
  have "http_service H serve h req n = (if take 5 addr = ''https'' then hy_https_client H else hy_client H)
      \<lparr>pr_uri = addr, pr_content_type = ''application/json'', pr_body = body\<rparr> n"
    if unknown: "exposed (ra_http_api args) m = None"
  proof -
    obtain res b where "serve (exposed (ra_http_api args)) req n = (Ok res, n)" "hs_body res = Some b"
        "hy_decode_error H b = Some \<lparr>eo_code = -32601, eo_message = ''Method not found''\<rparr>"
      using assms(2) unknown assms(7,8) unfolding server_documented_def by blast
    then show ?thesis
      by (simp add: call not_found_def METHOD_NOT_FOUND_def METHOD_NOT_FOUND_MSG_def forward_request_def assms(6))
  qed
  moreover have "http_service H serve h req n = (Ok res, n')"
    if "serve (exposed (ra_http_api args)) req n = (Ok res, n')" "hs_body res = Some b" "\<not> not_found H b" for res b n'
    using that by (simp add: call ret_def)
  ultimately show ?thesis by blast
qed

text \<open>A server that answers with its error or with a result, in front of a client that keeps what is
  posted.\<close>

definition ref_hyper :: "post_request list hyper" where
  "ref_hyper = \<lparr>
     hy_decode_error = (\<lambda>b. if b = [0] then Some \<lparr>eo_code = -32601, eo_message = ''Method not found''\<rparr> else None),
     hy_valid_uri = (\<lambda>_. True),
     hy_https_client = (\<lambda>_. fail ''no TLS''),
     hy_client = (\<lambda>req posted. (Ok \<lparr>hs_head = ''200'', hs_body = Some [2]\<rparr>, posted @ [req]))\<rparr>"

definition ref_method_of :: "bytes \<Rightarrow> string option" where
  "ref_method_of body = Some (if body = [7] then ''eth_chainId'' else ''eth_gasPrice'')"

definition ref_serve :: "methods \<Rightarrow> http_request \<Rightarrow> (post_request list, string, http_response) op" where
  "ref_serve ms req =
     ret \<lparr>hs_head = ''200'', hs_body = Some (case hr_body req of
         Some body \<Rightarrow> (case ref_method_of body of Some m \<Rightarrow> if ms m = None then [0] else [1] | None \<Rightarrow> [1])
       | None \<Rightarrow> [1])\<rparr>"

lemma ref_serve_documented: "server_documented ref_hyper ref_method_of ref_serve"
  by (auto simp: server_documented_def ref_serve_def ref_hyper_def ret_def)

definition sample_handle :: server_handle where
  "sample_handle = \<lparr>
     sh_addr = (''127.0.0.1'', 3000), sh_methods = into_rpc EthApi,
     sh_cors = Some \<lparr>cl_any_headers = True, cl_methods = [''POST''], cl_origin = AnyOrigin\<rparr>,
     sh_proxy = Some ''http://geth:8545'', sh_metrics = None\<rparr>"

lemma sample_started: "start (\<lambda>_. Ok ()) sample_server = Ok (Some sample_handle, None)"
  by (simp add: start_def sample_server_def sample_args_def sample_handle_def configured_server_def
      with_proxy_def with_cors_def new_server_def)

theorem proxied_calls_exact_witness:
  "http_service ref_hyper ref_serve sample_handle \<lparr>hr_head = ''POST'', hr_body = Some [5]\<rparr> [] =
     (Ok \<lparr>hs_head = ''200'', hs_body = Some [2]\<rparr>,
      [\<lparr>pr_uri = ''http://geth:8545'', pr_content_type = ''application/json'', pr_body = [5]\<rparr>]) \<and>
   http_service ref_hyper ref_serve sample_handle \<lparr>hr_head = ''POST'', hr_body = Some [7]\<rparr> [] =
     (Ok \<lparr>hs_head = ''200'', hs_body = Some [1]\<rparr>, [])"
proof -
  have L: "launch_rpc ref_merge Some sample_args (Ok ()) (Err ''refused'') False = Ok sample_server"
    by (simp add: launched_methods [OF ref_merge_documented] sample_args_def sample_server_def sample_exposed)
  have A: "ra_eth_client_proxy_address sample_args = Some ''http://geth:8545''" "ra_http_api sample_args = [''eth'', ''eth'']"
    by (simp_all add: sample_args_def)
  have M: "into_rpc EthApi ''eth_gasPrice'' = None" "into_rpc EthApi ''eth_chainId'' = Some EthApi"
    by (simp_all add: into_rpc_def eth_methods_def)
  note P = proxied_calls_exact [OF ref_merge_documented ref_serve_documented L sample_started A(1), unfolded A(2) sample_exposed]
  show ?thesis
    using P [of "\<lparr>hr_head = ''POST'', hr_body = Some [5]\<rparr>" "[5]" "''eth_gasPrice''" "[]"]
      P [of "\<lparr>hr_head = ''POST'', hr_body = Some [7]\<rparr>" "[7]" "''eth_chainId''" "[]"]
    by (simp add: M ref_hyper_def ref_method_of_def ref_serve_def ret_def not_found_def)
qed

end
