(* ===== verification/Metrics.thy ===== *)
theory Metrics
  imports Pool_Service Memory_Store
begin

text \<open>
  The metrics of the crate \<open>silius-metrics\<close>: the wrapper around the stores of the mempool and of the
  reputation (\<open>mempool.rs\<close>), the wrappers around the gRPC and the JSON-RPC services (\<open>grpc.rs\<close>, \<open>rpc.rs\<close>)
  and the one around the Ethereum client (\<open>ethers.rs\<close>).

  The macros of the \<open>metrics\<close> library hand calls to the installed recorder. A wrapped store carries, next
  to the inner state, the calls made so far; the labels hold the values that the code formats.
\<close>

section \<open>Calls to the recorder\<close>

datatype metric_label =
    MempoolErrorLabel mempool_error_kind
  | ReputationErrorLabel reputation_error
  | AddressLabel address
  | PathLabel string
  | MethodLabel string
  | CodeLabel int
  | IsSubscriptionLabel bool

datatype metric_call =
    CounterIncrement string "metric_label list"
  | CounterAbsolute string nat
  | GaugeIncrement string
  | GaugeDecrement string
  | GaugeSet string "metric_label list" u64

text \<open>Running an operation of the inner value and recording calls that depend on its result.\<close>

definition recording ::
  "(('e, 'a) outcome \<Rightarrow> metric_call list) \<Rightarrow> ('s, 'e, 'a) op \<Rightarrow> ('s \<times> metric_call list, 'e, 'a) op" where
  "recording notes f st = (case st of (s, trail) \<Rightarrow> case f s of (r, s') \<Rightarrow> (r, (s', trail @ notes r)))"

definition silent :: "('s, 'e, 'a) op \<Rightarrow> ('s \<times> metric_call list, 'e, 'a) op" where
  "silent = recording (\<lambda>_. [])"

section \<open>The wrapper around the stores\<close>

definition MEMPOOL_SIZE :: string where "MEMPOOL_SIZE = ''silius_mempool_size''"
definition MEMPOOL_ADD_ERROR :: string where "MEMPOOL_ADD_ERROR = ''silius_mempool_add_error''"
definition MEMPOOL_REMOVE_ERROR :: string where "MEMPOOL_REMOVE_ERROR = ''silius_mempool_remove_error''"
definition REPUTATION_UO_SEEN :: string where "REPUTATION_UO_SEEN = ''silius_reputation_uo_seen''"
definition REPUTATION_UO_INCLUDED :: string where "REPUTATION_UO_INCLUDED = ''silius_reputation_uo_included''"
definition REPUTATION_STATUS :: string where "REPUTATION_STATUS = ''silius_reputation_status''"
definition REPUTATION_SET_ENTRY_ERROR :: string where
  "REPUTATION_SET_ENTRY_ERROR = ''silius_reputation_set_entry.error''"

definition metrics_add ::
  "'s user_operation_act \<Rightarrow> user_operation \<Rightarrow>
   ('s \<times> metric_call list, mempool_error_kind, user_operation_hash) op" where
  "metrics_add A uo =
     recording (\<lambda>r. case r of
         Ok _ \<Rightarrow> [GaugeIncrement MEMPOOL_SIZE]
       | Err e \<Rightarrow> [CounterIncrement MEMPOOL_ADD_ERROR [MempoolErrorLabel e]]
       | Panic \<Rightarrow> []) (uo_add A uo)"

definition metrics_remove_by_uo_hash ::
  "'s user_operation_act \<Rightarrow> user_operation_hash \<Rightarrow> ('s \<times> metric_call list, mempool_error_kind, bool) op" where
  "metrics_remove_by_uo_hash A h =
     recording (\<lambda>r. case r of
         Ok _ \<Rightarrow> [GaugeDecrement MEMPOOL_SIZE]
       | Err e \<Rightarrow> [CounterIncrement MEMPOOL_REMOVE_ERROR [MempoolErrorLabel e]]
       | Panic \<Rightarrow> []) (uo_remove_by_uo_hash A h)"

definition metrics_user_operations ::
  "'s user_operation_act \<Rightarrow> ('s \<times> metric_call list) user_operation_act" where
  "metrics_user_operations A = \<lparr>
     uo_add = metrics_add A,
     uo_remove_by_uo_hash = metrics_remove_by_uo_hash A,
     uo_get_by_uo_hash = (\<lambda>h s. uo_get_by_uo_hash A h (fst s)),
     uo_get_sorted = (\<lambda>s. uo_get_sorted A (fst s)),
     uo_get_all = (\<lambda>s. uo_get_all A (fst s)),
     uo_clear = silent (uo_clear A)\<rparr>"

definition metrics_set_entry ::
  "'s reputation_entry_op \<Rightarrow> reputation_entry \<Rightarrow>
   ('s \<times> metric_call list, reputation_error, reputation_entry option) op" where
  "metrics_set_entry A ent =
     recording (\<lambda>r. case r of
         Ok _ \<Rightarrow>
           [GaugeSet REPUTATION_UO_SEEN [AddressLabel (re_address ent)] (uo_seen ent),
            GaugeSet REPUTATION_UO_INCLUDED [AddressLabel (re_address ent)] (uo_included ent),
            GaugeSet REPUTATION_STATUS [AddressLabel (re_address ent)] (re_status ent)]
       | Err e \<Rightarrow> [CounterIncrement REPUTATION_SET_ENTRY_ERROR [ReputationErrorLabel e]]
       | Panic \<Rightarrow> []) (set_entry A ent)"

definition metrics_entries ::
  "'s reputation_entry_op \<Rightarrow> ('s \<times> metric_call list) reputation_entry_op" where
  "metrics_entries A = \<lparr>
     get_entry = (\<lambda>a s. get_entry A a (fst s)),
     set_entry = metrics_set_entry A,
     contains_entry = (\<lambda>a s. contains_entry A a (fst s)),
     entries_get_all = (\<lambda>s. entries_get_all A (fst s)),
     entries_clear = silent (entries_clear A)\<rparr>"

text \<open>The mempool as it is launched: the operations wrapped, the other tables as they are.\<close>

definition unwrapped_addr :: "'s user_operation_addr_act \<Rightarrow> ('s \<times> metric_call list) user_operation_addr_act" where
  "unwrapped_addr A = \<lparr>
     addr_add = (\<lambda>a h. silent (addr_add A a h)),
     addr_remove_uo_hash = (\<lambda>a h. silent (addr_remove_uo_hash A a h)),
     get_all_by_address = (\<lambda>a s. get_all_by_address A a (fst s)),
     addr_clear = silent (addr_clear A)\<rparr>"

definition unwrapped_codes ::
  "'s user_operation_code_hash_act \<Rightarrow> ('s \<times> metric_call list) user_operation_code_hash_act" where
  "unwrapped_codes A = \<lparr>
     ch_has_code_hashes = (\<lambda>h s. ch_has_code_hashes A h (fst s)),
     ch_set_code_hashes = (\<lambda>h hs. silent (ch_set_code_hashes A h hs)),
     ch_get_code_hashes = (\<lambda>h s. ch_get_code_hashes A h (fst s)),
     ch_remove_code_hashes = (\<lambda>h. silent (ch_remove_code_hashes A h)),
     ch_clear = silent (ch_clear A)\<rparr>"

definition metered_mempool :: "'s mempool \<Rightarrow> ('s \<times> metric_call list) mempool" where
  "metered_mempool M = \<lparr>
     user_operations = metrics_user_operations (user_operations M),
     user_operations_by_sender = unwrapped_addr (user_operations_by_sender M),
     user_operations_by_entity = unwrapped_addr (user_operations_by_entity M),
     user_operations_code_hashes = unwrapped_codes (user_operations_code_hashes M)\<rparr>"

text \<open>What \<open>describe_mempool_metrics\<close> resets when the exporter is installed.\<close>

definition describe_mempool_metrics :: "metric_call list" where
  "describe_mempool_metrics =
     [CounterAbsolute MEMPOOL_ADD_ERROR 0, CounterAbsolute MEMPOOL_REMOVE_ERROR 0,
      CounterAbsolute REPUTATION_SET_ENTRY_ERROR 0, GaugeSet MEMPOOL_SIZE [] 0,
      GaugeSet REPUTATION_UO_SEEN [] 0, GaugeSet REPUTATION_UO_INCLUDED [] 0, GaugeSet REPUTATION_STATUS [] 0]"

section \<open>Simulation of stateful operations\<close>

text \<open>Two operations give the same result and keep their states related.\<close>

definition simulates :: "('s \<Rightarrow> 't \<Rightarrow> bool) \<Rightarrow> ('s, 'e, 'a) op \<Rightarrow> ('t, 'e, 'a) op \<Rightarrow> bool" where
  "simulates rel f g = (\<forall>s t. rel s t \<longrightarrow> fst (f s) = fst (g t) \<and> rel (snd (f s)) (snd (g t)))"

named_theorems simulates_intros

lemma simulatesI:
  "(\<And>s t. rel s t \<Longrightarrow> fst (f s) = fst (g t) \<and> rel (snd (f s)) (snd (g t))) \<Longrightarrow> simulates rel f g"
  by (simp add: simulates_def)

lemma simulatesD:
  assumes "simulates rel f g" "rel s t"
  shows "fst (f s) = fst (g t)" "rel (snd (f s)) (snd (g t))"
  using assms by (simp_all add: simulates_def)

text \<open>An operation that is chosen by reading the state.\<close>

lemma simulates_at:
  assumes "\<And>s t. rel s t \<Longrightarrow> simulates rel (F s) (G t)" "\<And>s. f s = F s s" "\<And>t. g t = G t t"
  shows "simulates rel f g"
  using assms by (simp add: simulates_def)

lemma simulates_ret [simulates_intros]: "simulates rel (ret x) (ret x)"
  by (simp add: simulates_def ret_def)

lemma simulates_fail [simulates_intros]: "simulates rel (fail e) (fail e)"
  by (simp add: simulates_def fail_def)

lemma simulates_query [simulates_intros]:
  "(\<And>s t. rel s t \<Longrightarrow> q s = r t) \<Longrightarrow> simulates rel (query q) (query r)"
  by (simp add: simulates_def query_def)

lemma simulates_bind [simulates_intros]:
  assumes "simulates rel f g" "\<And>x. simulates rel (h x) (k x)"
  shows "simulates rel (bind_op f h) (bind_op g k)"
proof (rule simulatesI)
  fix s t
  assume st: "rel s t"
  obtain r s' where f: "f s = (r, s')" by fastforce
  obtain r' t' where g: "g t = (r', t')" by fastforce
  have "r = r'" "rel s' t'" using simulatesD [OF assms(1) st] f g by simp_all
  then show "fst (bind_op f h s) = fst (bind_op g k t) \<and> rel (snd (bind_op f h s)) (snd (bind_op g k t))"
    using f g simulatesD [OF assms(2)] by (cases r') (auto simp: bind_op_def)
qed

lemma simulates_map_err_op [simulates_intros]:
  "simulates rel f g \<Longrightarrow> simulates rel (map_err_op h f) (map_err_op h g)"
  by (simp add: simulates_def map_err_op_def case_prod_unfold)

lemma simulates_for_each [simulates_intros]:
  "(\<And>x. simulates rel (f x) (g x)) \<Longrightarrow> simulates rel (for_each f xs) (for_each g xs)"
  by (induction xs) (auto simp: for_each.simps intro: simulates_intros)

lemma simulates_when_some [simulates_intros]:
  "(\<And>x. simulates rel (f x) (g x)) \<Longrightarrow> simulates rel (when_some m f) (when_some m g)"
  by (cases m) (auto simp: when_some_def intro: simulates_intros)

lemma simulates_ignore_err [simulates_intros]:
  assumes "simulates rel f g"
  shows "simulates rel (ignore_err f) (ignore_err g)"
proof (rule simulatesI)
  fix s t
  assume "rel s t"
  note d = simulatesD [OF assms this]
  show "fst (ignore_err f s) = fst (ignore_err g t) \<and> rel (snd (ignore_err f s)) (snd (ignore_err g t))"
    using d by (cases "f s"; cases "g t"; cases "fst (g t)") (auto simp: ignore_err_def)
qed

lemma simulates_report [simulates_intros]:
  assumes "simulates rel f g"
  shows "simulates rel
    (\<lambda>s. case f s of (Ok _, s') \<Rightarrow> (Ok a, s') | (Err _, s') \<Rightarrow> (Ok b, s') | (Panic, s') \<Rightarrow> (Panic, s'))
    (\<lambda>t. case g t of (Ok _, t') \<Rightarrow> (Ok a, t') | (Err _, t') \<Rightarrow> (Ok b, t') | (Panic, t') \<Rightarrow> (Panic, t'))"
    (is "simulates rel ?f ?g")
proof (rule simulatesI)
  fix s t
  assume "rel s t"
  note d = simulatesD [OF assms this]
  show "fst (?f s) = fst (?g t) \<and> rel (snd (?f s)) (snd (?g t))"
    using d by (cases "f s"; cases "g t"; cases "fst (g t)") auto
qed

lemma simulates_post [simulates_intros]:
  assumes "simulates rel f g"
  shows "simulates rel (\<lambda>s. case f s of (r, s') \<Rightarrow> (h r, s')) (\<lambda>t. case g t of (r, t') \<Rightarrow> (h r, t'))"
  by (rule simulatesI) (simp add: case_prod_unfold simulatesD [OF assms])

lemma simulates_if [simulates_intros]:
  "simulates rel f g \<Longrightarrow> simulates rel f' g' \<Longrightarrow> simulates rel (if b then f else f') (if b then g else g')"
  by simp

section \<open>The wrapper does not change what the stores do\<close>

definition same_store :: "'s \<times> metric_call list \<Rightarrow> 's \<Rightarrow> bool" where
  "same_store st s = (fst st = s)"

lemma simulates_recording [simulates_intros]: "simulates same_store (recording notes f) f"
  by (auto simp: simulates_def same_store_def recording_def split: prod.splits)

lemma simulates_silent [simulates_intros]: "simulates same_store (silent f) f"
  unfolding silent_def by (rule simulates_recording)

lemma metered_simps [simp]:
  "user_operations (metered_mempool M) = metrics_user_operations (user_operations M)"
  "user_operations_by_sender (metered_mempool M) = unwrapped_addr (user_operations_by_sender M)"
  "user_operations_by_entity (metered_mempool M) = unwrapped_addr (user_operations_by_entity M)"
  "user_operations_code_hashes (metered_mempool M) = unwrapped_codes (user_operations_code_hashes M)"
  by (simp_all add: metered_mempool_def)

lemmas metered_acts = metrics_user_operations_def unwrapped_addr_def unwrapped_codes_def metrics_entries_def

lemma metered_stores [simulates_intros]:
  "simulates same_store (uo_add (metrics_user_operations A) uo) (uo_add A uo)"
  "simulates same_store (uo_remove_by_uo_hash (metrics_user_operations A) h) (uo_remove_by_uo_hash A h)"
  "simulates same_store (uo_clear (metrics_user_operations A)) (uo_clear A)"
  "simulates same_store (addr_add (unwrapped_addr B) a h) (addr_add B a h)"
  "simulates same_store (addr_remove_uo_hash (unwrapped_addr B) a h) (addr_remove_uo_hash B a h)"
  "simulates same_store (addr_clear (unwrapped_addr B)) (addr_clear B)"
  "simulates same_store (ch_set_code_hashes (unwrapped_codes C) h hs) (ch_set_code_hashes C h hs)"
  "simulates same_store (ch_remove_code_hashes (unwrapped_codes C) h) (ch_remove_code_hashes C h)"
  "simulates same_store (ch_clear (unwrapped_codes C)) (ch_clear C)"
  "simulates same_store (set_entry (metrics_entries D) ent) (set_entry D ent)"
  "simulates same_store (entries_clear (metrics_entries D)) (entries_clear D)"
  by (simp_all add: metered_acts metrics_add_def metrics_remove_by_uo_hash_def metrics_set_entry_def
      simulates_intros)

lemma metered_reads:
  assumes "same_store st s"
  shows "uo_get_by_uo_hash (metrics_user_operations A) h st = uo_get_by_uo_hash A h s"
    and "uo_get_sorted (metrics_user_operations A) st = uo_get_sorted A s"
    and "uo_get_all (metrics_user_operations A) st = uo_get_all A s"
    and "get_all_by_address (unwrapped_addr B) a st = get_all_by_address B a s"
    and "ch_has_code_hashes (unwrapped_codes C) h st = ch_has_code_hashes C h s"
    and "ch_get_code_hashes (unwrapped_codes C) h st = ch_get_code_hashes C h s"
    and "get_entry (metrics_entries D) a st = get_entry D a s"
    and "contains_entry (metrics_entries D) a st = contains_entry D a s"
    and "entries_get_all (metrics_entries D) st = entries_get_all D s"
  using assms by (simp_all add: metered_acts same_store_def)

text \<open>The operations of the mempool and of the entries.\<close>

lemma simulates_mempool [simulates_intros]:
  "simulates same_store (mempool_add (metered_mempool M) uo) (mempool_add M uo)"
  "simulates same_store (mempool_remove (metered_mempool M) h) (mempool_remove M h)"
  "simulates same_store (mempool_set_code_hashes (metered_mempool M) h hs) (mempool_set_code_hashes M h hs)"
  "simulates same_store (mempool_clear (metered_mempool M)) (mempool_clear M)"
proof -
  show "simulates same_store (mempool_add (metered_mempool M) uo) (mempool_add M uo)"
    unfolding mempool_add_def by (auto intro!: simulates_intros split: prod.splits)
  show "simulates same_store (mempool_remove (metered_mempool M) h) (mempool_remove M h)"
    unfolding mempool_remove_def
    by (auto intro!: simulates_intros metered_reads split: prod.splits option.splits)
  show "simulates same_store (mempool_set_code_hashes (metered_mempool M) h hs) (mempool_set_code_hashes M h hs)"
    unfolding mempool_set_code_hashes_def by (auto intro!: simulates_intros)
  show "simulates same_store (mempool_clear (metered_mempool M)) (mempool_clear M)"
    unfolding mempool_clear_def by (auto intro!: simulates_intros)
qed

lemma simulates_remove_by_entity [simulates_intros]:
  "simulates same_store (mempool_remove_by_entity (metered_mempool M) a) (mempool_remove_by_entity M a)"
proof (rule simulates_at)
  let ?F = "\<lambda>M s. for_each (\<lambda>h. bind_op (mempool_remove M h) (\<lambda>_. ret ()))
    (get_all_by_address (user_operations_by_entity M) a s)"
  fix st s
  assume "same_store st (s :: 'a)"
  then show "simulates same_store (?F (metered_mempool M) st) (?F M s)"
    by (simp add: metered_reads simulates_intros)
qed (simp_all add: mempool_remove_by_entity_def)

lemma metered_queries:
  assumes "same_store st s"
  shows "mempool_get (metered_mempool M) h st = mempool_get M h s"
    and "get_all_by_sender (metered_mempool M) a st = get_all_by_sender M a s"
    and "get_number_by_sender (metered_mempool M) a st = get_number_by_sender M a s"
    and "get_number_by_entity (metered_mempool M) a st = get_number_by_entity M a s"
    and "get_prev_by_sender (metered_mempool M) uo st = get_prev_by_sender M uo s"
    and "mempool_has_code_hashes (metered_mempool M) h st = mempool_has_code_hashes M h s"
    and "mempool_get_code_hashes (metered_mempool M) h st = mempool_get_code_hashes M h s"
    and "mempool_get_sorted (metered_mempool M) st = mempool_get_sorted M s"
    and "mempool_get_all (metered_mempool M) st = mempool_get_all M s"
  by (simp_all add: mempool_get_def get_all_by_sender_def lookup_all_def get_number_by_sender_def
      get_number_by_entity_def get_number_by_address_def get_prev_by_sender_def mempool_has_code_hashes_def
      mempool_get_code_hashes_def mempool_get_sorted_def mempool_get_all_def metered_reads [OF assms])

section \<open>The wrapped registry\<close>

definition same_registry :: "('r \<times> metric_call list) reputation \<Rightarrow> 'r reputation \<Rightarrow> bool" where
  "same_registry R' R =
     (min_inclusion_denominator R' = min_inclusion_denominator R \<and> throttling_slack R' = throttling_slack R \<and>
      ban_slack R' = ban_slack R \<and> rep_min_stake R' = rep_min_stake R \<and>
      rep_min_unstake_delay R' = rep_min_unstake_delay R \<and> whitelist R' = whitelist R \<and>
      blacklist R' = blacklist R \<and> same_store (entities R') (entities R))"

lemma same_registryD:
  assumes "same_registry R' R"
  shows "min_inclusion_denominator R' = min_inclusion_denominator R" "throttling_slack R' = throttling_slack R"
    "ban_slack R' = ban_slack R" "rep_min_stake R' = rep_min_stake R"
    "rep_min_unstake_delay R' = rep_min_unstake_delay R" "whitelist R' = whitelist R"
    "blacklist R' = blacklist R" "same_store (entities R') (entities R)"
  using assms by (simp_all add: same_registry_def)

lemma registry_queries:
  assumes "same_registry R' R"
  shows "get_status (metrics_entries A) a R' = get_status A a R"
    and "reputation_get (metrics_entries A) a R' = reputation_get A a R"
    and "get_status_from_bytes (metrics_entries A) bs R' = get_status_from_bytes A bs R"
    and "verify_stake R' = verify_stake R"
    and "outcome_config R' = outcome_config R"
    and "collect_status (metrics_entries A) R' ens = collect_status A R ens"
    and "reputation_get_all (metrics_entries A) R' = reputation_get_all A R"
proof -
  note d = same_registryD [OF assms]
  have e: "status_of_entry R' = status_of_entry R" by (rule ext) (unfold status_of_entry_def d, rule refl)
  show st: "get_status (metrics_entries A) a R' = get_status A a R" for a
    by (unfold get_status_def d e metered_reads [OF d(8)], rule refl)
  show "reputation_get (metrics_entries A) a R' = reputation_get A a R"
    by (unfold reputation_get_def st metered_reads [OF d(8)], rule refl)
  show "get_status_from_bytes (metrics_entries A) bs R' = get_status_from_bytes A bs R"
    by (unfold get_status_from_bytes_def st, rule refl)
  show "verify_stake R' = verify_stake R" by (intro ext) (unfold verify_stake_def d, rule refl)
  show "outcome_config R' = outcome_config R" by (intro ext) (unfold outcome_config_def d, rule refl)
  show c: "collect_status (metrics_entries A) R' ens = collect_status A R ens" for ens
    by (induction ens) (simp, unfold collect_status.simps st, simp only:)
  show "reputation_get_all (metrics_entries A) R' = reputation_get_all A R"
    by (simp add: reputation_get_all_def ext [OF c] metered_reads [OF d(8)])
qed

lemma simulates_on_entities [simulates_intros]:
  assumes "simulates same_store f g"
  shows "simulates same_registry (on_entities f) (on_entities g)"
proof (rule simulatesI)
  fix R' :: "('a \<times> metric_call list) reputation" and R
  assume R: "same_registry R' R"
  show "fst (on_entities f R') = fst (on_entities g R) \<and> same_registry (snd (on_entities f R')) (snd (on_entities g R))"
    using simulatesD [OF assms same_registryD(8) [OF R]] R
    by (simp add: on_entities_def same_registry_def case_prod_unfold)
qed

lemma simulates_modify_entry [simulates_intros]:
  "simulates same_store (modify_entry (metrics_entries A) f a) (modify_entry A f a)"
  unfolding modify_entry_def set_default_def
  by (auto intro!: simulates_intros metered_reads split: option.splits)

lemma simulates_entries_update [simulates_intros]:
  "simulates same_store (entries_update (metrics_entries A)) (entries_update A)"
  unfolding entries_update_def by (auto intro!: simulates_intros metered_reads)

lemma simulates_registry [simulates_intros]:
  "simulates same_registry (increment_seen (metrics_entries A) a) (increment_seen A a)"
  "simulates same_registry (increment_included (metrics_entries A) a) (increment_included A a)"
  "simulates same_registry (update_hourly (metrics_entries A)) (update_hourly A)"
  "simulates same_registry (set_entities (metrics_entries A) ents) (set_entities A ents)"
  "simulates same_registry (reputation_clear (metrics_entries A)) (reputation_clear A)"
  by (simp_all add: increment_seen_def increment_included_def update_hourly_def set_entities_def
      reputation_clear_def simulates_intros)

section \<open>Validation\<close>

lemma sanity_checks_metered:
  assumes st: "same_store st s" and R: "same_registry R' R"
  shows "sanity_checks V uo (metered_mempool M) st (metrics_entries A) R' H = sanity_checks V uo M s A R H"
  by (unfold sanity_checks_def check_sender_def check_entities_def check_entity_status_def entities_get_status_def
      check_throttled_def check_unstaked_entities_def check_unstaked_entity_def get_entity_def
      metered_queries [OF st] registry_queries [OF R], rule refl)

lemma trace_checks_metered:
  assumes st: "same_store st s" and R: "same_registry R' R"
  shows "trace_checks shw uo (metered_mempool M) st R' = trace_checks shw uo M s R"
proof -
  note q = metered_queries [OF st] registry_queries [OF R]
  have pay: "check_paymaster_return E R' = check_paymaster_return E R" for E
    by (intro ext) (unfold check_paymaster_return_def q, rule refl)
  have entry: "check_call_entry E R' = check_call_entry E R" for E
    by (intro ext) (unfold check_call_entry_def pay, rule refl)
  have "check_call_stack uo R' = check_call_stack uo R"
    by (intro ext) (unfold check_call_stack_def entry, rule refl)
  moreover have "check_code_hashes shw uo (metered_mempool M) st = check_code_hashes shw uo M s"
    by (intro ext) (unfold check_code_hashes_def q, rule refl)
  ultimately show ?thesis by (simp add: trace_checks_def)
qed

lemma validate_metered:
  assumes "same_store st s" "same_registry R' R"
  shows "validate_user_operation V uo (metered_mempool M) st (metrics_entries A) R' vc mode =
    validate_user_operation V uo M s A R vc mode"
  by (unfold validate_user_operation_def run_sanity_def run_trace_def sanity_checks_metered [OF assms]
      trace_checks_metered [OF assms] metered_queries [OF assms(1)] registry_queries [OF assms(2)], rule refl)

section \<open>The wrapped pool\<close>

definition same_pool ::
  "('s \<times> metric_call list, 'r \<times> metric_call list) uopool \<Rightarrow> ('s, 'r) uopool \<Rightarrow> bool" where
  "same_pool P' P =
     (up_id P' = up_id P \<and> up_mode P' = up_mode P \<and> up_entry_point P' = up_entry_point P \<and>
      up_validator P' = up_validator P \<and> up_mempool P' = metered_mempool (up_mempool P) \<and>
      same_store (up_tables P') (up_tables P) \<and> up_entries P' = metrics_entries (up_entries P) \<and>
      same_registry (up_reputation P') (up_reputation P) \<and>
      up_max_verification_gas P' = up_max_verification_gas P \<and> up_chain P' = up_chain P \<and>
      up_network P' = up_network P)"

lemma same_poolD:
  assumes "same_pool P' P"
  shows "up_entry_point P' = up_entry_point P" "up_validator P' = up_validator P"
    "up_mempool P' = metered_mempool (up_mempool P)" "same_store (up_tables P') (up_tables P)"
    "up_entries P' = metrics_entries (up_entries P)" "same_registry (up_reputation P') (up_reputation P)"
    "up_max_verification_gas P' = up_max_verification_gas P" "up_chain P' = up_chain P"
    "up_network P' = up_network P" "up_mode P' = up_mode P"
  using assms by (simp_all add: same_pool_def)

lemma simulates_on_mempool [simulates_intros]:
  assumes "simulates same_store f g"
  shows "simulates same_pool (on_mempool f) (on_mempool g)"
proof (rule simulatesI)
  fix P' P
  assume P: "same_pool P' (P :: ('a, 'd) uopool)"
  show "fst (on_mempool f P') = fst (on_mempool g P) \<and> same_pool (snd (on_mempool f P')) (snd (on_mempool g P))"
    using simulatesD [OF assms same_poolD(4) [OF P]] P by (simp add: on_mempool_def same_pool_def case_prod_unfold)
qed

lemma simulates_on_reputation [simulates_intros]:
  assumes "simulates same_registry f g"
  shows "simulates same_pool (on_reputation f) (on_reputation g)"
proof (rule simulatesI)
  fix P' P
  assume P: "same_pool P' (P :: ('d, 'a) uopool)"
  show "fst (on_reputation f P') = fst (on_reputation g P) \<and>
      same_pool (snd (on_reputation f P')) (snd (on_reputation g P))"
    using simulatesD [OF assms same_poolD(6) [OF P]] P by (simp add: on_reputation_def same_pool_def case_prod_unfold)
qed

lemma pool_queries:
  assumes "same_pool P' P"
  shows "pool_get_all P' = pool_get_all P" "pool_get_reputation P' = pool_get_reputation P"
    "get_sorted_user_operations P' = get_sorted_user_operations P"
    "pool_validate_user_operation uo vc P' = pool_validate_user_operation uo vc P"
    "pool_status bs P' = pool_status bs P" "estimate_user_operation_gas uo P' = estimate_user_operation_gas uo P"
    "get_user_operation_by_hash h P' = get_user_operation_by_hash h P"
    "get_user_operation_receipt h P' = get_user_operation_receipt h P"
    "pool_get_stake_info a P' = pool_get_stake_info a P"
proof -
  note d = same_poolD [OF assms]
  show "pool_get_all P' = pool_get_all P" by (simp add: pool_get_all_def d metered_queries [OF d(4)])
  show "pool_get_reputation P' = pool_get_reputation P"
    by (simp add: pool_get_reputation_def d registry_queries [OF d(6)])
  show "get_sorted_user_operations P' = get_sorted_user_operations P"
    by (simp add: get_sorted_user_operations_def d metered_queries [OF d(4)])
  show "pool_validate_user_operation uo vc P' = pool_validate_user_operation uo vc P"
    by (simp add: pool_validate_user_operation_def d validate_metered [OF d(4,6)])
  show "pool_status bs P' = pool_status bs P" by (simp add: pool_status_def d registry_queries [OF d(6)])
  show "estimate_user_operation_gas uo P' = estimate_user_operation_gas uo P"
    by (unfold estimate_user_operation_gas_def d, rule refl)
  have meta: "get_user_operation_event_meta h P' = get_user_operation_event_meta h P"
    by (unfold get_user_operation_event_meta_def d, rule refl)
  show by_hash: "get_user_operation_by_hash h P' = get_user_operation_by_hash h P"
    by (unfold get_user_operation_by_hash_def meta d, rule refl)
  show "get_user_operation_receipt h P' = get_user_operation_receipt h P"
    by (unfold get_user_operation_receipt_def meta by_hash d, rule refl)
  show "pool_get_stake_info a P' = pool_get_stake_info a P"
    by (unfold pool_get_stake_info_def d registry_queries [OF d(6)], rule refl)
qed

text \<open>An operation that reads the trait objects of the pool it runs on.\<close>

lemma simulates_at_pool:
  assumes "\<And>M A. simulates same_pool (F (metered_mempool M) (metrics_entries A)) (G M A)"
    and "\<And>P'. f P' = F (up_mempool P') (up_entries P') P'" "\<And>P. g P = G (up_mempool P) (up_entries P) P"
  shows "simulates same_pool f g"
  using assms by (simp add: simulates_def same_poolD)

lemma simulates_remove_user_operation [simulates_intros]:
  "simulates same_pool (remove_user_operation h) (remove_user_operation h)"
  by (rule simulates_at_pool [where F = "\<lambda>M A. ignore_err (on_mempool (mempool_remove M h))"
        and G = "\<lambda>M A. ignore_err (on_mempool (mempool_remove M h))"])
    (simp_all add: remove_user_operation_def simulates_intros)

lemma simulates_remove_by_entity_pool [simulates_intros]:
  "simulates same_pool (remove_user_operation_by_entity a) (remove_user_operation_by_entity a)"
  by (rule simulates_at_pool [where F = "\<lambda>M A. ignore_err (on_mempool (mempool_remove_by_entity M a))"
        and G = "\<lambda>M A. ignore_err (on_mempool (mempool_remove_by_entity M a))"])
    (simp_all add: remove_user_operation_by_entity_def simulates_intros)

lemma simulates_store_code_hashes [simulates_intros]:
  "simulates same_pool (store_code_hashes h hs) (store_code_hashes h hs)"
proof (cases hs)
  case None
  then show ?thesis by (simp add: store_code_hashes_def simulates_def)
next
  case (Some codes)
  show ?thesis
    by (rule simulates_at_pool [where F = "\<lambda>M A. ignore_err (on_mempool (mempool_set_code_hashes M h codes))"
          and G = "\<lambda>M A. ignore_err (on_mempool (mempool_set_code_hashes M h codes))"])
      (simp_all add: store_code_hashes_def Some simulates_intros)
qed

lemma simulates_seen [simulates_intros]: "simulates same_pool (seen h a) (seen h a)"
  by (rule simulates_at_pool
      [where F = "\<lambda>M A. map_err_op (\<lambda>e. \<lparr>me_hash = h, me_kind = kind_of_reputation e\<rparr>) (on_reputation (increment_seen A a))"
        and G = "\<lambda>M A. map_err_op (\<lambda>e. \<lparr>me_hash = h, me_kind = kind_of_reputation e\<rparr>) (on_reputation (increment_seen A a))"])
    (simp_all add: seen_def simulates_intros)

lemma simulates_included [simulates_intros]: "simulates same_pool (included a) (included a)"
  by (rule simulates_at_pool [where F = "\<lambda>M A. ignore_err (on_reputation (increment_included A a))"
        and G = "\<lambda>M A. ignore_err (on_reputation (increment_included A a))"])
    (simp_all add: included_def simulates_intros)

lemma simulates_publish [simulates_intros]: "simulates same_pool (publish uo res) (publish uo res)"
  by (auto simp: simulates_def publish_def same_pool_def split: option.splits)

lemma simulates_hourly [simulates_intros]:
  "simulates same_pool (\<lambda>P. ignore_err (on_reputation (update_hourly (up_entries P))) P)
     (\<lambda>P. ignore_err (on_reputation (update_hourly (up_entries P))) P)"
  by (rule simulates_at_pool [where F = "\<lambda>M A. ignore_err (on_reputation (update_hourly A))"
        and G = "\<lambda>M A. ignore_err (on_reputation (update_hourly A))"])
    (simp_all add: simulates_intros)

lemma simulates_set_reputation [simulates_intros]:
  "simulates same_pool (pool_set_reputation ens) (pool_set_reputation ens)"
  by (rule simulates_at_pool [where F = "\<lambda>M A. on_reputation (set_entities A ens)"
        and G = "\<lambda>M A. on_reputation (set_entities A ens)"])
    (simp_all add: pool_set_reputation_def simulates_intros)

lemma simulates_clear_mempool [simulates_intros]: "simulates same_pool pool_clear_mempool pool_clear_mempool"
  by (rule simulates_at_pool [where F = "\<lambda>M A. on_mempool (mempool_clear M)"
        and G = "\<lambda>M A. on_mempool (mempool_clear M)"])
    (simp_all add: pool_clear_mempool_def simulates_intros)

lemma simulates_clear_reputation [simulates_intros]:
  "simulates same_pool pool_clear_reputation pool_clear_reputation"
  by (rule simulates_at_pool [where F = "\<lambda>M A. on_reputation (reputation_clear A)"
        and G = "\<lambda>M A. on_reputation (reputation_clear A)"])
    (simp_all add: pool_clear_reputation_def simulates_intros)

lemma simulates_clear [simulates_intros]: "simulates same_pool pool_clear pool_clear"
  by (simp add: pool_clear_def simulates_intros)

lemma simulates_mempool_add [simulates_intros]:
  "simulates same_pool (\<lambda>P. on_mempool (mempool_add (up_mempool P) uo) P) (\<lambda>P. on_mempool (mempool_add (up_mempool P) uo) P)"
  by (rule simulates_at_pool [where F = "\<lambda>M A. on_mempool (mempool_add M uo)"
        and G = "\<lambda>M A. on_mempool (mempool_add M uo)"])
    (simp_all add: simulates_intros)

lemma simulates_add_user_operation [simulates_intros]:
  "simulates same_pool (add_user_operation uo res) (add_user_operation uo res)"
proof (cases res)
  case (Ok out)
  let ?F = "\<lambda>M. bind_op (when_some (prev_hash out) remove_user_operation) (\<lambda>_.
          bind_op (publish uo out) (\<lambda>_.
          bind_op (map_err_op (\<lambda>e. \<lparr>me_hash = hash uo, me_kind = e\<rparr>) (on_mempool (mempool_add M uo))) (\<lambda>uo_hash.
          bind_op (store_code_hashes uo_hash (vo_code_hashes out)) (\<lambda>_.
          bind_op (seen uo_hash (sender (user_operation uo))) (\<lambda>_.
          bind_op (when_some (get_address (init_code (user_operation uo))) (seen uo_hash)) (\<lambda>_.
          bind_op (when_some (get_address (paymaster_and_data (user_operation uo))) (seen uo_hash)) (\<lambda>_.
          ret uo_hash)))))))"
  show ?thesis
    by (rule simulates_at_pool [where F = "\<lambda>M A. ?F M" and G = "\<lambda>M A. ?F M"])
      (simp_all add: add_user_operation_def Ok simulates_intros)
next
  case (Err err)
  let ?f = "case err of InvSanity (SanReputation (BannedEntity ent a)) \<Rightarrow> remove_user_operation_by_entity a | _ \<Rightarrow> ret ()"
  have "simulates same_pool ?f ?f"
    by (auto intro!: simulates_intros split: invalid_mempool_user_operation_error.splits sanity_error.splits
        reputation_error.splits)
  then have "simulates same_pool (bind_op ?f (\<lambda>_. fail e)) (bind_op ?f (\<lambda>_. fail e))" for e
    by (auto intro!: simulates_intros)
  then show ?thesis by (simp add: add_user_operation_def Err simulates_def)
next
  case Panic
  then show ?thesis by (simp add: add_user_operation_def simulates_def)
qed

lemma simulates_add_user_operations [simulates_intros]:
  "simulates (same_pool :: _ \<Rightarrow> ('s, 'r) uopool \<Rightarrow> bool) (add_user_operations uos vc) (add_user_operations uos vc)"
proof (induction uos)
  case Nil
  then show ?case by (simp add: simulates_def)
next
  case (Cons uo uos)
  show ?case
  proof (rule simulates_at)
    fix P' P
    assume "same_pool P' (P :: ('s, 'r) uopool)"
    then show "simulates (same_pool :: _ \<Rightarrow> ('s, 'r) uopool \<Rightarrow> bool)
        (bind_op (add_user_operation uo (pool_validate_user_operation uo vc P')) (\<lambda>_. add_user_operations uos vc))
        (bind_op (add_user_operation uo (pool_validate_user_operation uo vc P)) (\<lambda>_. add_user_operations uos vc))"
      by (simp add: pool_queries Cons simulates_intros)
  qed simp_all
qed

lemma simulates_remove_user_operations [simulates_intros]:
  "simulates same_pool (remove_user_operations uos) (remove_user_operations uos)"
  by (simp add: remove_user_operations_def simulates_intros)

lemma simulates_block_update [simulates_intros]:
  "simulates same_pool (handle_block_update txs decode) (handle_block_update txs decode)"
proof (cases txs)
  case (Ok found)
  show ?thesis
  proof (cases found)
    case None
    then show ?thesis by (simp add: handle_block_update_def Ok simulates_def)
  next
    case (Some ts)
    let ?G = "\<lambda>E ch. for_each (\<lambda>tx. if tx_to tx = Some (ep_address E) then
              (case decode (tx_input tx) of
                 Some (uos, _) \<Rightarrow> remove_user_operations (map (\<lambda>uo. from_user_operation_signed
                     (user_operation_hash (eth_abi E) uo (ep_address E) ch) uo) uos)
               | None \<Rightarrow> ret ())
            else ret ()) ts"
    show ?thesis
    proof (rule simulates_at)
      fix P' P
      assume "same_pool P' (P :: ('a, 'b) uopool)"
      then show "simulates same_pool (?G (up_entry_point P') (up_chain P')) (?G (up_entry_point P) (up_chain P))"
        by (auto simp: same_poolD intro!: simulates_intros split: option.splits)
    qed (simp_all add: handle_block_update_def Ok Some)
  qed
qed (simp_all add: handle_block_update_def simulates_def)

section \<open>Bundling on the wrapped pool\<close>

lemma simulates_drop_op [simulates_intros]: "simulates same_pool (drop_op ctx h acc) (drop_op ctx h acc)"
  by (rule simulates_at_pool
      [where F = "\<lambda>M A. bind_op (map_err_op ctx (on_mempool (mempool_remove M h))) (\<lambda>_. ret (Continue, acc))"
        and G = "\<lambda>M A. bind_op (map_err_op ctx (on_mempool (mempool_remove M h))) (\<lambda>_. ret (Continue, acc))"])
    (simp_all add: drop_op_def simulates_intros)

lemma simulates_second_validation [simulates_intros]:
  "simulates same_pool
     (\<lambda>P. case validate_user_operation (up_validator P) uo (up_mempool P) (up_tables P) (up_entries P)
                   (up_reputation P) None {Simulation, SimulationTrace} of
              Ok val_out \<Rightarrow> (include_op (up_entry_point P) (up_max_verification_gas P) all uo val_out acc, P)
            | Err _ \<Rightarrow> drop_op ctx h acc P
            | Panic \<Rightarrow> (Panic, P))
     (\<lambda>P. case validate_user_operation (up_validator P) uo (up_mempool P) (up_tables P) (up_entries P)
                   (up_reputation P) None {Simulation, SimulationTrace} of
              Ok val_out \<Rightarrow> (include_op (up_entry_point P) (up_max_verification_gas P) all uo val_out acc, P)
            | Err _ \<Rightarrow> drop_op ctx h acc P
            | Panic \<Rightarrow> (Panic, P))"
  (is "simulates same_pool ?f ?g")
proof (rule simulatesI)
  fix P' P
  assume P: "same_pool P' (P :: ('a, 'b) uopool)"
  note d = same_poolD [OF P]
  show "fst (?f P') = fst (?g P) \<and> same_pool (snd (?f P')) (snd (?g P))"
    using simulatesD [OF simulates_drop_op P] P
    by (simp add: d validate_metered [OF d(4,6)] split: outcome.splits)
qed

lemma simulates_bundle_step [simulates_intros]:
  "simulates same_pool (bundle_step all uo acc) (bundle_step all uo acc)"
proof (cases "sender (user_operation uo) \<in> set (ba_senders acc)")
  case True
  then show ?thesis by (simp add: bundle_step_def simulates_def ret_def)
next
  case False
  show ?thesis
    unfolding bundle_step_def if_not_P [OF False] Let_def
    by (auto intro!: simulates_intros pool_queries)
qed

lemma simulates_bundle_loop [simulates_intros]:
  "simulates same_pool (bundle_loop all uos acc) (bundle_loop all uos acc)"
  by (induction uos arbitrary: acc) (auto intro!: simulates_intros)

lemma simulates_bundle [simulates_intros]:
  "simulates same_pool (bundle_user_operations uos) (bundle_user_operations uos)"
  by (simp add: bundle_user_operations_def simulates_intros)

section \<open>The service over wrapped stores\<close>

definition same_service ::
  "('s \<times> metric_call list, 'r \<times> metric_call list) uopool_service \<Rightarrow> ('s, 'r) uopool_service \<Rightarrow> bool" where
  "same_service S' S =
     (sv_uopools S' = sv_uopools S \<and> sv_chain S' = sv_chain S \<and> sv_abi S' = sv_abi S \<and> sv_text S' = sv_text S \<and>
      sv_mempool S' = metered_mempool (sv_mempool S) \<and> same_store (sv_tables S') (sv_tables S) \<and>
      sv_entries S' = metrics_entries (sv_entries S) \<and> same_registry (sv_reputation S') (sv_reputation S))"

lemma same_serviceD:
  assumes "same_service S' S"
  shows "sv_uopools S' = sv_uopools S" "sv_chain S' = sv_chain S" "sv_abi S' = sv_abi S" "sv_text S' = sv_text S"
    and "same_pool (builder_uopool S' b) (builder_uopool S b)"
  using assms by (simp_all add: same_service_def builder_uopool_def same_pool_def)

lemma same_service_write_back:
  "same_service S' S \<Longrightarrow> same_pool P' P \<Longrightarrow> same_service (write_back i P' S') (write_back i P S)"
  by (simp add: same_service_def same_pool_def write_back_def split: option.split)

lemma get_uopool_metered:
  assumes "same_service S' S"
  shows "(\<exists>m b. get_uopool S' ep = Ok (m, builder_uopool S' b) \<and> get_uopool S ep = Ok (m, builder_uopool S b)) \<or>
    (\<exists>e. get_uopool S' ep = Err e \<and> get_uopool S ep = Err e)"
  using same_serviceD [OF assms]
  by (cases "hm_get (sv_uopools S) (mempool_id (sv_abi S) ep (sv_chain S))") (auto simp: get_uopool_def)

lemma via_uopool:
  assumes "same_service S' S" "\<And>m P' P. same_pool P' P \<Longrightarrow> k' (m, P') = k (m, P)"
  shows "bind_ok (get_uopool S' ep) k' = bind_ok (get_uopool S ep) k"
  using get_uopool_metered [OF assms(1), of ep] assms(2) [OF same_serviceD(5) [OF assms(1)]] by auto

lemma simulates_with_uopool [simulates_intros]:
  assumes "simulates same_pool f g"
  shows "simulates same_service (with_uopool ep f) (with_uopool ep g)"
proof (rule simulatesI)
  fix S' S
  assume S: "same_service S' (S :: ('a, 'b) uopool_service)"
  show "fst (with_uopool ep f S') = fst (with_uopool ep g S) \<and>
      same_service (snd (with_uopool ep f S')) (snd (with_uopool ep g S))"
    using get_uopool_metered [OF S, of ep] simulatesD [OF assms same_serviceD(5) [OF S]]
      same_service_write_back [OF S] S
    by (auto simp: with_uopool_def case_prod_unfold)
qed

lemma simulates_on_builder [simulates_intros]:
  assumes "simulates same_pool f g"
  shows "simulates same_service (on_builder i f) (on_builder i g)"
proof (rule simulatesI)
  fix S' S
  assume S: "same_service S' (S :: ('a, 'b) uopool_service)"
  show "fst (on_builder i f S') = fst (on_builder i g S) \<and>
      same_service (snd (on_builder i f S')) (snd (on_builder i g S))"
    using simulatesD [OF assms same_serviceD(5) [OF S]] same_service_write_back [OF S] S same_serviceD(1) [OF S]
    by (auto simp: on_builder_def case_prod_unfold split: option.splits)
qed

text \<open>The requests a service serves, and its answers.\<close>

datatype service_call =
    CallAdd add_request
  | CallAddMempool "pb_user_operation list" "pb_h160 option"
  | CallP2p h256 user_operation validation_config
  | CallRemove "pb_user_operation list" "pb_h160 option"
  | CallGetSorted "pb_h160 option"
  | CallBlockUpdate h256 "(string, transaction list option) outcome" "bytes \<Rightarrow> (user_operation_signed list \<times> address) option"
  | CallHourlyUpdate h256
  | CallClearMempool
  | CallClearReputation
  | CallClear
  | CallGetAllReputation "pb_h160 option"
  | CallSetReputation "pb_reputation_entry list" "pb_h160 option"
  | CallGetChainId
  | CallGetSupportedEntryPoints
  | CallEstimateGas add_request
  | CallGetByHash "pb_h256 option"
  | CallGetReceipt "pb_h256 option"
  | CallGetAll "pb_h160 option"
  | CallGetStakeInfo "pb_h160 option" "pb_h160 option"

datatype service_answer =
    AnswerAdd "(tonic_status, add_result \<times> string) outcome"
  | AnswerAddMempool "(tonic_status, add_mempool_result) outcome"
  | AnswerUnit "(tonic_status, unit) outcome"
  | AnswerSorted "(tonic_status, get_sorted_response) outcome"
  | AnswerReputation "(tonic_status, pb_reputation_entry list) outcome"
  | AnswerSetReputation "(tonic_status, set_reputation_result) outcome"
  | AnswerChainId u64
  | AnswerEntryPoints "pb_h160 list"
  | AnswerEstimate "(tonic_status, estimate_result \<times> string) outcome option"
  | AnswerByHash "(tonic_status, by_hash_response) outcome"
  | AnswerReceipt "(tonic_status, receipt_response) outcome"
  | AnswerOperations "(tonic_status, pb_user_operation list) outcome"
  | AnswerStakeInfo "(tonic_status, pb_stake_info \<times> bool) outcome"

definition serve :: "service_call \<Rightarrow> ('s, 'r) uopool_service \<Rightarrow> service_answer \<times> ('s, 'r) uopool_service" where
  "serve c S =
     (case c of
        CallAdd req \<Rightarrow> apfst AnswerAdd (service_add req S)
      | CallAddMempool uos ep \<Rightarrow> apfst AnswerAddMempool (service_add_mempool uos ep S)
      | CallP2p i uo vc \<Rightarrow> apfst AnswerUnit (p2p_validate i uo vc S)
      | CallRemove uos ep \<Rightarrow> apfst AnswerUnit (service_remove uos ep S)
      | CallGetSorted ep \<Rightarrow> apfst AnswerSorted (service_get_sorted ep S)
      | CallBlockUpdate i txs decode \<Rightarrow> apfst AnswerUnit (service_block_update i txs decode S)
      | CallHourlyUpdate i \<Rightarrow> apfst AnswerUnit (service_hourly_update i S)
      | CallClearMempool \<Rightarrow> apfst AnswerUnit (service_clear_mempool S)
      | CallClearReputation \<Rightarrow> apfst AnswerUnit (service_clear_reputation S)
      | CallClear \<Rightarrow> apfst AnswerUnit (service_clear S)
      | CallGetAllReputation ep \<Rightarrow> (AnswerReputation (service_get_all_reputation ep S), S)
      | CallSetReputation ens ep \<Rightarrow> apfst AnswerSetReputation (service_set_reputation ens ep S)
      | CallGetChainId \<Rightarrow> (AnswerChainId (service_get_chain_id S), S)
      | CallGetSupportedEntryPoints \<Rightarrow> (AnswerEntryPoints (service_get_supported_entry_points S), S)
      | CallEstimateGas req \<Rightarrow> (AnswerEstimate (service_estimate_user_operation_gas req S), S)
      | CallGetByHash h \<Rightarrow> (AnswerByHash (service_get_user_operation_by_hash h S), S)
      | CallGetReceipt h \<Rightarrow> (AnswerReceipt (service_get_user_operation_receipt h S), S)
      | CallGetAll ep \<Rightarrow> (AnswerOperations (service_get_all ep S), S)
      | CallGetStakeInfo ep a \<Rightarrow> (AnswerStakeInfo (service_get_stake_info ep a S), S))"

fun serve_all :: "service_call list \<Rightarrow> ('s, 'r) uopool_service \<Rightarrow> service_answer list \<times> ('s, 'r) uopool_service" where
  "serve_all [] S = ([], S)"
| "serve_all (c # cs) S =
     (case serve c S of (a, S) \<Rightarrow> case serve_all cs S of (as, S) \<Rightarrow> (a # as, S))"

lemma simulates_service_add [simulates_intros]:
  "simulates same_service (service_add req) (service_add req)"
proof (rule simulatesI)
  fix S' S
  assume S: "same_service S' (S :: ('a, 'b) uopool_service)"
  let ?add = "\<lambda>uo res T P. case add_user_operation uo res P of (r, P') \<Rightarrow> (add_response T r, P')"
  have "simulates same_pool (?add uo res T) (?add uo res T)" for uo res T
    by (intro simulates_intros)
  then have "simulates same_service (with_uopool ep (?add uo res T)) (with_uopool ep (?add uo res T))" for uo ep res T
    by (rule simulates_with_uopool)
  from simulatesD [OF this S]
  have fin: "fst (add_finish uo ep res S') = fst (add_finish uo ep res S) \<and>
      same_service (snd (add_finish uo ep res S')) (snd (add_finish uo ep res S))" for uo ep res
    by (simp add: add_finish_def same_serviceD(4) [OF S])
  have "add_validate req S' = add_validate req S"
    unfolding add_validate_def
    by (auto intro!: bind_ok_cong via_uopool [OF S] simp: pool_queries)
  then show "fst (service_add req S') = fst (service_add req S) \<and>
      same_service (snd (service_add req S')) (snd (service_add req S))"
    using fin S by (auto simp: service_add_def split: outcome.splits)
qed

lemma simulates_services [simulates_intros]:
  "simulates same_service (service_add_mempool uos ep) (service_add_mempool uos ep)"
  "simulates same_service (p2p_validate i uo vc) (p2p_validate i uo vc)"
  "simulates same_service (service_remove uos ep) (service_remove uos ep)"
  "simulates same_service (service_block_update i txs decode) (service_block_update i txs decode)"
  "simulates same_service (service_hourly_update i) (service_hourly_update i)"
  "simulates same_service (service_set_reputation ens ep) (service_set_reputation ens ep)"
proof -
  show "simulates same_service (service_add_mempool uos ep) (service_add_mempool uos ep)"
    unfolding service_add_mempool_def by (intro simulates_intros refl)
  have validate: "simulates same_pool (\<lambda>P. add_user_operation uo (pool_validate_user_operation uo (Some vc) P) P)
      (\<lambda>P. add_user_operation uo (pool_validate_user_operation uo (Some vc) P) P)"
    by (rule simulates_at [where F = "\<lambda>P. add_user_operation uo (pool_validate_user_operation uo (Some vc) P)"
          and G = "\<lambda>P. add_user_operation uo (pool_validate_user_operation uo (Some vc) P)"])
      (simp_all add: pool_queries simulates_intros)
  show "simulates same_service (p2p_validate i uo vc) (p2p_validate i uo vc)"
    unfolding p2p_validate_def by (intro simulates_intros validate)
  show "simulates same_service (service_remove uos ep) (service_remove uos ep)"
    unfolding service_remove_def by (intro simulates_intros refl)
  show "simulates same_service (service_block_update i txs decode) (service_block_update i txs decode)"
    unfolding service_block_update_def by (intro simulates_intros)
  show "simulates same_service (service_hourly_update i) (service_hourly_update i)"
    unfolding service_hourly_update_def by (intro simulates_intros)
  show "simulates same_service (service_set_reputation ens ep) (service_set_reputation ens ep)"
    unfolding service_set_reputation_def by (intro simulates_intros refl)
qed

text \<open>The requests that read the tables of pools of the service first.\<close>

lemma simulates_service_clears [simulates_intros]:
  "simulates same_service service_clear_mempool service_clear_mempool"
  "simulates same_service service_clear_reputation service_clear_reputation"
  "simulates same_service service_clear service_clear"
  by (rule simulates_at [where F = "\<lambda>S. for_each (\<lambda>i. on_builder i (ignore_err pool_clear_mempool)) (hm_keys (sv_uopools S))"
        and G = "\<lambda>S. for_each (\<lambda>i. on_builder i (ignore_err pool_clear_mempool)) (hm_keys (sv_uopools S))"],
      simp_all add: service_clear_mempool_def same_serviceD simulates_intros)
    (rule simulates_at [where F = "\<lambda>S. for_each (\<lambda>i. on_builder i (ignore_err pool_clear_reputation)) (hm_keys (sv_uopools S))"
        and G = "\<lambda>S. for_each (\<lambda>i. on_builder i (ignore_err pool_clear_reputation)) (hm_keys (sv_uopools S))"],
      simp_all add: service_clear_reputation_def same_serviceD simulates_intros,
     rule simulates_at [where F = "\<lambda>S. for_each (\<lambda>i. on_builder i (ignore_err pool_clear)) (hm_keys (sv_uopools S))"
        and G = "\<lambda>S. for_each (\<lambda>i. on_builder i (ignore_err pool_clear)) (hm_keys (sv_uopools S))"],
      simp_all add: service_clear_def same_serviceD simulates_intros)

lemma simulates_get_sorted [simulates_intros]:
  "simulates same_service (service_get_sorted ep) (service_get_sorted ep)"
proof (rule simulates_at)
  let ?F = "\<lambda>T. bind_op (query (\<lambda>_. parse_addr ep)) (\<lambda>ep.
     bind_op (with_uopool ep (map_err_op
         (\<lambda>e. status_internal (''Get sorted uos internal error: '' @ debug_report T e))
         (query get_sorted_user_operations))) (\<lambda>uos.
     bind_op (with_uopool ep (map_err_op
         (\<lambda>e. status_internal (''Bundle uos internal error: '' @ show_report T e))
         (bundle_user_operations uos))) (\<lambda>(uos_valid, sm).
     ret \<lparr>gs_uos = map pb_of_user_operation uos_valid,
          gs_storage_map = Some (pb_of_storage_map (st_codec T) sm)\<rparr>)))"
  fix S' S
  assume "same_service S' (S :: ('a, 'b) uopool_service)"
  then show "simulates same_service (?F (sv_text S')) (?F (sv_text S))"
    by (auto simp: same_serviceD pool_queries intro!: simulates_intros)
qed (simp_all add: service_get_sorted_def)

lemma service_queries:
  assumes S: "same_service S' S"
  shows "service_get_all_reputation ep S' = service_get_all_reputation ep S"
    and "service_get_chain_id S' = service_get_chain_id S"
    and "service_get_supported_entry_points S' = service_get_supported_entry_points S"
    and "service_estimate_user_operation_gas req S' = service_estimate_user_operation_gas req S"
    and "service_get_user_operation_by_hash h S' = service_get_user_operation_by_hash h S"
    and "service_get_user_operation_receipt h S' = service_get_user_operation_receipt h S"
    and "service_get_all ep S' = service_get_all ep S"
    and "service_get_stake_info ep a S' = service_get_stake_info ep a S"
proof -
  note d = same_serviceD [OF S]
  note q = pool_queries [OF d(5)]
  show "service_get_all_reputation ep S' = service_get_all_reputation ep S"
    unfolding service_get_all_reputation_def by (auto intro!: bind_ok_cong via_uopool [OF S] simp: pool_queries)
  show "service_get_chain_id S' = service_get_chain_id S" by (simp add: service_get_chain_id_def d)
  show "service_get_supported_entry_points S' = service_get_supported_entry_points S"
    by (simp add: service_get_supported_entry_points_def d builder_uopool_def)
  show "service_estimate_user_operation_gas req S' = service_estimate_user_operation_gas req S"
  proof (cases "parse_uo (ar_uo req)"; cases "parse_addr (ar_ep req)")
    fix uo ep
    assume "parse_uo (ar_uo req) = Ok uo" "parse_addr (ar_ep req) = Ok ep"
    then show ?thesis
      using get_uopool_metered [OF S, of ep] q by (auto simp: service_estimate_user_operation_gas_def d)
  qed (simp_all add: service_estimate_user_operation_gas_def)
  show "service_get_user_operation_by_hash h S' = service_get_user_operation_by_hash h S"
    by (simp add: service_get_user_operation_by_hash_def d q)
  show "service_get_user_operation_receipt h S' = service_get_user_operation_receipt h S"
    by (simp add: service_get_user_operation_receipt_def d q)
  show "service_get_all ep S' = service_get_all ep S"
    unfolding service_get_all_def by (auto intro!: bind_ok_cong via_uopool [OF S] simp: pool_queries d)
  show "service_get_stake_info ep a S' = service_get_stake_info ep a S"
    unfolding service_get_stake_info_def by (auto intro!: bind_ok_cong via_uopool [OF S] simp: pool_queries d)
qed

lemmas simulates_served =
  simulates_service_add simulates_services simulates_service_clears simulates_get_sorted

lemma serve_metered:
  assumes "same_service S' S"
  shows "fst (serve c S') = fst (serve c S) \<and> same_service (snd (serve c S')) (snd (serve c S))"
  using assms
  by (cases c)
    (simp_all add: serve_def service_queries [OF assms] simulates_served [THEN simulatesD(1), OF assms]
      simulates_served [THEN simulatesD(2), OF assms])

lemma serve_all_metered:
  "same_service S' S \<Longrightarrow> fst (serve_all cs S') = fst (serve_all cs S) \<and>
     same_service (snd (serve_all cs S')) (snd (serve_all cs S))"
proof (induction cs arbitrary: S' S)
  case (Cons c cs)
  then show ?case using serve_metered [OF Cons.prems, of c] Cons.IH by (simp add: case_prod_unfold)
qed simp

definition wrap_registry :: "'r reputation \<Rightarrow> ('r \<times> metric_call list) reputation" where
  "wrap_registry R = \<lparr>
     min_inclusion_denominator = min_inclusion_denominator R, throttling_slack = throttling_slack R,
     ban_slack = ban_slack R, rep_min_stake = rep_min_stake R, rep_min_unstake_delay = rep_min_unstake_delay R,
     whitelist = whitelist R, blacklist = blacklist R, entities = (entities R, [])\<rparr>"

text \<open>C20: The metrics are transparent. A user operation pool service whose stores are wrapped by the metrics
  handler, as they always are when the node is launched, gives to every sequence of requests exactly the
  answers of the same service over the bare stores, errors included, and leaves the same tables; this holds
  for every implementation of the stores.\<close>

theorem metrics_transparent:
  fixes M :: "'s mempool" and E :: "'r reputation_entry_op"
  shows "fst (serve_all cs (uopool_service_run mode eps connect streams chain max_gas A T (metered_mempool M)
      (tables, []) (metrics_entries E) (wrap_registry rep) V p2p)) =
    fst (serve_all cs (uopool_service_run mode eps connect streams chain max_gas A T M tables E rep V p2p)) \<and>
    fst (sv_tables (snd (serve_all cs (uopool_service_run mode eps connect streams chain max_gas A T
      (metered_mempool M) (tables, []) (metrics_entries E) (wrap_registry rep) V p2p)))) =
    sv_tables (snd (serve_all cs (uopool_service_run mode eps connect streams chain max_gas A T M tables E rep V p2p)))"
proof -
  have "same_service (uopool_service_run mode eps connect streams chain max_gas A T (metered_mempool M)
      (tables, []) (metrics_entries E) (wrap_registry rep) V p2p)
    (uopool_service_run mode eps connect streams chain max_gas A T M tables E rep V p2p)"
    by (simp add: uopool_service_run_def same_service_def same_store_def same_registry_def wrap_registry_def)
  from serve_all_metered [OF this, of cs] show ?thesis by (simp add: same_service_def same_store_def)
qed

section \<open>The size gauge\<close>

text \<open>The value of an unlabelled gauge after some calls, as an exact number.\<close>

definition gauge_step :: "string \<Rightarrow> metric_call \<Rightarrow> int \<Rightarrow> int" where
  "gauge_step name c v =
     (case c of
        GaugeIncrement n \<Rightarrow> if n = name then v + 1 else v
      | GaugeDecrement n \<Rightarrow> if n = name then v - 1 else v
      | GaugeSet n ls x \<Rightarrow> if n = name \<and> ls = [] then uint x else v
      | _ \<Rightarrow> v)"

definition gauge_value :: "string \<Rightarrow> metric_call list \<Rightarrow> int" where
  "gauge_value name cs = fold (gauge_step name) cs 0"

definition size_drift :: "memory_tables \<times> metric_call list \<Rightarrow> int" where
  "size_drift st = gauge_value MEMPOOL_SIZE (snd st) - int (length (mt_user_operations (fst st)))"

lemma gauge_value_snoc: "gauge_value name (cs @ [c]) = gauge_step name c (gauge_value name cs)"
  by (simp add: gauge_value_def)

text \<open>What the operations of the wrapped in-memory pool do to the operations and to the calls.\<close>

lemmas memory_eval = memory_mempool_def memory_user_operations_def memory_addr_act_def memory_code_hashes_def
  metered_acts metrics_add_def metrics_remove_by_uo_hash_def silent_def recording_def locked_def bind_op_def
  ret_def when_some_def

lemma metered_add_effect:
  "mt_user_operations (fst (snd (mempool_add (metered_mempool memory_mempool) uo (s, cs)))) =
     hm_insert (hash uo) (user_operation uo) (mt_user_operations s) \<and>
   snd (snd (mempool_add (metered_mempool memory_mempool) uo (s, cs))) = cs @ [GaugeIncrement MEMPOOL_SIZE]"
  by (simp add: mempool_add_def get_entities_def memory_eval hash_map_add_def hash_map_add_uo_hash_def
      split: option.split)

lemma metered_remove_effect:
  "mt_user_operations (fst (snd (mempool_remove (metered_mempool memory_mempool) h (s, cs)))) =
     (if mem_ops s h = None then mt_user_operations s else hm_remove h (mt_user_operations s)) \<and>
   snd (snd (mempool_remove (metered_mempool memory_mempool) h (s, cs))) =
     (if mem_ops s h = None then cs else cs @ [GaugeDecrement MEMPOOL_SIZE])"
  by (auto simp: mempool_remove_def get_entities_def memory_eval query_def hash_map_get_by_uo_hash_def
      hash_map_remove_by_uo_hash_def hash_map_remove_uo_hash_def hash_map_remove_code_hashes_def mem_ops_def
      Let_def from_user_operation_signed_def split: option.split)

lemma metered_clear_effect:
  "mt_user_operations (fst (snd (mempool_clear (metered_mempool memory_mempool) (s, cs)))) = [] \<and>
   snd (snd (mempool_clear (metered_mempool memory_mempool) (s, cs))) = cs"
  by (simp add: mempool_clear_def memory_eval hash_map_clear_def)

text \<open>The gauge that reports the size of the mempool follows it only as long as the mempool is not
  cleared. For the in-memory pool, removing keeps the difference between the gauge and the number of stored
  operations and so does adding an operation that is not there yet; adding one that is already there counts it
  again, and clearing the pool leaves the gauge where it was, so that from then on it is too high by the number
  of operations that were dropped.\<close>

theorem mempool_size_gauge_drifts:
  assumes "mem_ok (fst st)"
  shows "size_drift (snd (mempool_add (metered_mempool memory_mempool) uo st)) =
      size_drift st + (if mem_ops (fst st) (hash uo) = None then 0 else 1) \<and>
    size_drift (snd (mempool_remove (metered_mempool memory_mempool) h st)) = size_drift st \<and>
    size_drift (snd (mempool_clear (metered_mempool memory_mempool) st)) =
      size_drift st + int (length (mt_user_operations (fst st)))"
proof -
  obtain s cs where st: "st = (s, cs)" by fastforce
  have wf: "hm_wf (mt_user_operations s)" using assms by (simp add: st mem_ok_def)
  show ?thesis
    using metered_add_effect [of uo s cs] metered_remove_effect [of h s cs] metered_clear_effect [of s cs]
      length_hm_remove [OF wf, of h]
    by (auto simp: st size_drift_def gauge_value_snoc gauge_step_def length_hm_insert mem_ops_def)
qed

definition metrics_op :: user_operation where
  "metrics_op = \<lparr>hash = 42, user_operation = sample_signed\<rparr>"

definition one_op :: memory_tables where
  "one_op = empty_tables\<lparr>mt_user_operations := [(hash metrics_op, user_operation metrics_op)]\<rparr>"

theorem mempool_size_gauge_drifts_witness:
  "mem_ok (fst (one_op, [GaugeIncrement MEMPOOL_SIZE])) \<and> size_drift (one_op, [GaugeIncrement MEMPOOL_SIZE]) = 0 \<and>
   size_drift (snd (mempool_remove (metered_mempool memory_mempool) (hash metrics_op)
     (one_op, [GaugeIncrement MEMPOOL_SIZE]))) = 0 \<and>
   size_drift (snd (mempool_clear (metered_mempool memory_mempool) (one_op, [GaugeIncrement MEMPOOL_SIZE]))) = 1"
proof -
  have ok: "mem_ok (fst (one_op, [GaugeIncrement MEMPOOL_SIZE]))"
    by (simp add: one_op_def empty_tables_def mem_ok_def idx_ok_def hm_wf_def)
  have zero: "size_drift (one_op, [GaugeIncrement MEMPOOL_SIZE]) = 0"
    by (simp add: size_drift_def gauge_value_def gauge_step_def one_op_def empty_tables_def)
  have "length (mt_user_operations (fst (one_op, [GaugeIncrement MEMPOOL_SIZE]))) = 1"
    by (simp add: one_op_def empty_tables_def)
  then show ?thesis using mempool_size_gauge_drifts [OF ok, of metrics_op "hash metrics_op"] ok zero by simp
qed

section \<open>The wrappers around services and around the Ethereum client\<close>

definition GRPC_REQUEST :: string where "GRPC_REQUEST = ''silius_grpc_request''"
definition GRPC_REQUEST_SUCCESS :: string where "GRPC_REQUEST_SUCCESS = ''silius_grpc_request_success''"
definition GRPC_REQUEST_FAILED :: string where "GRPC_REQUEST_FAILED = ''silius_grpc_request_failed''"

definition grpc_metrics_call :: "string \<Rightarrow> ('s, 'e, 'a) op \<Rightarrow> ('s \<times> metric_call list, 'e, 'a) op" where
  "grpc_metrics_call path inner =
     recording (\<lambda>r. CounterIncrement GRPC_REQUEST [PathLabel path] #
       (case r of
          Ok _ \<Rightarrow> [CounterIncrement GRPC_REQUEST_SUCCESS [PathLabel path]]
        | Err _ \<Rightarrow> [CounterIncrement GRPC_REQUEST_FAILED [PathLabel path]]
        | Panic \<Rightarrow> [])) inner"

definition describe_grpc_metrics :: "metric_call list" where
  "describe_grpc_metrics =
     [CounterAbsolute GRPC_REQUEST 0, CounterAbsolute GRPC_REQUEST_SUCCESS 0, CounterAbsolute GRPC_REQUEST_FAILED 0]"

text \<open>A JSON-RPC response is a future: the request is counted when it is made, the result by the poll that
  finds it ready.\<close>

definition RPC_REQUEST :: string where "RPC_REQUEST = ''silius_rpc_request''"
definition RPC_REQUEST_SUCCESS :: string where "RPC_REQUEST_SUCCESS = ''silius_rpc_request_success''"
definition RPC_REQUEST_FAILED :: string where "RPC_REQUEST_FAILED = ''silius_rpc_request_failed''"

datatype method_response_result = MethodSuccess | MethodFailed int

record method_response =
  mr_result :: method_response_result
  mr_is_subscription :: bool

datatype 'a poll = Pending | Ready 'a

definition rpc_metrics_call :: "string \<Rightarrow> metric_call list" where
  "rpc_metrics_call method = [CounterIncrement RPC_REQUEST [MethodLabel method]]"

definition rpc_metrics_poll :: "string \<Rightarrow> method_response poll \<Rightarrow> method_response poll \<times> metric_call list" where
  "rpc_metrics_poll method res =
     (res, case res of
        Ready rp \<Rightarrow>
          (case mr_result rp of
             MethodSuccess \<Rightarrow>
               [CounterIncrement RPC_REQUEST_SUCCESS [MethodLabel method, IsSubscriptionLabel (mr_is_subscription rp)]]
           | MethodFailed code \<Rightarrow>
               [CounterIncrement RPC_REQUEST_FAILED
                  [MethodLabel method, CodeLabel code, IsSubscriptionLabel (mr_is_subscription rp)]])
      | Pending \<Rightarrow> [])"

definition describe_json_rpc_metrics :: "metric_call list" where
  "describe_json_rpc_metrics =
     [CounterAbsolute RPC_REQUEST 0, CounterAbsolute RPC_REQUEST_SUCCESS 0, CounterAbsolute RPC_REQUEST_FAILED 0]"

text \<open>The client: every method has its own counters.\<close>

datatype middleware_method =
    M_client_version | M_get_block_number | M_send_transaction | M_get_block | M_get_block_with_txs
  | M_get_transaction_count | M_estimate_gas | M_call | M_get_chainid | M_get_balance | M_get_transaction
  | M_get_transaction_receipt | M_get_block_receipts | M_get_gas_price | M_estimate_eip1559_fees
  | M_get_accounts | M_send_raw_transaction | M_sign | M_sign_transaction | M_get_logs
  | M_get_logs_paginated | M_watch | M_watch_pending_transactions | M_watch_blocks | M_get_code
  | M_get_storage_at | M_debug_trace_transaction | M_debug_trace_call | M_debug_trace_block_by_number
  | M_debug_trace_block_by_hash | M_subscribe_blocks | M_subscribe_pending_txs
  | M_subscribe_full_pending_txs | M_subscribe_logs | M_fee_history | M_create_access_list

fun ethers_counter :: "middleware_method \<Rightarrow> string" where
  "ethers_counter M_client_version = ''silius_ethers_client_version''"
| "ethers_counter M_get_block_number = ''silius_ethers_get_block_number''"
| "ethers_counter M_send_transaction = ''silius_ethers_send_transaction''"
| "ethers_counter M_get_block = ''silius_ethers_get_block''"
| "ethers_counter M_get_block_with_txs = ''silius_ethers_get_block_with_txs''"
| "ethers_counter M_get_transaction_count = ''silius_ethers_get_transaction_count''"
| "ethers_counter M_estimate_gas = ''silius_ethers_estimate_gas''"
| "ethers_counter M_call = ''silius_ethers_call''"
| "ethers_counter M_get_chainid = ''silius_ethers_get_chainid''"
| "ethers_counter M_get_balance = ''silius_ethers_get_balance''"
| "ethers_counter M_get_transaction = ''silius_ethers_get_transaction''"
| "ethers_counter M_get_transaction_receipt = ''silius_ethers_get_transaction_receipt''"
| "ethers_counter M_get_block_receipts = ''silius_ethers_get_block_receipts''"
| "ethers_counter M_get_gas_price = ''silius_ethers_get_gas_price''"
| "ethers_counter M_estimate_eip1559_fees = ''silius_ethers_estimate_eip1559_fees''"
| "ethers_counter M_get_accounts = ''silius_ethers_get_accounts''"
| "ethers_counter M_send_raw_transaction = ''silius_ethers_send_raw_transaction''"
| "ethers_counter M_sign = ''silius_ethers_sign''"
| "ethers_counter M_sign_transaction = ''silius_ethers_sign_transaction''"
| "ethers_counter M_get_logs = ''silius_ethers_get_logs''"
| "ethers_counter M_get_logs_paginated = ''silius_ethers_get_logs_paginated''"
| "ethers_counter M_watch = ''silius_ethers_watch''"
| "ethers_counter M_watch_pending_transactions = ''silius_ethers_watch_pending_transactions''"
| "ethers_counter M_watch_blocks = ''silius_ethers_watch_blocks''"
| "ethers_counter M_get_code = ''silius_ethers_get_code''"
| "ethers_counter M_get_storage_at = ''silius_ethers_get_storage_at''"
| "ethers_counter M_debug_trace_transaction = ''silius_ethers_debug_trace_transaction''"
| "ethers_counter M_debug_trace_call = ''silius_ethers_debug_trace_call''"
| "ethers_counter M_debug_trace_block_by_number = ''silius_ethers_debug_trace_block_by_number''"
| "ethers_counter M_debug_trace_block_by_hash = ''silius_ethers_debug_trace_block_by_hash''"
| "ethers_counter M_subscribe_blocks = ''silius_ethers_subscribe_blocks''"
| "ethers_counter M_subscribe_pending_txs = ''silius_ethers_subscribe_pending_txs''"
| "ethers_counter M_subscribe_full_pending_txs = ''silius_ethers_subscribe_full_pending_txs''"
| "ethers_counter M_subscribe_logs = ''silius_ethers_subscribe_logs''"
| "ethers_counter M_fee_history = ''silius_ethers_fee_history''"
| "ethers_counter M_create_access_list = ''silius_ethers_create_access_list''"

datatype 'e metric_error = MiddlewareError 'e

definition result_counter :: "string \<Rightarrow> ('e, 'a) outcome \<Rightarrow> metric_call list" where
  "result_counter request_type r =
     (case r of
        Ok _ \<Rightarrow> [CounterIncrement (request_type @ ''_success'') []]
      | Err _ \<Rightarrow> [CounterIncrement (request_type @ ''_failed'') []]
      | Panic \<Rightarrow> [])"

definition metrics_middleware ::
  "middleware_method \<Rightarrow> ('s, 'e, 'a) op \<Rightarrow> ('s \<times> metric_call list, 'e metric_error, 'a) op" where
  "metrics_middleware m inner =
     map_err_op MiddlewareError (recording (\<lambda>r. CounterIncrement (ethers_counter m) [] #
       (if m = M_get_logs_paginated then [] else result_counter (ethers_counter m) r)) inner)"

text \<open>The exporter is installed after the services have been launched; what was counted before is not seen.\<close>

text \<open>The exporter: its address, its global labels and the seconds after which idle counters and
  histograms are dropped. Installing it is the library's.\<close>

record exporter =
  ex_listen_addr :: "string \<times> 16 word"
  ex_global_labels :: "(string \<times> string) list"
  ex_idle_timeout :: nat

definition launch_metrics_exporter ::
  "(exporter \<Rightarrow> bool) \<Rightarrow> string \<times> 16 word \<Rightarrow> (string \<times> string) list option \<Rightarrow> ('e, metric_call list) outcome" where
  "launch_metrics_exporter install listen_addr label_value_opt =
     (if install \<lparr>ex_listen_addr = listen_addr,
        ex_global_labels = (case label_value_opt of Some label_values \<Rightarrow> label_values | None \<Rightarrow> []),
        ex_idle_timeout = 10\<rparr>
      then Ok (describe_json_rpc_metrics @ describe_mempool_metrics @ describe_grpc_metrics)
      else Panic)"

definition count_calls :: "string \<Rightarrow> metric_call list \<Rightarrow> nat" where
  "count_calls name cs = length (filter (\<lambda>c. case c of CounterIncrement n _ \<Rightarrow> n = name | _ \<Rightarrow> False) cs)"

text \<open>The gRPC wrapper counts every request as a success or a failure, whatever it wraps.\<close>

fun grpc_requests :: "(string \<times> ('s, 'e, 'a) op) list \<Rightarrow> 's \<times> metric_call list \<Rightarrow> ('e, 'a) outcome list \<times> ('s \<times> metric_call list)" where
  "grpc_requests [] st = ([], st)"
| "grpc_requests ((path, f) # fs) st =
     (case grpc_metrics_call path f st of (r, st) \<Rightarrow> case grpc_requests fs st of (rs, st) \<Rightarrow> (r # rs, st))"

lemma grpc_counters_balance:
  assumes "Panic \<notin> set (fst (grpc_requests fs st))"
  shows "count_calls GRPC_REQUEST (snd (snd (grpc_requests fs st))) + count_calls GRPC_REQUEST_SUCCESS (snd st) +
      count_calls GRPC_REQUEST_FAILED (snd st) =
    count_calls GRPC_REQUEST (snd st) + count_calls GRPC_REQUEST_SUCCESS (snd (snd (grpc_requests fs st))) +
      count_calls GRPC_REQUEST_FAILED (snd (snd (grpc_requests fs st)))"
  using assms
proof (induction fs arbitrary: st)
  case (Cons pf fs)
  obtain path f where pf: "pf = (path, f)" by fastforce
  obtain s cs where st: "st = (s, cs)" by fastforce
  obtain r s' where f: "f s = (r, s')" by fastforce
  have names: "GRPC_REQUEST \<noteq> GRPC_REQUEST_SUCCESS" "GRPC_REQUEST \<noteq> GRPC_REQUEST_FAILED"
    "GRPC_REQUEST_SUCCESS \<noteq> GRPC_REQUEST_FAILED"
    by (simp_all add: GRPC_REQUEST_def GRPC_REQUEST_SUCCESS_def GRPC_REQUEST_FAILED_def)
  obtain cs' where call: "grpc_metrics_call path f st = (r, (s', cs'))"
    by (simp add: st f grpc_metrics_call_def recording_def)
  have cs': "cs' = snd (snd (grpc_metrics_call path f st))" by (simp add: call)
  have "r \<noteq> Panic" "Panic \<notin> set (fst (grpc_requests fs (s', cs')))"
    using Cons.prems by (auto simp: pf call case_prod_unfold)
  then show ?case
    using Cons.IH [of "(s', cs')"] names cs'
    by (cases r) (simp_all add: pf st call case_prod_unfold grpc_metrics_call_def recording_def f count_calls_def)
qed simp

end
