(* ===== verification/Peer_Manager.thy ===== *)
theory Peer_Manager
  imports Rpc_Behaviour
begin

text \<open>
  The peers of a node (\<open>p2p/src/peer_manager\<close>): what is known of each peer, the database of peers and
  the manager that dials, pings and reports them. The calls of the swarm are the steps of \<open>pm_step\<close>,
  next to the number of connections the swarm has to each peer.

  A node record (\<open>Enr\<close>) is its peer and its addresses. The two delayed sets hand out the peers whose
  interval has passed; which these are is an argument of \<open>pm_poll\<close>. The heartbeat does nothing.
\<close>

section \<open>A peer\<close>

type_synonym multiaddr = string

record enr =
  enr_peer_id :: peer_id
  enr_multiaddr :: "multiaddr list"

datatype connection_direction = Incoming | Outgoing

datatype peer_connection_status = Connected | Disconnected | Disconnecting | Dialing | UnknownStatus

record peer_info =
  pi_connection_status :: peer_connection_status
  pi_enr :: "enr option"
  pi_metadata :: "meta_data option"
  pi_connection_direction :: "connection_direction option"

definition default_peer_info :: peer_info where
  "default_peer_info = \<lparr>pi_connection_status = UnknownStatus, pi_enr = None, pi_metadata = None,
     pi_connection_direction = None\<rparr>"

definition info_is_connected :: "peer_info \<Rightarrow> bool" where
  "info_is_connected i = (pi_connection_status i = Connected)"

definition info_is_dialing :: "peer_info \<Rightarrow> bool" where
  "info_is_dialing i = (pi_connection_status i = Dialing)"

definition set_dialing_peer :: "peer_info \<Rightarrow> (string, unit) outcome \<times> peer_info" where
  "set_dialing_peer i =
     (case pi_connection_status i of
        Connected \<Rightarrow> (Err ''Dialing peer is already connected'', i)
      | Disconnecting \<Rightarrow> (Err ''Dialing peer is disconnecting'', i)
      | Dialing \<Rightarrow> (Err ''Dialing peer is already dialing'', i)
      | Disconnected \<Rightarrow> (Ok (), i\<lparr>pi_connection_status := Dialing\<rparr>)
      | UnknownStatus \<Rightarrow> (Ok (), i\<lparr>pi_connection_status := Dialing\<rparr>))"

definition info_connect_ingoing :: "multiaddr \<Rightarrow> peer_info \<Rightarrow> peer_info" where
  "info_connect_ingoing addr i = i\<lparr>pi_connection_status := Connected, pi_connection_direction := Some Incoming\<rparr>"

definition info_connect_outgoing :: "multiaddr \<Rightarrow> peer_info \<Rightarrow> peer_info" where
  "info_connect_outgoing addr i = i\<lparr>pi_connection_status := Connected, pi_connection_direction := Some Outgoing\<rparr>"

section \<open>The database of peers\<close>

type_synonym peer_db = "(peer_id, peer_info) hash_map"

definition new_peer_db :: "peer_id list \<Rightarrow> peer_db" where
  "new_peer_db trusted = fold (\<lambda>p m. hm_insert p default_peer_info m) trusted []"

definition connection_status :: "peer_id \<Rightarrow> peer_db \<Rightarrow> peer_connection_status option" where
  "connection_status p db = map_option pi_connection_status (hm_get db p)"

definition is_connected_or_disconnecting :: "peer_id \<Rightarrow> peer_db \<Rightarrow> bool" where
  "is_connected_or_disconnecting p db =
     (case connection_status p db of Some Connected \<Rightarrow> True | Some Disconnecting \<Rightarrow> True | _ \<Rightarrow> False)"

definition is_connected :: "peer_id \<Rightarrow> peer_db \<Rightarrow> bool" where
  "is_connected p db = (case connection_status p db of Some Connected \<Rightarrow> True | _ \<Rightarrow> False)"

definition is_connected_or_dialing :: "peer_id \<Rightarrow> peer_db \<Rightarrow> bool" where
  "is_connected_or_dialing p db =
     (case connection_status p db of Some Connected \<Rightarrow> True | Some Dialing \<Rightarrow> True | _ \<Rightarrow> False)"

definition connected_or_dialing_peers :: "peer_db \<Rightarrow> peer_id list" where
  "connected_or_dialing_peers db = map fst (filter (\<lambda>(_, i). info_is_connected i \<or> info_is_dialing i) db)"

definition should_dial :: "peer_id \<Rightarrow> peer_db \<Rightarrow> bool" where
  "should_dial p db =
     (case connection_status p db of
        Some Disconnected \<Rightarrow> True | Some UnknownStatus \<Rightarrow> True | None \<Rightarrow> True | _ \<Rightarrow> False)"

datatype new_connection_state =
    NewConnected "enr option" connection_direction multiaddr
  | NewDisconnected
  | NewDisconnecting
  | NewDialing "enr option"

definition update_connection_state :: "peer_id \<Rightarrow> new_connection_state \<Rightarrow> peer_db \<Rightarrow> peer_db" where
  "update_connection_state p new_state db =
     (let info = (case hm_get db p of Some i \<Rightarrow> i | None \<Rightarrow> default_peer_info);
          info' = (case new_state of
              NewConnected e direction seen_address \<Rightarrow>
                (let info = info\<lparr>pi_enr := e\<rparr>
                 in case direction of
                      Incoming \<Rightarrow> info_connect_ingoing seen_address info
                    | Outgoing \<Rightarrow> info_connect_outgoing seen_address info)
            | NewDialing e \<Rightarrow> snd (set_dialing_peer (info\<lparr>pi_enr := e\<rparr>))
            | NewDisconnected \<Rightarrow> info\<lparr>pi_connection_status := Disconnected\<rparr>
            | NewDisconnecting \<Rightarrow> info\<lparr>pi_connection_status := Disconnecting\<rparr>)
      in hm_insert p info' db)"

section \<open>The manager\<close>

datatype peer_manager_event =
    PeerConnectedIncoming peer_id
  | PeerConnectedOutgoing peer_id
  | PeerDisconnected peer_id
  | PM_Ping peer_id
  | PM_MetaData peer_id
  | DiscoverPeers nat
  | DisconnectPeer peer_id goodbye_reason

record peer_manager =
  pm_peers :: peer_db
  pm_events :: "peer_manager_event list"
  pm_inbound_ping :: "peer_id hash_set"
  pm_outbound_ping :: "peer_id hash_set"
  pm_target_peers :: nat
  pm_peers_to_dial :: "enr list"

definition TARGET_PEERS :: nat where
  "TARGET_PEERS = 50"

definition new_peer_manager :: "peer_id list \<Rightarrow> peer_manager" where
  "new_peer_manager trusted = \<lparr>pm_peers = new_peer_db trusted, pm_events = [], pm_inbound_ping = [],
     pm_outbound_ping = [], pm_target_peers = TARGET_PEERS, pm_peers_to_dial = []\<rparr>"

definition pm_push :: "peer_manager_event \<Rightarrow> peer_manager \<Rightarrow> peer_manager" where
  "pm_push e m = m\<lparr>pm_events := pm_events m @ [e]\<rparr>"

definition dial_peer :: "enr \<Rightarrow> peer_manager \<Rightarrow> bool \<times> peer_manager" where
  "dial_peer e m =
     (if should_dial (enr_peer_id e) (pm_peers m) then (True, m\<lparr>pm_peers_to_dial := pm_peers_to_dial m @ [e]\<rparr>)
      else (False, m))"

definition maintain_peer_count :: "nat \<Rightarrow> peer_manager \<Rightarrow> peer_manager" where
  "maintain_peer_count dialing_peers m =
     (if length (connected_or_dialing_peers (pm_peers m)) < pm_target_peers m - dialing_peers \<and> dialing_peers \<noteq> 0
      then pm_push (DiscoverPeers dialing_peers) m else m)"

fun dial_discovered :: "enr list \<Rightarrow> nat \<Rightarrow> peer_manager \<Rightarrow> nat \<times> peer_manager" where
  "dial_discovered [] n m = (n, m)"
| "dial_discovered (e # es) n m =
     (if e \<notin> set (pm_peers_to_dial m) then
        (case dial_peer e m of (dialed, m) \<Rightarrow> dial_discovered es (if dialed then n + 1 else n) m)
      else dial_discovered es n m)"

definition peers_discovered :: "enr list \<Rightarrow> peer_manager \<Rightarrow> peer_manager" where
  "peers_discovered results m =
     (case dial_discovered results 0 m of (to_dial_peers, m) \<Rightarrow> maintain_peer_count to_dial_peers m)"

definition refresh_metadata :: "peer_id \<Rightarrow> u64 \<Rightarrow> peer_info \<Rightarrow> peer_manager \<Rightarrow> peer_manager" where
  "refresh_metadata p seq info m =
     (case pi_metadata info of
        Some md \<Rightarrow> if seq_number md < seq then pm_push (PM_MetaData p) m else m
      | None \<Rightarrow> pm_push (PM_MetaData p) m)"

definition ping_request :: "peer_id \<Rightarrow> u64 \<Rightarrow> peer_manager \<Rightarrow> peer_manager" where
  "ping_request p seq m =
     (case hm_get (pm_peers m) p of
        Some info \<Rightarrow>
          (let m = (case pi_connection_direction info of
               Some Incoming \<Rightarrow> m\<lparr>pm_inbound_ping := snd (hs_insert p (pm_inbound_ping m))\<rparr>
             | Some Outgoing \<Rightarrow> m\<lparr>pm_outbound_ping := snd (hs_insert p (pm_outbound_ping m))\<rparr>
             | None \<Rightarrow> m)
           in refresh_metadata p seq info m)
      | None \<Rightarrow> m)"

definition pong_response :: "peer_id \<Rightarrow> u64 \<Rightarrow> peer_manager \<Rightarrow> peer_manager" where
  "pong_response p seq m =
     (case hm_get (pm_peers m) p of
        Some info \<Rightarrow> refresh_metadata p seq info m
      | None \<Rightarrow> m)"

definition metadata_response :: "peer_id \<Rightarrow> meta_data \<Rightarrow> peer_manager \<Rightarrow> peer_manager" where
  "metadata_response p md m =
     (case hm_get (pm_peers m) p of
        Some info \<Rightarrow> m\<lparr>pm_peers := hm_insert p (info\<lparr>pi_metadata := Some md\<rparr>) (pm_peers m)\<rparr>
      | None \<Rightarrow> m)"

datatype connecting_type = ConnDialing | IngoingConnected multiaddr | OutgoingConnected multiaddr

definition inject_peer_connection ::
  "peer_id \<Rightarrow> connecting_type \<Rightarrow> enr option \<Rightarrow> peer_manager \<Rightarrow> peer_manager" where
  "inject_peer_connection p conn e m =
     (case conn of
        ConnDialing \<Rightarrow> m\<lparr>pm_peers := update_connection_state p (NewDialing e) (pm_peers m)\<rparr>
      | IngoingConnected addr \<Rightarrow>
          m\<lparr>pm_peers := update_connection_state p (NewConnected e Incoming addr) (pm_peers m),
            pm_inbound_ping := snd (hs_insert p (pm_inbound_ping m))\<rparr>
      | OutgoingConnected addr \<Rightarrow>
          m\<lparr>pm_peers := update_connection_state p (NewConnected e Outgoing addr) (pm_peers m),
            pm_outbound_ping := snd (hs_insert p (pm_outbound_ping m))\<rparr>)"

definition inject_disconnect :: "peer_id \<Rightarrow> peer_manager \<Rightarrow> peer_manager" where
  "inject_disconnect p m =
     m\<lparr>pm_peers := update_connection_state p NewDisconnected (pm_peers m),
       pm_inbound_ping := snd (hs_remove p (pm_inbound_ping m)),
       pm_outbound_ping := snd (hs_remove p (pm_outbound_ping m))\<rparr>"

text \<open>The endpoint of a connection: the other side listened or dialed.\<close>

definition pm_on_connection_established ::
  "peer_id \<Rightarrow> connection_direction \<Rightarrow> multiaddr \<Rightarrow> nat \<Rightarrow> peer_manager \<Rightarrow> peer_manager" where
  "pm_on_connection_established p direction addr other_established m =
     (let m = (if other_established = 0 then pm_push (PM_MetaData p) m else m)
      in case direction of
           Incoming \<Rightarrow>
             pm_push (PeerConnectedIncoming p) (inject_peer_connection p (IngoingConnected addr) None m)
         | Outgoing \<Rightarrow>
             pm_push (PeerConnectedOutgoing p) (inject_peer_connection p (OutgoingConnected addr) None m))"

definition pm_on_connection_closed :: "peer_id \<Rightarrow> nat \<Rightarrow> peer_manager \<Rightarrow> peer_manager" where
  "pm_on_connection_closed p remaining_established m =
     (if 0 < remaining_established then m
      else
        (let m = (if is_connected_or_disconnecting p (pm_peers m) then pm_push (PeerDisconnected p) m else m)
         in inject_disconnect p m))"

definition pm_on_dial_failure :: "peer_id option \<Rightarrow> peer_manager \<Rightarrow> peer_manager" where
  "pm_on_dial_failure maybe_peer m =
     (case maybe_peer of
        Some p \<Rightarrow> if \<not> is_connected p (pm_peers m) then inject_disconnect p m else m
      | None \<Rightarrow> m)"

text \<open>A peer handed out by a delayed set leaves it and is inserted again.\<close>

fun ping_expired ::
  "(peer_manager \<Rightarrow> peer_id hash_set) \<Rightarrow> (peer_id hash_set \<Rightarrow> peer_manager \<Rightarrow> peer_manager) \<Rightarrow>
   peer_id list \<Rightarrow> peer_manager \<Rightarrow> peer_manager" where
  "ping_expired get put [] m = m"
| "ping_expired get put (p # ps) m =
     ping_expired get put ps
       (pm_push (PM_Ping p) (put (snd (hs_insert p (snd (hs_remove p (get m))))) m))"

datatype pm_to_swarm = PM_Generate peer_manager_event | PM_Dial peer_id "multiaddr list"

definition pm_poll :: "peer_id list \<Rightarrow> peer_id list \<Rightarrow> peer_manager \<Rightarrow> pm_to_swarm option \<times> peer_manager" where
  "pm_poll expired_inbound expired_outbound m =
     (let m = ping_expired pm_inbound_ping (\<lambda>s m. m\<lparr>pm_inbound_ping := s\<rparr>) expired_inbound m;
          m = ping_expired pm_outbound_ping (\<lambda>s m. m\<lparr>pm_outbound_ping := s\<rparr>) expired_outbound m
      in case pm_events m of
           e # es \<Rightarrow> (Some (PM_Generate e), m\<lparr>pm_events := es\<rparr>)
         | [] \<Rightarrow>
             (if pm_peers_to_dial m \<noteq> [] then
                (let e = last (pm_peers_to_dial m);
                     m = m\<lparr>pm_peers_to_dial := butlast (pm_peers_to_dial m)\<rparr>;
                     m = inject_peer_connection (enr_peer_id e) ConnDialing (Some e) m
                 in (Some (PM_Dial (enr_peer_id e) (enr_multiaddr e)), m))
              else (None, m)))"

section \<open>The manager under the swarm\<close>

record pm_run =
  pr_manager :: peer_manager
  pr_open :: "peer_id \<Rightarrow> nat"

inductive pm_step :: "pm_run \<Rightarrow> pm_run \<Rightarrow> bool" where
  pm_established: "pm_step R (R\<lparr>pr_manager := pm_on_connection_established p direction addr (pr_open R p) (pr_manager R),
    pr_open := (pr_open R)(p := pr_open R p + 1)\<rparr>)"
| pm_closed: "0 < pr_open R p \<Longrightarrow>
    pm_step R (R\<lparr>pr_manager := pm_on_connection_closed p (pr_open R p - 1) (pr_manager R),
      pr_open := (pr_open R)(p := pr_open R p - 1)\<rparr>)"
| pm_dial_failed: "pm_step R (R\<lparr>pr_manager := pm_on_dial_failure mp (pr_manager R)\<rparr>)"
| pm_ping: "pm_step R (R\<lparr>pr_manager := ping_request p seq (pr_manager R)\<rparr>)"
| pm_pong: "pm_step R (R\<lparr>pr_manager := pong_response p seq (pr_manager R)\<rparr>)"
| pm_metadata: "pm_step R (R\<lparr>pr_manager := metadata_response p md (pr_manager R)\<rparr>)"
| pm_discovered: "pm_step R (R\<lparr>pr_manager := peers_discovered results (pr_manager R)\<rparr>)"
| pm_polled: "set ins \<subseteq> set (pm_inbound_ping (pr_manager R)) \<Longrightarrow>
    set outs \<subseteq> set (pm_outbound_ping (pr_manager R)) \<Longrightarrow> pm_poll ins outs (pr_manager R) = (r, m) \<Longrightarrow>
    pm_step R (R\<lparr>pr_manager := m\<rparr>)"

inductive pm_reachable :: "pm_run \<Rightarrow> bool" where
  pm_start: "pm_reachable \<lparr>pr_manager = new_peer_manager trusted, pr_open = (\<lambda>_. 0)\<rparr>"
| pm_next: "pm_reachable R \<Longrightarrow> pm_step R R' \<Longrightarrow> pm_reachable R'"

section \<open>The database agrees with the swarm\<close>

lemma is_connected_iff: "is_connected p db \<longleftrightarrow> connection_status p db = Some Connected"
  by (auto simp: is_connected_def split: option.splits peer_connection_status.splits)

lemma update_connected:
  "is_connected q (update_connection_state p (NewConnected e d a) db) \<longleftrightarrow> q = p \<or> is_connected q db"
  "is_connected q (update_connection_state p NewDisconnected db) \<longleftrightarrow> q \<noteq> p \<and> is_connected q db"
  "is_connected q (update_connection_state p (NewDialing e) db) \<longleftrightarrow> is_connected q db"
  by (auto simp: is_connected_iff connection_status_def update_connection_state_def Let_def
      info_connect_ingoing_def info_connect_outgoing_def set_dialing_peer_def default_peer_info_def
      split: option.splits connection_direction.splits peer_connection_status.splits)

lemma pm_push_simps [simp]:
  "pm_peers (pm_push e m) = pm_peers m" "pm_inbound_ping (pm_push e m) = pm_inbound_ping m"
  "pm_outbound_ping (pm_push e m) = pm_outbound_ping m" "pm_peers_to_dial (pm_push e m) = pm_peers_to_dial m"
  by (simp_all add: pm_push_def)

lemma dial_discovered_peers: "pm_peers (snd (dial_discovered es n m)) = pm_peers m"
  by (induction es arbitrary: n m) (simp_all add: dial_peer_def)

lemma peers_discovered_peers [simp]: "pm_peers (peers_discovered es m) = pm_peers m"
  using dial_discovered_peers [of es 0 m]
  by (cases "dial_discovered es 0 m") (simp add: peers_discovered_def maintain_peer_count_def)

lemma refresh_metadata_peers [simp]: "pm_peers (refresh_metadata p seq i m) = pm_peers m"
  by (simp add: refresh_metadata_def split: option.splits)

lemma requests_keep_connected [simp]:
  "pm_peers (ping_request p seq m) = pm_peers m"
  "pm_peers (pong_response p seq m) = pm_peers m"
  "is_connected q (pm_peers (metadata_response p md m)) = is_connected q (pm_peers m)"
  by (auto simp: ping_request_def pong_response_def metadata_response_def is_connected_iff
      connection_status_def Let_def split: option.splits connection_direction.splits)

lemma ping_expired_peers:
  assumes "\<And>s m. pm_peers (put s m) = pm_peers m"
  shows "pm_peers (ping_expired get put ps m) = pm_peers m"
  by (induction ps arbitrary: m) (simp_all add: assms)

lemma poll_keeps_connected:
  "pm_poll ins outs m = (r, m') \<Longrightarrow> is_connected q (pm_peers m') = is_connected q (pm_peers m)"
  by (auto simp: pm_poll_def Let_def inject_peer_connection_def update_connected ping_expired_peers
      split: list.splits if_splits)

lemma new_peer_db_disconnected: "\<not> is_connected p (new_peer_db trusted)"
proof -
  have "connection_status p (fold (\<lambda>p m. hm_insert p default_peer_info m) trusted db) =
      (if p \<in> set trusted then Some UnknownStatus else connection_status p db)" for db
    by (induction trusted arbitrary: db) (auto simp: connection_status_def default_peer_info_def)
  from this [of "[]"] show ?thesis
    by (simp add: new_peer_db_def is_connected_iff) (simp add: connection_status_def)
qed

definition tracks_swarm :: "pm_run \<Rightarrow> bool" where
  "tracks_swarm R = (\<forall>p. is_connected p (pm_peers (pr_manager R)) \<longleftrightarrow> 0 < pr_open R p)"

lemma pm_step_tracks:
  assumes "pm_step R R'" "tracks_swarm R"
  shows "tracks_swarm R'"
  using assms
proof cases
  case (pm_established p direction addr)
  then show ?thesis
    using assms(2) by (cases direction)
      (auto simp: tracks_swarm_def pm_on_connection_established_def inject_peer_connection_def update_connected
        Let_def)
next
  case (pm_closed p)
  then show ?thesis
    using assms(2) by (auto simp: tracks_swarm_def pm_on_connection_closed_def inject_disconnect_def
        update_connected Let_def)
next
  case (pm_dial_failed mp)
  then show ?thesis
    using assms(2) by (auto simp: tracks_swarm_def pm_on_dial_failure_def inject_disconnect_def
        update_connected split: option.splits)
next
  case (pm_polled ins outs r m)
  then show ?thesis using assms(2) poll_keeps_connected by (auto simp: tracks_swarm_def)
qed (use assms(2) in \<open>auto simp: tracks_swarm_def\<close>)

text \<open>C14: The database of peers agrees with the swarm. Whatever connections are opened and closed, dials
  fail, pings, metadata and discovered peers arrive and the manager is polled, a peer is recorded as
  connected exactly when the swarm has a connection to it: closing one of several connections, failing
  to dial a connected peer and dialing it again do not change that.
\<close>

theorem peer_db_tracks_swarm:
  assumes "pm_reachable R"
  shows "is_connected p (pm_peers (pr_manager R)) \<longleftrightarrow> 0 < pr_open R p"
proof -
  have "tracks_swarm R"
    using assms
  proof (induction rule: pm_reachable.induct)
    case (pm_start trusted)
    then show ?case by (simp add: tracks_swarm_def new_peer_manager_def new_peer_db_disconnected)
  next
    case (pm_next R R')
    then show ?case by (blast intro: pm_step_tracks)
  qed
  then show ?thesis by (simp add: tracks_swarm_def)
qed

definition sample_pm_run :: pm_run where
  "sample_pm_run = \<lparr>pr_manager = pm_on_connection_established 7 Incoming ''/ip4/10.0.0.1'' 0 (new_peer_manager [7]),
     pr_open = (\<lambda>_. 0)(7 := 1)\<rparr>"

theorem peer_db_tracks_swarm_witness:
  "pm_reachable sample_pm_run \<and> is_connected 7 (pm_peers (pr_manager sample_pm_run)) \<and>
   \<not> is_connected 8 (pm_peers (pr_manager sample_pm_run))"
proof -
  let ?s = "\<lparr>pr_manager = new_peer_manager [7], pr_open = (\<lambda>_. 0)\<rparr>"
  have "pm_step ?s sample_pm_run"
    using pm_established [of ?s 7 Incoming "''/ip4/10.0.0.1''"] by (simp add: sample_pm_run_def)
  then have r: "pm_reachable sample_pm_run" by (rule pm_next [OF pm_start])
  show ?thesis
    using peer_db_tracks_swarm [OF r, of 7] peer_db_tracks_swarm [OF r, of 8] r
    by (simp add: sample_pm_run_def)
qed

text \<open>
  A ping that is handled after the last connection to its sender was closed puts the sender back into
  a delayed set, from where it is pinged again and again.
\<close>

lemma late_ping_reschedules:
  assumes "hm_get (pm_peers m) p = Some info" "pi_connection_direction info = Some Incoming"
  shows "p \<in> set (pm_inbound_ping (ping_request p seq m))"
  using assms by (simp add: ping_request_def refresh_metadata_def hs_insert_def Let_def split: option.splits)

end
