(* ===== verification/P2p_Network.thy ===== *)
theory P2p_Network
  imports Peer_Manager Pool_Service Pool_Effects
begin

text \<open>
  The network service (\<open>p2p/src/service/mod.rs\<close>): how operations travel between the pool of an entry
  point and the gossip topics of the canonical mempools, and how requests, discovered peers and the
  events of the peer manager are handled. It combines the request-response behaviour, the peer manager
  and the encoding of the operations.

  The gossip protocol, the discovery service and the derived serialization of \<open>VerifiedUserOperation\<close>
  belong to libraries and are the fields of \<open>network_lib\<close>. \<open>verified_documented\<close> says that the derived
  code follows the specification of Simple Serialize for a container of the operation, the twenty bytes
  of the entry point and the block hash, and uses the repository's code for the operation.
\<close>

section \<open>Messages and configuration\<close>

type_synonym topic = string

record mempool_config =
  mcfg_chain_id :: U256
  mcfg_entry_point :: address
  mcfg_description :: string
  mcfg_min_stake :: U256
  mcfg_id :: string

definition with_id :: "string \<Rightarrow> mempool_config \<Rightarrow> mempool_config" where
  "with_id i c = c\<lparr>mcfg_id := i\<rparr>"

definition topic_of :: "string \<Rightarrow> topic" where
  "topic_of i =
     ''/'' @ ''account_abstraction'' @ ''/'' @ i @ ''/'' @ ''user_operations'' @ ''/'' @ ''ssz_snappy''"

definition create_whitelist_filter :: "string list \<Rightarrow> topic hash_set" where
  "create_whitelist_filter mempool_ids = fold (\<lambda>i s. snd (hs_insert (topic_of i) s)) mempool_ids []"

text \<open>The configurations come from the network; a chain for development has a fixed one.\<close>

definition ADDRESS :: address where
  "ADDRESS = 0x5ff137d4b0fdcd49dca30c7cf57e578a026d2789"

definition dev_config :: "U256 \<Rightarrow> mempool_config" where
  "dev_config dev_chain_id = \<lparr>mcfg_chain_id = dev_chain_id, mcfg_entry_point = ADDRESS,
     mcfg_description = [], mcfg_min_stake = 0, mcfg_id = []\<rparr>"

fun mempool_configs_of ::
  "mempool_config option \<Rightarrow> (string \<Rightarrow> (string, mempool_config) outcome) \<Rightarrow> string list \<Rightarrow>
   (string, (topic \<times> mempool_config) list) outcome" where
  "mempool_configs_of dev fetch [] = Ok []"
| "mempool_configs_of dev fetch (i # is) =
     bind_ok (case dev of Some c \<Rightarrow> Ok c | None \<Rightarrow> fetch i) (\<lambda>c.
     bind_ok (mempool_configs_of dev fetch is) (\<lambda>m. Ok ((topic_of i, with_id i c) # m)))"

section \<open>Compression of gossip messages\<close>

definition GOSSIP_MAX_SIZE :: nat where
  "GOSSIP_MAX_SIZE = 1048576"

record snap =
  decompress_len :: "bytes \<Rightarrow> (string, nat) outcome"
  decompress_vec :: "bytes \<Rightarrow> (string, bytes) outcome"
  compress_vec :: "bytes \<Rightarrow> (string, bytes) outcome"

definition inbound_transform :: "snap \<Rightarrow> nat \<Rightarrow> bytes \<Rightarrow> (string, bytes) outcome" where
  "inbound_transform Z max_size raw =
     bind_ok (decompress_len Z raw) (\<lambda>len.
     if max_size < len then Err ''ssz_snappy decoded data > GOSSIP_MAX_SIZE''
     else decompress_vec Z raw)"

definition outbound_transform :: "snap \<Rightarrow> nat \<Rightarrow> bytes \<Rightarrow> (string, bytes) outcome" where
  "outbound_transform Z max_size data =
     (if max_size < length data then Err ''ssz_snappy Encoded data > GOSSIP_MAX_SIZE''
      else compress_vec Z data)"

section \<open>State\<close>

datatype network_message =
    NM_Publish publish_message
  | NM_FindNewMempool user_operation topic
  | NM_Validate user_operation validation_config

text \<open>
  The channel of an entry point: whether the pool still reads its end, what was sent to the pool, and
  what the pool has sent and the network has not read yet.
\<close>

record mempool_channel =
  mc_entry_point :: address
  mc_open :: bool
  mc_to_pool :: "network_message list"
  mc_from_pool :: "network_message list"

datatype publish_error = InsufficientPeers | PublishOther string

type_synonym message_id = bytes

record network_lib =
  nl_abi :: abi
  nl_verified :: "verified_user_operation ssz_codec"
  nl_gossip_publish :: "(topic \<times> bytes) list \<Rightarrow> topic \<Rightarrow> bytes \<Rightarrow> publish_error + message_id"

record network =
  nw_rpc :: rpc
  nw_peer_manager :: peer_manager
  nw_metadata :: meta_data
  nw_chain :: chain_id
  nw_mempool_channels :: "mempool_channel list"
  nw_mempool_configs :: "(topic \<times> mempool_config) list"
  nw_published :: "(topic \<times> bytes) list"
  nw_discover_calls :: "nat list"
  nw_answers :: "(request_id \<times> rpc_response) list"

datatype network_event =
    NE_PeerConnectedOutgoing peer_id
  | NE_PeerConnectedIncoming peer_id
  | NE_PeerDisconnected peer_id
  | NE_PubsubMessage peer_id message_id verified_user_operation
  | NE_RequestMessage peer_id rpc_request request_id
  | NE_ResponseMessage peer_id rpc_response
  | NE_Subscribe peer_id topic
  | NE_NewListenAddr multiaddr

datatype gossip_event =
    G_Message peer_id message_id topic bytes
  | G_Subscribed peer_id topic
  | G_Other

section \<open>Sending\<close>

definition send_to_pool :: "network_message \<Rightarrow> mempool_channel \<Rightarrow> (unit, mempool_channel) outcome" where
  "send_to_pool m ch = (if mc_open ch then Ok (ch\<lparr>mc_to_pool := mc_to_pool ch @ [m]\<rparr>) else Panic)"

definition discover_peers :: "nat \<Rightarrow> network \<Rightarrow> network" where
  "discover_peers n N = N\<lparr>nw_discover_calls := nw_discover_calls N @ [n]\<rparr>"

definition network_send_request :: "peer_id \<Rightarrow> rpc_request \<Rightarrow> network \<Rightarrow> request_id \<times> network" where
  "network_send_request p q N =
     (case send_request p q (nw_rpc N) of (i, r) \<Rightarrow> (i, N\<lparr>nw_rpc := r\<rparr>))"

text \<open>Publishing expects that the operation can be serialized.\<close>

definition network_publish ::
  "network_lib \<Rightarrow> verified_user_operation \<Rightarrow> topic \<Rightarrow> network \<Rightarrow>
   (unit, (publish_error + message_id) \<times> network) outcome" where
  "network_publish L user_op topic_hash N =
     (case ser (nl_verified L) user_op of
        Ok buf \<Rightarrow>
          (case nl_gossip_publish L (nw_published N) topic_hash buf of
             Inr i \<Rightarrow> Ok (Inr i, N\<lparr>nw_published := nw_published N @ [(topic_hash, buf)]\<rparr>)
           | Inl e \<Rightarrow> Ok (Inl e, N))
      | _ \<Rightarrow> Panic)"

section \<open>Messages from the pools\<close>

text \<open>The entry after the first one whose topic is the given one.\<close>

fun next_mempool :: "topic \<Rightarrow> bool \<Rightarrow> (topic \<times> mempool_config) list \<Rightarrow> (topic \<times> mempool_config) option" where
  "next_mempool t nxt [] = None"
| "next_mempool t nxt ((t', c) # rest) =
     (if nxt then Some (t', c) else next_mempool t (if t = t' then True else nxt) rest)"

definition validate_config :: "topic \<times> mempool_config \<Rightarrow> bool \<Rightarrow> validation_config" where
  "validate_config tc ignore = \<lparr>vc_min_stake = Some (mcfg_min_stake (snd tc)), vc_min_unstake_delay = None,
     vc_topic = Some (fst tc), ignore_prev = ignore\<rparr>"

definition handle_pool_message ::
  "(topic \<times> mempool_config) list \<Rightarrow> network_message \<Rightarrow>
   mempool_channel \<times> (verified_user_operation \<times> topic) list \<Rightarrow>
   (unit, mempool_channel \<times> (verified_user_operation \<times> topic) list) outcome" where
  "handle_pool_message configs msg st =
     (case st of (ch, uos_received) \<Rightarrow>
      case msg of
        NM_Publish m \<Rightarrow>
          (let user_op = new_verified (user_operation (pm_user_operation m)) (mc_entry_point ch)
             (verified_at_block_hash m)
           in case vc_topic (pm_validation_config m) of
                Some t \<Rightarrow> Ok (ch, uos_received @ [(user_op, t)])
              | None \<Rightarrow>
                  (case configs of
                     first # _ \<Rightarrow>
                       bind_ok (send_to_pool (NM_Validate (pm_user_operation m) (validate_config first True)) ch)
                         (\<lambda>ch. Ok (ch, uos_received))
                   | [] \<Rightarrow> Ok (ch, uos_received)))
      | NM_FindNewMempool uo t \<Rightarrow>
          (case next_mempool t False configs of
             Some tc \<Rightarrow>
               bind_ok (send_to_pool (NM_Validate uo (validate_config tc True)) ch) (\<lambda>ch. Ok (ch, uos_received))
           | None \<Rightarrow> Ok (ch, uos_received))
      | NM_Validate _ _ \<Rightarrow> Ok (ch, uos_received))"

fun handle_pool_messages ::
  "(topic \<times> mempool_config) list \<Rightarrow> network_message list \<Rightarrow>
   mempool_channel \<times> (verified_user_operation \<times> topic) list \<Rightarrow>
   (unit, mempool_channel \<times> (verified_user_operation \<times> topic) list) outcome" where
  "handle_pool_messages configs [] st = Ok st"
| "handle_pool_messages configs (msg # msgs) st =
     bind_ok (handle_pool_message configs msg st) (handle_pool_messages configs msgs)"

fun drain_channels ::
  "(topic \<times> mempool_config) list \<Rightarrow> mempool_channel list \<Rightarrow> (verified_user_operation \<times> topic) list \<Rightarrow>
   (unit, mempool_channel list \<times> (verified_user_operation \<times> topic) list) outcome" where
  "drain_channels configs [] uos = Ok ([], uos)"
| "drain_channels configs (ch # chs) uos =
     bind_ok (handle_pool_messages configs (mc_from_pool ch) (ch\<lparr>mc_from_pool := []\<rparr>, uos)) (\<lambda>(ch, uos).
     bind_ok (drain_channels configs chs uos) (\<lambda>(chs, uos). Ok (ch # chs, uos)))"

definition FIND_NODE_QUERY_CLOSEST_PEERS :: nat where
  "FIND_NODE_QUERY_CLOSEST_PEERS = 16"

fun publish_all ::
  "network_lib \<Rightarrow> (verified_user_operation \<times> topic) list \<Rightarrow> network \<Rightarrow> (unit, network) outcome" where
  "publish_all L [] N = Ok N"
| "publish_all L ((uo, t) # rest) N =
     bind_ok (network_publish L uo t N) (\<lambda>(r, N).
       publish_all L rest (case r of
           Inl InsufficientPeers \<Rightarrow> discover_peers FIND_NODE_QUERY_CLOSEST_PEERS N
         | _ \<Rightarrow> N))"

section \<open>Events of the behaviours\<close>

text \<open>The first channel with the entry point of the operation gets it, if its topic is a known one.\<close>

fun offer_to_channel ::
  "network_lib \<Rightarrow> network \<Rightarrow> verified_user_operation \<Rightarrow> topic \<Rightarrow> mempool_channel list \<Rightarrow>
   (unit, mempool_channel list) outcome" where
  "offer_to_channel L N uo t [] = Ok []"
| "offer_to_channel L N uo t (ch # chs) =
     (if mc_entry_point ch = verified_entry_point uo then
        (case find (\<lambda>(t', _). t' = t) (nw_mempool_configs N) of
           Some (_, c) \<Rightarrow>
             bind_ok (send_to_pool (NM_Validate (from_user_operation_signed
                 (user_operation_hash (nl_abi L) (v_user_operation uo) (mc_entry_point ch) (nw_chain N))
                 (v_user_operation uo)) (validate_config (t, c) False)) ch)
               (\<lambda>ch. Ok (ch # chs))
         | None \<Rightarrow> Ok (ch # chs))
      else bind_ok (offer_to_channel L N uo t chs) (\<lambda>chs. Ok (ch # chs)))"

definition handle_gossipsub_event ::
  "network_lib \<Rightarrow> gossip_event \<Rightarrow> network \<Rightarrow> (unit, network_event option \<times> network) outcome" where
  "handle_gossipsub_event L e N =
     (case e of
        G_Message source i t data \<Rightarrow>
          (case de (nl_verified L) data of
             Ok uo \<Rightarrow>
               bind_ok (offer_to_channel L N uo t (nw_mempool_channels N)) (\<lambda>chs.
               Ok (Some (NE_PubsubMessage source i uo), N\<lparr>nw_mempool_channels := chs\<rparr>))
           | Err _ \<Rightarrow> Ok (None, N)
           | Panic \<Rightarrow> Panic)
      | G_Subscribed p t \<Rightarrow> Ok (Some (NE_Subscribe p t), N)
      | G_Other \<Rightarrow> Ok (None, N))"

text \<open>
  Answering a request expects that its substream still waits: \<open>alive\<close> tells whether it does.
\<close>

definition answer_request ::
  "(request_id \<Rightarrow> bool) \<Rightarrow> request_id \<Rightarrow> rpc_response \<Rightarrow> network \<Rightarrow> (unit, network) outcome" where
  "answer_request alive i r N =
     (if alive i then Ok (N\<lparr>nw_answers := nw_answers N @ [(i, r)]\<rparr>) else Panic)"

definition handle_rpc_event ::
  "(request_id \<Rightarrow> bool) \<Rightarrow> rpc_event \<Rightarrow> network \<Rightarrow> (unit, network_event option \<times> network) outcome" where
  "handle_rpc_event alive e N =
     (case e of
        E_Request p q i \<Rightarrow>
          (case q of
             Q_Ping ping \<Rightarrow>
               (let N = N\<lparr>nw_peer_manager := ping_request p (ping_data ping) (nw_peer_manager N)\<rparr>
                in bind_ok (answer_request alive i (R_Pong \<lparr>ping_data = seq_number (nw_metadata N)\<rparr>) N)
                     (\<lambda>N. Ok (None, N)))
           | Q_MetaData \<Rightarrow>
               bind_ok (answer_request alive i (R_MetaData (nw_metadata N)) N) (\<lambda>N. Ok (None, N))
           | Q_Goodbye _ \<Rightarrow> Ok (None, N)
           | _ \<Rightarrow> Ok (Some (NE_RequestMessage p q i), N))
      | E_Response p i r \<Rightarrow>
          (case r of
             R_Pong ping \<Rightarrow>
               Ok (None, N\<lparr>nw_peer_manager := pong_response p (ping_data ping) (nw_peer_manager N)\<rparr>)
           | R_MetaData md \<Rightarrow> Ok (None, N\<lparr>nw_peer_manager := metadata_response p md (nw_peer_manager N)\<rparr>)
           | _ \<Rightarrow> Ok (Some (NE_ResponseMessage p r), N))
      | _ \<Rightarrow> Ok (None, N))"

definition handle_discovery_event :: "enr list \<Rightarrow> network \<Rightarrow> network_event option \<times> network" where
  "handle_discovery_event peers N = (None, N\<lparr>nw_peer_manager := peers_discovered peers (nw_peer_manager N)\<rparr>)"

definition handler_peer_manager_event :: "peer_manager_event \<Rightarrow> network \<Rightarrow> network_event option \<times> network" where
  "handler_peer_manager_event e N =
     (case e of
        PeerConnectedIncoming p \<Rightarrow> (Some (NE_PeerConnectedIncoming p), N)
      | PeerConnectedOutgoing p \<Rightarrow> (Some (NE_PeerConnectedOutgoing p), N)
      | PeerDisconnected p \<Rightarrow> (Some (NE_PeerDisconnected p), N)
      | DiscoverPeers n \<Rightarrow> (None, discover_peers n N)
      | PM_Ping p \<Rightarrow>
          (None, snd (network_send_request p (Q_Ping \<lparr>ping_data = seq_number (nw_metadata N)\<rparr>) N))
      | PM_MetaData p \<Rightarrow> (None, snd (network_send_request p Q_MetaData N))
      | _ \<Rightarrow> (None, N))"

datatype network_swarm_event =
    SE_GossipSub gossip_event
  | SE_RPC rpc_event
  | SE_Discovery "enr list"
  | SE_PeerManager peer_manager_event
  | SE_NewListenAddr multiaddr
  | SE_Other

definition handle_swarm_event ::
  "network_lib \<Rightarrow> (request_id \<Rightarrow> bool) \<Rightarrow> network_swarm_event \<Rightarrow> network \<Rightarrow>
   (unit, network_event option \<times> network) outcome" where
  "handle_swarm_event L alive e N =
     (case e of
        SE_GossipSub g \<Rightarrow> handle_gossipsub_event L g N
      | SE_RPC r \<Rightarrow> handle_rpc_event alive r N
      | SE_Discovery ps \<Rightarrow> Ok (handle_discovery_event ps N)
      | SE_PeerManager p \<Rightarrow> Ok (handler_peer_manager_event p N)
      | SE_NewListenAddr a \<Rightarrow> Ok (Some (NE_NewListenAddr a), N)
      | SE_Other \<Rightarrow> Ok (None, N))"

text \<open>
  The swarm is polled until an event is to be reported; \<open>evs\<close> are the events it has ready, and those
  not consumed are returned.
\<close>

fun poll_swarm ::
  "network_lib \<Rightarrow> (request_id \<Rightarrow> bool) \<Rightarrow> network_swarm_event list \<Rightarrow> network \<Rightarrow>
   (unit, network_event option \<times> network_swarm_event list \<times> network) outcome" where
  "poll_swarm L alive [] N = Ok (None, [], N)"
| "poll_swarm L alive (e # evs) N =
     bind_ok (handle_swarm_event L alive e N) (\<lambda>(r, N).
       case r of Some ev \<Rightarrow> Ok (Some ev, evs, N) | None \<Rightarrow> poll_swarm L alive evs N)"

definition poll_network ::
  "network_lib \<Rightarrow> (request_id \<Rightarrow> bool) \<Rightarrow> network_swarm_event list \<Rightarrow> network \<Rightarrow>
   (unit, network_event option \<times> network_swarm_event list \<times> network) outcome" where
  "poll_network L alive evs N =
     bind_ok (drain_channels (nw_mempool_configs N) (nw_mempool_channels N) []) (\<lambda>(chs, uos_received).
     bind_ok (publish_all L uos_received (N\<lparr>nw_mempool_channels := chs\<rparr>)) (\<lambda>N.
     poll_swarm L alive evs N))"

section \<open>The libraries\<close>

definition verified_parts :: "bytes \<Rightarrow> verified_user_operation \<Rightarrow> ssz_element list" where
  "verified_parts inner v =
     [Byte_List inner, Byte_Vector (verified_user_operation.v_entry_point v), Byte_Vector (u256_bytes (v_verified_at_block_hash v))]"

definition verified_documented :: "ssz_rs \<Rightarrow> verified_user_operation ssz_codec \<Rightarrow> bool" where
  "verified_documented R V =
     ((\<forall>v. length (verified_user_operation.v_entry_point v) = 20 \<longrightarrow>
        ser V v = bind_ok (ssz_serialize R (v_user_operation v) []) (\<lambda>(_, inner). container R (verified_parts inner v))) \<and>
      (\<forall>v inner. length (verified_user_operation.v_entry_point v) = 20 \<longrightarrow> length (simple_serialize (verified_parts inner v)) < 2 ^ 32 \<longrightarrow>
        de V (simple_serialize (verified_parts inner v)) =
          bind_ok (ssz_deserialize R inner) (\<lambda>uo. Ok (v\<lparr>v_user_operation := uo\<rparr>))))"

definition snap_documented :: "snap \<Rightarrow> bool" where
  "snap_documented Z = (\<forall>data c. compress_vec Z data = Ok c \<longrightarrow>
     decompress_len Z c = Ok (length data) \<and> decompress_vec Z c = Ok data)"

lemma transform_round_trip:
  "snap_documented Z \<Longrightarrow> outbound_transform Z n data = Ok raw \<Longrightarrow> inbound_transform Z n raw = Ok data"
  by (auto simp: snap_documented_def outbound_transform_def inbound_transform_def split: if_splits)

section \<open>Serialization of the messages\<close>

definition verified_bytes :: "verified_user_operation \<Rightarrow> bytes" where
  "verified_bytes v = simple_serialize (verified_parts (encoded (v_user_operation v)) v)"

lemma length_verified_parts:
  "length (verified_user_operation.v_entry_point v) = 20 \<Longrightarrow> length (simple_serialize (verified_parts inner v)) = 56 + length inner"
  by (simp add: simple_serialize_def verified_parts_def)

lemma length_encoded_fit: "fields_fit uo \<Longrightarrow> length (encoded uo) < 5000"
  by (simp add: length_encoded fields_fit_def)

lemma new_verified_simps [simp]:
  "v_user_operation (new_verified uo ep b) = uo" "length (verified_user_operation.v_entry_point (new_verified uo ep b)) = 20"
  "verified_entry_point (new_verified uo ep b) = ep"
  by (simp_all add: new_verified_def verified_entry_point_def to_fixed_bytes_def address_from_slice_def
      from_to_be_bytes)

lemma ser_verified:
  assumes "ssz_documented R" "verified_documented R V" "length (verified_user_operation.v_entry_point v) = 20"
  shows "fields_fit (v_user_operation v) \<Longrightarrow> ser V v = Ok (verified_bytes v)"
    and "\<not> fields_fit (v_user_operation v) \<Longrightarrow> \<not> is_ok (ser V v)"
proof -
  have ser: "ser V v = bind_ok (ssz_serialize R (v_user_operation v) [])
      (\<lambda>(_, inner). container R (verified_parts inner v))"
    using assms(2,3) by (simp add: verified_documented_def)
  show "ser V v = Ok (verified_bytes v)" if "fields_fit (v_user_operation v)"
  proof -
    have "ssz_serialize R (v_user_operation v) [] = Ok (length (encoded (v_user_operation v)), encoded (v_user_operation v))"
      using that by (simp add: ssz_serialize_eq [OF assms(1)])
    then show ?thesis
      using ser assms(1) length_encoded_fit [OF that]
      by (simp add: ssz_documented_def verified_bytes_def length_verified_parts [OF assms(3)])
  qed
  show "\<not> is_ok (ser V v)" if "\<not> fields_fit (v_user_operation v)"
    using that ser ssz_serialize_eq [OF assms(1), of "v_user_operation v" "[]"]
    by (cases "ssz_serialize R (v_user_operation v) []") auto
qed

lemma de_verified:
  assumes "ssz_documented R" "verified_documented R V" "length (verified_user_operation.v_entry_point v) = 20"
    "fields_fit (v_user_operation v)"
  shows "de V (verified_bytes v) = Ok v"
  using assms length_encoded_fit [OF assms(4)] deserialize_encoded [OF assms(1,4)]
    length_verified_parts [OF assms(3), of "encoded (v_user_operation v)"]
  by (simp add: verified_documented_def verified_bytes_def)

section \<open>What the pools send\<close>

text \<open>The operations that a pool has asked to publish on a topic, in the order it asked.\<close>

fun gossiped_message :: "address \<Rightarrow> network_message \<Rightarrow> (verified_user_operation \<times> topic) list" where
  "gossiped_message ep (NM_Publish m) =
     (case vc_topic (pm_validation_config m) of
        Some t \<Rightarrow> [(new_verified (user_operation (pm_user_operation m)) ep (verified_at_block_hash m), t)]
      | None \<Rightarrow> [])"
| "gossiped_message ep _ = []"

definition gossiped :: "mempool_channel list \<Rightarrow> (verified_user_operation \<times> topic) list" where
  "gossiped chs = concat (map (\<lambda>ch. concat (map (gossiped_message (mc_entry_point ch)) (mc_from_pool ch))) chs)"

text \<open>What the network answers to a pool.\<close>

fun answers_message :: "(topic \<times> mempool_config) list \<Rightarrow> network_message \<Rightarrow> network_message list" where
  "answers_message cs (NM_Publish m) =
     (case (vc_topic (pm_validation_config m), cs) of
        (None, c # _) \<Rightarrow> [NM_Validate (pm_user_operation m) (validate_config c True)]
      | _ \<Rightarrow> [])"
| "answers_message cs (NM_FindNewMempool uo t) =
     (case next_mempool t False cs of Some tc \<Rightarrow> [NM_Validate uo (validate_config tc True)] | None \<Rightarrow> [])"
| "answers_message cs (NM_Validate _ _) = []"

definition answered :: "(topic \<times> mempool_config) list \<Rightarrow> mempool_channel \<Rightarrow> mempool_channel" where
  "answered cs ch = ch\<lparr>mc_to_pool := mc_to_pool ch @ concat (map (answers_message cs) (mc_from_pool ch)), mc_from_pool := []\<rparr>"

lemma handle_pool_message_eq:
  "mc_open ch \<Longrightarrow> handle_pool_message cs m (ch, uos) =
     Ok (ch\<lparr>mc_to_pool := mc_to_pool ch @ answers_message cs m\<rparr>, uos @ gossiped_message (mc_entry_point ch) m)"
  by (cases m) (auto simp: handle_pool_message_def send_to_pool_def Let_def split: option.splits list.splits)

lemma handle_pool_messages_eq:
  "mc_open ch \<Longrightarrow> handle_pool_messages cs ms (ch, uos) =
     Ok (ch\<lparr>mc_to_pool := mc_to_pool ch @ concat (map (answers_message cs) ms)\<rparr>,
         uos @ concat (map (gossiped_message (mc_entry_point ch)) ms))"
  by (induction ms arbitrary: ch uos) (simp_all add: handle_pool_message_eq)

lemma drain_channels_eq:
  "list_all mc_open chs \<Longrightarrow> drain_channels cs chs uos = Ok (map (answered cs) chs, uos @ gossiped chs)"
  by (induction chs arbitrary: uos)
     (simp_all add: handle_pool_messages_eq answered_def gossiped_def)

lemma gossiped_entry_points:
  "\<forall>(v, t)\<in>set (gossiped chs). length (verified_user_operation.v_entry_point v) = 20"
proof -
  have "(v, t) \<in> set (gossiped_message ep m) \<Longrightarrow> length (verified_user_operation.v_entry_point v) = 20" for v t ep m
    by (cases m) (auto split: option.splits)
  then show ?thesis by (auto simp: gossiped_def)
qed

lemma gossiped_intro:
  assumes "ch \<in> set chs" "NM_Publish m \<in> set (mc_from_pool ch)" "vc_topic (pm_validation_config m) = Some t"
  shows "(new_verified (user_operation (pm_user_operation m)) (mc_entry_point ch) (verified_at_block_hash m), t)
    \<in> set (gossiped chs)"
  using assms unfolding gossiped_def by (auto intro!: bexI [OF _ assms(1)] bexI [OF _ assms(2)])

section \<open>Publishing\<close>

definition sendable :: "(verified_user_operation \<times> topic) list \<Rightarrow> bool" where
  "sendable uos = list_all (\<lambda>(v, _). fields_fit (v_user_operation v)) uos"

lemma network_publish_eq:
  assumes "ssz_documented R" "verified_documented R (nl_verified L)"
    "length (verified_user_operation.v_entry_point v) = 20"
  shows "network_publish L v t N =
    (if fields_fit (v_user_operation v) then
       (case nl_gossip_publish L (nw_published N) t (verified_bytes v) of
          Inr i \<Rightarrow> Ok (Inr i, N\<lparr>nw_published := nw_published N @ [(t, verified_bytes v)]\<rparr>)
        | Inl e \<Rightarrow> Ok (Inl e, N))
     else Panic)"
  using ser_verified [OF assms] by (cases "ser (nl_verified L) v") (auto simp: network_publish_def)

text \<open>Publishing changes only what is published and the searches for peers.\<close>

definition same_but_sent :: "network \<Rightarrow> network \<Rightarrow> bool" where
  "same_but_sent N N' = (\<exists>ps ds. N' = N\<lparr>nw_published := ps, nw_discover_calls := ds\<rparr>)"

lemma same_but_sent_intros:
  "same_but_sent N N" "same_but_sent N (N\<lparr>nw_published := ps\<rparr>)"
proof -
  have "N\<lparr>nw_published := q\<rparr> = N\<lparr>nw_published := q, nw_discover_calls := nw_discover_calls N\<rparr>" for q by simp
  then show "same_but_sent N (N\<lparr>nw_published := ps\<rparr>)" unfolding same_but_sent_def by blast
  have "N = N\<lparr>nw_published := nw_published N, nw_discover_calls := nw_discover_calls N\<rparr>" by simp
  then show "same_but_sent N N" unfolding same_but_sent_def by blast
qed

lemma same_but_sent_discover: "same_but_sent N N1 \<Longrightarrow> same_but_sent N (discover_peers n N1)"
  unfolding same_but_sent_def discover_peers_def by (elim exE, intro exI) simp

lemma same_but_sent_trans: "same_but_sent N N1 \<Longrightarrow> same_but_sent N1 N2 \<Longrightarrow> same_but_sent N N2"
  unfolding same_but_sent_def by (elim exE, intro exI) simp

lemma publish_all_outcome:
  assumes "ssz_documented R" "verified_documented R (nl_verified L)"
    "\<forall>(v, t)\<in>set uos. length (verified_user_operation.v_entry_point v) = 20"
  shows "(\<not> sendable uos \<longrightarrow> publish_all L uos N = Panic) \<and>
    (sendable uos \<longrightarrow> (\<exists>N'. publish_all L uos N = Ok N' \<and> same_but_sent N N'))"
  using assms(3)
proof (induction uos arbitrary: N)
  case Nil
  show ?case by (simp add: sendable_def same_but_sent_intros)
next
  case (Cons x uos)
  obtain v t where x: "x = (v, t)" by fastforce
  have len: "length (verified_user_operation.v_entry_point v) = 20"
    using Cons.prems x by auto
  show ?case
  proof (cases "fields_fit (v_user_operation v)")
    case False
    then show ?thesis by (simp add: x sendable_def network_publish_eq [OF assms(1,2) len])
  next
    case True
    then obtain r N1 where 1: "network_publish L v t N = Ok (r, N1)" "same_but_sent N N1"
      by (cases "nl_gossip_publish L (nw_published N) t (verified_bytes v)")
        (simp_all add: network_publish_eq [OF assms(1,2) len] same_but_sent_intros)
    define N2 where "N2 = (case r of Inl InsufficientPeers \<Rightarrow> discover_peers FIND_NODE_QUERY_CLOSEST_PEERS N1 | _ \<Rightarrow> N1)"
    have "same_but_sent N N2"
      using 1(2) same_but_sent_discover by (auto simp: N2_def split: sum.splits publish_error.splits)
    moreover have "publish_all L (x # uos) N = publish_all L uos N2" by (simp add: x 1(1) N2_def)
    moreover have "sendable (x # uos) = sendable uos" using True by (simp add: x sendable_def)
    moreover have "(\<not> sendable uos \<longrightarrow> publish_all L uos N2 = Panic) \<and>
        (sendable uos \<longrightarrow> (\<exists>N'. publish_all L uos N2 = Ok N' \<and> same_but_sent N2 N'))"
      by (rule Cons.IH) (use Cons.prems in auto)
    ultimately show ?thesis by (auto intro: same_but_sent_trans)
  qed
qed

lemma publish_all_accepted:
  assumes "ssz_documented R" "verified_documented R (nl_verified L)"
    "\<forall>(v, t)\<in>set uos. length (verified_user_operation.v_entry_point v) = 20"
    "sendable uos" "\<forall>ps t b. \<exists>i. nl_gossip_publish L ps t b = Inr i"
  shows "publish_all L uos N = Ok (N\<lparr>nw_published := nw_published N @ map (\<lambda>(v, t). (t, verified_bytes v)) uos\<rparr>)"
  using assms(3,4)
proof (induction uos arbitrary: N)
  case (Cons x uos)
  obtain v t where x: "x = (v, t)" by fastforce
  then have len: "length (verified_user_operation.v_entry_point v) = 20" using Cons.prems by auto
  obtain i where "nl_gossip_publish L (nw_published N) t (verified_bytes v) = Inr i" using assms(5) by blast
  then show ?case
    using Cons x by (simp add: network_publish_eq [OF assms(1,2) len] sendable_def)
qed simp

section \<open>Receiving\<close>

definition receives :: "network_lib \<Rightarrow> network \<Rightarrow> verified_user_operation \<Rightarrow> topic \<Rightarrow> mempool_config \<Rightarrow>
    mempool_channel \<Rightarrow> mempool_channel" where
  "receives L N uo t c ch = ch\<lparr>mc_to_pool := mc_to_pool ch @
     [NM_Validate (from_user_operation_signed
        (user_operation_hash (nl_abi L) (v_user_operation uo) (mc_entry_point ch) (nw_chain N))
        (v_user_operation uo)) (validate_config (t, c) False)]\<rparr>"

lemma offer_to_channel_eq:
  assumes "mc_entry_point ch = verified_entry_point uo" "mc_open ch"
    "verified_entry_point uo \<notin> mc_entry_point ` set pre" "find (\<lambda>(t', _). t' = t) (nw_mempool_configs N) = Some (t, c)"
  shows "offer_to_channel L N uo t (pre @ ch # post) = Ok (pre @ receives L N uo t c ch # post)"
  using assms(3)
  by (induction pre) (auto simp: assms(1,2,4) send_to_pool_def receives_def)

lemma offer_to_channel_open:
  "list_all mc_open chs \<Longrightarrow> offer_to_channel L N uo t chs \<noteq> Panic"
  by (induction chs)
     (auto simp: send_to_pool_def bind_ok_def split: option.splits outcome.splits)

lemma poll_network_eq:
  assumes "list_all mc_open (nw_mempool_channels N)"
  shows "poll_network L alive evs N =
    bind_ok (publish_all L (gossiped (nw_mempool_channels N))
       (N\<lparr>nw_mempool_channels := map (answered (nw_mempool_configs N)) (nw_mempool_channels N)\<rparr>))
      (poll_swarm L alive evs)"
  using drain_channels_eq [OF assms, of "nw_mempool_configs N" "[]"]
  by (simp add: poll_network_def)

lemma gossiped_fit:
  "sendable (gossiped chs) \<longleftrightarrow>
   (\<forall>ch\<in>set chs. \<forall>m. NM_Publish m \<in> set (mc_from_pool ch) \<longrightarrow> vc_topic (pm_validation_config m) \<noteq> None \<longrightarrow>
      fields_fit (user_operation (pm_user_operation m)))"
proof -
  have msg: "list_all (\<lambda>(v, _). fields_fit (v_user_operation v)) (gossiped_message ep x) \<longleftrightarrow>
      (\<forall>m. x = NM_Publish m \<longrightarrow> vc_topic (pm_validation_config m) \<noteq> None \<longrightarrow>
         fields_fit (user_operation (pm_user_operation m)))" for ep x
    by (cases x) (auto split: option.splits)
  have "sendable (gossiped chs) \<longleftrightarrow> (\<forall>ch\<in>set chs. \<forall>x\<in>set (mc_from_pool ch).
      list_all (\<lambda>(v, _). fields_fit (v_user_operation v)) (gossiped_message (mc_entry_point ch) x))"
    by (auto simp: sendable_def gossiped_def list_all_iff)
  then show ?thesis by (auto simp: msg)
qed

lemma answered_simps [simp]:
  "mc_open (answered cs ch) = mc_open ch" "mc_entry_point (answered cs ch) = mc_entry_point ch"
  "mc_from_pool (answered cs ch) = []"
  by (simp_all add: answered_def)

section \<open>Properties\<close>

text \<open>C10: What crashes the network task. While the pools are listening, a poll that first serves the
  messages of the pools and then receives one gossip message, whatever its bytes, panics in exactly two
  cases: some pool has asked to publish, on a topic, an operation with a byte string of more than 1024
  bytes, or the deserializer of the message panics. On a message that is a well-formed container, with
  an entry point of 20 bytes and an encoded operation of less than 2 GiB, it panics exactly when the
  deserializer of the operation inside does. So one long signature from a client, or one short
  message from a peer, ends the task that serves the whole network.\<close>

theorem network_panics_iff:
  assumes "ssz_documented R" "verified_documented R (nl_verified L)" "list_all mc_open (nw_mempool_channels N)"
  shows "(poll_network L alive [SE_GossipSub (G_Message p i t data)] N = Panic \<longleftrightarrow>
      (\<exists>ch\<in>set (nw_mempool_channels N). \<exists>m. NM_Publish m \<in> set (mc_from_pool ch) \<and>
         vc_topic (pm_validation_config m) \<noteq> None \<and>
         \<not> list_all (\<lambda>bs. length bs \<le> 1024) (let uo = user_operation (pm_user_operation m) in
             [init_code uo, call_data uo, paymaster_and_data uo, signature uo])) \<or>
      de (nl_verified L) data = Panic) \<and>
    (\<forall>inner ep_bytes blk. length ep_bytes = 20 \<longrightarrow> length inner < 2 ^ 31 \<longrightarrow>
      data = simple_serialize [Byte_List inner, Byte_Vector ep_bytes, Byte_Vector (u256_bytes blk)] \<longrightarrow>
      (de (nl_verified L) data = Panic \<longleftrightarrow> ssz_deserialize R inner = Panic))"
proof -
  let ?N = "N\<lparr>nw_mempool_channels := map (answered (nw_mempool_configs N)) (nw_mempool_channels N)\<rparr>"
  have de: "de (nl_verified L) data = Panic \<longleftrightarrow> ssz_deserialize R inner = Panic"
    if "length ep_bytes = 20" "length inner < 2 ^ 31"
      "data = simple_serialize [Byte_List inner, Byte_Vector ep_bytes, Byte_Vector (u256_bytes blk)]"
    for inner ep_bytes blk
  proof -
    let ?v = "\<lparr>v_user_operation = undefined, verified_user_operation.v_entry_point = ep_bytes,
      v_verified_at_block_hash = blk\<rparr>"
    have "de (nl_verified L) (simple_serialize (verified_parts inner ?v)) =
        bind_ok (ssz_deserialize R inner) (\<lambda>uo. Ok (?v\<lparr>v_user_operation := uo\<rparr>))"
      using assms(2) that(1,2) length_verified_parts [of ?v inner] by (simp add: verified_documented_def)
    then show ?thesis using that(3) by (cases "ssz_deserialize R inner") (simp_all add: verified_parts_def)
  qed
  have out: "(\<not> sendable (gossiped (nw_mempool_channels N)) \<longrightarrow>
        publish_all L (gossiped (nw_mempool_channels N)) ?N = Panic) \<and>
      (sendable (gossiped (nw_mempool_channels N)) \<longrightarrow>
        (\<exists>N'. publish_all L (gossiped (nw_mempool_channels N)) ?N = Ok N' \<and> same_but_sent ?N N'))"
    by (rule publish_all_outcome [OF assms(1,2) gossiped_entry_points])
  have recv: "poll_swarm L alive [SE_GossipSub (G_Message p i t data)] N' = Panic \<longleftrightarrow> de (nl_verified L) data = Panic"
    if "list_all mc_open (nw_mempool_channels N')" for N'
    using offer_to_channel_open [OF that]
    by (cases "de (nl_verified L) data")
       (auto simp: handle_swarm_event_def handle_gossipsub_event_def bind_ok_def split: outcome.splits)
  have "list_all mc_open (nw_mempool_channels N')" if "same_but_sent ?N N'" for N'
    using that assms(3) by (auto simp: same_but_sent_def list_all_iff)
  then have "poll_network L alive [SE_GossipSub (G_Message p i t data)] N = Panic \<longleftrightarrow>
      \<not> sendable (gossiped (nw_mempool_channels N)) \<or> de (nl_verified L) data = Panic"
    using out recv by (cases "sendable (gossiped (nw_mempool_channels N))") (auto simp: poll_network_eq [OF assms(3)])
  then show ?thesis using de unfolding gossiped_fit fields_fit_def Let_def by blast
qed

text \<open>C9: An operation travels unchanged. Take a node whose pools ask to publish operations of sendable
  size and whose gossip accepts them, and any other node of the same chain that serves the entry point
  and the topic. Polling the first node publishes, for each operation its pools published on a topic,
  a message on that topic, and the second node turns the message into a request to validate the very
  same operation, with the stake its own configuration of the topic asks for, sent to the pool of that
  entry point and to no other.\<close>

theorem gossip_delivers:
  assumes "ssz_documented R" "verified_documented R (nl_verified L)"
    and "\<forall>ps t b. \<exists>i. nl_gossip_publish L ps t b = Inr i"
    and "list_all mc_open (nw_mempool_channels N)"
    and "\<forall>ch\<in>set (nw_mempool_channels N). \<forall>m. NM_Publish m \<in> set (mc_from_pool ch) \<longrightarrow>
       fields_fit (user_operation (pm_user_operation m))"
    and "ch \<in> set (nw_mempool_channels N)" "NM_Publish m \<in> set (mc_from_pool ch)"
      "vc_topic (pm_validation_config m) = Some t"
    and "hash (pm_user_operation m) = user_operation_hash (nl_abi L) (user_operation (pm_user_operation m))
       (mc_entry_point ch) (nw_chain M)"
    and "nw_mempool_channels M = pre @ ch' # post" "mc_entry_point ch' = mc_entry_point ch" "mc_open ch'"
      "mc_entry_point ch \<notin> mc_entry_point ` set pre"
      "find (\<lambda>(t', _). t' = t) (nw_mempool_configs M) = Some (t, c)"
  shows "\<exists>N' data e. poll_network L alive [] N = Ok (None, [], N') \<and> (t, data) \<in> set (nw_published N') \<and>
    handle_gossipsub_event L (G_Message p i t data) M = Ok (Some e, M\<lparr>nw_mempool_channels :=
      pre @ ch'\<lparr>mc_to_pool := mc_to_pool ch' @ [NM_Validate (pm_user_operation m)
        \<lparr>vc_min_stake = Some (mcfg_min_stake c), vc_min_unstake_delay = None, vc_topic = Some t,
         ignore_prev = False\<rparr>]\<rparr> # post\<rparr>)"
proof -
  let ?v = "new_verified (user_operation (pm_user_operation m)) (mc_entry_point ch) (verified_at_block_hash m)"
  let ?N = "N\<lparr>nw_mempool_channels := map (answered (nw_mempool_configs N)) (nw_mempool_channels N)\<rparr>"
  have send: "sendable (gossiped (nw_mempool_channels N))"
    using assms(5) by (simp add: gossiped_fit)
  have poll: "poll_network L alive [] N = Ok (None, [], ?N\<lparr>nw_published := nw_published N @
      map (\<lambda>(v, t). (t, verified_bytes v)) (gossiped (nw_mempool_channels N))\<rparr>)"
    by (simp add: poll_network_eq [OF assms(4)]
        publish_all_accepted [OF assms(1,2) gossiped_entry_points send assms(3)])
  have "(?v, t) \<in> set (gossiped (nw_mempool_channels N))" by (rule gossiped_intro [OF assms(6-8)])
  then have pub: "(t, verified_bytes ?v) \<in> (\<lambda>(v, t). (t, verified_bytes v)) ` set (gossiped (nw_mempool_channels N))"
    by (force simp: image_iff)
  have de: "de (nl_verified L) (verified_bytes ?v) = Ok ?v"
    using de_verified [OF assms(1,2), of ?v] assms(5-7) by simp
  have "offer_to_channel L M ?v t (nw_mempool_channels M) = Ok (pre @ receives L M ?v t c ch' # post)"
    using offer_to_channel_eq [of ch' ?v pre t M c L post] assms(10-14) by simp
  then have "handle_gossipsub_event L (G_Message p i t (verified_bytes ?v)) M =
      Ok (Some (NE_PubsubMessage p i ?v), M\<lparr>nw_mempool_channels := pre @ receives L M ?v t c ch' # post\<rparr>)"
    by (simp add: handle_gossipsub_event_def de)
  moreover have "from_user_operation_signed (user_operation_hash (nl_abi L)
      (user_operation (pm_user_operation m)) (mc_entry_point ch) (nw_chain M)) (user_operation (pm_user_operation m))
      = pm_user_operation m"
    unfolding assms(9) [symmetric] by simp
  ultimately have "handle_gossipsub_event L (G_Message p i t (verified_bytes ?v)) M =
      Ok (Some (NE_PubsubMessage p i ?v), M\<lparr>nw_mempool_channels :=
      pre @ ch'\<lparr>mc_to_pool := mc_to_pool ch' @ [NM_Validate (pm_user_operation m)
        \<lparr>vc_min_stake = Some (mcfg_min_stake c), vc_min_unstake_delay = None, vc_topic = Some t,
         ignore_prev = False\<rparr>]\<rparr> # post\<rparr>)"
    by (simp add: receives_def validate_config_def assms(11))
  moreover have "(t, verified_bytes ?v) \<in> set (nw_published (?N\<lparr>nw_published := nw_published N @
      map (\<lambda>(v, t). (t, verified_bytes v)) (gossiped (nw_mempool_channels N))\<rparr>))"
    using pub by simp
  ultimately show ?thesis using poll by blast
qed

section \<open>An operation submitted to this node\<close>

text \<open>C15: With the network enabled, an operation submitted to a node is counted twice. The pool adds the
  operation and publishes it without a topic; the network answers with a request to validate it again
  for the first canonical mempool; and when this validation accepts it, with whatever outcome, the pool
  adds it a second time. Afterwards the operation is in the pool once, but the counter of seen
  operations of its sender, factory and paymaster has grown by two for each role.\<close>

theorem local_operation_counted_twice:
  assumes "counts m k (Some \<lparr>nc_open = True, nc_sent = []\<rparr>) P" "same_entities m uo" "vc_topic (vo_val_config res) = None"
    and "nw_mempool_channels N = [ch]" "mc_open ch" "nw_mempool_configs N = (t, c) # cs"
  shows "\<exists>P1 N'. add_user_operation uo (Ok res) P = (Ok (hash uo), P1) \<and>
    poll_network L alive [] (N\<lparr>nw_mempool_channels :=
      [ch\<lparr>mc_from_pool := map NM_Publish (nc_sent (the (up_network P1)))\<rparr>]\<rparr>) = Ok (None, [], N') \<and>
    map mc_to_pool (nw_mempool_channels N') = [mc_to_pool ch @ [NM_Validate uo
      \<lparr>vc_min_stake = Some (mcfg_min_stake c), vc_min_unstake_delay = None, vc_topic = Some t, ignore_prev = True\<rparr>]] \<and>
    (\<forall>res'. \<exists>P2. add_user_operation uo (Ok res') P1 = (Ok (hash uo), P2) \<and>
       mem_ops (up_tables P2) (hash uo) = Some (user_operation uo) \<and>
       (\<forall>a. seen_count P2 a = seen_count P a + 2 * roles (user_operation uo) a))"
proof -
  let ?pm = "\<lparr>pm_user_operation = uo, verified_at_block_hash = verified_block res,
    pm_validation_config = vo_val_config res\<rparr>"
  let ?m = "(case prev_hash res of None \<Rightarrow> m | Some h \<Rightarrow> m(h := None))(hash uo \<mapsto> user_operation uo)"
  obtain P1 where P1: "add_user_operation uo (Ok res) P = (Ok (hash uo), P1)"
      "counts ?m (\<lambda>a. k a + roles (user_operation uo) a) (Some \<lparr>nc_open = True, nc_sent = [?pm]\<rparr>) P1"
    using counts_add_user_operation [OF assms(1,2), of res] by (auto simp: sent_to_def network_open_def)
  have k: "seen_count P = k" using assms(1) by (simp add: counts_def)
  have sent: "nc_sent (the (up_network P1)) = [?pm]" using P1(2) by (simp add: counts_def)
  let ?ch = "ch\<lparr>mc_from_pool := [NM_Publish ?pm]\<rparr>"
  let ?N = "N\<lparr>nw_mempool_channels := [?ch]\<rparr>"
  have "poll_network L alive [] ?N = Ok (None, [], ?N\<lparr>nw_mempool_channels := [answered ((t, c) # cs) ?ch]\<rparr>)"
    using assms(3,5,6) by (simp add: poll_network_eq gossiped_def)
  moreover have "mc_to_pool (answered ((t, c) # cs) ?ch) = mc_to_pool ch @ [NM_Validate uo
      \<lparr>vc_min_stake = Some (mcfg_min_stake c), vc_min_unstake_delay = None, vc_topic = Some t, ignore_prev = True\<rparr>]"
    using assms(3) by (simp add: answered_def validate_config_def)
  moreover have "\<exists>P2. add_user_operation uo (Ok res') P1 = (Ok (hash uo), P2) \<and>
       mem_ops (up_tables P2) (hash uo) = Some (user_operation uo) \<and>
       (\<forall>a. seen_count P2 a = seen_count P a + 2 * roles (user_operation uo) a)" for res'
  proof -
    have "same_entities ?m uo" by (simp add: same_entities_def)
    from counts_add_user_operation [OF P1(2) this, of res'] show ?thesis
      by (auto simp: counts_def k network_open_def)
  qed
  ultimately show ?thesis
    using P1(1) sent
    by (intro exI [of _ P1] exI [of _ "?N\<lparr>nw_mempool_channels := [answered ((t, c) # cs) ?ch]\<rparr>"]) simp
qed

section \<open>An instance of the libraries\<close>

definition ref_verified :: "verified_user_operation ssz_codec" where
  "ref_verified = \<lparr>
     ser = (\<lambda>v. bind_ok (ssz_serialize reference_ssz (v_user_operation v) [])
       (\<lambda>(_, inner). container reference_ssz (verified_parts inner v))),
     de = (\<lambda>bs. bind_ok (ssz_deserialize reference_ssz (drop 56 bs)) (\<lambda>uo. Ok \<lparr>v_user_operation = uo,
       verified_user_operation.v_entry_point = take 20 (drop 4 bs),
       v_verified_at_block_hash = u256_of_bytes (take 32 (drop 24 bs))\<rparr>))\<rparr>"

lemma ref_verified_documented: "verified_documented reference_ssz ref_verified"
proof -
  have "simple_serialize (verified_parts inner v) = to_le_bytes 4 (56 :: 32 word) @
      verified_user_operation.v_entry_point v @ u256_bytes (v_verified_at_block_hash v) @ inner"
    if "length (verified_user_operation.v_entry_point v) = 20" for v inner
    using that by (simp add: simple_serialize_def verified_parts_def)
  moreover have upd: "v\<lparr>v_user_operation := uo\<rparr> = \<lparr>v_user_operation = uo,
      verified_user_operation.v_entry_point = verified_user_operation.v_entry_point v,
      v_verified_at_block_hash = v_verified_at_block_hash v\<rparr>" for v :: verified_user_operation and uo
    by (cases v) simp
  ultimately show ?thesis by (simp add: verified_documented_def ref_verified_def upd)
qed

definition ref_lib :: network_lib where
  "ref_lib = \<lparr>nl_abi = sample_abi, nl_verified = ref_verified, nl_gossip_publish = (\<lambda>_ _ _. Inr [])\<rparr>"

definition sample_config :: mempool_config where
  "sample_config = with_id ''QmY'' (dev_config 1337)"

definition sample_network :: "network_message list \<Rightarrow> network" where
  "sample_network ms = \<lparr>nw_rpc = new_rpc, nw_peer_manager = new_peer_manager [],
     nw_metadata = \<lparr>seq_number = 0, supported_mempools = []\<rparr>, nw_chain = 1,
     nw_mempool_channels = [\<lparr>mc_entry_point = 1000, mc_open = True, mc_to_pool = [], mc_from_pool = ms\<rparr>],
     nw_mempool_configs = [(topic_of ''QmY'', sample_config)], nw_published = [], nw_discover_calls = [],
     nw_answers = []\<rparr>"

theorem network_panics_iff_witness:
  "poll_network ref_lib (\<lambda>_. True) [SE_GossipSub (G_Message 7 [] (topic_of ''QmY'')
     (simple_serialize [Byte_List (replicate 20 0), Byte_Vector (replicate 20 0), Byte_Vector (u256_bytes 0)]))]
     (sample_network []) = Panic"
proof -
  have "ssz_deserialize reference_ssz (replicate 20 0) = Panic"
    by (simp add: ssz_deserialize_def read_fixed [OF reference_ssz_documented])
  moreover have "length (replicate 20 0 :: bytes) = 20" "length (replicate 20 0 :: bytes) < 2 ^ 31" by simp_all
  ultimately show ?thesis
    using network_panics_iff [OF reference_ssz_documented, of ref_lib "sample_network []"] ref_verified_documented
    by (simp add: ref_lib_def sample_network_def)
qed

definition sample_published :: publish_message where
  "sample_published = \<lparr>pm_user_operation = from_user_operation_signed
      (user_operation_hash sample_abi Ssz_Codec.sample_signed 1000 1) Ssz_Codec.sample_signed,
     verified_at_block_hash = 99,
     pm_validation_config = \<lparr>vc_min_stake = None, vc_min_unstake_delay = None,
       vc_topic = Some (topic_of ''QmY''), ignore_prev = True\<rparr>\<rparr>"

theorem gossip_delivers_witness:
  "\<exists>N' data e M'. poll_network ref_lib (\<lambda>_. True) [] (sample_network [NM_Publish sample_published]) = Ok (None, [], N') \<and>
     (topic_of ''QmY'', data) \<in> set (nw_published N') \<and>
     handle_gossipsub_event ref_lib (G_Message 7 [] (topic_of ''QmY'') data) (sample_network []) = Ok (Some e, M') \<and>
     map mc_to_pool (nw_mempool_channels M') = [[NM_Validate (pm_user_operation sample_published)
       \<lparr>vc_min_stake = Some 0, vc_min_unstake_delay = None, vc_topic = Some (topic_of ''QmY''), ignore_prev = False\<rparr>]]"
proof -
  let ?N = "sample_network [NM_Publish sample_published]"
  let ?M = "sample_network []"
  have fit: "fields_fit (user_operation (pm_user_operation sample_published))"
    by (simp add: sample_published_def fields_fit_def Ssz_Codec.sample_signed_def)
  from gossip_delivers [OF reference_ssz_documented, of ref_lib ?N "hd (nw_mempool_channels ?N)" sample_published
      "topic_of ''QmY''" ?M "[]" "hd (nw_mempool_channels ?M)" "[]" sample_config "\<lambda>_. True" 7 "[]"]
  show ?thesis
    using ref_verified_documented fit
    by (force simp: ref_lib_def sample_network_def sample_published_def sample_config_def with_id_def dev_config_def)
qed

definition sample_p2p_pool :: "(memory_tables, memory_entries) uopool" where
  "sample_p2p_pool = (sample_pool 5000000)\<lparr>up_network := Some \<lparr>nc_open = True, nc_sent = []\<rparr>\<rparr>"

lemma sample_p2p_counts: "counts Map.empty (\<lambda>_. 0) (Some \<lparr>nc_open = True, nc_sent = []\<rparr>) sample_p2p_pool"
  by (simp add: counts_def sample_p2p_pool_def sample_pool_def seen_count_def empty_reputation_def entries_ok_def
      hm_wf_def hm_get_def entry_or_default_def default_with_addr_def fun_eq_iff)

theorem local_operation_counted_twice_witness:
  "\<exists>P1 P2. add_user_operation Primitives.sample_uo (Ok sample_outcome) sample_p2p_pool = (Ok 42, P1) \<and>
     add_user_operation Primitives.sample_uo (Ok sample_outcome) P1 = (Ok 42, P2) \<and>
     seen_count P2 (sender Primitives.sample_signed) = 2 * roles Primitives.sample_signed (sender Primitives.sample_signed)"
  using local_operation_counted_twice [OF sample_p2p_counts, of Primitives.sample_uo sample_outcome
      "sample_network []" "hd (nw_mempool_channels (sample_network []))" "topic_of ''QmY''" sample_config "[]"]
    sample_p2p_counts
  by (force simp: same_entities_def sample_outcome_def sample_network_def counts_def)

end
