(* ===== verification/P2p_Setup.thy ===== *)
theory P2p_Setup
  imports P2p_Network
begin

text \<open>
  Setting up the peer-to-peer network: the chain specifications (\<open>primitives/src/chain.rs\<close>), the
  configuration and the listen addresses (\<open>p2p/src/config.rs\<close>, \<open>listen_addr.rs\<close>), the key and the record of
  the node with their files (\<open>discovery/enr.rs\<close>, \<open>enr_ext.rs\<close>, \<open>service/utils.rs\<close>), \<open>Network::new\<close>
  (\<open>service/mod.rs\<close>) and the discovery of peers (\<open>discovery/mod.rs\<close>).

  libp2p, discv5, the \<open>lru\<close> cache and SHA-256 are parameters. Addresses keep their width: 32 bits for IPv4
  and 128 bits for IPv6.
\<close>

section \<open>Chains\<close>

record chain_spec =
  cs_chain :: chain_id
  cs_block_time :: nat
  cs_canonical_mempools :: "string list"

definition mainnet :: chain_spec where
  "mainnet = \<lparr>cs_chain = 1, cs_block_time = 12000, cs_canonical_mempools = []\<rparr>"

definition dev :: chain_spec where
  "dev = \<lparr>cs_chain = 1337, cs_block_time = 1000,
     cs_canonical_mempools = [''Qmf7P3CuhzSbpJa8LqXPwRzfPqsvoQ6RG7aXvthYTzGxb2'']\<rparr>"

definition sepolia :: chain_spec where
  "sepolia = \<lparr>cs_chain = 11155111, cs_block_time = 12000,
     cs_canonical_mempools = [''QmdDwVFoEEcgv5qnaTB8ncnXGMnqrhnA5nYpRr4ouWe4AT'']\<rparr>"

definition polygon :: chain_spec where
  "polygon = \<lparr>cs_chain = 137, cs_block_time = 2000,
     cs_canonical_mempools = [''QmRJ1EPhmRDb8SKrPLRXcUBi2weUN8VJ8X9zUtXByC7eJg'',
       ''QmaHG3xiRYhxTth7vSTyZCyodBDrtj5hmEMz5DuzaJVKHH'']\<rparr>"

definition polygon_mumbai :: chain_spec where
  "polygon_mumbai = \<lparr>cs_chain = 80001, cs_block_time = 2000,
     cs_canonical_mempools = [''QmQfRyE9iVTBqZ17hPSP4tuMzaez83Y5wD874ymyRtj9VE'']\<rparr>"

definition arbitrum_sepolia :: chain_spec where
  "arbitrum_sepolia = \<lparr>cs_chain = 421614, cs_block_time = 250,
     cs_canonical_mempools = [''QmVwhF77aVNzRUkMJNLDkeF9BtQMHLnfDY5ePpZ81uKLzA'']\<rparr>"

definition default_chain_spec :: "chain_id \<Rightarrow> chain_spec" where
  "default_chain_spec chain_id = \<lparr>cs_chain = chain_id, cs_block_time = 2000, cs_canonical_mempools = []\<rparr>"

definition from_chain_id :: "chain_id \<Rightarrow> chain_spec" where
  "from_chain_id chain_id =
     (if chain_id = 1 then mainnet
      else if chain_id = 1337 then dev
      else if chain_id = 11155111 then sepolia
      else if chain_id = 137 then polygon
      else if chain_id = 80001 then polygon_mumbai
      else if chain_id = 421614 then arbitrum_sepolia
      else default_chain_spec chain_id)"

section \<open>Addresses and configuration\<close>

type_synonym ipv4 = "32 word"
type_synonym ipv6 = "128 word"
type_synonym port = "16 word"
type_synonym path = string

record 'ip listen_addr =
  la_addr :: 'ip
  la_udp_port :: port
  la_tcp_port :: port

datatype listen_address = V4 "ipv4 listen_addr" | V6 "ipv6 listen_addr" | Dual "ipv4 listen_addr" "ipv6 listen_addr"

datatype listen_config = ListenIpv4 ipv4 port | ListenIpv6 ipv6 port | DualStack ipv4 port ipv6 port

datatype multiaddr_parts = Ip4 ipv4 "port option" | Ip6 ipv6 "port option"

fun to_multi_addr :: "listen_address \<Rightarrow> multiaddr_parts list" where
  "to_multi_addr (V4 v) = [Ip4 (la_addr v) (Some (la_tcp_port v))]"
| "to_multi_addr (V6 v) = [Ip6 (la_addr v) (Some (la_tcp_port v))]"
| "to_multi_addr (Dual ipv4 ipv6) =
     [Ip4 (la_addr ipv4) (Some (la_tcp_port ipv4)), Ip6 (la_addr ipv6) (Some (la_tcp_port ipv6))]"

fun to_listen_config :: "listen_address \<Rightarrow> listen_config" where
  "to_listen_config (V4 v) = ListenIpv4 (la_addr v) (la_udp_port v)"
| "to_listen_config (V6 v) = ListenIpv6 (la_addr v) (la_udp_port v)"
| "to_listen_config (Dual ipv4 ipv6) =
     DualStack (la_addr ipv4) (la_udp_port ipv4) (la_addr ipv6) (la_udp_port ipv6)"

text \<open>A node record: the public key and the values it signs.\<close>

record node_record =
  nr_public_key :: bytes
  nr_ip4 :: "ipv4 option"
  nr_ip6 :: "ipv6 option"
  nr_tcp4 :: "port option"
  nr_tcp6 :: "port option"
  nr_udp4 :: "port option"
  nr_udp6 :: "port option"
  nr_chain_id :: bytes

text \<open>The settings of gossipsub that the code makes; without a function for message ids the library has
  its own.\<close>

record gossip_config =
  gc_validate_messages :: bool
  gc_anonymous :: bool
  gc_message_id :: "(topic \<Rightarrow> bytes \<Rightarrow> bytes) option"

record p2p_config =
  pc_node_key_file :: path
  pc_node_enr_file :: path
  pc_listen_addr :: listen_address
  pc_ipv4_addr :: "ipv4 option"
  pc_ipv6_addr :: "ipv6 option"
  pc_enr_udp4_port :: "port option"
  pc_enr_tcp4_port :: "port option"
  pc_enr_udp6_port :: "port option"
  pc_enr_tcp6_port :: "port option"
  pc_gs_config :: gossip_config
  pc_discv5_config :: listen_config
  pc_chain_spec :: chain_spec
  pc_target_peers :: nat
  pc_bootnodes :: "node_record list"

definition IPV4_ADDRESS :: ipv4 where "IPV4_ADDRESS = 0"
definition UDP_PORT :: port where "UDP_PORT = 9000"
definition TCP_PORT :: port where "TCP_PORT = 9000"
definition NODE_KEY_FILE_NAME :: path where "NODE_KEY_FILE_NAME = ''p2p/node-key''"
definition NODE_ENR_FILE_NAME :: path where "NODE_ENR_FILE_NAME = ''p2p/node-enr''"

definition default_config :: p2p_config where
  "default_config = \<lparr>
     pc_node_key_file = NODE_KEY_FILE_NAME, pc_node_enr_file = NODE_ENR_FILE_NAME,
     pc_listen_addr = V4 \<lparr>la_addr = IPV4_ADDRESS, la_udp_port = UDP_PORT, la_tcp_port = TCP_PORT\<rparr>,
     pc_ipv4_addr = Some IPV4_ADDRESS, pc_ipv6_addr = None,
     pc_enr_udp4_port = Some UDP_PORT, pc_enr_tcp4_port = Some TCP_PORT,
     pc_enr_udp6_port = None, pc_enr_tcp6_port = None,
     pc_gs_config = \<lparr>gc_validate_messages = False, gc_anonymous = False, gc_message_id = None\<rparr>,
     pc_discv5_config = ListenIpv4 IPV4_ADDRESS UDP_PORT,
     pc_chain_spec = dev, pc_target_peers = TARGET_PEERS, pc_bootnodes = []\<rparr>"

section \<open>Ids of gossip messages\<close>

definition string_bytes :: "string \<Rightarrow> bytes" where
  "string_bytes s = map (\<lambda>c. of_nat (of_char c)) s"

definition MESSAGE_DOMAIN_VALID_SNAPPY :: bytes where
  "MESSAGE_DOMAIN_VALID_SNAPPY = [1, 0, 0, 0]"

definition message_id_input :: "topic \<Rightarrow> bytes \<Rightarrow> bytes" where
  "message_id_input t data =
     MESSAGE_DOMAIN_VALID_SNAPPY @ to_le_bytes 8 (of_nat (length (string_bytes t)) :: u64) @ string_bytes t @ data"

definition gossipsub_config :: "(bytes \<Rightarrow> bytes) \<Rightarrow> gossip_config" where
  "gossipsub_config sha256 = \<lparr>
     gc_validate_messages = True, gc_anonymous = True,
     gc_message_id = Some (\<lambda>t data. take 20 (sha256 (message_id_input t data)))\<rparr>"

lemma string_bytes_eq: "string_bytes s = string_bytes t \<longleftrightarrow> s = t"
proof -
  have "inj (\<lambda>c. of_nat (of_char c) :: u8)"
  proof (rule injI)
    fix c d :: char
    assume "(of_nat (of_char c) :: u8) = of_nat (of_char d)"
    then have "unat (of_nat (of_char c) :: u8) = unat (of_nat (of_char d) :: u8)" by simp
    then show "c = d" by (simp add: unat_of_nat)
  qed
  then show ?thesis by (simp add: string_bytes_def inj_map_eq_map)
qed

text \<open>The hash that becomes the id of a gossip message is taken over a string that determines the
  topic and the data: different messages have the same id only where the first twenty bytes of SHA-256
  collide.\<close>

theorem message_id_unambiguous:
  assumes "message_id_input t data = message_id_input t' data'"
    and "length t < 2 ^ 64" and "length t' < 2 ^ 64"
  shows "t = t' \<and> data = data'"
proof -
  let ?n = "\<lambda>t. of_nat (length (string_bytes t)) :: u64"
  have len: "to_le_bytes 8 (?n t) = to_le_bytes 8 (?n t')"
    and rest: "string_bytes t @ data = string_bytes t' @ data'"
    using assms(1) by (simp_all add: message_id_input_def)
  have inverse: "from_le_bytes (to_le_bytes 8 w) = w" for w :: u64
    by (rule from_to_le_bytes) simp_all
  have "?n t = ?n t'" by (metis inverse len)
  then have "unat (?n t) = unat (?n t')" by (rule arg_cong)
  moreover have "unat (?n s) = length s" if "length s < 2 ^ 64" for s
    using that by (simp add: unat_of_nat string_bytes_def)
  ultimately have "length (string_bytes t) = length (string_bytes t')"
    using assms(2,3) by (metis string_bytes_def length_map)
  with rest show ?thesis by (simp add: string_bytes_eq)
qed

theorem message_id_unambiguous_witness:
  "message_id_input (topic_of ''a'') [1] = message_id_input (topic_of ''a'') [1] \<and> topic_of ''a'' = topic_of ''a'' \<and> [1] = [1 :: u8]"
  using message_id_unambiguous [of "topic_of ''a''" "[1]" "topic_of ''a''" "[1]"] by (simp add: topic_of_def)

section \<open>Keys, records and their files\<close>

record keypair =
  kp_is_secp256k1 :: bool
  kp_secret :: bytes

text \<open>
  What the set-up uses of libp2p, discv5 and the file system. \<open>sl_enr_builds\<close> says that a record is within
  the size that discv5 allows, \<open>sl_writable\<close> that a file and its directory can be written.
\<close>

record setup_lib =
  sl_public_key :: "keypair \<Rightarrow> bytes"
  sl_decode_keypair :: "bytes \<Rightarrow> keypair option"
  sl_encode_keypair :: "keypair \<Rightarrow> bytes option"
  sl_secret_of_bytes :: "bytes \<Rightarrow> keypair option"
  sl_enr_of_text :: "bytes \<Rightarrow> node_record option"
  sl_enr_to_text :: "node_record \<Rightarrow> bytes"
  sl_enr_builds :: "node_record \<Rightarrow> bool"
  sl_writable :: "path \<Rightarrow> bool"
  sl_peer_id :: "bytes \<Rightarrow> peer_id"
  sl_multiaddr :: "multiaddr_parts \<Rightarrow> multiaddr"
  sl_subscribe :: "topic hash_set \<Rightarrow> topic \<Rightarrow> bool"
  sl_discv5 :: "node_record \<Rightarrow> keypair \<Rightarrow> listen_config \<Rightarrow> (string, unit) outcome"

type_synonym files = "(path, bytes) hash_map"

definition enr_multiaddrs :: "setup_lib \<Rightarrow> node_record \<Rightarrow> multiaddr list" where
  "enr_multiaddrs L r = (case nr_ip4 r of Some ipv4 \<Rightarrow> [sl_multiaddr L (Ip4 ipv4 (nr_tcp4 r))] | None \<Rightarrow> [])"

definition enr_of_record :: "setup_lib \<Rightarrow> node_record \<Rightarrow> enr" where
  "enr_of_record L r = \<lparr>enr_peer_id = sl_peer_id L (nr_public_key r), enr_multiaddr = enr_multiaddrs L r\<rparr>"

definition keypair_to_combined :: "keypair \<Rightarrow> (string, keypair) outcome" where
  "keypair_to_combined key = (if kp_is_secp256k1 key then Ok key else Err ''libp2p key must be secp256k1'')"

definition build_enr :: "setup_lib \<Rightarrow> keypair \<Rightarrow> p2p_config \<Rightarrow> (string, node_record) outcome" where
  "build_enr L key config =
     (let r = \<lparr>nr_public_key = sl_public_key L key, nr_ip4 = pc_ipv4_addr config, nr_ip6 = pc_ipv6_addr config,
        nr_tcp4 = pc_enr_tcp4_port config, nr_tcp6 = pc_enr_tcp6_port config,
        nr_udp4 = pc_enr_udp4_port config, nr_udp6 = pc_enr_udp6_port config,
        nr_chain_id = to_le_bytes 8 (cs_chain (pc_chain_spec config))\<rparr>
      in if sl_enr_builds L r then Ok r else Err ''enr'')"

definition load_enr_from_file :: "setup_lib \<Rightarrow> path \<Rightarrow> files \<Rightarrow> (string, node_record option) outcome" where
  "load_enr_from_file L path files =
     (case hm_get files path of
        Some content \<Rightarrow> bind_ok (expect (sl_enr_of_text L content)) (\<lambda>enr. Ok (Some enr))
      | None \<Rightarrow> Ok None)"

definition save_enr_to_file :: "setup_lib \<Rightarrow> node_record \<Rightarrow> path \<Rightarrow> (files, string, unit) op" where
  "save_enr_to_file L enr path files =
     (if sl_writable L path then (Ok (), hm_insert path (sl_enr_to_text L enr) files) else (Panic, files))"

definition load_private_key_from_file :: "setup_lib \<Rightarrow> path \<Rightarrow> files \<Rightarrow> (string, keypair option) outcome" where
  "load_private_key_from_file L path files =
     (case hm_get files path of
        Some content \<Rightarrow> bind_ok (expect (sl_decode_keypair L content)) (\<lambda>key. Ok (Some key))
      | None \<Rightarrow> Ok None)"

definition save_private_key_to_file :: "setup_lib \<Rightarrow> keypair \<Rightarrow> path \<Rightarrow> (files, string, unit) op" where
  "save_private_key_to_file L key path files =
     (case sl_encode_keypair L key of
        Some content \<Rightarrow> if sl_writable L path then (Ok (), hm_insert path content files) else (Panic, files)
      | None \<Rightarrow> (Panic, files))"

text \<open>
  The key and the record of the node in \<open>Network::new\<close>. \<open>seed\<close> is the variable \<open>P2P_SEED\<close> and \<open>generated\<close> the
  key that libp2p generates.
\<close>

definition node_key :: "setup_lib \<Rightarrow> bytes option \<Rightarrow> keypair \<Rightarrow> p2p_config \<Rightarrow> (files, string, keypair) op" where
  "node_key L seed generated config =
     bind_op (query (load_private_key_from_file L (pc_node_key_file config))) (\<lambda>stored.
     case stored of
       Some key \<Rightarrow> ret key
     | None \<Rightarrow> (case seed of
         Some bytes \<Rightarrow> query (\<lambda>_. expect (sl_secret_of_bytes L bytes))
       | None \<Rightarrow> bind_op (save_private_key_to_file L generated (pc_node_key_file config)) (\<lambda>_. ret generated)))"

definition node_enr :: "setup_lib \<Rightarrow> keypair \<Rightarrow> p2p_config \<Rightarrow> (files, string, node_record) op" where
  "node_enr L key config =
     bind_op (query (load_enr_from_file L (pc_node_enr_file config))) (\<lambda>stored.
     case (case stored of Some enr \<Rightarrow> if nr_ip4 enr = pc_ipv4_addr config then Some enr else None | None \<Rightarrow> None) of
       Some enr \<Rightarrow> ret enr
     | None \<Rightarrow> (case build_enr L key config of
         Ok enr \<Rightarrow> bind_op (save_enr_to_file L enr (pc_node_enr_file config)) (\<lambda>_. ret enr)
       | _ \<Rightarrow> query (\<lambda>_. Panic)))"

definition node_identity ::
  "setup_lib \<Rightarrow> bytes option \<Rightarrow> keypair \<Rightarrow> p2p_config \<Rightarrow> (files, string, keypair \<times> node_record) op" where
  "node_identity L seed generated config =
     bind_op (node_key L seed generated config) (\<lambda>key.
     bind_op (query (\<lambda>_. case keypair_to_combined key of Ok k \<Rightarrow> Ok k | _ \<Rightarrow> Panic)) (\<lambda>combined_key.
     bind_op (node_enr L combined_key config) (\<lambda>enr. ret (key, enr))))"

text \<open>What is written can be read back.\<close>

definition setup_documented :: "setup_lib \<Rightarrow> bool" where
  "setup_documented L \<longleftrightarrow>
     (\<forall>key content. sl_encode_keypair L key = Some content \<longrightarrow> sl_decode_keypair L content = Some key) \<and>
     (\<forall>r. sl_enr_of_text L (sl_enr_to_text L r) = Some r)"

lemma combined_key: "keypair_to_combined key = Ok k \<Longrightarrow> k = key"
  by (simp add: keypair_to_combined_def split: if_splits)

lemma node_key_again:
  assumes "setup_documented L" and "node_key L None g C files = (Ok key, files')"
    and "hm_get files'' (pc_node_key_file C) = hm_get files' (pc_node_key_file C)"
    and "pc_node_key_file C' = pc_node_key_file C"
  shows "node_key L seed g' C' files'' = (Ok key, files'')"
  using assms
  by (auto simp: node_key_def bind_op_def load_private_key_from_file_def save_private_key_to_file_def expect_def
      setup_documented_def split: option.splits if_splits prod.splits)

lemma node_enr_cases:
  assumes "node_enr L key C files = (Ok enr, files')"
  obtains (stored) "load_enr_from_file L (pc_node_enr_file C) files = Ok (Some enr)"
      "nr_ip4 enr = pc_ipv4_addr C" "files' = files"
    | (built) "build_enr L key C = Ok enr" "save_enr_to_file L enr (pc_node_enr_file C) files = (Ok (), files')"
proof (cases "load_enr_from_file L (pc_node_enr_file C) files")
  case (Ok s)
  let ?kept = "case s of Some enr \<Rightarrow> if nr_ip4 enr = pc_ipv4_addr C then Some enr else None | None \<Rightarrow> None"
  show ?thesis
  proof (cases ?kept)
    case None
    then have *: "(case build_enr L key C of
        Ok enr \<Rightarrow> bind_op (save_enr_to_file L enr (pc_node_enr_file C)) (\<lambda>_. ret enr)
      | _ \<Rightarrow> query (\<lambda>_. Panic)) files = (Ok enr, files')"
      using assms by (simp only: node_enr_def bind_op_query Ok outcome.case option.case)
    show ?thesis
    proof (cases "build_enr L key C")
      case (Ok e)
      with * have "save_enr_to_file L e (pc_node_enr_file C) files = (Ok (), files')" "e = enr"
        by (auto simp: bind_op_eq_Ok)
      with Ok show ?thesis using built by simp
    qed (use * in simp_all)
  next
    case (Some e)
    then have "node_enr L key C files = (Ok e, files)"
      by (simp only: node_enr_def bind_op_query Ok outcome.case option.case ret_apply)
    with assms have "e = enr" "files' = files" by simp_all
    moreover have "s = Some e \<and> nr_ip4 e = pc_ipv4_addr C"
      using Some by (cases s) (simp_all split: if_splits)
    ultimately show ?thesis using Ok stored by simp
  qed
qed (use assms in \<open>simp_all add: node_enr_def bind_op_query\<close>)

lemma node_enr_again:
  assumes "setup_documented L" and "node_enr L key C files = (Ok enr, files')"
    and "pc_node_enr_file C' = pc_node_enr_file C" and "pc_ipv4_addr C' = pc_ipv4_addr C"
  shows "node_enr L key' C' files' = (Ok enr, files')"
proof -
  have "load_enr_from_file L (pc_node_enr_file C) files' = Ok (Some enr) \<and> nr_ip4 enr = pc_ipv4_addr C"
    using assms(2)
  proof (cases rule: node_enr_cases)
    case built
    then show ?thesis using assms(1)
      by (auto simp: save_enr_to_file_def load_enr_from_file_def build_enr_def Let_def setup_documented_def expect_def
          split: if_splits)
  qed simp
  then show ?thesis using assms(3,4) by (simp add: node_enr_def bind_op_query)
qed

lemma node_enr_frame:
  assumes "node_enr L key C files = (Ok enr, files')" and "path \<noteq> pc_node_enr_file C"
  shows "hm_get files' path = hm_get files path"
  using assms(1)
proof (cases rule: node_enr_cases)
  case built
  then show ?thesis using assms(2) by (auto simp: save_enr_to_file_def split: if_splits)
qed simp

text \<open>A node keeps its identity over a restart: once it has started, it starts again from its files
  with the same key and the same record and writes nothing, whatever key libp2p would generate. Only the
  paths and the IPv4 address of the configuration matter: a change of the ports or of the chain does not
  reach the record that the node announces.\<close>

theorem identity_survives_restart:
  assumes "setup_documented L" and "node_identity L None generated C files = (Ok (key, enr), files')"
    and "pc_node_key_file C \<noteq> pc_node_enr_file C"
    and "pc_node_key_file C' = pc_node_key_file C" and "pc_node_enr_file C' = pc_node_enr_file C"
    and "pc_ipv4_addr C' = pc_ipv4_addr C"
  shows "node_identity L seed generated' C' files' = (Ok (key, enr), files')"
proof -
  obtain k files1 where k: "node_key L None generated C files = (Ok key, files1)"
      "keypair_to_combined key = Ok k" "node_enr L k C files1 = (Ok enr, files')"
  proof -
    obtain key' files1 where "node_key L None generated C files = (Ok key', files1)"
      and *: "bind_op (query (\<lambda>_. case keypair_to_combined key' of Ok k \<Rightarrow> Ok k | _ \<Rightarrow> Panic)) (\<lambda>combined_key.
        bind_op (node_enr L combined_key C) (\<lambda>enr. ret (key', enr))) files1 = (Ok (key, enr), files')"
      using assms(2) by (auto simp: node_identity_def bind_op_eq_Ok [of "node_key _ _ _ _"])
    then show thesis using that by (cases "keypair_to_combined key'") (auto simp: bind_op_eq_Ok)
  qed
  have "node_key L seed generated' C' files' = (Ok key, files')"
    by (rule node_key_again [OF assms(1) k(1) node_enr_frame [OF k(3) assms(3)] assms(4)])
  then show ?thesis
    using node_enr_again [OF assms(1) k(3) assms(5,6)] k(2) by (simp add: node_identity_def bind_op_def)
qed

text \<open>A library that satisfies the documentation: fields are written one after the other.\<close>

fun put_bytes :: "bytes \<Rightarrow> bytes" where
  "put_bytes [] = [0]"
| "put_bytes (b # bs) = 1 # b # put_bytes bs"

fun get_bytes :: "bytes \<Rightarrow> bytes \<times> bytes" where
  "get_bytes (t # b # r) = (if t = 0 then ([], b # r) else case get_bytes r of (bs, q) \<Rightarrow> (b # bs, q))"
| "get_bytes _ = ([], [])"

lemma get_put_bytes: "get_bytes (put_bytes bs @ r) = (bs, r)"
proof (induction bs)
  case Nil
  then show ?case by (cases r) simp_all
qed simp

definition put_word :: "nat \<Rightarrow> 'a::len word option \<Rightarrow> bytes" where
  "put_word n w = put_bytes (case w of Some w \<Rightarrow> to_be_bytes n w | None \<Rightarrow> [])"

definition get_word :: "bytes \<Rightarrow> 'a::len word option \<times> bytes" where
  "get_word s = (case get_bytes s of (bs, r) \<Rightarrow> (if bs = [] then None else Some (from_be_bytes bs), r))"

lemma get_put_word:
  assumes "8 * n = LENGTH('a)" and "0 < n"
  shows "get_word (put_word n (w :: 'a::len word option) @ r) = (w, r)"
proof -
  have "to_be_bytes n v \<noteq> []" for v :: "'a word"
    using assms(2) by (metis length_to_be_bytes length_greater_0_conv)
  then show ?thesis
    using assms by (simp add: get_word_def put_word_def get_put_bytes from_to_be_bytes split: option.split)
qed

definition ref_enr_to_text :: "node_record \<Rightarrow> bytes" where
  "ref_enr_to_text r =
     put_bytes (nr_public_key r) @ put_word 4 (nr_ip4 r) @ put_word 16 (nr_ip6 r) @ put_word 2 (nr_tcp4 r) @
     put_word 2 (nr_tcp6 r) @ put_word 2 (nr_udp4 r) @ put_word 2 (nr_udp6 r) @ put_bytes (nr_chain_id r)"

definition ref_enr_of_text :: "bytes \<Rightarrow> node_record option" where
  "ref_enr_of_text s =
     (let (key, s) = get_bytes s; (ip4, s) = get_word s; (ip6, s) = get_word s; (tcp4, s) = get_word s;
        (tcp6, s) = get_word s; (udp4, s) = get_word s; (udp6, s) = get_word s; (chain, s) = get_bytes s
      in Some \<lparr>nr_public_key = key, nr_ip4 = ip4, nr_ip6 = ip6, nr_tcp4 = tcp4, nr_tcp6 = tcp6,
        nr_udp4 = udp4, nr_udp6 = udp6, nr_chain_id = chain\<rparr>)"

definition ref_setup :: setup_lib where
  "ref_setup = \<lparr>
     sl_public_key = kp_secret, sl_decode_keypair = (\<lambda>b. Some \<lparr>kp_is_secp256k1 = hd b = 1, kp_secret = tl b\<rparr>),
     sl_encode_keypair = (\<lambda>k. Some ((if kp_is_secp256k1 k then 1 else 0) # kp_secret k)),
     sl_secret_of_bytes = (\<lambda>b. Some \<lparr>kp_is_secp256k1 = True, kp_secret = b\<rparr>),
     sl_enr_of_text = ref_enr_of_text, sl_enr_to_text = ref_enr_to_text, sl_enr_builds = (\<lambda>_. True),
     sl_writable = (\<lambda>_. True), sl_peer_id = length, sl_multiaddr = (\<lambda>_. ''/ip4''),
     sl_subscribe = (\<lambda>allowed t. t \<in> set allowed), sl_discv5 = (\<lambda>_ _ _. Ok ())\<rparr>"

lemma ref_enr_text: "ref_enr_of_text (ref_enr_to_text r) = Some r"
  using get_put_bytes [of "nr_chain_id r" "[]"]
  by (simp add: ref_enr_of_text_def ref_enr_to_text_def get_put_bytes get_put_word)

lemma ref_setup_documented: "setup_documented ref_setup"
  by (auto simp: setup_documented_def ref_setup_def ref_enr_text)

definition sample_key :: keypair where
  "sample_key = \<lparr>kp_is_secp256k1 = True, kp_secret = [7]\<rparr>"

definition sample_record :: node_record where
  "sample_record = \<lparr>nr_public_key = [7], nr_ip4 = Some 0, nr_ip6 = None, nr_tcp4 = Some 9000, nr_tcp6 = None,
     nr_udp4 = Some 9000, nr_udp6 = None, nr_chain_id = to_le_bytes 8 (1337 :: u64)\<rparr>"

lemma default_paths: "pc_node_key_file default_config \<noteq> pc_node_enr_file default_config"
  by (simp add: default_config_def NODE_KEY_FILE_NAME_def NODE_ENR_FILE_NAME_def)

lemma sample_identity:
  "\<exists>files. node_identity ref_setup None sample_key default_config [] = (Ok (sample_key, sample_record), files)"
  using default_paths
  by (simp add: node_identity_def node_key_def node_enr_def bind_op_def load_private_key_from_file_def
      save_private_key_to_file_def load_enr_from_file_def save_enr_to_file_def build_enr_def keypair_to_combined_def
      ref_setup_def sample_key_def sample_record_def)
    (simp add: default_config_def dev_def IPV4_ADDRESS_def TCP_PORT_def UDP_PORT_def)

text \<open>A node moved to port 9100 and to Sepolia still announces port 9000 and the chain for development.\<close>

theorem identity_survives_restart_witness:
  "\<exists>files. node_identity ref_setup None sample_key default_config [] = (Ok (sample_key, sample_record), files) \<and>
     node_identity ref_setup None \<lparr>kp_is_secp256k1 = True, kp_secret = [8]\<rparr>
       (default_config\<lparr>pc_enr_tcp4_port := Some 9100, pc_chain_spec := sepolia\<rparr>) files =
       (Ok (sample_key, sample_record), files)"
proof -
  let ?C' = "default_config\<lparr>pc_enr_tcp4_port := Some 9100, pc_chain_spec := sepolia\<rparr>"
  obtain files where
    first: "node_identity ref_setup None sample_key default_config [] = (Ok (sample_key, sample_record), files)"
    using sample_identity by blast
  from identity_survives_restart [OF ref_setup_documented this default_paths, of ?C' None] first
  show ?thesis by auto
qed

section \<open>Discovery\<close>

text \<open>
  The calls to discv5 and the least-recently-used cache of the crate \<open>lru\<close>, whose values are in \<open>'c\<close>.
  A cache has at most one entry for a key and at most as many entries as its capacity; inserting may
  drop other entries.
\<close>

datatype discv5_call = AddEnr node_record | DisconnectNode peer_id | FindNode nat

record 'c lru =
  lru_new :: "nat \<Rightarrow> 'c"
  lru_cap :: "'c \<Rightarrow> nat"
  lru_put :: "peer_id \<Rightarrow> enr \<Rightarrow> 'c \<Rightarrow> 'c"
  lru_pop :: "peer_id \<Rightarrow> 'c \<Rightarrow> 'c"
  lru_iter :: "'c \<Rightarrow> (peer_id \<times> enr) list"

definition lru_ok :: "'c lru \<Rightarrow> 'c \<Rightarrow> bool" where
  "lru_ok L c \<longleftrightarrow> distinct (map fst (lru_iter L c)) \<and> length (lru_iter L c) \<le> lru_cap L c"

definition lru_documented :: "'c lru \<Rightarrow> bool" where
  "lru_documented L \<longleftrightarrow>
     (\<forall>cap. lru_iter L (lru_new L cap) = [] \<and> lru_cap L (lru_new L cap) = cap) \<and>
     (\<forall>c k v. 0 < lru_cap L c \<and> lru_ok L c \<longrightarrow>
        lru_ok L (lru_put L k v c) \<and> lru_cap L (lru_put L k v c) = lru_cap L c \<and>
        (k, v) \<in> set (lru_iter L (lru_put L k v c)) \<and>
        set (lru_iter L (lru_put L k v c)) \<subseteq> insert (k, v) {e \<in> set (lru_iter L c). fst e \<noteq> k}) \<and>
     (\<forall>c k. lru_ok L c \<longrightarrow>
        lru_ok L (lru_pop L k c) \<and> lru_cap L (lru_pop L k c) = lru_cap L c \<and>
        set (lru_iter L (lru_pop L k c)) = {e \<in> set (lru_iter L c). fst e \<noteq> k})"

datatype event_stream = Awaiting | Present | InActive

record 'c discovery =
  ds_calls :: "discv5_call list"
  ds_active_queries :: nat
  ds_cached_enrs :: 'c
  ds_event_stream :: event_stream

definition CACHED_ENRS :: nat where "CACHED_ENRS = 50"

definition new_discovery ::
  "setup_lib \<Rightarrow> 'c lru \<Rightarrow> keypair \<Rightarrow> p2p_config \<Rightarrow> node_record \<Rightarrow> peer_id \<Rightarrow> (string, 'c discovery) outcome" where
  "new_discovery L R key config enr local_peer =
     bind_ok (sl_discv5 L enr key (pc_discv5_config config)) (\<lambda>_.
     Ok \<lparr>ds_calls = map AddEnr (filter (\<lambda>b. sl_peer_id L (nr_public_key b) \<noteq> local_peer) (pc_bootnodes config)),
       ds_active_queries = 0, ds_cached_enrs = lru_new R CACHED_ENRS, ds_event_stream = Awaiting\<rparr>)"

definition ds_discover_peers :: "nat \<Rightarrow> 'c discovery \<Rightarrow> 'c discovery" where
  "ds_discover_peers target_peers D =
     D\<lparr>ds_calls := ds_calls D @ [FindNode target_peers], ds_active_queries := ds_active_queries D + 1\<rparr>"

definition remove_enr :: "'c lru \<Rightarrow> peer_id \<Rightarrow> 'c discovery \<Rightarrow> 'c discovery" where
  "remove_enr R p D = D\<lparr>ds_cached_enrs := lru_pop R p (ds_cached_enrs D)\<rparr>"

text \<open>\<open>known\<close> says whether the key type of a peer has a node id.\<close>

definition disconnect_peer :: "'c lru \<Rightarrow> (peer_id \<Rightarrow> bool) \<Rightarrow> peer_id \<Rightarrow> 'c discovery \<Rightarrow> 'c discovery" where
  "disconnect_peer R known p D =
     remove_enr R p (if known p then D\<lparr>ds_calls := ds_calls D @ [DisconnectNode p]\<rparr> else D)"

datatype dial_error =
  LocalPeerId | Denied | NoAddresses | TransportError | WrongPeerId | DialPeerConditionFalse | Aborted

definition ds_on_dial_failure ::
  "'c lru \<Rightarrow> (peer_id \<Rightarrow> bool) \<Rightarrow> peer_id option \<Rightarrow> dial_error \<Rightarrow> 'c discovery \<Rightarrow> 'c discovery" where
  "ds_on_dial_failure R known peer e D =
     (case peer of
        Some p \<Rightarrow> if e \<in> {DialPeerConditionFalse, Aborted} then D else disconnect_peer R known p D
      | None \<Rightarrow> D)"

text \<open>
  Polling: \<open>ready\<close> are the results of the queries that have ended, \<open>stream\<close> the result of awaiting the
  event stream, if there is one. The events of a present stream are read and ignored. What is left of
  \<open>ready\<close> is returned.
\<close>

fun poll_queries ::
  "'c lru \<Rightarrow> (string, enr list) outcome list \<Rightarrow> 'c discovery \<Rightarrow>
   (enr list option \<times> (string, enr list) outcome list) \<times> 'c discovery" where
  "poll_queries R [] D = ((None, []), D)"
| "poll_queries R (Ok peers # ready) D =
     ((Some peers, ready),
      D\<lparr>ds_active_queries := ds_active_queries D - 1,
        ds_cached_enrs := fold (\<lambda>e. lru_put R (enr_peer_id e) e) peers (ds_cached_enrs D)\<rparr>)"
| "poll_queries R (_ # ready) D = poll_queries R ready (D\<lparr>ds_active_queries := ds_active_queries D - 1\<rparr>)"

definition ds_poll ::
  "'c lru \<Rightarrow> (string, enr list) outcome list \<Rightarrow> bool option \<Rightarrow> 'c discovery \<Rightarrow>
   (enr list option \<times> (string, enr list) outcome list) \<times> 'c discovery" where
  "ds_poll R ready stream D =
     (case poll_queries R ready D of
        ((Some peers, rest), D) \<Rightarrow> ((Some peers, rest), D)
      | ((None, rest), D) \<Rightarrow>
          ((None, rest),
           case (ds_event_stream D, stream) of
             (Awaiting, Some True) \<Rightarrow> D\<lparr>ds_event_stream := Present\<rparr>
           | (Awaiting, Some False) \<Rightarrow> D\<lparr>ds_event_stream := InActive\<rparr>
           | _ \<Rightarrow> D))"

text \<open>The life of the behaviour: the swarm polls it and reports failed dials; the network asks it to
  discover and to forget.\<close>

inductive discovery_step :: "'c lru \<Rightarrow> (peer_id \<Rightarrow> bool) \<Rightarrow> 'c discovery \<Rightarrow> 'c discovery \<Rightarrow> bool"
  for R known where
  polls: "ds_poll R ready stream D = (out, D') \<Longrightarrow> discovery_step R known D D'"
| discovers: "discovery_step R known D (ds_discover_peers n D)"
| forgets: "discovery_step R known D (remove_enr R p D)"
| disconnects: "discovery_step R known D (disconnect_peer R known p D)"
| dial_fails: "discovery_step R known D (ds_on_dial_failure R known peer e D)"

definition cache_ok :: "'c lru \<Rightarrow> 'c \<Rightarrow> bool" where
  "cache_ok R c \<longleftrightarrow> lru_ok R c \<and> lru_cap R c = 50 \<and> (\<forall>(p, e) \<in> set (lru_iter R c). enr_peer_id e = p)"

lemma cache_ok_put:
  assumes "lru_documented R" and "cache_ok R c"
  shows "cache_ok R (lru_put R (enr_peer_id e) e c)"
proof -
  let ?c = "lru_put R (enr_peer_id e) e c"
  have "0 < lru_cap R c \<and> lru_ok R c" using assms(2) by (simp add: cache_ok_def)
  then have "lru_ok R ?c" "lru_cap R ?c = lru_cap R c" "set (lru_iter R ?c) \<subseteq> insert (enr_peer_id e, e) (set (lru_iter R c))"
    using assms(1) unfolding lru_documented_def by blast+
  then show ?thesis using assms(2) by (auto simp: cache_ok_def)
qed

lemma cache_ok_puts:
  assumes "lru_documented R" and "cache_ok R c"
  shows "cache_ok R (fold (\<lambda>e. lru_put R (enr_peer_id e) e) es c)"
  using assms(2) by (induction es arbitrary: c) (simp_all add: cache_ok_put [OF assms(1)])

lemma cache_ok_pop:
  assumes "lru_documented R" and "cache_ok R c"
  shows "cache_ok R (lru_pop R p c) \<and> p \<notin> fst ` set (lru_iter R (lru_pop R p c))"
proof -
  have "lru_ok R (lru_pop R p c)" "lru_cap R (lru_pop R p c) = lru_cap R c"
      "set (lru_iter R (lru_pop R p c)) = {e \<in> set (lru_iter R c). fst e \<noteq> p}"
    using assms unfolding cache_ok_def lru_documented_def by blast+
  then show ?thesis using assms(2) by (auto simp: cache_ok_def)
qed

lemma poll_queries_cache:
  assumes "lru_documented R" and "cache_ok R (ds_cached_enrs D)"
  shows "cache_ok R (ds_cached_enrs (snd (poll_queries R ready D)))"
  using assms(2)
proof (induction ready arbitrary: D)
  case (Cons r ready)
  then show ?case by (cases r) (simp_all add: cache_ok_puts [OF assms(1)])
qed simp

lemma discovery_step_cache:
  assumes "lru_documented R" and "discovery_step R known D D'" and "cache_ok R (ds_cached_enrs D)"
  shows "cache_ok R (ds_cached_enrs D')"
  using assms(2)
proof cases
  case (polls ready stream out)
  have "ds_cached_enrs D' = ds_cached_enrs (snd (poll_queries R ready D))"
    using polls by (auto simp: ds_poll_def split: prod.splits option.splits event_stream.splits bool.splits)
  then show ?thesis using poll_queries_cache [OF assms(1,3)] by simp
qed (use assms(1,3) in \<open>auto simp: ds_discover_peers_def remove_enr_def disconnect_peer_def ds_on_dial_failure_def
    cache_ok_pop split: option.split\<close>)

text \<open>The cache of discovered records is well-formed in every state of the discovery behaviour: at
  most 50 records, at most one for a peer, each under the peer its key gives. A peer that is disconnected,
  or that a dial did not reach, is not in it.\<close>

theorem discovery_cache_well_formed:
  assumes "lru_documented R" and "new_discovery L R key config enr local_peer = Ok D"
    and "(discovery_step R known)\<^sup>*\<^sup>* D D'"
  shows "cache_ok R (ds_cached_enrs D') \<and>
    p \<notin> fst ` set (lru_iter R (ds_cached_enrs (disconnect_peer R known p D'))) \<and>
    (e \<in> {LocalPeerId, Denied, NoAddresses, TransportError, WrongPeerId} \<longrightarrow>
      p \<notin> fst ` set (lru_iter R (ds_cached_enrs (ds_on_dial_failure R known (Some p) e D'))))"
proof -
  have "cache_ok R (ds_cached_enrs D)"
    using assms(1,2) by (auto simp: new_discovery_def bind_ok_eq_Ok cache_ok_def lru_ok_def lru_documented_def CACHED_ENRS_def)
  with assms(3) have "cache_ok R (ds_cached_enrs D')"
    by (induction rule: rtranclp_induct) (auto intro: discovery_step_cache [OF assms(1)])
  then show ?thesis
    using cache_ok_pop [OF assms(1)] by (auto simp: disconnect_peer_def remove_enr_def ds_on_dial_failure_def)
qed

definition ref_lru :: "(nat \<times> (peer_id \<times> enr) list) lru" where
  "ref_lru = \<lparr>
     lru_new = (\<lambda>cap. (cap, [])), lru_cap = fst,
     lru_put = (\<lambda>k v (cap, es). (cap, take cap ((k, v) # filter (\<lambda>e. fst e \<noteq> k) es))),
     lru_pop = (\<lambda>k (cap, es). (cap, filter (\<lambda>e. fst e \<noteq> k) es)), lru_iter = snd\<rparr>"

lemma distinct_keys_filter: "distinct (map fst es) \<Longrightarrow> distinct (map fst (filter P es))"
  by (simp add: distinct_map_filter)

lemma ref_lru_documented: "lru_documented ref_lru"
proof -
  have put: "lru_ok ref_lru (cap, take cap ((k, v) # filter (\<lambda>e. fst e \<noteq> k) es))"
    if "distinct (map fst es)" for cap k v and es :: "(peer_id \<times> enr) list"
  proof -
    have "distinct (map fst ((k, v) # filter (\<lambda>e. fst e \<noteq> k) es))" using that by (auto simp: distinct_keys_filter)
    then show ?thesis by (simp add: lru_ok_def ref_lru_def take_map [symmetric] del: take_Suc_Cons)
  qed
  have sub: "set (take cap ((k, v) # filter (\<lambda>e. fst e \<noteq> k) es)) \<subseteq> insert (k, v) {e \<in> set es. fst e \<noteq> k}"
    for cap k v and es :: "(peer_id \<times> enr) list"
    by (rule order_trans [OF set_take_subset]) auto
  have hd: "0 < cap \<Longrightarrow> (k, v) \<in> set (take cap ((k, v) # xs))" for cap k v and xs :: "(peer_id \<times> enr) list"
    by (cases cap) simp_all
  show ?thesis
    unfolding lru_documented_def
  proof (intro conjI allI impI)
    fix c :: "nat \<times> (peer_id \<times> enr) list" and k v
    obtain cap es where c: "c = (cap, es)" by fastforce
    {
      assume "0 < lru_cap ref_lru c \<and> lru_ok ref_lru c"
      then have "0 < cap" "distinct (map fst es)" by (simp_all add: c lru_ok_def ref_lru_def)
      then show "lru_ok ref_lru (lru_put ref_lru k v c)" "lru_cap ref_lru (lru_put ref_lru k v c) = lru_cap ref_lru c"
        "(k, v) \<in> set (lru_iter ref_lru (lru_put ref_lru k v c))"
        "set (lru_iter ref_lru (lru_put ref_lru k v c)) \<subseteq> insert (k, v) {e \<in> set (lru_iter ref_lru c). fst e \<noteq> k}"
        using put [of es cap k v] sub [of cap k v es] hd [of cap k v "filter (\<lambda>e. fst e \<noteq> k) es"]
        by (simp_all add: c ref_lru_def)
    next
      assume "lru_ok ref_lru c"
      then show "lru_ok ref_lru (lru_pop ref_lru k c)" "lru_cap ref_lru (lru_pop ref_lru k c) = lru_cap ref_lru c"
        "set (lru_iter ref_lru (lru_pop ref_lru k c)) = {e \<in> set (lru_iter ref_lru c). fst e \<noteq> k}"
        by (auto simp: c ref_lru_def lru_ok_def distinct_keys_filter intro: le_trans [OF length_filter_le])
    }
  qed (simp_all add: ref_lru_def)
qed

definition sample_discovery :: "(nat \<times> (peer_id \<times> enr) list) discovery" where
  "sample_discovery = \<lparr>ds_calls = [FindNode 16], ds_active_queries = 0,
     ds_cached_enrs = (50, [(9, \<lparr>enr_peer_id = 9, enr_multiaddr = [''/ip4'']\<rparr>)]), ds_event_stream = Awaiting\<rparr>"

theorem discovery_cache_well_formed_witness:
  "cache_ok ref_lru (ds_cached_enrs sample_discovery) \<and>
   9 \<notin> fst ` set (lru_iter ref_lru (ds_cached_enrs (disconnect_peer ref_lru (\<lambda>_. True) 9 sample_discovery)))"
proof -
  let ?e = "\<lparr>enr_peer_id = 9, enr_multiaddr = [''/ip4'']\<rparr>"
  obtain D where new: "new_discovery ref_setup ref_lru sample_key default_config sample_record 1 = Ok D"
      and D: "D = \<lparr>ds_calls = [], ds_active_queries = 0, ds_cached_enrs = (50, []), ds_event_stream = Awaiting\<rparr>"
    by (simp add: new_discovery_def ref_setup_def default_config_def ref_lru_def CACHED_ENRS_def)
  have "discovery_step ref_lru (\<lambda>_. True) D (ds_discover_peers 16 D)" by (rule discovers)
  moreover have "ds_poll ref_lru [Ok [?e]] None (ds_discover_peers 16 D) = ((Some [?e], []), sample_discovery)"
    by (simp add: D ds_discover_peers_def ds_poll_def ref_lru_def sample_discovery_def)
  then have "discovery_step ref_lru (\<lambda>_. True) (ds_discover_peers 16 D) sample_discovery" by (rule polls)
  ultimately have "(discovery_step ref_lru (\<lambda>_. True))\<^sup>*\<^sup>* D sample_discovery"
    by (rule converse_rtranclp_into_rtranclp [OF _ r_into_rtranclp])
  from discovery_cache_well_formed [OF ref_lru_documented new this] show ?thesis by blast
qed

section \<open>The network\<close>

definition MAX_IPFS_CID_LENGTH :: nat where "MAX_IPFS_CID_LENGTH = 256"

text \<open>An identifier as a vector of 256 bytes: \<open>resize_with\<close> cuts or fills with zeros.\<close>

definition supported_mempool :: "string \<Rightarrow> bytes" where
  "supported_mempool canonical_mempool =
     (let mempool_id = string_bytes canonical_mempool in
      take MAX_IPFS_CID_LENGTH mempool_id @ replicate (MAX_IPFS_CID_LENGTH - length mempool_id) 0)"

fun subscribe_all :: "setup_lib \<Rightarrow> topic hash_set \<Rightarrow> string list \<Rightarrow> (string, topic list) outcome" where
  "subscribe_all L allowed [] = Ok []"
| "subscribe_all L allowed (i # is) =
     (if sl_subscribe L allowed (topic_of i)
      then bind_ok (subscribe_all L allowed is) (\<lambda>ts. Ok (topic_of i # ts))
      else Err ''subscribe error'')"

definition create_gossipsub :: "setup_lib \<Rightarrow> string list \<Rightarrow> (string, topic list) outcome" where
  "create_gossipsub L mempool_ids = subscribe_all L (create_whitelist_filter mempool_ids) mempool_ids"

text \<open>A network that has been set up: the calls made to gossipsub and to the swarm next to its state.\<close>

record 'c new_network =
  nn_network :: network
  nn_discovery :: "'c discovery"
  nn_enr :: node_record
  nn_subscribed :: "topic list"
  nn_explicit_peers :: "peer_id list"
  nn_listens :: "multiaddr list"
  nn_dials :: "multiaddr list"

definition record_peer :: "setup_lib \<Rightarrow> node_record \<Rightarrow> peer_id" where
  "record_peer L r = sl_peer_id L (nr_public_key r)"

definition start_dials :: "setup_lib \<Rightarrow> node_record list \<Rightarrow> peer_db \<Rightarrow> multiaddr list" where
  "start_dials L bootnodes peers =
     concat (map (\<lambda>b. if is_connected_or_dialing (record_peer L b) peers then [] else enr_multiaddrs L b) bootnodes)"

text \<open>\<open>fetch\<close> reads the configuration of a mempool from the IPFS gateway.\<close>

definition network_new ::
  "setup_lib \<Rightarrow> 'c lru \<Rightarrow> (string \<Rightarrow> (string, mempool_config) outcome) \<Rightarrow> bytes option \<Rightarrow> keypair \<Rightarrow>
   p2p_config \<Rightarrow> mempool_channel list \<Rightarrow> (files, string, 'c new_network) op" where
  "network_new L R fetch seed generated config mempool_channels =
     bind_op (node_identity L seed generated config) (\<lambda>(key, enr).
     (let canonical_mempools = cs_canonical_mempools (pc_chain_spec config);
          trusted_peers = map (record_peer L) (pc_bootnodes config);
          chain = cs_chain (pc_chain_spec config) in
      bind_op (query (\<lambda>_. mempool_configs_of (if chain = 1337 then Some (dev_config 1337) else None) fetch
        canonical_mempools)) (\<lambda>mempool_configs.
      bind_op (query (\<lambda>_. create_gossipsub L canonical_mempools)) (\<lambda>subscribed.
      bind_op (query (\<lambda>_. new_discovery L R key config enr (record_peer L enr))) (\<lambda>discovery.
      let peer_manager = new_peer_manager trusted_peers;
          network = \<lparr>nw_rpc = new_rpc, nw_peer_manager = peer_manager,
            nw_metadata = \<lparr>seq_number = 0, supported_mempools = map supported_mempool canonical_mempools\<rparr>,
            nw_chain = chain, nw_mempool_channels = mempool_channels, nw_mempool_configs = mempool_configs,
            nw_published = [], nw_discover_calls = [FIND_NODE_QUERY_CLOSEST_PEERS], nw_answers = []\<rparr> in
      ret \<lparr>nn_network = network,
        nn_discovery = ds_discover_peers FIND_NODE_QUERY_CLOSEST_PEERS discovery, nn_enr = enr,
        nn_subscribed = subscribed, nn_explicit_peers = trusted_peers,
        nn_listens = map (sl_multiaddr L) (to_multi_addr (pc_listen_addr config)),
        nn_dials = start_dials L (pc_bootnodes config) (pm_peers peer_manager)\<rparr>)))))"

lemma supported_mempool_vector:
  assumes "length i \<le> 256" and "CHR 0x00 \<notin> set i"
  shows "length (supported_mempool i) = 256" "takeWhile (\<lambda>b. b \<noteq> 0) (supported_mempool i) = string_bytes i"
proof -
  show "length (supported_mempool i) = 256"
    by (simp add: supported_mempool_def Let_def MAX_IPFS_CID_LENGTH_def)
  have "string_bytes [c] \<noteq> string_bytes [CHR 0x00]" if "c \<in> set i" for c
    using that assms(2) by (auto simp: string_bytes_eq)
  then have "\<forall>b \<in> set (string_bytes i). b \<noteq> 0" by (auto simp: string_bytes_def)
  moreover have "supported_mempool i = string_bytes i @ replicate (256 - length i) 0"
    using assms(1) by (simp add: supported_mempool_def Let_def MAX_IPFS_CID_LENGTH_def string_bytes_def)
  ultimately show "takeWhile (\<lambda>b. b \<noteq> 0) (supported_mempool i) = string_bytes i"
    by (simp add: takeWhile_append2 takeWhile_replicate)
qed

lemma canonical_mempools_fit:
  assumes "i \<in> set (cs_canonical_mempools (from_chain_id c))"
  shows "length i \<le> 256 \<and> CHR 0x00 \<notin> set i"
  using assms
  by (auto simp: from_chain_id_def mainnet_def dev_def sepolia_def polygon_def polygon_mumbai_def
      arbitrum_sepolia_def default_chain_spec_def split: if_splits)

lemma mempool_configs_ids:
  "mempool_configs_of dv fetch is = Ok m \<Longrightarrow> map fst m = map topic_of is \<and> map (mcfg_id \<circ> snd) m = is"
  by (induction "is" arbitrary: m) (auto simp: bind_ok_eq_Ok with_id_def)

lemma subscribed_topics: "subscribe_all L allowed is = Ok ts \<Longrightarrow> ts = map topic_of is"
  by (induction "is" arbitrary: ts) (auto simp: bind_ok_eq_Ok split: if_splits)

lemma new_peer_db_get: "hm_get (new_peer_db ps) p = (if p \<in> set ps then Some default_peer_info else None)"
proof -
  have "hm_get (fold (\<lambda>p. hm_insert p default_peer_info) ps m) p =
      (if p \<in> set ps then Some default_peer_info else hm_get m p)" for m
    by (induction ps arbitrary: m) auto
  then show ?thesis by (simp add: new_peer_db_def)
qed

lemma start_dials_all: "start_dials L bs (new_peer_db ps) = concat (map (enr_multiaddrs L) bs)"
proof -
  have "\<not> is_connected_or_dialing p (new_peer_db ps)" for p
    by (simp add: is_connected_or_dialing_def connection_status_def new_peer_db_get default_peer_info_def)
  then show ?thesis by (simp add: start_dials_def)
qed

text \<open>A network that \<open>Network::new\<close> returns is consistent: its metadata holds the canonical mempools of
  the chain as vectors of exactly 256 bytes from which the identifiers can be read back, it has a
  configuration and a subscription for the topic of each of them and for nothing else, it knows exactly
  the boot nodes as peers, it has no request under way, and it dials every address of a boot node.\<close>

theorem new_network_consistent:
  assumes "network_new L R fetch seed generated C channels files = (Ok N, files')"
    and "pc_chain_spec C = from_chain_id chain" and "ids = cs_canonical_mempools (from_chain_id chain)"
  shows "(\<forall>v \<in> set (supported_mempools (nw_metadata (nn_network N))). length v = 256) \<and>
    map (takeWhile (\<lambda>b. b \<noteq> 0)) (supported_mempools (nw_metadata (nn_network N))) = map string_bytes ids \<and>
    map (mcfg_id \<circ> snd) (nw_mempool_configs (nn_network N)) = ids \<and>
    map fst (nw_mempool_configs (nn_network N)) = nn_subscribed N \<and> nn_subscribed N = map topic_of ids \<and>
    dom (hm_get (pm_peers (nw_peer_manager (nn_network N)))) = record_peer L ` set (pc_bootnodes C) \<and>
    nw_rpc (nn_network N) = new_rpc \<and> nn_dials N = concat (map (enr_multiaddrs L) (pc_bootnodes C))"
proof -
  let ?ps = "map (record_peer L) (pc_bootnodes C)"
  have N: "nw_metadata (nn_network N) = \<lparr>seq_number = 0, supported_mempools = map supported_mempool ids\<rparr>"
      "create_gossipsub L ids = Ok (nn_subscribed N)"
      "\<exists>dv. mempool_configs_of dv fetch ids = Ok (nw_mempool_configs (nn_network N))"
      "nw_peer_manager (nn_network N) = new_peer_manager ?ps" "nw_rpc (nn_network N) = new_rpc"
      "nn_dials N = start_dials L (pc_bootnodes C) (new_peer_db ?ps)"
    using assms by (auto simp: network_new_def bind_op_eq_Ok Let_def new_peer_manager_def)
  have fit: "i \<in> set ids \<Longrightarrow> length i \<le> 256 \<and> CHR 0x00 \<notin> set i" for i
    using canonical_mempools_fit assms(3) by blast
  have "dom (hm_get (pm_peers (new_peer_manager ?ps))) = record_peer L ` set (pc_bootnodes C)"
    by (auto simp: new_peer_manager_def new_peer_db_get dom_def)
  moreover have "nn_subscribed N = map topic_of ids"
    using N(2) subscribed_topics by (simp add: create_gossipsub_def)
  ultimately show ?thesis
    using N mempool_configs_ids supported_mempool_vector fit by (auto simp: start_dials_all)
qed

theorem new_network_consistent_witness:
  "\<exists>N files. network_new ref_setup ref_lru (\<lambda>_. Err ''offline'') None sample_key default_config [] [] = (Ok N, files) \<and>
     map (takeWhile (\<lambda>b. b \<noteq> 0)) (supported_mempools (nw_metadata (nn_network N))) =
       [string_bytes ''Qmf7P3CuhzSbpJa8LqXPwRzfPqsvoQ6RG7aXvthYTzGxb2''] \<and>
     nn_subscribed N = [topic_of ''Qmf7P3CuhzSbpJa8LqXPwRzfPqsvoQ6RG7aXvthYTzGxb2'']"
proof -
  let ?i = "''Qmf7P3CuhzSbpJa8LqXPwRzfPqsvoQ6RG7aXvthYTzGxb2''"
  have chain: "pc_chain_spec default_config = from_chain_id 1337" "cs_chain (from_chain_id 1337) = 1337"
      "cs_canonical_mempools (from_chain_id 1337) = [?i]"
    by (simp_all add: default_config_def from_chain_id_def dev_def)
  obtain files where "node_identity ref_setup None sample_key default_config [] = (Ok (sample_key, sample_record), files)"
    using sample_identity by blast
  then obtain N where N: "network_new ref_setup ref_lru (\<lambda>_. Err ''offline'') None sample_key default_config [] [] = (Ok N, files)"
    by (simp add: network_new_def bind_op_def chain create_gossipsub_def create_whitelist_filter_def hs_insert_def
        new_discovery_def Let_def) (simp add: ref_setup_def)
  from new_network_consistent [OF N chain(1) refl] N show ?thesis by (auto simp: chain)
qed

end
