(* ===== verification/Database_Store.thy ===== *)
theory Database_Store
  imports Memory_Store Reputation_Model
begin

text \<open>
  The database implementation of the mempool and reputation traits (\<open>mempool/src/database\<close>): five
  tables of a key-value store, the conversions of keys and values, and the trait methods as
  transactions.

  The store itself (\<open>reth_db\<close> over \<open>libmdbx\<close>) and the codecs of whole values (the contract ABI and
  \<open>bin_layout\<close>) are libraries: they are the fields of \<open>mdbx\<close> and \<open>db_codec\<close>. A transaction is a value
  of its own; dropping it without a commit leaves the store as it was. \<open>mdbx_documented\<close> and
  \<open>codec_documented\<close> say what the code relies on while the environment works.
\<close>

section \<open>The libraries\<close>

datatype db_table = UserOperations | UserOperationsBySender | UserOperationsByEntity | CodeHashesTable
  | EntitiesReputation

text \<open>
  \<open>'d\<close> is the environment and \<open>'t\<close> a transaction. \<open>tx_walk\<close> gives the pairs that a cursor reads, from a
  key on or from the first one. A call of the library gives a result or an error, which is its message;
  it does not panic.
\<close>

record ('d, 't) mdbx =
  env_tx :: "'d \<Rightarrow> string + 't"
  env_tx_mut :: "'d \<Rightarrow> string + 't"
  tx_get :: "db_table \<Rightarrow> bytes \<Rightarrow> 't \<Rightarrow> string + bytes option"
  tx_put :: "db_table \<Rightarrow> bytes \<Rightarrow> bytes \<Rightarrow> 't \<Rightarrow> string + 't"
  tx_delete :: "db_table \<Rightarrow> bytes \<Rightarrow> 't \<Rightarrow> string + 't"
  tx_clear :: "db_table \<Rightarrow> 't \<Rightarrow> string + 't"
  tx_walk :: "db_table \<Rightarrow> bytes option \<Rightarrow> 't \<Rightarrow> string + (bytes \<times> bytes) list"
  tx_commit :: "'t \<Rightarrow> 'd \<Rightarrow> (string + unit) \<times> 'd"

definition lib :: "'e + 'a \<Rightarrow> ('e, 'a) outcome" where
  "lib r = (case r of Inr x \<Rightarrow> Ok x | Inl e \<Rightarrow> Err e)"

lemma lib_simps [simp]: "lib (Inr x) = Ok x" "lib (Inl e) = Err e"
  by (simp_all add: lib_def)

text \<open>
  \<open>layout_decode n\<close> reads a sequence whose element decoder takes \<open>n\<close> bytes per element; a failed
  decoding is \<open>None\<close>.
\<close>

record db_codec =
  abi_encode_signed :: "user_operation_signed \<Rightarrow> bytes"
  abi_decode_signed :: "bytes \<Rightarrow> user_operation_signed option"
  abi_encode_entry :: "reputation_entry \<Rightarrow> bytes"
  abi_decode_entry :: "bytes \<Rightarrow> reputation_entry option"
  layout_encode :: "bytes list \<Rightarrow> bytes"
  layout_decode :: "nat \<Rightarrow> bytes \<Rightarrow> bytes list option"

fun bytes_le :: "bytes \<Rightarrow> bytes \<Rightarrow> bool" where
  "bytes_le [] ys = True"
| "bytes_le (x # xs) [] = False"
| "bytes_le (x # xs) (y # ys) = (x < y \<or> x = y \<and> bytes_le xs ys)"

definition mdbx_documented ::
  "('d, 't) mdbx \<Rightarrow> ('d \<Rightarrow> db_table \<Rightarrow> bytes \<Rightarrow> bytes option) \<Rightarrow>
   ('t \<Rightarrow> db_table \<Rightarrow> bytes \<Rightarrow> bytes option) \<Rightarrow> bool" where
  "mdbx_documented M dv tv =
     ((\<forall>d. \<exists>t. env_tx M d = Inr t \<and> tv t = dv d) \<and>
      (\<forall>d. \<exists>t. env_tx_mut M d = Inr t \<and> tv t = dv d) \<and>
      (\<forall>tb k t. tx_get M tb k t = Inr (tv t tb k)) \<and>
      (\<forall>tb k v t. \<exists>u. tx_put M tb k v t = Inr u \<and> tv u = (tv t)(tb := (tv t tb)(k \<mapsto> v))) \<and>
      (\<forall>tb k t. \<exists>u. tx_delete M tb k t = Inr u \<and> tv u = (tv t)(tb := (tv t tb)(k := None))) \<and>
      (\<forall>tb t. \<exists>u. tx_clear M tb t = Inr u \<and> tv u = (tv t)(tb := Map.empty)) \<and>
      (\<forall>tb t. \<exists>xs. tx_walk M tb None t = Inr xs \<and> distinct (map fst xs) \<and>
         set xs = {(k, v). tv t tb k = Some v}) \<and>
      (\<forall>tb k0 t. \<exists>xs. tx_walk M tb (Some k0) t = Inr xs \<and> distinct (map fst xs) \<and>
         set xs = {(k, v). tv t tb k = Some v \<and> bytes_le k0 k}) \<and>
      (\<forall>t d. \<exists>e. tx_commit M t d = (Inr (), e) \<and> dv e = tv t))"

definition codec_documented :: "db_codec \<Rightarrow> bool" where
  "codec_documented C =
     ((\<forall>uo. abi_decode_signed C (abi_encode_signed C uo) = Some uo) \<and>
      (\<forall>en. abi_decode_entry C (abi_encode_entry C en) = Some en) \<and>
      (\<forall>n xs. list_all (\<lambda>x. length x = n) xs \<longrightarrow> layout_decode C n (layout_encode C xs) = Some xs))"

section \<open>Keys and values\<close>

text \<open>\<open>from_slice\<close> panics on a slice of another length.\<close>

definition encode_wrap_address :: "address \<Rightarrow> bytes" where
  "encode_wrap_address a = to_be_bytes 20 a"

definition encode_wrap_hash :: "h256 \<Rightarrow> bytes" where
  "encode_wrap_hash h = to_be_bytes 32 h"

definition decode_wrap_address :: "bytes \<Rightarrow> ('e, address) outcome" where
  "decode_wrap_address bs = (if length bs = 20 then Ok (from_be_bytes bs) else Panic)"

definition decode_wrap_hash :: "bytes \<Rightarrow> ('e, h256) outcome" where
  "decode_wrap_hash bs = (if length bs = 32 then Ok (from_be_bytes bs) else Panic)"

definition wrap_code_hash_encoder :: "code_hash \<Rightarrow> bytes" where
  "wrap_code_hash_encoder c = to_be_bytes 20 (ch_address c) @ to_be_bytes 32 (ch_hash c)"

definition wrap_code_hash_decoder :: "bytes \<Rightarrow> code_hash" where
  "wrap_code_hash_decoder bs =
     \<lparr>ch_address = from_be_bytes (take 20 bs), ch_hash = from_be_bytes (take 32 (drop 20 bs))\<rparr>"

definition compress_user_op_set :: "db_codec \<Rightarrow> user_operation_hash hash_set \<Rightarrow> bytes" where
  "compress_user_op_set C hs = layout_encode C (map (to_be_bytes 32) hs)"

definition decompress_user_op_set :: "db_codec \<Rightarrow> bytes \<Rightarrow> user_operation_hash hash_set option" where
  "decompress_user_op_set C bs =
     map_option (\<lambda>xs. remdups (map from_be_bytes xs)) (layout_decode C 32 bs)"

definition compress_code_hashes :: "db_codec \<Rightarrow> code_hash list \<Rightarrow> bytes" where
  "compress_code_hashes C hs = layout_encode C (map wrap_code_hash_encoder hs)"

definition decompress_code_hashes :: "db_codec \<Rightarrow> bytes \<Rightarrow> code_hash list option" where
  "decompress_code_hashes C bs = map_option (map wrap_code_hash_decoder) (layout_decode C 52 bs)"

section \<open>Transactions\<close>

definition db_get ::
  "('d, 't) mdbx \<Rightarrow> db_table \<Rightarrow> (bytes \<Rightarrow> 'v option) \<Rightarrow> bytes \<Rightarrow> 't \<Rightarrow> (string, 'v option) outcome" where
  "db_get M tb dec k t =
     bind_ok (lib (tx_get M tb k t)) (\<lambda>m. case m of
         None \<Rightarrow> Ok None
       | Some bs \<Rightarrow> bind_ok (ok_or ''DecodeError'' (dec bs)) (\<lambda>v. Ok (Some v)))"

text \<open>Collecting results into a result of a list: the first failure is the result.\<close>

fun collect_outcomes :: "('e, 'a) outcome list \<Rightarrow> ('e, 'a list) outcome" where
  "collect_outcomes [] = Ok []"
| "collect_outcomes (r # rs) = bind_ok r (\<lambda>x. bind_ok (collect_outcomes rs) (\<lambda>xs. Ok (x # xs)))"

definition db_walk ::
  "('d, 't) mdbx \<Rightarrow> db_table \<Rightarrow> (bytes \<Rightarrow> (string, 'k) outcome) \<Rightarrow> (bytes \<Rightarrow> 'v option) \<Rightarrow> bytes option \<Rightarrow>
   't \<Rightarrow> (string, ('k \<times> 'v) list) outcome" where
  "db_walk M tb deck dec from t =
     bind_ok (lib (tx_walk M tb from t)) (\<lambda>xs.
       collect_outcomes (map (\<lambda>(k, bs).
         bind_ok (deck k) (\<lambda>x. bind_ok (ok_or ''DecodeError'' (dec bs)) (\<lambda>v. Ok (x, v)))) xs))"

text \<open>
  A method with a writing transaction: it ends with the transaction to commit, or with none when the
  transaction is dropped.
\<close>

definition tx_run ::
  "('d, 't) mdbx \<Rightarrow> (string \<Rightarrow> 'e) \<Rightarrow> ('t \<Rightarrow> (string, 'a \<times> 't option) outcome) \<Rightarrow> ('d, 'e, 'a) op" where
  "tx_run M conv f d =
     (case bind_ok (lib (env_tx_mut M d)) f of
        Ok (x, Some t) \<Rightarrow>
          (case tx_commit M t d of
             (Inr _, e) \<Rightarrow> (Ok x, e)
           | (Inl err, e) \<Rightarrow> (Err (conv err), e))
      | Ok (x, None) \<Rightarrow> (Ok x, d)
      | Err err \<Rightarrow> (Err (conv err), d)
      | Panic \<Rightarrow> (Panic, d))"

definition expect_op :: "('s, 'e, 'a) op \<Rightarrow> ('s, 'f, 'a) op" where
  "expect_op m s = (case m s of (Ok x, t) \<Rightarrow> (Ok x, t) | (_, t) \<Rightarrow> (Panic, t))"

text \<open>\<open>unwrap_or_else\<close> replaces an error, not a panic.\<close>

definition unwrap_or_empty :: "('e, 'a list) outcome \<Rightarrow> ('f, 'a list) outcome" where
  "unwrap_or_empty r = (case r of Ok xs \<Rightarrow> Ok xs | Err _ \<Rightarrow> Ok [] | Panic \<Rightarrow> Panic)"

section \<open>The table of operations\<close>

definition db_add_uo :: "('d, 't) mdbx \<Rightarrow> db_codec \<Rightarrow> user_operation \<Rightarrow>
  ('d, mempool_error_kind, user_operation_hash) op" where
  "db_add_uo M C uo = tx_run M kind_of_db (\<lambda>t.
     bind_ok (lib (tx_put M UserOperations (encode_wrap_hash (hash uo))
       (abi_encode_signed C (user_operation uo)) t)) (\<lambda>t. Ok (hash uo, Some t)))"

definition db_remove_by_uo_hash :: "('d, 't) mdbx \<Rightarrow> db_codec \<Rightarrow> user_operation_hash \<Rightarrow>
  ('d, mempool_error_kind, bool) op" where
  "db_remove_by_uo_hash M C h = tx_run M kind_of_db (\<lambda>t.
     bind_ok (db_get M UserOperations (abi_decode_signed C) (encode_wrap_hash h) t) (\<lambda>original_value.
     bind_ok (lib (tx_delete M UserOperations (encode_wrap_hash h) t)) (\<lambda>t.
     Ok (\<not> Option.is_none original_value, Some t))))"

definition db_get_by_uo_hash :: "('d, 't) mdbx \<Rightarrow> db_codec \<Rightarrow> user_operation_hash \<Rightarrow> 'd \<Rightarrow>
  (mempool_error_kind, user_operation option) outcome" where
  "db_get_by_uo_hash M C h d = map_err kind_of_db (
     bind_ok (lib (env_tx M d)) (\<lambda>t.
     bind_ok (db_get M UserOperations (abi_decode_signed C) (encode_wrap_hash h) t) (\<lambda>res.
     bind_ok (lib (fst (tx_commit M t d))) (\<lambda>_.
     Ok (map_option (from_user_operation_signed h) res)))))"

definition db_get_sorted :: "('d, 't) mdbx \<Rightarrow> db_codec \<Rightarrow> 'd \<Rightarrow>
  (mempool_error_kind, user_operation list) outcome" where
  "db_get_sorted M C d = map_err kind_of_db (
     bind_ok (lib (env_tx M d)) (\<lambda>t.
     bind_ok (db_walk M UserOperations decode_wrap_hash (abi_decode_signed C)
       (Some (encode_wrap_hash 0)) t) (\<lambda>xs.
     Ok (sort_by cmp_priority (map (\<lambda>(h, uo). from_user_operation_signed h uo) xs)))))"

definition db_get_all :: "('d, 't) mdbx \<Rightarrow> db_codec \<Rightarrow> 'd \<Rightarrow>
  (mempool_error_kind, user_operation list) outcome" where
  "db_get_all M C d = map_err kind_of_db (
     bind_ok (lib (env_tx M d)) (\<lambda>t.
     bind_ok (db_walk M UserOperations decode_wrap_hash (abi_decode_signed C) None t) (\<lambda>xs.
     Ok (map (\<lambda>(h, uo). from_user_operation_signed h uo) xs))))"

definition db_clear :: "('d, 't) mdbx \<Rightarrow> db_table \<Rightarrow> ('d, 'e, unit) op" where
  "db_clear M tb = expect_op (tx_run M kind_of_db (\<lambda>t.
     bind_ok (lib (tx_clear M tb t)) (\<lambda>t. Ok ((), Some t))))"

definition database_user_operations :: "('d, 't) mdbx \<Rightarrow> db_codec \<Rightarrow> 'd user_operation_act" where
  "database_user_operations M C = \<lparr>
     uo_add = db_add_uo M C,
     uo_remove_by_uo_hash = db_remove_by_uo_hash M C,
     uo_get_by_uo_hash = db_get_by_uo_hash M C,
     uo_get_sorted = db_get_sorted M C,
     uo_get_all = db_get_all M C,
     uo_clear = db_clear M UserOperations\<rparr>"

section \<open>The two indices\<close>

text \<open>
  The macro is expanded for both indices. Adding uses the table of the macro argument; removing names
  the table of the senders, whichever index it is expanded for.
\<close>

definition db_add_uo_hash :: "('d, 't) mdbx \<Rightarrow> db_codec \<Rightarrow> db_table \<Rightarrow> address \<Rightarrow> user_operation_hash \<Rightarrow>
  ('d, mempool_error_kind, unit) op" where
  "db_add_uo_hash M C tb a h = tx_run M kind_of_db (\<lambda>t.
     bind_ok (db_get M tb (decompress_user_op_set C) (encode_wrap_address a) t) (\<lambda>found.
     bind_ok (case found of
         Some hs \<Rightarrow> lib (tx_put M tb (encode_wrap_address a) (compress_user_op_set C (snd (hs_insert h hs))) t)
       | None \<Rightarrow> lib (tx_put M tb (encode_wrap_address a) (compress_user_op_set C (snd (hs_insert h []))) t))
     (\<lambda>t. Ok ((), Some t))))"

definition db_remove_uo_hash :: "('d, 't) mdbx \<Rightarrow> db_codec \<Rightarrow> address \<Rightarrow> user_operation_hash \<Rightarrow>
  ('d, mempool_error_kind, bool) op" where
  "db_remove_uo_hash M C a h = tx_run M kind_of_db (\<lambda>t.
     bind_ok (db_get M UserOperationsBySender (decompress_user_op_set C) (encode_wrap_address a) t) (\<lambda>found.
     case found of
       Some hs \<Rightarrow>
         (let uos = snd (hs_remove h hs)
          in bind_ok (lib (if uos = [] then tx_delete M UserOperationsBySender (encode_wrap_address a) t
               else tx_put M UserOperationsBySender (encode_wrap_address a) (compress_user_op_set C uos) t))
             (\<lambda>t. Ok (True, Some t)))
     | None \<Rightarrow> Ok (False, None)))"

text \<open>Nothing here panics: every error, also of decoding the set, gives the empty list.\<close>

definition db_get_all_by_address :: "('d, 't) mdbx \<Rightarrow> db_codec \<Rightarrow> db_table \<Rightarrow> address \<Rightarrow> 'd \<Rightarrow>
  user_operation_hash list" where
  "db_get_all_by_address M C tb a d =
     (case env_tx M d of
        Inl _ \<Rightarrow> []
      | Inr t \<Rightarrow>
          (case tx_get M tb (encode_wrap_address a) t of
             Inl _ \<Rightarrow> []
           | Inr None \<Rightarrow> []
           | Inr (Some bs) \<Rightarrow> (case decompress_user_op_set C bs of Some hs \<Rightarrow> hs | None \<Rightarrow> [])))"

definition database_addr_act :: "('d, 't) mdbx \<Rightarrow> db_codec \<Rightarrow> db_table \<Rightarrow> 'd user_operation_addr_act" where
  "database_addr_act M C tb = \<lparr>
     addr_add = db_add_uo_hash M C tb,
     addr_remove_uo_hash = db_remove_uo_hash M C,
     get_all_by_address = db_get_all_by_address M C tb,
     addr_clear = db_clear M tb\<rparr>"

section \<open>The code hashes\<close>

definition db_has_code_hashes :: "('d, 't) mdbx \<Rightarrow> db_codec \<Rightarrow> user_operation_hash \<Rightarrow> 'd \<Rightarrow>
  (mempool_error_kind, bool) outcome" where
  "db_has_code_hashes M C h d = map_err kind_of_db (
     bind_ok (lib (env_tx M d)) (\<lambda>t.
     bind_ok (db_get M CodeHashesTable (decompress_code_hashes C) (encode_wrap_hash h) t) (\<lambda>res.
     Ok (\<not> Option.is_none res))))"

definition db_set_code_hashes :: "('d, 't) mdbx \<Rightarrow> db_codec \<Rightarrow> user_operation_hash \<Rightarrow> code_hash list \<Rightarrow>
  ('d, mempool_error_kind, unit) op" where
  "db_set_code_hashes M C h hs = tx_run M kind_of_db (\<lambda>t.
     bind_ok (lib (tx_put M CodeHashesTable (encode_wrap_hash h) (compress_code_hashes C hs) t))
       (\<lambda>t. Ok ((), Some t)))"

definition db_get_code_hashes :: "('d, 't) mdbx \<Rightarrow> db_codec \<Rightarrow> user_operation_hash \<Rightarrow> 'd \<Rightarrow>
  (mempool_error_kind, code_hash list) outcome" where
  "db_get_code_hashes M C h d = map_err kind_of_db (
     bind_ok (lib (env_tx_mut M d)) (\<lambda>t.
     bind_ok (db_get M CodeHashesTable (decompress_code_hashes C) (encode_wrap_hash h) t) (\<lambda>res.
     Ok (case res of Some hs \<Rightarrow> hs | None \<Rightarrow> []))))"

text \<open>The transaction of \<open>remove_code_hashes\<close> ends without a commit on both branches.\<close>

definition db_remove_code_hashes :: "('d, 't) mdbx \<Rightarrow> db_codec \<Rightarrow> user_operation_hash \<Rightarrow>
  ('d, mempool_error_kind, bool) op" where
  "db_remove_code_hashes M C h = tx_run M kind_of_db (\<lambda>t.
     bind_ok (db_get M CodeHashesTable (decompress_code_hashes C) (encode_wrap_hash h) t) (\<lambda>res.
     if \<not> Option.is_none res then
       bind_ok (lib (tx_delete M CodeHashesTable (encode_wrap_hash h) t)) (\<lambda>_. Ok (True, None))
     else Ok (False, None)))"

definition database_code_hashes :: "('d, 't) mdbx \<Rightarrow> db_codec \<Rightarrow> 'd user_operation_code_hash_act" where
  "database_code_hashes M C = \<lparr>
     ch_has_code_hashes = db_has_code_hashes M C,
     ch_set_code_hashes = db_set_code_hashes M C,
     ch_get_code_hashes = db_get_code_hashes M C,
     ch_remove_code_hashes = db_remove_code_hashes M C,
     ch_clear = db_clear M CodeHashesTable\<rparr>"

definition database_mempool :: "('d, 't) mdbx \<Rightarrow> db_codec \<Rightarrow> 'd mempool" where
  "database_mempool M C = \<lparr>
     user_operations = database_user_operations M C,
     user_operations_by_sender = database_addr_act M C UserOperationsBySender,
     user_operations_by_entity = database_addr_act M C UserOperationsByEntity,
     user_operations_code_hashes = database_code_hashes M C\<rparr>"

section \<open>The reputation of the entities\<close>

definition db_get_entry :: "('d, 't) mdbx \<Rightarrow> db_codec \<Rightarrow> address \<Rightarrow> 'd \<Rightarrow>
  (reputation_error, reputation_entry option) outcome" where
  "db_get_entry M C a d = map_err reputation_of_db (
     bind_ok (lib (env_tx M d)) (\<lambda>t.
     bind_ok (db_get M EntitiesReputation (abi_decode_entry C) (encode_wrap_address a) t) (\<lambda>res.
     bind_ok (lib (fst (tx_commit M t d))) (\<lambda>_. Ok res))))"

definition db_set_entry :: "('d, 't) mdbx \<Rightarrow> db_codec \<Rightarrow> reputation_entry \<Rightarrow>
  ('d, reputation_error, reputation_entry option) op" where
  "db_set_entry M C en = tx_run M reputation_of_db (\<lambda>t.
     bind_ok (db_get M EntitiesReputation (abi_decode_entry C) (encode_wrap_address (re_address en)) t)
       (\<lambda>original.
     bind_ok (lib (tx_put M EntitiesReputation (encode_wrap_address (re_address en)) (abi_encode_entry C en) t))
       (\<lambda>t. Ok (original, Some t))))"

definition db_contains_entry :: "('d, 't) mdbx \<Rightarrow> db_codec \<Rightarrow> address \<Rightarrow> 'd \<Rightarrow>
  (reputation_error, bool) outcome" where
  "db_contains_entry M C a d =
     bind_ok (db_get_entry M C a d) (\<lambda>m. Ok (\<not> Option.is_none m))"

definition db_entries_get_all :: "('d, 't) mdbx \<Rightarrow> db_codec \<Rightarrow> 'd \<Rightarrow>
  (reputation_error, reputation_entry list) outcome" where
  "db_entries_get_all M C d = unwrap_or_empty (
     bind_ok (lib (env_tx M d)) (\<lambda>t.
     bind_ok (db_walk M EntitiesReputation decode_wrap_address (abi_decode_entry C)
       (Some (encode_wrap_address 0)) t) (\<lambda>xs.
     bind_ok (lib (fst (tx_commit M t d))) (\<lambda>_. Ok (map snd xs)))))"

definition database_entries :: "('d, 't) mdbx \<Rightarrow> db_codec \<Rightarrow> 'd reputation_entry_op" where
  "database_entries M C = \<lparr>
     get_entry = db_get_entry M C,
     set_entry = db_set_entry M C,
     contains_entry = db_contains_entry M C,
     entries_get_all = db_entries_get_all M C,
     entries_clear = db_clear M EntitiesReputation\<rparr>"

section \<open>What the tables hold\<close>

type_synonym 'd db_view = "'d \<Rightarrow> db_table \<Rightarrow> bytes \<Rightarrow> bytes option"

definition cell :: "(bytes \<Rightarrow> bytes option) \<Rightarrow> (bytes \<Rightarrow> 'v option) \<Rightarrow> bytes \<Rightarrow> 'v option" where
  "cell V dec k = Option.bind (V k) dec"

definition table_ok :: "nat \<Rightarrow> (bytes \<Rightarrow> 'v option) \<Rightarrow> (bytes \<Rightarrow> bytes option) \<Rightarrow> bool" where
  "table_ok n dec V = (\<forall>k bs. V k = Some bs \<longrightarrow> length k = n \<and> dec bs \<noteq> None)"

definition db_ok :: "'d db_view \<Rightarrow> db_codec \<Rightarrow> 'd \<Rightarrow> bool" where
  "db_ok dv C d =
     (table_ok 32 (abi_decode_signed C) (dv d UserOperations) \<and>
      table_ok 20 (decompress_user_op_set C) (dv d UserOperationsBySender) \<and>
      table_ok 20 (decompress_user_op_set C) (dv d UserOperationsByEntity) \<and>
      table_ok 32 (decompress_code_hashes C) (dv d CodeHashesTable))"

definition db_ops :: "'d db_view \<Rightarrow> db_codec \<Rightarrow> 'd \<Rightarrow> user_operation_hash \<Rightarrow> user_operation_signed option" where
  "db_ops dv C d h = cell (dv d UserOperations) (abi_decode_signed C) (encode_wrap_hash h)"

definition db_index :: "db_table \<Rightarrow> 'd db_view \<Rightarrow> db_codec \<Rightarrow> 'd \<Rightarrow> address \<Rightarrow> user_operation_hash set" where
  "db_index tb dv C d a =
     (case cell (dv d tb) (decompress_user_op_set C) (encode_wrap_address a) of
        Some hs \<Rightarrow> set hs | None \<Rightarrow> {})"

definition db_codes :: "'d db_view \<Rightarrow> db_codec \<Rightarrow> 'd \<Rightarrow> user_operation_hash \<Rightarrow> code_hash list option" where
  "db_codes dv C d h = cell (dv d CodeHashesTable) (decompress_code_hashes C) (encode_wrap_hash h)"

definition db_entries :: "'d db_view \<Rightarrow> db_codec \<Rightarrow> 'd \<Rightarrow> address \<Rightarrow> reputation_entry option" where
  "db_entries dv C d a = cell (dv d EntitiesReputation) (abi_decode_entry C) (encode_wrap_address a)"

definition db_entries_ok :: "'d db_view \<Rightarrow> db_codec \<Rightarrow> 'd \<Rightarrow> bool" where
  "db_entries_ok dv C d =
     (table_ok 20 (abi_decode_entry C) (dv d EntitiesReputation) \<and>
      (\<forall>a en. db_entries dv C d a = Some en \<longrightarrow> re_address en = a))"

abbreviation db_senders :: "'d db_view \<Rightarrow> db_codec \<Rightarrow> 'd \<Rightarrow> address \<Rightarrow> user_operation_hash set" where
  "db_senders \<equiv> db_index UserOperationsBySender"

abbreviation db_entities :: "'d db_view \<Rightarrow> db_codec \<Rightarrow> 'd \<Rightarrow> address \<Rightarrow> user_operation_hash set" where
  "db_entities \<equiv> db_index UserOperationsByEntity"

subsection \<open>Keys and codecs\<close>

lemma encode_wrap_inj [simp]:
  "encode_wrap_hash g = encode_wrap_hash h \<longleftrightarrow> g = h"
  "encode_wrap_address a = encode_wrap_address b \<longleftrightarrow> a = b"
  by (simp_all add: encode_wrap_hash_def encode_wrap_address_def to_be_bytes_inj)

lemma length_encode_wrap [simp]:
  "length (encode_wrap_hash h) = 32" "length (encode_wrap_address a) = 20"
  by (simp_all add: encode_wrap_hash_def encode_wrap_address_def)

lemma decode_wrap [simp]:
  "decode_wrap_hash (encode_wrap_hash h) = Ok h" "decode_wrap_address (encode_wrap_address a) = Ok a"
  by (simp_all add: decode_wrap_hash_def decode_wrap_address_def encode_wrap_hash_def
      encode_wrap_address_def from_to_be_bytes)

lemma encode_wrap_surj:
  "length k = 32 \<Longrightarrow> \<exists>h. k = encode_wrap_hash h" "length k = 20 \<Longrightarrow> \<exists>a. k = encode_wrap_address a"
  using to_from_be_bytes [of k, where 'a = 256] to_from_be_bytes [of k, where 'a = 160]
  by (auto simp: encode_wrap_hash_def encode_wrap_address_def) metis+

lemma wrap_keys:
  "length k = 32 \<Longrightarrow> \<exists>h. k = encode_wrap_hash h \<and> decode_wrap_hash k = Ok h"
  "length k = 20 \<Longrightarrow> \<exists>a. k = encode_wrap_address a \<and> decode_wrap_address k = Ok a"
  using encode_wrap_surj [of k] by auto

lemma bytes_le_zeros: "n \<le> length k \<Longrightarrow> bytes_le (replicate n 0) k"
proof (induction n arbitrary: k)
  case (Suc n)
  then show ?case by (cases k) (auto simp: word_gt_0)
qed simp

lemma encode_wrap_zero: "encode_wrap_hash 0 = replicate 32 0" "encode_wrap_address 0 = replicate 20 0"
proof -
  have "to_be_bytes n (0 :: 'a::len word) = replicate n 0" for n by (induction n) auto
  then show "encode_wrap_hash 0 = replicate 32 0" "encode_wrap_address 0 = replicate 20 0"
    by (simp_all add: encode_wrap_hash_def encode_wrap_address_def)
qed

lemma wrap_code_hash_round [simp]:
  "wrap_code_hash_decoder (wrap_code_hash_encoder c) = c" "length (wrap_code_hash_encoder c) = 52"
  by (simp_all add: wrap_code_hash_encoder_def wrap_code_hash_decoder_def from_to_be_bytes)

lemma codecD:
  assumes "codec_documented C"
  shows "abi_decode_signed C (abi_encode_signed C uo) = Some uo"
    and "abi_decode_entry C (abi_encode_entry C en) = Some en"
    and "decompress_user_op_set C (compress_user_op_set C hs) = Some (remdups hs)"
    and "decompress_code_hashes C (compress_code_hashes C cs) = Some cs"
  using assms
  by (simp_all add: codec_documented_def decompress_user_op_set_def compress_user_op_set_def comp_def
      decompress_code_hashes_def compress_code_hashes_def list_all_iff from_to_be_bytes)

subsection \<open>Reading and writing a table\<close>

lemma mdbxD:
  assumes "mdbx_documented M dv tv"
  shows "\<exists>t. env_tx M d = Inr t \<and> tv t = dv d"
    and "\<exists>t. env_tx_mut M d = Inr t \<and> tv t = dv d"
    and "tx_get M tb k t = Inr (tv t tb k)"
    and "\<exists>u. tx_put M tb k v t = Inr u \<and> tv u = (tv t)(tb := (tv t tb)(k \<mapsto> v))"
    and "\<exists>u. tx_delete M tb k t = Inr u \<and> tv u = (tv t)(tb := (tv t tb)(k := None))"
    and "\<exists>u. tx_clear M tb t = Inr u \<and> tv u = (tv t)(tb := Map.empty)"
    and "\<exists>xs. tx_walk M tb None t = Inr xs \<and> distinct (map fst xs) \<and> set xs = {(k, v). tv t tb k = Some v}"
    and "\<exists>xs. tx_walk M tb (Some k) t = Inr xs \<and> distinct (map fst xs) \<and>
      set xs = {(k', v). tv t tb k' = Some v \<and> bytes_le k k'}"
    and "\<exists>e. tx_commit M t d = (Inr (), e) \<and> dv e = tv t"
  using assms by (simp_all add: mdbx_documented_def)

lemma tx_run_commits:
  assumes "mdbx_documented M dv tv"
    and "\<And>t. tv t = dv d \<Longrightarrow> \<exists>u. f t = Ok (x, Some u) \<and> tv u = w"
  shows "\<exists>e. tx_run M conv f d = (Ok x, e) \<and> dv e = w"
proof -
  obtain t where t: "env_tx_mut M d = Inr t" "tv t = dv d" using mdbxD(2) [OF assms(1)] by blast
  obtain u where u: "f t = Ok (x, Some u)" "tv u = w" using assms(2) [OF t(2)] by blast
  obtain e where "tx_commit M u d = (Inr (), e)" "dv e = tv u" using mdbxD(9) [OF assms(1)] by blast
  with t u show ?thesis by (simp add: tx_run_def)
qed

lemma tx_run_drops:
  assumes "mdbx_documented M dv tv" and "\<And>t. tv t = dv d \<Longrightarrow> f t = Ok (x, None)"
  shows "tx_run M conv f d = (Ok x, d)"
  using mdbxD(2) [OF assms(1), of d] assms(2) by (auto simp: tx_run_def)

lemma db_get_cell:
  assumes "mdbx_documented M dv tv" and "table_ok n dec (tv t tb)"
  shows "db_get M tb dec k t = Ok (cell (tv t tb) dec k)"
  using assms by (auto simp: db_get_def mdbxD(3) cell_def table_ok_def split: option.splits) fastforce

lemma collect_outcomes_Ok: "list_all (\<lambda>x. f x = Ok (g x)) xs \<Longrightarrow> collect_outcomes (map f xs) = Ok (map g xs)"
  by (induction xs) auto

lemma cell_upd:
  "dec b = Some v \<Longrightarrow> cell (V(k \<mapsto> b)) dec = (cell V dec)(k \<mapsto> v)"
  "cell (V(k := None)) dec = (cell V dec)(k := None)"
  by (rule ext, simp add: cell_def)+

lemma table_ok_upd:
  "table_ok n dec V \<Longrightarrow> length k = n \<Longrightarrow> dec b \<noteq> None \<Longrightarrow> table_ok n dec (V(k \<mapsto> b))"
  "table_ok n dec V \<Longrightarrow> table_ok n dec (V(k := None))"
  "table_ok n dec Map.empty"
  by (auto simp: table_ok_def)

lemma cell_None_iff: "table_ok n dec V \<Longrightarrow> cell V dec k = None \<longleftrightarrow> V k = None"
  by (cases "V k") (auto simp: cell_def table_ok_def)

text \<open>A walk over the whole table gives every key once with its value.\<close>

lemma db_walk_complete:
  assumes "mdbx_documented M dv tv" and ok: "table_ok n dec (tv t tb)"
    and whole: "start = None \<or> start = Some (replicate n 0)"
    and key: "\<And>k. length k = n \<Longrightarrow> \<exists>x. k = enck x \<and> deck k = Ok x"
    and inj: "\<And>x y. enck x = enck y \<longleftrightarrow> x = y"
  shows "\<exists>xs. db_walk M tb deck dec start t = Ok xs \<and> distinct (map fst xs) \<and>
    set xs = {(x, v). cell (tv t tb) dec (enck x) = Some v}"
proof -
  have len: "length k = n" "\<exists>v. dec b = Some v" if "tv t tb k = Some b" for k b
    using ok that by (auto simp: table_ok_def)
  obtain ys where ys: "tx_walk M tb start t = Inr ys" "distinct (map fst ys)"
      "set ys = {(k, b). tv t tb k = Some b}"
  proof (cases start)
    case None
    then show ?thesis using mdbxD(7) [OF assms(1), of tb t] that by blast
  next
    case (Some k0)
    obtain ys where y: "tx_walk M tb start t = Inr ys" "distinct (map fst ys)"
        "set ys = {(k, b). tv t tb k = Some b \<and> bytes_le k0 k}"
      using mdbxD(8) [OF assms(1), of tb k0 t] Some by blast
    have "set ys = {(k, b). tv t tb k = Some b}"
      unfolding y(3) using Some whole len(1) bytes_le_zeros [of n] by auto
    with y show ?thesis using that by blast
  qed
  define g where "g = (\<lambda>(k, b). ((case deck k of Ok x \<Rightarrow> x | _ \<Rightarrow> undefined) , the (dec b)))"
  have dk: "deck (enck x) = Ok x" if "length (enck x) = n" for x
    using key [OF that] inj by auto
  have "db_walk M tb deck dec start t = Ok (map g ys)"
    unfolding db_walk_def ys(1) lib_simps bind_ok_simps
  proof (rule collect_outcomes_Ok, unfold list_all_iff, rule ballI)
    fix y
    assume "y \<in> set ys"
    then obtain k b where y: "y = (k, b)" "tv t tb k = Some b" using ys(3) by auto
    then obtain x v where "deck k = Ok x" "dec b = Some v" using len key by metis
    with y show "(case y of (k, bs) \<Rightarrow> bind_ok (deck k)
        (\<lambda>x. bind_ok (ok_or ''DecodeError'' (dec bs)) (\<lambda>v. Ok (x, v)))) = Ok (g y)"
      by (simp add: g_def)
  qed
  moreover have fst_g: "map fst ys = map enck (map fst (map g ys))"
  proof -
    have "fst y = enck (fst (g y))" if mem: "y \<in> set ys" for y
    proof -
      obtain k b where y: "y = (k, b)" "tv t tb k = Some b" using ys(3) mem by auto
      then obtain x where "k = enck x" "deck k = Ok x" using len key by metis
      with y show ?thesis by (simp add: g_def)
    qed
    then show ?thesis by simp
  qed
  then have "distinct (map fst (map g ys))" using ys(2) by (metis distinct_map)
  moreover have "set (map g ys) = {(x, v). cell (tv t tb) dec (enck x) = Some v}"
  proof (intro equalityI subsetI)
    fix z
    assume "z \<in> set (map g ys)"
    then obtain k b where z: "z = g (k, b)" "tv t tb k = Some b" using ys(3) by auto
    then obtain x v where "k = enck x" "deck k = Ok x" "dec b = Some v" using len key by metis
    with z show "z \<in> {(x, v). cell (tv t tb) dec (enck x) = Some v}" by (simp add: g_def cell_def)
  next
    fix z
    assume "z \<in> {(x, v). cell (tv t tb) dec (enck x) = Some v}"
    then obtain x v b where z: "z = (x, v)" "tv t tb (enck x) = Some b" "dec b = Some v"
      by (auto simp: cell_def bind_eq_Some_conv)
    then have "z = g (enck x, b)" "(enck x, b) \<in> set ys" using dk len ys(3) by (simp_all add: g_def)
    then show "z \<in> set (map g ys)" unfolding set_map by (rule image_eqI)
  qed
  ultimately show ?thesis by blast
qed

section \<open>The contracts that the database satisfies\<close>

lemmas db_view_defs = db_ok_def db_ops_def [abs_def] db_index_def [abs_def] db_codes_def [abs_def]

lemma db_put:
  assumes doc: "mdbx_documented M dv tv"
    and f: "\<And>t. tv t = dv d \<Longrightarrow>
      f t = bind_ok (lib (tx_put M tb k b t)) (\<lambda>u. Ok (x, Some u))"
  shows "\<exists>e. tx_run M conv f d = (Ok x, e) \<and> dv e = (dv d)(tb := (dv d tb)(k \<mapsto> b))"
proof (rule tx_run_commits [OF doc])
  fix t
  assume t: "tv t = dv d"
  obtain u where "tx_put M tb k b t = Inr u" "tv u = (tv t)(tb := (tv t tb)(k \<mapsto> b))"
    using mdbxD(4) [OF doc] by blast
  then show "\<exists>u. f t = Ok (x, Some u) \<and> tv u = (dv d)(tb := (dv d tb)(k \<mapsto> b))"
    by (simp add: f t)
qed

lemma db_del:
  assumes doc: "mdbx_documented M dv tv"
    and f: "\<And>t. tv t = dv d \<Longrightarrow>
      f t = bind_ok (lib (tx_delete M tb k t)) (\<lambda>u. Ok (x, Some u))"
  shows "\<exists>e. tx_run M conv f d = (Ok x, e) \<and> dv e = (dv d)(tb := (dv d tb)(k := None))"
proof (rule tx_run_commits [OF doc])
  fix t
  assume t: "tv t = dv d"
  obtain u where "tx_delete M tb k t = Inr u" "tv u = (tv t)(tb := (tv t tb)(k := None))"
    using mdbxD(5) [OF doc] by blast
  then show "\<exists>u. f t = Ok (x, Some u) \<and> tv u = (dv d)(tb := (dv d tb)(k := None))"
    by (simp add: f t)
qed

lemma db_clear_empties:
  assumes doc: "mdbx_documented M dv tv"
  shows "\<exists>e. db_clear M tb d = (Ok (), e) \<and> dv e = (dv d)(tb := Map.empty)"
proof -
  have "\<exists>e. tx_run M kind_of_db (\<lambda>t. bind_ok (lib (tx_clear M tb t)) (\<lambda>t. Ok ((), Some t))) d = (Ok (), e) \<and>
      dv e = (dv d)(tb := Map.empty)"
  proof (rule tx_run_commits [OF doc])
    fix t
    assume "tv t = dv d"
    then show "\<exists>u. bind_ok (lib (tx_clear M tb t)) (\<lambda>t. Ok ((), Some t)) = Ok ((), Some u) \<and>
        tv u = (dv d)(tb := Map.empty)"
      using mdbxD(6) [OF doc, of tb t] by auto
  qed
  then show ?thesis by (auto simp: db_clear_def expect_op_def)
qed

lemma commit_ok: "mdbx_documented M dv tv \<Longrightarrow> fst (tx_commit M t d) = Inr ()"
  using mdbxD(9) [of M dv tv t d] by auto

lemma db_read:
  assumes doc: "mdbx_documented M dv tv" and ok: "table_ok n dec (dv d tb)"
  shows "\<exists>t. env_tx M d = Inr t \<and> db_get M tb dec k t = Ok (cell (dv d tb) dec k)"
    and "\<exists>t. env_tx_mut M d = Inr t \<and> db_get M tb dec k t = Ok (cell (dv d tb) dec k)"
  using mdbxD(1,2) [OF doc, of d] db_get_cell [OF doc, of n dec _ tb k] ok by metis+

lemma db_add_uo_law:
  assumes "mdbx_documented M dv tv" "codec_documented C" "db_ok dv C d"
  shows "\<exists>e. db_add_uo M C uo d = (Ok (hash uo), e) \<and> db_ok dv C e \<and>
    db_ops dv C e = (db_ops dv C d)(hash uo \<mapsto> user_operation uo) \<and>
    (db_senders dv C e, db_entities dv C e, db_codes dv C e) =
    (db_senders dv C d, db_entities dv C d, db_codes dv C d)"
proof -
  let ?k = "encode_wrap_hash (hash uo)" and ?b = "abi_encode_signed C (user_operation uo)"
  obtain e where e: "db_add_uo M C uo d = (Ok (hash uo), e)"
      "dv e = (dv d)(UserOperations := (dv d UserOperations)(?k \<mapsto> ?b))"
    using db_put [OF assms(1), of d "\<lambda>t. bind_ok (lib (tx_put M UserOperations ?k ?b t))
        (\<lambda>t. Ok (hash uo, Some t))" UserOperations ?k ?b "hash uo" kind_of_db]
    by (auto simp: db_add_uo_def)
  have dec: "abi_decode_signed C ?b = Some (user_operation uo)" by (rule codecD(1) [OF assms(2)])
  have "db_ok dv C e" using assms(3) by (simp add: db_ok_def e(2) table_ok_upd dec)
  moreover have "db_ops dv C e = (db_ops dv C d)(hash uo \<mapsto> user_operation uo)"
    by (rule ext) (simp add: db_ops_def e(2) cell_upd(1) [where dec = "abi_decode_signed C", OF dec])
  moreover have "db_senders dv C e = db_senders dv C d" "db_entities dv C e = db_entities dv C d"
    "db_codes dv C e = db_codes dv C d"
    by (rule ext, simp add: db_index_def db_codes_def e(2))+
  ultimately show ?thesis using e(1) by blast
qed

lemma db_remove_uo_law:
  assumes "mdbx_documented M dv tv" "db_ok dv C d"
  shows "\<exists>e. db_remove_by_uo_hash M C h d = (Ok (h \<in> dom (db_ops dv C d)), e) \<and> db_ok dv C e \<and>
    db_ops dv C e = (db_ops dv C d)(h := None) \<and>
    (db_senders dv C e, db_entities dv C e, db_codes dv C e) =
    (db_senders dv C d, db_entities dv C d, db_codes dv C d)"
proof -
  let ?k = "encode_wrap_hash h"
  have ok: "table_ok 32 (abi_decode_signed C) (dv d UserOperations)"
    using assms(2) by (simp add: db_ok_def)
  have "\<exists>e. db_remove_by_uo_hash M C h d = (Ok (h \<in> dom (db_ops dv C d)), e) \<and>
      dv e = (dv d)(UserOperations := (dv d UserOperations)(?k := None))"
    unfolding db_remove_by_uo_hash_def
    by (rule db_del [OF assms(1)])
      (use db_get_cell [OF assms(1), of 32 "abi_decode_signed C"] ok in
        \<open>simp add: db_ops_def domIff Option.is_none_def\<close>)
  then obtain e where e: "db_remove_by_uo_hash M C h d = (Ok (h \<in> dom (db_ops dv C d)), e)"
      "dv e = (dv d)(UserOperations := (dv d UserOperations)(?k := None))"
    by blast
  have "db_ok dv C e" using assms(2) by (simp add: db_ok_def e(2) table_ok_upd)
  moreover have "db_ops dv C e = (db_ops dv C d)(h := None)"
    by (rule ext) (simp add: db_ops_def e(2) cell_upd(2))
  moreover have "db_senders dv C e = db_senders dv C d" "db_entities dv C e = db_entities dv C d"
    "db_codes dv C e = db_codes dv C d"
    by (rule ext, simp add: db_index_def db_codes_def e(2))+
  ultimately show ?thesis using e(1) by blast
qed

lemma db_get_uo_law:
  assumes "mdbx_documented M dv tv" "db_ok dv C d"
  shows "db_get_by_uo_hash M C h d = Ok (map_option (from_user_operation_signed h) (db_ops dv C d h))"
  using db_read(1) [OF assms(1), of 32 "abi_decode_signed C" d UserOperations "encode_wrap_hash h"]
    assms(2) commit_ok [OF assms(1)]
  by (auto simp: db_get_by_uo_hash_def db_ok_def db_ops_def)

lemma db_walk_uos:
  assumes "mdbx_documented M dv tv" "db_ok dv C d" "start = None \<or> start = Some (encode_wrap_hash 0)"
  shows "\<exists>t xs. env_tx M d = Inr t \<and>
    db_walk M UserOperations decode_wrap_hash (abi_decode_signed C) start t = Ok xs \<and>
    distinct (map hash (map (\<lambda>(h, uo). from_user_operation_signed h uo) xs)) \<and>
    set (map (\<lambda>(h, uo). from_user_operation_signed h uo) xs) =
      {uo. db_ops dv C d (hash uo) = Some (user_operation uo)}"
proof -
  obtain t where t: "env_tx M d = Inr t" "tv t = dv d" using mdbxD(1) [OF assms(1)] by blast
  have ok: "table_ok 32 (abi_decode_signed C) (tv t UserOperations)"
    using assms(2) by (simp add: db_ok_def t(2))
  obtain xs where xs: "db_walk M UserOperations decode_wrap_hash (abi_decode_signed C) start t = Ok xs"
      "distinct (map fst xs)" "set xs = {(h, uo). db_ops dv C d h = Some uo}"
    using db_walk_complete [OF assms(1) ok, of start encode_wrap_hash decode_wrap_hash] assms(3)
      wrap_keys(1)
    by (auto simp: encode_wrap_zero db_ops_def t(2))
  have "map hash (map (\<lambda>(h, uo). from_user_operation_signed h uo) xs) = map fst xs" by auto
  then have "distinct (map hash (map (\<lambda>(h, uo). from_user_operation_signed h uo) xs))"
    using xs(2) by (simp only:)
  moreover have "set (map (\<lambda>(h, uo). from_user_operation_signed h uo) xs) =
      {uo. db_ops dv C d (hash uo) = Some (user_operation uo)}"
    unfolding set_map xs(3) by (force simp: from_user_operation_signed_def)
  ultimately show ?thesis using t(1) xs(1) by blast
qed

lemma database_uo_store:
  assumes "mdbx_documented M dv tv" "codec_documented C"
  shows "uo_store (database_user_operations M C) (db_ok dv C) (db_ops dv C)
    (\<lambda>d. (db_senders dv C d, db_entities dv C d, db_codes dv C d))"
proof
  fix d uo h
  assume ok: "db_ok dv C d"
  show "\<exists>e. uo_add (database_user_operations M C) uo d = (Ok (hash uo), e) \<and> db_ok dv C e \<and>
      db_ops dv C e = (db_ops dv C d)(hash uo \<mapsto> user_operation uo) \<and>
      (db_senders dv C e, db_entities dv C e, db_codes dv C e) =
      (db_senders dv C d, db_entities dv C d, db_codes dv C d)"
    using db_add_uo_law [OF assms ok] by (simp add: database_user_operations_def)
  show "\<exists>e. uo_remove_by_uo_hash (database_user_operations M C) h d =
        (Ok (h \<in> dom (db_ops dv C d)), e) \<and> db_ok dv C e \<and> db_ops dv C e = (db_ops dv C d)(h := None) \<and>
      (db_senders dv C e, db_entities dv C e, db_codes dv C e) =
      (db_senders dv C d, db_entities dv C d, db_codes dv C d)"
    using db_remove_uo_law [OF assms(1) ok] by (simp add: database_user_operations_def)
  show "uo_get_by_uo_hash (database_user_operations M C) h d =
      Ok (map_option (from_user_operation_signed h) (db_ops dv C d h))"
    using db_get_uo_law [OF assms(1) ok] by (simp add: database_user_operations_def)
  show "\<exists>xs. uo_get_all (database_user_operations M C) d = Ok xs \<and> distinct (map hash xs) \<and>
      set xs = {uo. db_ops dv C d (hash uo) = Some (user_operation uo)}"
    using db_walk_uos [OF assms(1) ok, of None]
    by (auto simp: database_user_operations_def db_get_all_def)
  show "\<exists>xs. uo_get_sorted (database_user_operations M C) d = Ok xs \<and> distinct (map hash xs) \<and>
      set xs = {uo. db_ops dv C d (hash uo) = Some (user_operation uo)} \<and>
      sorted_wrt (\<lambda>a b. cmp_priority a b \<noteq> Greater) xs"
  proof -
    obtain t xs where "env_tx M d = Inr t"
        "db_walk M UserOperations decode_wrap_hash (abi_decode_signed C) (Some (encode_wrap_hash 0)) t = Ok xs"
        "distinct (map hash (map (\<lambda>(h, uo). from_user_operation_signed h uo) xs))"
        "set (map (\<lambda>(h, uo). from_user_operation_signed h uo) xs) =
          {uo. db_ops dv C d (hash uo) = Some (user_operation uo)}"
      using db_walk_uos [OF assms(1) ok] by blast
    then show ?thesis
      using sorted_priority by (simp add: database_user_operations_def db_get_sorted_def del: set_map)
  qed
  show "\<exists>e. uo_clear (database_user_operations M C) d = (Ok (), e) \<and> db_ok dv C e \<and>
      db_ops dv C e = Map.empty \<and> (db_senders dv C e, db_entities dv C e, db_codes dv C e) =
      (db_senders dv C d, db_entities dv C d, db_codes dv C d)"
    using db_clear_empties [OF assms(1), of UserOperations d] ok
    by (auto simp: database_user_operations_def db_view_defs table_ok_upd cell_def)
qed

text \<open>Adding to an index, whichever of the two it is; removing always acts on the senders.\<close>

lemma db_index_put:
  assumes "codec_documented C" "dv e = (dv d)(tb := (dv d tb)(encode_wrap_address a \<mapsto>
      compress_user_op_set C hs))"
  shows "db_index tb dv C e = (db_index tb dv C d)(a := set hs)"
  by (rule ext)
    (simp add: db_index_def assms(2) cell_upd(1) [where dec = "decompress_user_op_set C", OF codecD(3) [OF assms(1)]])

lemma db_add_hash_law:
  assumes "mdbx_documented M dv tv" "codec_documented C"
    "table_ok 20 (decompress_user_op_set C) (dv d tb)"
  shows "\<exists>e b. db_add_uo_hash M C tb a h d = (Ok (), e) \<and>
    dv e = (dv d)(tb := (dv d tb)(encode_wrap_address a \<mapsto> b)) \<and> decompress_user_op_set C b \<noteq> None \<and>
    db_index tb dv C e = (db_index tb dv C d)(a := insert h (db_index tb dv C d a))"
proof -
  let ?k = "encode_wrap_address a"
  define old where "old = (case cell (dv d tb) (decompress_user_op_set C) ?k of Some hs \<Rightarrow> hs | None \<Rightarrow> [])"
  let ?b = "compress_user_op_set C (List.insert h old)"
  have "\<exists>e. db_add_uo_hash M C tb a h d = (Ok (), e) \<and> dv e = (dv d)(tb := (dv d tb)(?k \<mapsto> ?b))"
    unfolding db_add_uo_hash_def
    by (rule db_put [OF assms(1)])
      (use db_get_cell [OF assms(1), of 20 "decompress_user_op_set C"] assms(3) in
        \<open>simp add: old_def hs_insert_def split: option.splits\<close>)
  then obtain e where e: "db_add_uo_hash M C tb a h d = (Ok (), e)"
      "dv e = (dv d)(tb := (dv d tb)(?k \<mapsto> ?b))"
    by blast
  moreover have "set (List.insert h old) = insert h (db_index tb dv C d a)"
    by (simp add: old_def db_index_def split: option.splits)
  ultimately show ?thesis
    using db_index_put [OF assms(2) e(2)] codecD(3) [OF assms(2)] by auto
qed

lemma db_remove_hash_law:
  assumes "mdbx_documented M dv tv" "codec_documented C" "db_ok dv C d"
  shows "\<exists>b e. db_remove_uo_hash M C a h d = (Ok b, e) \<and> db_ok dv C e \<and>
    db_senders dv C e = (db_senders dv C d)(a := db_senders dv C d a - {h}) \<and>
    db_ops dv C e = db_ops dv C d \<and> db_entities dv C e = db_entities dv C d \<and>
    db_codes dv C e = db_codes dv C d"
proof -
  let ?T = "UserOperationsBySender" and ?k = "encode_wrap_address a"
  have ok: "table_ok 20 (decompress_user_op_set C) (dv d ?T)" using assms(3) by (simp add: db_ok_def)
  note get = db_get_cell [OF assms(1), of 20 "decompress_user_op_set C"]
  show ?thesis
  proof (cases "cell (dv d ?T) (decompress_user_op_set C) ?k")
    case None
    have "db_remove_uo_hash M C a h d = (Ok False, d)"
      unfolding db_remove_uo_hash_def by (rule tx_run_drops [OF assms(1)]) (use get ok None in simp)
    moreover have "db_senders dv C d a - {h} = db_senders dv C d a" using None by (simp add: db_index_def)
    ultimately show ?thesis using assms(3) by auto
  next
    case (Some hs)
    define uos where "uos = removeAll h hs"
    have set_uos: "set uos = db_senders dv C d a - {h}" using Some by (simp add: uos_def db_index_def)
    obtain e b where e: "db_remove_uo_hash M C a h d = (Ok True, e)"
        "dv e = (dv d)(?T := (dv d ?T)(?k := b))"
        "b = (if uos = [] then None else Some (compress_user_op_set C uos))"
    proof (cases "uos = []")
      case True
      have "\<exists>e. db_remove_uo_hash M C a h d = (Ok True, e) \<and> dv e = (dv d)(?T := (dv d ?T)(?k := None))"
        unfolding db_remove_uo_hash_def
        by (rule db_del [OF assms(1)]) (use get ok Some True in \<open>simp add: uos_def hs_remove_def Let_def\<close>)
      then show ?thesis using that [of _ None] True by auto
    next
      case False
      have "\<exists>e. db_remove_uo_hash M C a h d = (Ok True, e) \<and>
          dv e = (dv d)(?T := (dv d ?T)(?k \<mapsto> compress_user_op_set C uos))"
        unfolding db_remove_uo_hash_def
        by (rule db_put [OF assms(1)]) (use get ok Some False in \<open>simp add: uos_def hs_remove_def Let_def\<close>)
      then show ?thesis using that [of _ "Some (compress_user_op_set C uos)"] False by auto
    qed
    have "db_senders dv C e = (db_senders dv C d)(a := db_senders dv C d a - {h})"
    proof (cases "uos = []")
      case True
      then have "db_senders dv C d a - {h} = {}" using set_uos by simp
      with True show ?thesis by (intro ext) (simp add: db_index_def e(2,3) cell_upd(2))
    next
      case False
      then show ?thesis using db_index_put [OF assms(2), of dv e d ?T a uos] e(2,3) set_uos by simp
    qed
    moreover have "db_ok dv C e"
      using assms(3) codecD(3) [OF assms(2)] by (simp add: db_ok_def e(2,3) table_ok_upd)
    moreover have "db_ops dv C e = db_ops dv C d" "db_entities dv C e = db_entities dv C d"
      "db_codes dv C e = db_codes dv C d"
      by (rule ext, simp add: db_index_def db_codes_def db_ops_def e(2))+
    ultimately show ?thesis using e(1) by blast
  qed
qed

lemma db_all_by_address_law:
  assumes "mdbx_documented M dv tv" "table_ok 20 (decompress_user_op_set C) (dv d tb)"
  shows "distinct (db_get_all_by_address M C tb a d) \<and>
    set (db_get_all_by_address M C tb a d) = db_index tb dv C d a"
proof -
  let ?k = "encode_wrap_address a"
  obtain t where t: "env_tx M d = Inr t" "tv t = dv d" using mdbxD(1) [OF assms(1)] by blast
  have "tx_get M tb ?k t = Inr (dv d tb ?k)" using mdbxD(3) [OF assms(1)] t(2) by simp
  then have "db_get_all_by_address M C tb a d =
      (case cell (dv d tb) (decompress_user_op_set C) ?k of Some hs \<Rightarrow> hs | None \<Rightarrow> [])"
    using t(1) by (simp add: db_get_all_by_address_def cell_def split: option.split)
  moreover have "distinct hs" if "cell V (decompress_user_op_set C) k = Some hs" for V k hs
    using that by (auto simp: cell_def decompress_user_op_set_def bind_eq_Some_conv)
  ultimately show ?thesis by (auto simp: db_index_def split: option.splits)
qed

lemma database_sender_index:
  assumes "mdbx_documented M dv tv" "codec_documented C"
  shows "addr_index (database_addr_act M C UserOperationsBySender) (db_ok dv C) (db_senders dv C)
    (\<lambda>d. (db_ops dv C d, db_entities dv C d, db_codes dv C d))"
proof
  fix d a h
  assume ok: "db_ok dv C d"
  let ?A = "database_addr_act M C UserOperationsBySender"
  have t: "table_ok 20 (decompress_user_op_set C) (dv d UserOperationsBySender)"
    using ok by (simp add: db_ok_def)
  show "\<exists>e. addr_add ?A a h d = (Ok (), e) \<and> db_ok dv C e \<and>
      db_senders dv C e = (db_senders dv C d)(a := insert h (db_senders dv C d a)) \<and>
      (db_ops dv C e, db_entities dv C e, db_codes dv C e) = (db_ops dv C d, db_entities dv C d, db_codes dv C d)"
    using db_add_hash_law [OF assms t, of a h] ok
    by (auto simp: database_addr_act_def db_ok_def table_ok_upd db_ops_def [abs_def] db_codes_def [abs_def]
        db_index_def [of UserOperationsByEntity, abs_def])
  show "\<exists>b e. addr_remove_uo_hash ?A a h d = (Ok b, e) \<and> db_ok dv C e \<and>
      db_senders dv C e = (db_senders dv C d)(a := db_senders dv C d a - {h}) \<and>
      (db_ops dv C e, db_entities dv C e, db_codes dv C e) = (db_ops dv C d, db_entities dv C d, db_codes dv C d)"
    using db_remove_hash_law [OF assms ok, of a h] by (auto simp: database_addr_act_def)
  show "distinct (get_all_by_address ?A a d) \<and> set (get_all_by_address ?A a d) = db_senders dv C d a"
    using db_all_by_address_law [OF assms(1) t] by (simp add: database_addr_act_def)
  show "\<exists>e. addr_clear ?A d = (Ok (), e) \<and> db_ok dv C e \<and> db_senders dv C e = (\<lambda>_. {}) \<and>
      (db_ops dv C e, db_entities dv C e, db_codes dv C e) = (db_ops dv C d, db_entities dv C d, db_codes dv C d)"
    using db_clear_empties [OF assms(1), of UserOperationsBySender d] ok
    by (auto simp: database_addr_act_def db_view_defs table_ok_upd cell_def)
qed

lemma database_entity_index:
  assumes "mdbx_documented M dv tv" "codec_documented C"
  shows "growing_index (database_addr_act M C UserOperationsByEntity) (db_ok dv C) (db_entities dv C)
    (\<lambda>d. (db_ops dv C d, db_senders dv C d, db_codes dv C d))"
proof
  fix d a h
  assume ok: "db_ok dv C d"
  let ?A = "database_addr_act M C UserOperationsByEntity"
  have t: "table_ok 20 (decompress_user_op_set C) (dv d UserOperationsByEntity)"
    using ok by (simp add: db_ok_def)
  show "\<exists>e. addr_add ?A a h d = (Ok (), e) \<and> db_ok dv C e \<and>
      db_entities dv C e = (db_entities dv C d)(a := insert h (db_entities dv C d a)) \<and>
      (db_ops dv C e, db_senders dv C e, db_codes dv C e) = (db_ops dv C d, db_senders dv C d, db_codes dv C d)"
    using db_add_hash_law [OF assms t, of a h] ok
    by (auto simp: database_addr_act_def db_ok_def table_ok_upd db_ops_def [abs_def] db_codes_def [abs_def]
        db_index_def [of UserOperationsBySender, abs_def])
  show "distinct (get_all_by_address ?A a d) \<and> set (get_all_by_address ?A a d) = db_entities dv C d a"
    using db_all_by_address_law [OF assms(1) t] by (simp add: database_addr_act_def)
  show "\<exists>e. addr_clear ?A d = (Ok (), e) \<and> db_ok dv C e \<and> db_entities dv C e = (\<lambda>_. {}) \<and>
      (db_ops dv C e, db_senders dv C e, db_codes dv C e) = (db_ops dv C d, db_senders dv C d, db_codes dv C d)"
    using db_clear_empties [OF assms(1), of UserOperationsByEntity d] ok
    by (auto simp: database_addr_act_def db_view_defs table_ok_upd cell_def)
qed

lemma db_set_codes_law:
  assumes "mdbx_documented M dv tv" "codec_documented C" "db_ok dv C d"
  shows "\<exists>e. db_set_code_hashes M C h hs d = (Ok (), e) \<and> db_ok dv C e \<and>
    db_codes dv C e = (db_codes dv C d)(h \<mapsto> hs) \<and>
    (db_ops dv C e, db_senders dv C e, db_entities dv C e) =
    (db_ops dv C d, db_senders dv C d, db_entities dv C d)"
proof -
  let ?k = "encode_wrap_hash h" and ?b = "compress_code_hashes C hs"
  obtain e where e: "db_set_code_hashes M C h hs d = (Ok (), e)"
      "dv e = (dv d)(CodeHashesTable := (dv d CodeHashesTable)(?k \<mapsto> ?b))"
    using db_put [OF assms(1), of d "\<lambda>t. bind_ok (lib (tx_put M CodeHashesTable ?k ?b t))
        (\<lambda>t. Ok ((), Some t))" CodeHashesTable ?k ?b "()" kind_of_db]
    by (auto simp: db_set_code_hashes_def)
  have dec: "decompress_code_hashes C ?b = Some hs" by (rule codecD(4) [OF assms(2)])
  have "db_ok dv C e" using assms(3) by (simp add: db_ok_def e(2) table_ok_upd dec)
  moreover have "db_codes dv C e = (db_codes dv C d)(h \<mapsto> hs)"
    by (rule ext) (simp add: db_codes_def e(2) cell_upd(1) [where dec = "decompress_code_hashes C", OF dec])
  moreover have "db_senders dv C e = db_senders dv C d" "db_entities dv C e = db_entities dv C d"
    "db_ops dv C e = db_ops dv C d"
    by (rule ext, simp add: db_index_def db_ops_def e(2))+
  ultimately show ?thesis using e(1) by blast
qed

lemma database_growing_codes:
  assumes "mdbx_documented M dv tv" "codec_documented C"
  shows "growing_codes (database_code_hashes M C) (db_ok dv C) (db_codes dv C)
    (\<lambda>d. (db_ops dv C d, db_senders dv C d, db_entities dv C d))"
proof
  fix d h hs
  assume ok: "db_ok dv C d"
  then have t: "table_ok 32 (decompress_code_hashes C) (dv d CodeHashesTable)" by (simp add: db_ok_def)
  note rd = db_read [OF assms(1) t, of "encode_wrap_hash h"]
  show "ch_has_code_hashes (database_code_hashes M C) h d = Ok (h \<in> dom (db_codes dv C d))"
    using rd(1) by (auto simp: database_code_hashes_def db_has_code_hashes_def db_codes_def domIff
        Option.is_none_def)
  show "ch_get_code_hashes (database_code_hashes M C) h d =
      Ok (case db_codes dv C d h of Some hs \<Rightarrow> hs | None \<Rightarrow> [])"
    using rd(2) by (auto simp: database_code_hashes_def db_get_code_hashes_def db_codes_def)
  show "\<exists>e. ch_set_code_hashes (database_code_hashes M C) h hs d = (Ok (), e) \<and> db_ok dv C e \<and>
      db_codes dv C e = (db_codes dv C d)(h \<mapsto> hs) \<and>
      (db_ops dv C e, db_senders dv C e, db_entities dv C e) =
      (db_ops dv C d, db_senders dv C d, db_entities dv C d)"
    using db_set_codes_law [OF assms ok] by (simp add: database_code_hashes_def)
  show "\<exists>e. ch_clear (database_code_hashes M C) d = (Ok (), e) \<and> db_ok dv C e \<and>
      db_codes dv C e = Map.empty \<and> (db_ops dv C e, db_senders dv C e, db_entities dv C e) =
      (db_ops dv C d, db_senders dv C d, db_entities dv C d)"
    using db_clear_empties [OF assms(1), of CodeHashesTable d] ok
    by (auto simp: database_code_hashes_def db_view_defs table_ok_upd cell_def)
qed

text \<open>The database pool satisfies the contract of a pool that adds and reads.\<close>

lemma database_growing_pool:
  assumes "mdbx_documented M dv tv" "codec_documented C"
  shows "growing_pool (database_mempool M C) (db_ok dv C) (db_ops dv C) (db_senders dv C)
    (db_entities dv C) (db_codes dv C)"
  unfolding growing_pool_def database_mempool_def
  using database_uo_store [OF assms] database_sender_index [OF assms] database_entity_index [OF assms]
    database_growing_codes [OF assms] by simp

lemma db_remove_codes_law:
  assumes "mdbx_documented M dv tv" "db_ok dv C d"
  shows "\<exists>b. db_remove_code_hashes M C h d = (Ok b, d)"
proof -
  have t: "table_ok 32 (decompress_code_hashes C) (dv d CodeHashesTable)"
    using assms(2) by (simp add: db_ok_def)
  let ?f = "\<lambda>t. bind_ok (db_get M CodeHashesTable (decompress_code_hashes C) (encode_wrap_hash h) t) (\<lambda>res.
     if \<not> Option.is_none res then
       bind_ok (lib (tx_delete M CodeHashesTable (encode_wrap_hash h) t)) (\<lambda>_. Ok (True, None))
     else Ok (False, None))"
  have "?f u = Ok (\<not> Option.is_none (db_codes dv C d h), None)" if "tv u = dv d" for u
    using db_get_cell [OF assms(1), of 32 "decompress_code_hashes C" u CodeHashesTable] t that
      mdbxD(5) [OF assms(1), of CodeHashesTable "encode_wrap_hash h" u]
    by (auto simp: db_codes_def)
  then show ?thesis unfolding db_remove_code_hashes_def by (blast intro: tx_run_drops [OF assms(1)])
qed

lemma database_entry_store:
  assumes "mdbx_documented M dv tv" "codec_documented C"
  shows "entry_store (database_entries M C) (db_entries_ok dv C) (db_entries dv C)"
proof
  fix d a en
  assume ok: "db_entries_ok dv C d"
  let ?dec = "abi_decode_entry C"
  have t: "table_ok 20 ?dec (dv d EntitiesReputation)" using ok by (simp add: db_entries_ok_def)
  have get: "db_get_entry M C a d = Ok (db_entries dv C d a)" for a
    using db_read(1) [OF assms(1) t, of "encode_wrap_address a"] commit_ok [OF assms(1)]
    by (auto simp: db_get_entry_def db_entries_def)
  show "get_entry (database_entries M C) a d = Ok (db_entries dv C d a)"
    by (simp add: database_entries_def get)
  show "contains_entry (database_entries M C) a d = Ok (a \<in> dom (db_entries dv C d))"
    by (simp add: database_entries_def db_contains_entry_def get domIff Option.is_none_def)
  show "re_address en = a" if "db_entries dv C d a = Some en"
    using ok that by (simp add: db_entries_ok_def)
  show "\<exists>e. set_entry (database_entries M C) en d = (Ok (db_entries dv C d (re_address en)), e) \<and>
      db_entries_ok dv C e \<and> db_entries dv C e = (db_entries dv C d)(re_address en \<mapsto> en)"
  proof -
    let ?k = "encode_wrap_address (re_address en)" and ?b = "abi_encode_entry C en"
    have "\<exists>e. db_set_entry M C en d = (Ok (db_entries dv C d (re_address en)), e) \<and>
        dv e = (dv d)(EntitiesReputation := (dv d EntitiesReputation)(?k \<mapsto> ?b))"
      unfolding db_set_entry_def
      by (rule db_put [OF assms(1)])
        (use db_get_cell [OF assms(1), of 20 ?dec] t in \<open>simp add: db_entries_def\<close>)
    then obtain e where e: "db_set_entry M C en d = (Ok (db_entries dv C d (re_address en)), e)"
        "dv e = (dv d)(EntitiesReputation := (dv d EntitiesReputation)(?k \<mapsto> ?b))"
      by blast
    have dec: "?dec ?b = Some en" by (rule codecD(2) [OF assms(2)])
    have view: "db_entries dv C e = (db_entries dv C d)(re_address en \<mapsto> en)"
      by (rule ext) (simp add: db_entries_def e(2) cell_upd(1) [where dec = ?dec, OF dec])
    moreover have "db_entries_ok dv C e"
      using ok unfolding db_entries_ok_def view by (auto simp: e(2) table_ok_upd dec)
    ultimately show ?thesis using e(1) by (simp add: database_entries_def)
  qed
  show "\<exists>e. entries_clear (database_entries M C) d = (Ok (), e) \<and> db_entries_ok dv C e \<and>
      db_entries dv C e = Map.empty"
    using db_clear_empties [OF assms(1), of EntitiesReputation d]
    by (auto simp: database_entries_def db_entries_ok_def db_entries_def [abs_def] table_ok_upd cell_def)
  show "\<exists>xs. entries_get_all (database_entries M C) d = Ok xs \<and> distinct (map re_address xs) \<and>
      set xs = ran (db_entries dv C d)"
  proof -
    obtain u where u: "env_tx M d = Inr u" "tv u = dv d" using mdbxD(1) [OF assms(1)] by blast
    obtain xs where xs: "db_walk M EntitiesReputation decode_wrap_address ?dec
          (Some (encode_wrap_address 0)) u = Ok xs"
        "distinct (map fst xs)" "set xs = {(a, en). db_entries dv C d a = Some en}"
      using db_walk_complete [OF assms(1), of 20 ?dec u EntitiesReputation "Some (replicate 20 0)"
          encode_wrap_address decode_wrap_address] t u(2) wrap_keys(2)
      by (auto simp: encode_wrap_zero db_entries_def)
    have "entries_get_all (database_entries M C) d = Ok (map snd xs)"
      using u(1) xs(1) commit_ok [OF assms(1)]
      by (simp add: database_entries_def db_entries_get_all_def unwrap_or_empty_def)
    moreover have "map re_address (map snd xs) = map fst xs"
      using xs(3) ok by (auto simp: db_entries_ok_def)
    then have "distinct (map re_address (map snd xs))" using xs(2) by (simp only:)
    moreover have "snd ` {(a, en). db_entries dv C d a = Some en} = ran (db_entries dv C d)"
      by (force simp: ran_def)
    ultimately show ?thesis by (simp add: xs(3))
  qed
qed

section \<open>The database pool against the memory pool\<close>

datatype growth = Grow_Add user_operation | Grow_Codes user_operation_hash "code_hash list" | Grow_Clear

definition grow :: "'s mempool \<Rightarrow> growth \<Rightarrow> ('s, mempool_error_kind, user_operation_hash option) op" where
  "grow P g =
     (case g of
        Grow_Add uo \<Rightarrow> bind_op (mempool_add P uo) (\<lambda>h. ret (Some h))
      | Grow_Codes h hs \<Rightarrow> bind_op (mempool_set_code_hashes P h hs) (\<lambda>_. ret None)
      | Grow_Clear \<Rightarrow> bind_op (mempool_clear P) (\<lambda>_. ret None))"

definition db_consistent :: "'d db_view \<Rightarrow> db_codec \<Rightarrow> 'd \<Rightarrow> bool" where
  "db_consistent dv C = consistent (db_ok dv C) (db_ops dv C) (db_senders dv C) (db_entities dv C)"

definition pools_agree :: "'d db_view \<Rightarrow> db_codec \<Rightarrow> 'd \<Rightarrow> memory_tables \<Rightarrow> bool" where
  "pools_agree dv C d s =
     (db_consistent dv C d \<and> mem_consistent s \<and> db_ops dv C d = mem_ops s \<and> db_codes dv C d = mem_codes s)"

lemmas db_refinements = growing_pool.add_refines [OF database_growing_pool, folded db_consistent_def]
  growing_pool.set_code_hashes_refines [OF database_growing_pool, folded db_consistent_def]
  growing_pool.clear_refines [OF database_growing_pool, folded db_consistent_def]

lemma db_consistent_ok: "db_consistent dv C d \<Longrightarrow> db_ok dv C d"
  by (simp add: db_consistent_def consistent_def)

lemma grow_agree:
  assumes doc: "mdbx_documented M dv tv" "codec_documented C" and ag: "pools_agree dv C d s"
    and same: "\<And>uo. g = Grow_Add uo \<Longrightarrow> same_entities (mem_ops s) uo"
  shows "\<exists>r e t. grow (database_mempool M C) g d = (Ok r, e) \<and> grow memory_mempool g s = (Ok r, t) \<and>
    pools_agree dv C e t"
proof -
  have con: "db_consistent dv C d" "mem_consistent s" "db_ops dv C d = mem_ops s" "db_codes dv C d = mem_codes s"
    using ag by (simp_all add: pools_agree_def)
  note ok = db_consistent_ok [OF con(1)] mem_consistent_ok [OF con(2)]
  show ?thesis
  proof (cases g)
    case (Grow_Add uo)
    note same = same [OF Grow_Add]
    obtain e where e: "mempool_add (database_mempool M C) uo d = (Ok (hash uo), e)" "db_consistent dv C e"
        "db_ops dv C e = (db_ops dv C d)(hash uo \<mapsto> user_operation uo)" "db_codes dv C e = db_codes dv C d"
      using db_refinements(1) [OF doc con(1)] same con(3) by metis
    obtain t where t: "mempool_add memory_mempool uo s = (Ok (hash uo), t)" "mem_consistent t"
        "mem_ops t = (mem_ops s)(hash uo \<mapsto> user_operation uo)" "mem_codes t = mem_codes s"
      using mem_refinements(1) [OF con(2) same] by blast
    from e t con show ?thesis by (simp add: Grow_Add grow_def outcome_simps pools_agree_def)
  next
    case (Grow_Codes h hs)
    obtain e where e: "mempool_set_code_hashes (database_mempool M C) h hs d = (Ok (), e)" "db_consistent dv C e"
        "db_ops dv C e = db_ops dv C d" "db_codes dv C e = (db_codes dv C d)(h \<mapsto> hs)"
      using db_refinements(2) [OF doc con(1)] by metis
    obtain t where t: "mempool_set_code_hashes memory_mempool h hs s = (Ok (), t)" "mem_consistent t"
        "mem_ops t = mem_ops s" "mem_codes t = (mem_codes s)(h \<mapsto> hs)"
      using mem_refinements(4) [OF con(2)] by metis
    from e t con show ?thesis by (simp add: Grow_Codes grow_def outcome_simps pools_agree_def)
  next
    case Grow_Clear
    obtain e where e: "mempool_clear (database_mempool M C) d = (Ok (), e)" "db_consistent dv C e"
        "db_ops dv C e = Map.empty" "db_codes dv C e = Map.empty"
      using db_refinements(3) [OF doc ok(1)] by metis
    obtain t where t: "mempool_clear memory_mempool s = (Ok (), t)" "mem_consistent t"
        "mem_ops t = Map.empty" "mem_codes t = Map.empty"
      using mem_refinements(5) [OF ok(2)] by metis
    from e t show ?thesis by (simp add: Grow_Clear grow_def outcome_simps pools_agree_def)
  qed
qed

lemma agree_queries:
  assumes doc: "mdbx_documented M dv tv" "codec_documented C" and ag: "pools_agree dv C d s"
  shows "mempool_get (database_mempool M C) h d = mempool_get memory_mempool h s"
    and "get_number_by_sender (database_mempool M C) a d = get_number_by_sender memory_mempool a s"
    and "get_number_by_entity (database_mempool M C) a d = get_number_by_entity memory_mempool a s"
proof -
  have con: "db_consistent dv C d" "mem_consistent s" "db_ops dv C d = mem_ops s"
    using ag by (simp_all add: pools_agree_def)
  note db = database_growing_pool [OF doc]
  show "mempool_get (database_mempool M C) h d = mempool_get memory_mempool h s"
    using growing_pool.get_refines [OF db db_consistent_ok [OF con(1)]]
      mem.get_refines [OF mem_consistent_ok [OF con(2)]] con(3) by simp
  show "get_number_by_sender (database_mempool M C) a d = get_number_by_sender memory_mempool a s"
    using growing_pool.number_by_sender_refines [OF db con(1) [unfolded db_consistent_def]]
      mem_queries(2) [OF con(2)] con(3) by simp
  show "get_number_by_entity (database_mempool M C) a d = get_number_by_entity memory_mempool a s"
    using growing_pool.number_by_entity_refines [OF db con(1) [unfolded db_consistent_def]]
      mem_queries(3) [OF con(2)] con(3) by simp
qed

text \<open>C6: As long as nothing is removed and the database works, the database pool behaves like the memory
  pool. Let every call of the database library succeed. From a database and a memory that hold the
  same operations and code hashes with consistent indices, adding an operation whose hash is not taken
  by one with another sender, factory or paymaster, setting code hashes and clearing return the same
  result on both, they agree again afterwards, and every lookup by hash and every count by sender or
  by entity gives the same answer.
\<close>

theorem database_agrees_with_memory:
  assumes "mdbx_documented M dv tv" "codec_documented C" "pools_agree dv C d s"
    and "\<And>uo. g = Grow_Add uo \<Longrightarrow> same_entities (mem_ops s) uo"
  shows "\<exists>r e t. grow (database_mempool M C) g d = (Ok r, e) \<and> grow memory_mempool g s = (Ok r, t) \<and>
    pools_agree dv C e t \<and>
    (\<forall>h. mempool_get (database_mempool M C) h e = mempool_get memory_mempool h t) \<and>
    (\<forall>a. get_number_by_sender (database_mempool M C) a e = get_number_by_sender memory_mempool a t) \<and>
    (\<forall>a. get_number_by_entity (database_mempool M C) a e = get_number_by_entity memory_mempool a t)"
proof -
  obtain r e t where g: "grow (database_mempool M C) g d = (Ok r, e)" "grow memory_mempool g s = (Ok r, t)"
      "pools_agree dv C e t"
    using grow_agree [OF assms] by blast
  with agree_queries [OF assms(1,2) g(3)] show ?thesis by simp
qed

section \<open>Removing from the database pool\<close>

lemma db_remove_stale:
  assumes "mdbx_documented M dv tv" "codec_documented C" "db_ok dv C d"
    and "\<And>a. h \<notin> db_senders dv C d a"
  shows "\<exists>e. when_some f (\<lambda>f. bind_op (addr_remove_uo_hash (database_addr_act M C tb) f h)
      (\<lambda>_. ret ())) d = (Ok (), e) \<and> db_ok dv C e \<and> db_ops dv C e = db_ops dv C d \<and>
    db_senders dv C e = db_senders dv C d \<and> db_entities dv C e = db_entities dv C d \<and>
    db_codes dv C e = db_codes dv C d"
proof (cases f)
  case None
  then show ?thesis using assms(3) by simp
next
  case (Some a)
  have "(db_senders dv C d)(a := db_senders dv C d a - {h}) = db_senders dv C d"
    using assms(4) [of a] by (intro fun_upd_idem) simp
  then obtain b e where "db_remove_uo_hash M C a h d = (Ok b, e)" "db_ok dv C e"
      "db_senders dv C e = db_senders dv C d" "db_ops dv C e = db_ops dv C d"
      "db_entities dv C e = db_entities dv C d" "db_codes dv C e = db_codes dv C d"
    using db_remove_hash_law [OF assms(1-3), of a h] by metis
  then show ?thesis using Some by (simp add: database_addr_act_def outcome_simps)
qed

lemma db_mempool_remove:
  assumes doc: "mdbx_documented M dv tv" "codec_documented C"
    and con: "db_consistent dv C d" and uo: "db_ops dv C d h = Some uo"
  shows "\<exists>e. mempool_remove (database_mempool M C) h d = (Ok True, e) \<and> db_ok dv C e \<and>
    db_ops dv C e = (db_ops dv C d)(h := None) \<and> db_senders dv C e = sender_index (db_ops dv C e) \<and>
    db_entities dv C e = db_entities dv C d \<and> db_codes dv C e = db_codes dv C d"
proof -
  obtain f p where en: "get_entities uo = (sender uo, f, p)" by (auto simp: get_entities_def)
  note ok = db_consistent_ok [OF con]
  obtain e1 where 1: "db_remove_by_uo_hash M C h d = (Ok (h \<in> dom (db_ops dv C d)), e1)" "db_ok dv C e1"
      "db_ops dv C e1 = (db_ops dv C d)(h := None)" "db_senders dv C e1 = db_senders dv C d"
      "db_entities dv C e1 = db_entities dv C d" "db_codes dv C e1 = db_codes dv C d"
    using db_remove_uo_law [OF doc(1) ok, of h] by auto
  obtain b e2 where 2: "db_remove_uo_hash M C (sender uo) h e1 = (Ok b, e2)" "db_ok dv C e2"
      "db_senders dv C e2 = (db_senders dv C e1)(sender uo := db_senders dv C e1 (sender uo) - {h})"
      "db_ops dv C e2 = db_ops dv C e1" "db_entities dv C e2 = db_entities dv C e1"
      "db_codes dv C e2 = db_codes dv C e1"
    using db_remove_hash_law [OF doc 1(2), of "sender uo" h] by metis
  have snd2: "db_senders dv C e2 = sender_index (db_ops dv C e2)"
    using con uo by (simp add: 2(3,4) 1(3,4) sender_index_delete db_consistent_def consistent_def)
  then have fresh: "h \<notin> db_senders dv C e2 a" for a by (simp add: 2(4) 1(3) sender_index_def)
  obtain e3 where 3: "when_some f (\<lambda>f. bind_op (addr_remove_uo_hash
        (database_addr_act M C UserOperationsByEntity) f h) (\<lambda>_. ret ())) e2 = (Ok (), e3)" "db_ok dv C e3"
      "db_ops dv C e3 = db_ops dv C e2" "db_senders dv C e3 = db_senders dv C e2"
      "db_entities dv C e3 = db_entities dv C e2" "db_codes dv C e3 = db_codes dv C e2"
    using db_remove_stale [OF doc 2(2) fresh] by blast
  obtain e4 where 4: "when_some p (\<lambda>p. bind_op (addr_remove_uo_hash
        (database_addr_act M C UserOperationsByEntity) p h) (\<lambda>_. ret ())) e3 = (Ok (), e4)" "db_ok dv C e4"
      "db_ops dv C e4 = db_ops dv C e3" "db_senders dv C e4 = db_senders dv C e3"
      "db_entities dv C e4 = db_entities dv C e3" "db_codes dv C e4 = db_codes dv C e3"
    using db_remove_stale [OF doc 3(2), of h] fresh 3(4) by metis
  obtain c where 5: "db_remove_code_hashes M C h e4 = (Ok c, e4)"
    using db_remove_codes_law [OF doc(1) 4(2)] by blast
  have "mempool_remove (database_mempool M C) h d = (Ok True, e4)"
    using 1(1) 2(1) 3(1) 4(1) 5 uo db_get_uo_law [OF doc(1) ok, of h]
    by (simp add: mempool_remove_def database_mempool_def database_user_operations_def en outcome_simps
        database_code_hashes_def database_addr_act_def)
  then show ?thesis
    using 4(2-6) 3(3-6) 2(4-6) 1(3,5,6) snd2 by auto
qed

text \<open>C16: Removing an operation from the database pool leaves traces. The operation disappears from the
  table of operations and from the index of its sender, but the hash stays filed under its factory
  and its paymaster, because the shared macro removes from the table of the senders, and its code
  hashes stay, because their removal is never committed. The number of operations counted for an
  entity therefore never goes down when operations leave the pool.
\<close>

theorem database_remove_leaves_traces:
  assumes "mdbx_documented M dv tv" "codec_documented C" "db_consistent dv C d"
    and "db_ops dv C d h = Some uo"
  shows "\<exists>e. mempool_remove (database_mempool M C) h d = (Ok True, e) \<and>
    db_ops dv C e = (db_ops dv C d)(h := None) \<and> db_senders dv C e = sender_index (db_ops dv C e) \<and>
    (\<forall>a. a \<in> entities_of uo \<longrightarrow> h \<in> db_entities dv C e a) \<and> db_codes dv C e = db_codes dv C d \<and>
    (\<forall>a. get_number_by_entity (database_mempool M C) a e =
      get_number_by_entity (database_mempool M C) a d)"
proof -
  obtain e where e: "mempool_remove (database_mempool M C) h d = (Ok True, e)" "db_ok dv C e"
      "db_ops dv C e = (db_ops dv C d)(h := None)" "db_senders dv C e = sender_index (db_ops dv C e)"
      "db_entities dv C e = db_entities dv C d" "db_codes dv C e = db_codes dv C d"
    using db_mempool_remove [OF assms] by blast
  have num: "get_number_by_entity (database_mempool M C) a x = card (db_entities dv C x a)"
    if "db_ok dv C x" for x a
    using db_all_by_address_law [OF assms(1), of C x UserOperationsByEntity a] that distinct_card
    by (fastforce simp: get_number_by_entity_def get_number_by_address_def database_mempool_def
        database_addr_act_def db_ok_def)
  have "db_entities dv C d = entity_index (db_ops dv C d)"
    using assms(3) by (simp add: db_consistent_def consistent_def)
  then have "a \<in> entities_of uo \<Longrightarrow> h \<in> db_entities dv C e a" for a
    using assms(4) e(5) by (auto simp: entity_index_def)
  then show ?thesis using e num [OF e(2)] num [OF db_consistent_ok [OF assms(3)]] by simp
qed

section \<open>An instance of the libraries\<close>

definition ref_mdbx :: "(db_table \<Rightarrow> (bytes \<times> bytes) list, db_table \<Rightarrow> (bytes \<times> bytes) list) mdbx" where
  "ref_mdbx = \<lparr>
     env_tx = Inr, env_tx_mut = Inr,
     tx_get = (\<lambda>tb k t. Inr (map_of (t tb) k)),
     tx_put = (\<lambda>tb k v t. Inr (t(tb := AList.update k v (t tb)))),
     tx_delete = (\<lambda>tb k t. Inr (t(tb := AList.delete k (t tb)))),
     tx_clear = (\<lambda>tb t. Inr (t(tb := []))),
     tx_walk = (\<lambda>tb start t. Inr (filter (\<lambda>(k, v). case start of None \<Rightarrow> True | Some k0 \<Rightarrow> bytes_le k0 k)
       (AList.clearjunk (t tb)))),
     tx_commit = (\<lambda>t d. (Inr (), t))\<rparr>"

definition ref_view :: "(db_table \<Rightarrow> (bytes \<times> bytes) list) \<Rightarrow> db_table \<Rightarrow> bytes \<Rightarrow> bytes option" where
  "ref_view d tb k = map_of (d tb) k"

fun put_string :: "bytes \<Rightarrow> bytes" where
  "put_string [] = [0]"
| "put_string (b # bs) = 1 # b # put_string bs"

fun get_string :: "bytes \<Rightarrow> bytes \<times> bytes" where
  "get_string (x # y # bs) =
     (if x = 0 then ([], y # bs) else (case get_string bs of (s, r) \<Rightarrow> (y # s, r)))"
| "get_string bs = ([], drop 1 bs)"

fun get_chunks :: "nat \<Rightarrow> nat \<Rightarrow> bytes \<Rightarrow> bytes list" where
  "get_chunks 0 n bs = []"
| "get_chunks (Suc m) n bs = (if bs = [] then [] else take n (drop 1 bs) # get_chunks m n (drop (Suc n) bs))"

definition ref_encode_signed :: "user_operation_signed \<Rightarrow> bytes" where
  "ref_encode_signed uo =
     to_be_bytes 20 (sender uo) @ to_be_bytes 32 (nonce uo) @ to_be_bytes 32 (call_gas_limit uo) @
     to_be_bytes 32 (verification_gas_limit uo) @ to_be_bytes 32 (pre_verification_gas uo) @
     to_be_bytes 32 (max_fee_per_gas uo) @ to_be_bytes 32 (max_priority_fee_per_gas uo) @
     put_string (init_code uo) @ put_string (call_data uo) @ put_string (paymaster_and_data uo) @
     put_string (signature uo)"

definition ref_decode_signed :: "bytes \<Rightarrow> user_operation_signed option" where
  "ref_decode_signed bs =
     (case get_string (drop 212 bs) of (ic, r1) \<Rightarrow>
      case get_string r1 of (cd, r2) \<Rightarrow>
      case get_string r2 of (pd, r3) \<Rightarrow>
      Some \<lparr>sender = from_be_bytes (take 20 bs), nonce = from_be_bytes (take 32 (drop 20 bs)),
        init_code = ic, call_data = cd, call_gas_limit = from_be_bytes (take 32 (drop 52 bs)),
        verification_gas_limit = from_be_bytes (take 32 (drop 84 bs)),
        pre_verification_gas = from_be_bytes (take 32 (drop 116 bs)),
        max_fee_per_gas = from_be_bytes (take 32 (drop 148 bs)),
        max_priority_fee_per_gas = from_be_bytes (take 32 (drop 180 bs)),
        paymaster_and_data = pd, signature = fst (get_string r3)\<rparr>)"

definition ref_codec :: db_codec where
  "ref_codec = \<lparr>
     abi_encode_signed = ref_encode_signed, abi_decode_signed = ref_decode_signed,
     abi_encode_entry = (\<lambda>en. to_be_bytes 20 (re_address en) @ to_be_bytes 8 (uo_seen en) @
       to_be_bytes 8 (uo_included en) @ to_be_bytes 8 (re_status en)),
     abi_decode_entry = (\<lambda>bs. Some \<lparr>re_address = from_be_bytes (take 20 bs),
       uo_seen = from_be_bytes (take 8 (drop 20 bs)), uo_included = from_be_bytes (take 8 (drop 28 bs)),
       re_status = from_be_bytes (take 8 (drop 36 bs))\<rparr>),
     layout_encode = (\<lambda>xs. concat (map (\<lambda>x. 1 # x) xs)),
     layout_decode = (\<lambda>n bs. Some (get_chunks (length bs) n bs))\<rparr>"

lemma get_put_string [simp]: "get_string (put_string s @ r) = (s, r)"
proof (induction s)
  case Nil
  then show ?case by (cases r) auto
qed simp

lemma get_chunks_concat:
  "list_all (\<lambda>x. length x = n) xs \<Longrightarrow> length xs \<le> m \<Longrightarrow>
   get_chunks m n (concat (map (\<lambda>x. 1 # x) xs)) = xs"
proof (induction xs arbitrary: m)
  case Nil
  then show ?case by (cases m) auto
next
  case (Cons x xs)
  then show ?case by (cases m) auto
qed

lemma ref_codec_documented: "codec_documented ref_codec"
proof -
  have len: "length xs \<le> length (concat (map (\<lambda>x. 1 # x) xs))" for xs :: "bytes list"
    by (induction xs) auto
  have "get_string (put_string s) = (s, [])" for s
    using get_put_string [of s "[]"] by (simp del: get_put_string)
  then have "ref_decode_signed (ref_encode_signed uo) = Some uo" for uo
    by (simp add: ref_decode_signed_def ref_encode_signed_def from_to_be_bytes)
  moreover have "get_chunks (length (concat (map (\<lambda>x. 1 # x) xs))) n (concat (map (\<lambda>x. 1 # x) xs)) = xs"
    if "list_all (\<lambda>x. length x = n) xs" for n and xs :: "bytes list"
    by (rule get_chunks_concat [OF that len])
  ultimately show ?thesis
    by (simp add: codec_documented_def ref_codec_def from_to_be_bytes)
qed

lemma ref_mdbx_documented: "mdbx_documented ref_mdbx ref_view ref_view"
proof -
  have filt: "distinct (map fst (filter P (AList.clearjunk xs)))" for P and xs :: "(bytes \<times> bytes) list"
    by (intro distinct_map_filter) (simp add: distinct_clearjunk)
  have set: "(k, v) \<in> set (AList.clearjunk xs) \<longleftrightarrow> map_of xs k = Some v"
    for k v and xs :: "(bytes \<times> bytes) list"
    by (metis distinct_clearjunk map_of_clearjunk map_of_eq_Some_iff)
  have "ref_view (t(tb := AList.update k v (t tb))) = (ref_view t)(tb := (ref_view t tb)(k \<mapsto> v))"
    "ref_view (t(tb := AList.delete k (t tb))) = (ref_view t)(tb := (ref_view t tb)(k := None))"
    "ref_view (t(tb := [])) = (ref_view t)(tb := Map.empty)" for t tb k v
    by (auto simp: ref_view_def fun_eq_iff update_conv' delete_conv')
  then show ?thesis
    by (auto simp: mdbx_documented_def ref_mdbx_def filt set ref_view_def [symmetric])
qed

definition sample_op :: user_operation where
  "sample_op = \<lparr>hash = 5, user_operation = \<lparr>sender = 7, nonce = 1, init_code = [], call_data = [],
     call_gas_limit = 3, verification_gas_limit = 4, pre_verification_gas = 5, max_fee_per_gas = 6,
     max_priority_fee_per_gas = 1, paymaster_and_data = replicate 20 1, signature = [9]\<rparr>\<rparr>"

lemma empty_pools_agree: "pools_agree ref_view ref_codec (\<lambda>_. []) empty_tables"
proof -
  have "ref_view (\<lambda>_. []) tb = Map.empty" for tb by (rule ext) (simp add: ref_view_def)
  then have "db_ops ref_view ref_codec (\<lambda>_. []) = Map.empty" "db_codes ref_view ref_codec (\<lambda>_. []) = Map.empty"
    "db_index tb ref_view ref_codec (\<lambda>_. []) = (\<lambda>_. {})" "db_ok ref_view ref_codec (\<lambda>_. [])" for tb
    by (simp_all add: db_view_defs cell_def table_ok_def)
  then show ?thesis by (simp add: pools_agree_def db_consistent_def consistent_def)
qed

theorem database_agrees_with_memory_witness:
  "mdbx_documented ref_mdbx ref_view ref_view \<and> codec_documented ref_codec \<and>
   pools_agree ref_view ref_codec (\<lambda>_. []) empty_tables \<and>
   (\<exists>r e t. grow (database_mempool ref_mdbx ref_codec) (Grow_Add sample_op) (\<lambda>_. []) = (Ok r, e) \<and>
     grow memory_mempool (Grow_Add sample_op) empty_tables = (Ok r, t) \<and> pools_agree ref_view ref_codec e t)"
proof -
  have "same_entities (mem_ops empty_tables) sample_op" by (simp add: same_entities_def)
  then show ?thesis
    using database_agrees_with_memory [OF ref_mdbx_documented ref_codec_documented empty_pools_agree,
        of "Grow_Add sample_op"] ref_mdbx_documented ref_codec_documented empty_pools_agree by auto
qed

lemma sample_added:
  "\<exists>e. mempool_add (database_mempool ref_mdbx ref_codec) sample_op (\<lambda>_. []) = (Ok 5, e) \<and>
     db_consistent ref_view ref_codec e \<and> db_ops ref_view ref_codec e 5 = Some (user_operation sample_op)"
proof -
  have con: "db_consistent ref_view ref_codec (\<lambda>_. [])"
    and "db_ops ref_view ref_codec (\<lambda>_. []) = Map.empty"
    using empty_pools_agree by (simp_all add: pools_agree_def)
  then show ?thesis
    using db_refinements(1) [OF ref_mdbx_documented ref_codec_documented con, of sample_op]
    by (auto simp: same_entities_def sample_op_def)
qed

theorem database_remove_leaves_traces_witness:
  "mdbx_documented ref_mdbx ref_view ref_view \<and> codec_documented ref_codec \<and>
   (\<exists>d e. mempool_add (database_mempool ref_mdbx ref_codec) sample_op (\<lambda>_. []) = (Ok 5, d) \<and>
     mempool_remove (database_mempool ref_mdbx ref_codec) 5 d = (Ok True, e) \<and>
     db_ops ref_view ref_codec e 5 = None \<and>
     5 \<in> db_entities ref_view ref_codec e (from_be_bytes (replicate 20 1)))"
proof -
  obtain d where d: "mempool_add (database_mempool ref_mdbx ref_codec) sample_op (\<lambda>_. []) = (Ok 5, d)"
      "db_consistent ref_view ref_codec d" "db_ops ref_view ref_codec d 5 = Some (user_operation sample_op)"
    using sample_added by blast
  have "from_be_bytes (replicate 20 1) \<in> entities_of (user_operation sample_op)"
    by (simp add: entities_of_def get_address_def sample_op_def address_from_slice_def)
  then obtain e where "mempool_remove (database_mempool ref_mdbx ref_codec) 5 d = (Ok True, e)"
      "db_ops ref_view ref_codec e = (db_ops ref_view ref_codec d)(5 := None)"
      "5 \<in> db_entities ref_view ref_codec e (from_be_bytes (replicate 20 1))"
    using database_remove_leaves_traces [OF ref_mdbx_documented ref_codec_documented d(2,3)] by auto
  then show ?thesis using d(1) ref_mdbx_documented ref_codec_documented by auto
qed

end
