(* ===== verification/Wallet.thy ===== *)
theory Wallet
  imports Primitives
begin

text \<open>
  The wallet of the bundler (\<open>primitives/src/wallet.rs\<close>): creating it at random, loading it from a mnemonic
  or from private keys, and signing user operations. Key derivation, signatures and the file system are
  parameters; strings of the file system are ASCII.
\<close>

section \<open>Wallets\<close>

record local_wallet =
  lw_key :: bytes
  lw_chain_id :: u64

record wallet =
  wl_signer :: local_wallet
  wl_flashbots_signer :: "local_wallet option"

text \<open>
  \<open>wb_derive\<close> builds the key of a mnemonic phrase at a derivation path, and \<open>wb_file_name\<close> is the name, made
  of the address, under which ethers stores the phrase of a new wallet.
\<close>

record wallet_lib =
  wb_derive :: "string \<Rightarrow> string \<Rightarrow> (string, bytes) outcome"
  wb_parse_key :: "string \<Rightarrow> (string, bytes) outcome"
  wb_file_name :: "bytes \<Rightarrow> string"
  wb_sign_message :: "bytes \<Rightarrow> bytes \<Rightarrow> (string, bytes) outcome"

text \<open>A directory: its files in the order in which \<open>read_dir\<close> lists them.\<close>

type_synonym directory = "(string \<times> string) list"

definition with_chain_id :: "u64 \<Rightarrow> bytes \<Rightarrow> local_wallet" where
  "with_chain_id chain_id key = \<lparr>lw_key = key, lw_chain_id = chain_id\<rparr>"

definition WALLET_PATH :: string where "WALLET_PATH = ''m/44'' @ [CHR 0x27] @ ''/60'' @ [CHR 0x27] @ ''/0'' @ [CHR 0x27] @ ''/0/0''"
definition FLASHBOTS_PATH :: string where "FLASHBOTS_PATH = ''m/44'' @ [CHR 0x27] @ ''/60'' @ [CHR 0x27] @ ''/0'' @ [CHR 0x27] @ ''/0/1''"

definition from_phrase :: "wallet_lib \<Rightarrow> string \<Rightarrow> u64 \<Rightarrow> bool \<Rightarrow> (string, wallet) outcome" where
  "from_phrase L phrase chain_id flashbots_key =
     bind_ok (wb_derive L phrase WALLET_PATH) (\<lambda>wallet.
     if flashbots_key
     then bind_ok (wb_derive L phrase FLASHBOTS_PATH) (\<lambda>flashbots_wallet.
       Ok \<lparr>wl_signer = with_chain_id chain_id wallet,
         wl_flashbots_signer = Some (with_chain_id chain_id flashbots_wallet)\<rparr>)
     else Ok \<lparr>wl_signer = with_chain_id chain_id wallet, wl_flashbots_signer = None\<rparr>)"

definition is_whitespace :: "char \<Rightarrow> bool" where
  "is_whitespace c \<longleftrightarrow> of_char c \<in> {9 :: nat, 10, 11, 12, 13, 32}"

definition trim :: "string \<Rightarrow> string" where
  "trim s = rev (dropWhile is_whitespace (rev (dropWhile is_whitespace s)))"

definition read_to_string :: "string \<Rightarrow> directory \<Rightarrow> (string, string) outcome" where
  "read_to_string path dir = ok_or ''file'' (map_of dir path)"

definition from_file :: "wallet_lib \<Rightarrow> string \<Rightarrow> u64 \<Rightarrow> bool \<Rightarrow> directory \<Rightarrow> (string, wallet) outcome" where
  "from_file L path chain_id flashbots_key dir =
     bind_ok (read_to_string path dir) (\<lambda>mnemonic_phrase.
     let phrase = trim mnemonic_phrase in
     bind_ok (wb_derive L phrase WALLET_PATH) (\<lambda>wallet.
     if flashbots_key
     then bind_ok (wb_derive L phrase FLASHBOTS_PATH) (\<lambda>flashbots_wallet.
       Ok \<lparr>wl_signer = with_chain_id chain_id wallet,
         wl_flashbots_signer = Some (with_chain_id chain_id flashbots_wallet)\<rparr>)
     else Ok \<lparr>wl_signer = with_chain_id chain_id wallet, wl_flashbots_signer = None\<rparr>))"

definition from_private_key ::
  "wallet_lib \<Rightarrow> string \<Rightarrow> u64 \<Rightarrow> bool \<Rightarrow> string option \<Rightarrow> (string, wallet) outcome" where
  "from_private_key L private_key chain_id flashbots_key flashbots_private_key =
     bind_ok (wb_parse_key L private_key) (\<lambda>wallet.
     if flashbots_key
     then bind_ok (expect flashbots_private_key) (\<lambda>key.
       bind_ok (wb_parse_key L key) (\<lambda>flashbots_wallet.
       Ok \<lparr>wl_signer = with_chain_id chain_id wallet,
         wl_flashbots_signer = Some (with_chain_id chain_id flashbots_wallet)\<rparr>))
     else Ok \<lparr>wl_signer = with_chain_id chain_id wallet, wl_flashbots_signer = None\<rparr>)"

text \<open>
  A new wallet: \<open>phrase\<close> is the phrase that ethers draws, \<open>place\<close> where the directory lists a new file. The
  Flashbots key is derived from the first file of the directory.
\<close>

definition build_random ::
  "wallet_lib \<Rightarrow> string \<Rightarrow> (string \<times> string \<Rightarrow> directory \<Rightarrow> directory) \<Rightarrow> u64 \<Rightarrow> bool \<Rightarrow> (directory, string, wallet) op" where
  "build_random L phrase place chain_id flashbots_key =
     bind_op (query (\<lambda>_. wb_derive L phrase WALLET_PATH)) (\<lambda>wallet.
     bind_op (\<lambda>dir. (Ok (), place (wb_file_name L wallet, phrase) dir)) (\<lambda>_.
     if flashbots_key
     then bind_op (query (\<lambda>dir. case dir of [] \<Rightarrow> Panic | (_, content) # _ \<Rightarrow> Ok content)) (\<lambda>content.
       bind_op (query (\<lambda>_. wb_derive L content FLASHBOTS_PATH)) (\<lambda>flashbots_wallet.
       ret \<lparr>wl_signer = with_chain_id chain_id wallet,
         wl_flashbots_signer = Some (with_chain_id chain_id flashbots_wallet)\<rparr>))
     else ret \<lparr>wl_signer = with_chain_id chain_id wallet, wl_flashbots_signer = None\<rparr>))"

definition sign_user_operation ::
  "wallet_lib \<Rightarrow> abi \<Rightarrow> wallet \<Rightarrow> user_operation_signed \<Rightarrow> address \<Rightarrow> chain_id \<Rightarrow> (string, user_operation) outcome" where
  "sign_user_operation L A w uo ep chain_id =
     (let h = user_operation_hash A uo ep chain_id in
      bind_ok (wb_sign_message L (lw_key (wl_signer w)) (to_be_bytes 32 h)) (\<lambda>sig.
      Ok \<lparr>hash = h, user_operation = uo\<lparr>signature := sig\<rparr>\<rparr>))"

section \<open>Wallets made and loaded again\<close>

text \<open>A directory lists a file it gets once, whatever the position, next to its other files.\<close>

definition place_documented :: "(string \<times> string \<Rightarrow> directory \<Rightarrow> directory) \<Rightarrow> bool" where
  "place_documented place \<longleftrightarrow>
     (\<forall>name content dir. \<exists>xs ys. place (name, content) dir = xs @ (name, content) # ys \<and>
        xs @ ys = filter (\<lambda>f. fst f \<noteq> name) dir)"

lemma from_file_phrase:
  "from_file L path chain flash dir =
     bind_ok (read_to_string path dir) (\<lambda>content. from_phrase L (trim content) chain flash)"
  by (simp add: from_file_def from_phrase_def Let_def)

lemma placed_lookup:
  assumes "place_documented place"
  shows "map_of (place (name, content) dir) name = Some content"
proof -
  obtain xs ys where p: "place (name, content) dir = xs @ (name, content) # ys"
      "xs @ ys = filter (\<lambda>f. fst f \<noteq> name) dir"
    using assms unfolding place_documented_def by blast
  then have "name \<notin> fst ` set xs" by (metis (mono_tags, lifting) Un_iff imageE mem_Collect_eq set_append set_filter)
  then show ?thesis by (simp add: p map_add_def map_of_eq_None_iff [THEN iffD2] split: option.split)
qed

text \<open>A wallet made in an empty directory is the one that the bundler loads: reading the stored phrase
  gives the same signer, and the same Flashbots signer when one was asked for. In a directory whose first
  file is another one this fails: the Flashbots signer that \<open>build_random\<close> returns is the one of that file.\<close>

theorem created_wallet_reloads:
  assumes "place_documented place" and "trim phrase = phrase"
    and "build_random L phrase place chain flash dir = (Ok w, dir')"
  shows "(dir = [] \<longrightarrow> from_file L (wb_file_name L (lw_key (wl_signer w))) chain flash dir' = Ok w) \<and>
    (\<forall>name content rest k k'. flash \<and> dir' = (name, content) # rest \<and> wb_derive L content FLASHBOTS_PATH = Ok k \<and>
       wb_derive L phrase FLASHBOTS_PATH = Ok k' \<and> k \<noteq> k' \<longrightarrow>
       from_file L (wb_file_name L (lw_key (wl_signer w))) chain flash dir' \<noteq> Ok w)"
proof -
  obtain key where key: "wb_derive L phrase WALLET_PATH = Ok key"
      and dir': "dir' = place (wb_file_name L key, phrase) dir"
      and w: "wl_signer w = with_chain_id chain key"
      and plain: "\<not> flash \<longrightarrow> wl_flashbots_signer w = None"
      and fb: "flash \<longrightarrow> (\<exists>name content rest k. dir' = (name, content) # rest \<and> wb_derive L content FLASHBOTS_PATH = Ok k \<and>
        wl_flashbots_signer w = Some (with_chain_id chain k))"
    using assms(3)
    by (auto simp: build_random_def bind_op_eq_Ok split: if_splits list.splits)
  let ?n = "wb_file_name L key"
  have n: "wb_file_name L (lw_key (wl_signer w)) = ?n" by (simp add: w with_chain_id_def)
  have load: "from_file L ?n chain flash dir' = from_phrase L phrase chain flash"
    using placed_lookup [OF assms(1)] assms(2) by (simp add: from_file_phrase read_to_string_def ok_or_def dir')
  have "from_file L ?n chain flash dir' = Ok w" if "dir = []"
  proof -
    have "dir' = [(?n, phrase)]"
      using assms(1) that unfolding dir' place_documented_def
      by (metis (no_types, lifting) Nil_is_append_conv append_Nil filter.simps(1))
    then show ?thesis unfolding load using fb plain key w by (cases flash; cases w) (auto simp: from_phrase_def)
  qed
  moreover have "from_file L ?n chain flash dir' \<noteq> Ok w"
    if "flash" "dir' = (name, content) # rest" "wb_derive L content FLASHBOTS_PATH = Ok k"
      "wb_derive L phrase FLASHBOTS_PATH = Ok k'" "k \<noteq> k'" for name content rest k k'
    unfolding load using that fb key by (auto simp: from_phrase_def with_chain_id_def)
  ultimately show ?thesis unfolding n by blast
qed

text \<open>A library whose keys show the phrase and the path.\<close>

definition ref_wallet_lib :: wallet_lib where
  "ref_wallet_lib = \<lparr>
     wb_derive = (\<lambda>phrase path. Ok (map (\<lambda>c. of_nat (of_char c)) (path @ phrase))),
     wb_parse_key = (\<lambda>s. Ok (map (\<lambda>c. of_nat (of_char c)) s)),
     wb_file_name = (\<lambda>key. map (\<lambda>b. char_of (unat b)) key),
     wb_sign_message = (\<lambda>key msg. Ok (key @ msg))\<rparr>"

definition ref_place :: "string \<times> string \<Rightarrow> directory \<Rightarrow> directory" where
  "ref_place f dir = filter (\<lambda>g. fst g \<noteq> fst f) dir @ [f]"

lemma ref_place_documented: "place_documented ref_place"
proof -
  have "ref_place (name, content) dir = filter (\<lambda>f. fst f \<noteq> name) dir @ (name, content) # []" for name content dir
    by (simp add: ref_place_def)
  then show ?thesis unfolding place_documented_def by (metis append_Nil2)
qed

theorem created_wallet_reloads_witness:
  "\<exists>w dir. build_random ref_wallet_lib ''a b'' ref_place 1 True [] = (Ok w, dir) \<and>
     from_file ref_wallet_lib (wb_file_name ref_wallet_lib (lw_key (wl_signer w))) 1 True dir = Ok w \<and>
     (\<exists>w' dir'. build_random ref_wallet_lib ''a b'' ref_place 1 True [(''old'', ''c'')] = (Ok w', dir') \<and>
       from_file ref_wallet_lib (wb_file_name ref_wallet_lib (lw_key (wl_signer w'))) 1 True dir' \<noteq> Ok w')"
proof -
  have trim: "trim ''a b'' = ''a b''" by (simp add: trim_def is_whitespace_def of_char_def)
  obtain w dir where w: "build_random ref_wallet_lib ''a b'' ref_place 1 True [] = (Ok w, dir)"
    by (simp add: build_random_def bind_op_def ref_wallet_lib_def ref_place_def)
  obtain w' dir' where w': "build_random ref_wallet_lib ''a b'' ref_place 1 True [(''old'', ''c'')] = (Ok w', dir')"
      and dir': "\<exists>rest. dir' = (''old'', ''c'') # rest"
    by (simp add: build_random_def bind_op_def ref_wallet_lib_def ref_place_def WALLET_PATH_def of_char_def)
  have "wb_derive ref_wallet_lib ''c'' FLASHBOTS_PATH = Ok (map (\<lambda>c. of_nat (of_char c)) (FLASHBOTS_PATH @ ''c''))"
    "wb_derive ref_wallet_lib ''a b'' FLASHBOTS_PATH = Ok (map (\<lambda>c. of_nat (of_char c)) (FLASHBOTS_PATH @ ''a b''))"
    "map (\<lambda>c. of_nat (of_char c)) (FLASHBOTS_PATH @ ''c'') \<noteq> (map (\<lambda>c. of_nat (of_char c)) (FLASHBOTS_PATH @ ''a b'') :: bytes)"
    by (simp_all add: ref_wallet_lib_def)
  then have "from_file ref_wallet_lib (wb_file_name ref_wallet_lib (lw_key (wl_signer w'))) 1 True dir' \<noteq> Ok w'"
    using created_wallet_reloads [OF ref_place_documented trim w'] dir' by blast
  then show ?thesis using created_wallet_reloads [OF ref_place_documented trim w] w w' by blast
qed

section \<open>Signed operations\<close>

text \<open>The hash of an operation does not depend on its signature, so a signed operation comes under its own
  hash.\<close>

lemma signed_operation_hash:
  assumes "sign_user_operation L A w uo ep chain = Ok uo'"
  shows "hash uo' = user_operation_hash A (user_operation uo') ep chain"
    and "get_entities (user_operation uo') = get_entities uo"
  using assms
  by (auto simp: sign_user_operation_def Let_def bind_ok_eq_Ok user_operation_hash_def pack_without_signature_def
      no_signature_of_def get_entities_def)

end
