(* ===== verification/Node_Launch.thy ===== *)
theory Node_Launch
  imports Rpc_Server Metrics P2p_Setup Slot_Safety Bundler_Service Database_Store Wallet
begin

text \<open>
  The binary (\<open>bin/silius\<close>): its arguments (\<open>cli/args.rs\<close>, \<open>utils.rs\<close>), the launch of the user operation
  pool, of the bundler and of the whole node (\<open>bundler.rs\<close>), and the commands (\<open>cli/commands.rs\<close>). What is
  launched are the services of the other theories.

  The command line parser, the connections and the libraries are parameters. A service that runs on in a
  task of its own is represented by its state at the start; a command that waits forever by the value
  \<open>Ok\<close> of what it has launched.
\<close>

section \<open>Arguments\<close>

datatype storage_type = DatabaseStorage | MemoryStorage

datatype send_strategy = EthereumClient | Flashbots | Conditional | Fastlane

text \<open>The names that strum derives in kebab case.\<close>

definition parse_send_bundle_mode :: "string \<Rightarrow> (string, send_strategy) outcome" where
  "parse_send_bundle_mode s =
     (if s = ''ethereum-client'' then Ok EthereumClient
      else if s = ''flashbots'' then Ok Flashbots
      else if s = ''conditional'' then Ok Conditional
      else if s = ''fastlane'' then Ok Fastlane
      else Err (''String '' @ s @ '' is not a valid SendBundleMode''))"

definition parse_uopool_mode :: "string \<Rightarrow> (string, uopool_mode) outcome" where
  "parse_uopool_mode s =
     (if s = ''standard'' then Ok Standard
      else if s = ''unsafe'' then Ok Unsafe
      else Err (''String '' @ s @ '' is not a valid UoPoolMode''))"

text \<open>Rust's \<open>u64::from_str\<close>: an optional plus sign and at least one digit, without overflow.\<close>

definition digit :: "char \<Rightarrow> nat option" where
  "digit c = (if 48 \<le> (of_char c :: nat) \<and> (of_char c :: nat) \<le> 57 then Some (of_char c - 48) else None)"

fun digits :: "nat \<Rightarrow> string \<Rightarrow> nat option" where
  "digits acc [] = Some acc"
| "digits acc (c # cs) = (case digit c of Some d \<Rightarrow> digits (10 * acc + d) cs | None \<Rightarrow> None)"

definition parse_u64 :: "string \<Rightarrow> u64 option" where
  "parse_u64 s =
     (let ds = (case s of c # cs \<Rightarrow> if c = CHR ''+'' then cs else s | [] \<Rightarrow> []) in
      if ds = [] then None
      else case digits 0 ds of Some n \<Rightarrow> if n < 2 ^ 64 then Some (of_nat n) else None | None \<Rightarrow> None)"

text \<open>A duration in milliseconds.\<close>

definition parse_duration :: "string \<Rightarrow> (string, u64) outcome" where
  "parse_duration duration = ok_or (duration @ '' must be unsigned int'') (parse_u64 duration)"

fun split_on :: "char \<Rightarrow> string \<Rightarrow> string list" where
  "split_on d [] = [[]]"
| "split_on d (c # cs) =
     (if c = d then [] # split_on d cs else case split_on d cs of p # ps \<Rightarrow> (c # p) # ps | [] \<Rightarrow> [[c]])"

definition parse_label_value :: "string \<Rightarrow> (string, string \<times> string) outcome" where
  "parse_label_value label_value =
     (case split_on (CHR ''='') label_value of
        label # value # _ \<Rightarrow> Ok (label, value)
      | _ \<Rightarrow> Err (''LabelValue '' @ label_value @ '' is not a valid label=value''))"

definition join :: "path \<Rightarrow> path \<Rightarrow> path" where
  "join dir name = (if dir = [] \<or> last dir = CHR ''/'' then dir @ name else dir @ ''/'' @ name)"

definition unwrap_path_or_home :: "path option \<Rightarrow> path option \<Rightarrow> (string, path) outcome" where
  "unwrap_path_or_home home_dir path =
     (case path of
        Some path \<Rightarrow> Ok path
      | None \<Rightarrow> ok_or ''Get Home directory error'' (map_option (\<lambda>h. join h ''.silius'') home_dir))"

record bundler_args =
  ba_bundler_addr :: ip_addr
  ba_bundler_port :: port
  ba_mnemonic_file :: "path option"
  ba_private_key :: "string option"
  ba_flashbots_private_key :: "string option"
  ba_beneficiary :: address
  ba_min_balance :: U256
  ba_bundle_interval :: u64
  ba_send_bundle_mode :: send_strategy
  ba_enable_access_list :: bool

record p2p_args =
  pa_enable_p2p :: bool
  pa_p2p_listen_address :: ipv4
  pa_p2p_broadcast_address :: "ipv4 option"
  pa_udp4_port :: port
  pa_tcp4_port :: port
  pa_bootnodes :: "node_record list"
  pa_node_key :: "path option"
  pa_node_enr :: "path option"

record uopool_args =
  ua_uopool_addr :: ip_addr
  ua_uopool_port :: port
  ua_datadir :: "path option"
  ua_storage_type :: storage_type
  ua_max_verification_gas :: U256
  ua_min_stake :: U256
  ua_min_priority_fee_per_gas :: U256
  ua_whitelist :: "address list"
  ua_uopool_mode :: uopool_mode
  ua_p2p_opts :: p2p_args

record metrics_args =
  ma_enable_metrics :: bool
  ma_custom_label_value :: "(string \<times> string) list option"
  ma_listen_address :: ip_addr
  ma_port :: port

record common_args =
  ca_eth_client_address :: string
  ca_chain :: "chain_id option"
  ca_entry_points :: "address list"
  ca_poll_interval :: u64
  ca_metrics :: metrics_args

definition metrics_listen_addr :: "metrics_args \<Rightarrow> ip_addr \<times> port" where
  "metrics_listen_addr args = (ma_listen_address args, ma_port args)"

definition to_config :: "(bytes \<Rightarrow> bytes) \<Rightarrow> p2p_args \<Rightarrow> chain_id \<Rightarrow> path \<Rightarrow> p2p_config" where
  "to_config sha256 args chain datadir =
     (let listen_addr = V4 \<lparr>la_addr = pa_p2p_listen_address args, la_udp_port = pa_udp4_port args,
        la_tcp_port = pa_tcp4_port args\<rparr> in
      default_config\<lparr>
        pc_node_key_file := (case pa_node_key args of Some file \<Rightarrow> file | None \<Rightarrow> join datadir NODE_KEY_FILE_NAME),
        pc_node_enr_file := (case pa_node_enr args of Some file \<Rightarrow> file | None \<Rightarrow> join datadir NODE_ENR_FILE_NAME),
        pc_listen_addr := listen_addr,
        pc_ipv4_addr := pa_p2p_broadcast_address args,
        pc_enr_tcp4_port := Some (pa_tcp4_port args),
        pc_enr_udp4_port := Some (pa_udp4_port args),
        pc_chain_spec := from_chain_id chain,
        pc_bootnodes := pa_bootnodes args,
        pc_gs_config := gossipsub_config sha256,
        pc_discv5_config := to_listen_config listen_addr\<rparr>)"

section \<open>The execution client\<close>

record eth_client =
  ec_chainid :: "(string, U256) outcome"
  ec_client_version :: "(string, string) outcome"

definition chainid_u64 :: "eth_client \<Rightarrow> (string, chain_id) outcome" where
  "chainid_u64 E = bind_ok (ec_chainid E) as_u64"

definition check_connected_chain :: "eth_client \<Rightarrow> chain_id option \<Rightarrow> (string, string) outcome" where
  "check_connected_chain E chain =
     bind_ok (case chain of
         Some chain \<Rightarrow> bind_ok (chainid_u64 E) (\<lambda>chain_id.
           if chain \<noteq> chain_id then Err ''Tried to connect to the execution client of different chain ids'' else Ok ())
       | None \<Rightarrow> Ok ()) (\<lambda>_.
     ec_client_version E)"

section \<open>The pool\<close>

text \<open>
  A launched pool over its storage, whose stores of operations and of reputation entries are wrapped by
  the metrics. The two share one environment of the database, in different tables.
\<close>

datatype 'd launched_pool =
    DatabasePool "('d \<times> metric_call list, 'd \<times> metric_call list) uopool_service"
  | MemoryPool "(memory_tables \<times> metric_call list, memory_entries \<times> metric_call list) uopool_service"

definition launch_reputation :: "U256 \<Rightarrow> 'r \<Rightarrow> 'r reputation" where
  "launch_reputation min_stake ents = \<lparr>
     min_inclusion_denominator = 10, throttling_slack = 10, ban_slack = 50, rep_min_stake = min_stake,
     rep_min_unstake_delay = 86400, whitelist = [], blacklist = [], entities = ents\<rparr>"

text \<open>What the launch uses of its surroundings; \<open>ev_init\<close> opens the database and makes its tables.\<close>

record ('d, 't) launch_env =
  ev_connect :: "address \<Rightarrow> eth"
  ev_home_dir :: "path option"
  ev_abi :: abi
  ev_text :: service_text
  ev_show :: "mempool_error_kind \<Rightarrow> string"
  ev_sha256 :: "bytes \<Rightarrow> bytes"
  ev_mdbx :: "('d, 't) mdbx"
  ev_codec :: db_codec
  ev_init :: "path \<Rightarrow> 'd option"

definition DATABASE_FOLDER_NAME :: path where "DATABASE_FOLDER_NAME = ''db''"

definition launch_validator :: "('d, 't) launch_env \<Rightarrow> uopool_args \<Rightarrow> chain_id \<Rightarrow> validator" where
  "launch_validator V args chain =
     (case ua_uopool_mode args of
        Standard \<Rightarrow> new_canonical (ev_connect V ADDRESS) chain (ua_max_verification_gas args)
          (ua_min_priority_fee_per_gas args) (ev_show V)
      | Unsafe \<Rightarrow> new_canonical_unsafe (ev_connect V ADDRESS) chain (ua_max_verification_gas args)
          (ua_min_priority_fee_per_gas args) (ev_show V))"

definition run_pool ::
  "('d, 't) launch_env \<Rightarrow> uopool_args \<Rightarrow> chain_id \<Rightarrow> address list \<Rightarrow> 'b list \<Rightarrow> 's mempool \<Rightarrow> 's \<Rightarrow>
   'r reputation_entry_op \<Rightarrow> 'r reputation \<Rightarrow> ('s \<times> metric_call list, 'r \<times> metric_call list) uopool_service" where
  "run_pool V args chain entry_points block_streams M tables R rep =
     uopool_service_run (ua_uopool_mode args) entry_points (ev_connect V) block_streams chain
       (ua_max_verification_gas args) (ev_abi V) (ev_text V) (metered_mempool M) (tables, []) (metrics_entries R)
       (wrap_registry rep) (launch_validator V args chain) (pa_enable_p2p (ua_p2p_opts args))"

definition launch_uopool ::
  "('d, 't) launch_env \<Rightarrow> uopool_args \<Rightarrow> eth_client \<Rightarrow> 'b list \<Rightarrow> chain_id option \<Rightarrow> address list \<Rightarrow>
   (string, 'd launched_pool \<times> p2p_config option) outcome" where
  "launch_uopool V args E block_streams chain entry_points =
     bind_ok (check_connected_chain E chain) (\<lambda>_.
     bind_ok (chainid_u64 E) (\<lambda>chain.
     bind_ok (unwrap_path_or_home (ev_home_dir V) (ua_datadir args)) (\<lambda>datadir.
     let p2p_config = (if pa_enable_p2p (ua_p2p_opts args)
           then Some (to_config (ev_sha256 V) (ua_p2p_opts args) chain datadir) else None) in
     bind_ok (case ua_storage_type args of
         DatabaseStorage \<Rightarrow>
           bind_ok (expect (ev_init V (join datadir DATABASE_FOLDER_NAME))) (\<lambda>env.
           Ok (DatabasePool (run_pool V args chain entry_points block_streams
             (database_mempool (ev_mdbx V) (ev_codec V)) env (database_entries (ev_mdbx V) (ev_codec V))
             (fold (\<lambda>whiteaddr rep. snd (add_whitelist whiteaddr rep)) (ua_whitelist args)
               (launch_reputation (ua_min_stake args) env)))))
       | MemoryStorage \<Rightarrow>
           Ok (MemoryPool (run_pool V args chain entry_points block_streams memory_mempool empty_tables
             memory_entries_op (launch_reputation (ua_min_stake args) [])))) (\<lambda>pool.
     Ok (pool, p2p_config)))))"

section \<open>The bundler\<close>

text \<open>\<open>be_node\<close> is the execution client with a wallet and \<open>be_signer_address\<close> the address of a key;
  \<open>be_connect\<close> connects to the pool service at an address.\<close>

record 'n bundling_env =
  be_wallet_lib :: wallet_lib
  be_files :: directory
  be_signer_address :: "bytes \<Rightarrow> address"
  be_node :: "wallet \<Rightarrow> 'n node"
  be_parse_url :: "string \<Rightarrow> (string, string) outcome"
  be_connect :: "string \<Rightarrow> (string, 'n pool_client) outcome"

definition load_wallet :: "'n bundling_env \<Rightarrow> bundler_args \<Rightarrow> chain_id \<Rightarrow> (string, wallet) outcome" where
  "load_wallet V args chain_id =
     (let L = be_wallet_lib V; flashbots = ba_send_bundle_mode args = Flashbots in
      case ba_mnemonic_file args of
        Some mnemonic_file \<Rightarrow>
          map_err (\<lambda>e. ''Could not load mnemonic file: '' @ e) (from_file L mnemonic_file chain_id flashbots (be_files V))
      | None \<Rightarrow> (case ba_private_key args of
          Some private_key \<Rightarrow>
            if flashbots
            then map_err (\<lambda>e. ''Could not load from private key or flashbots key: '' @ e)
              (from_private_key L private_key chain_id True (ba_flashbots_private_key args))
            else map_err (\<lambda>e. ''Could not load from private key: '' @ e) (from_private_key L private_key chain_id False None)
        | None \<Rightarrow> Panic))"

definition flashbots_relays :: "chain_id \<Rightarrow> (string, string list) outcome" where
  "flashbots_relays chain =
     (if chain = 1 then Ok [''https://relay.flashbots.net'']
      else if chain = 11155111 then Ok [''https://relay-sepolia.flashbots.net'']
      else Panic)"

definition fastlane_relays :: "chain_id \<Rightarrow> (string, string list) outcome" where
  "fastlane_relays chain = (if chain = 137 then Ok [''https://polygon-test-rpc.fastlane.xyz''] else Panic)"

definition run_bundlers ::
  "'n bundling_env \<Rightarrow> bundler_args \<Rightarrow> wallet \<Rightarrow> chain_id \<Rightarrow> address list \<Rightarrow> 'n pool_client \<Rightarrow>
   (eip1559_tx \<Rightarrow> storage_map \<Rightarrow> ('n, string, h256) op) \<Rightarrow> 'n bundler_service" where
  "run_bundlers V args w chain entry_points upool send =
     bundler_service_run (map (\<lambda>ep. \<lparr>bl_wallet = be_signer_address V (lw_key (wl_signer w)),
       bl_beneficiary = ba_beneficiary args, bl_entry_point = ep, bl_chain = chain,
       bl_min_balance = ba_min_balance args, bl_node = be_node V w, bl_send = send,
       bl_enable_access_list = ba_enable_access_list args\<rparr>) entry_points) upool (ba_bundle_interval args)"

definition launch_bundling ::
  "'n bundling_env \<Rightarrow> bundler_args \<Rightarrow> eth_client \<Rightarrow> chain_id option \<Rightarrow> address list \<Rightarrow> string \<Rightarrow>
   (string, 'n bundler_service) outcome" where
  "launch_bundling V args E chain entry_points uopool_grpc_listen_address =
     bind_ok (check_connected_chain E chain) (\<lambda>_.
     bind_ok (chainid_u64 E) (\<lambda>chain_id.
     bind_ok (load_wallet V args chain_id) (\<lambda>wallet.
     bind_ok (be_connect V uopool_grpc_listen_address) (\<lambda>upool.
     let run = run_bundlers V args wallet chain_id entry_points upool; node = be_node V wallet in
     case ba_send_bundle_mode args of
       EthereumClient \<Rightarrow> Ok (run (ethereum_send_bundle node))
     | Conditional \<Rightarrow> Ok (run (conditional_send_bundle node))
     | Flashbots \<Rightarrow>
         bind_ok (flashbots_relays chain_id) (\<lambda>relay_endpoints.
         bind_ok (new_flashbots (be_parse_url V) (Some relay_endpoints) (wl_flashbots_signer wallet)) (\<lambda>_.
         Ok (run (flashbots_send_bundle node))))
     | Fastlane \<Rightarrow>
         bind_ok (fastlane_relays chain_id) (\<lambda>_. Ok (run (fastlane_send_bundle node)))))))"

section \<open>The node and the commands\<close>

fun port_digits :: "nat \<Rightarrow> string" where
  "port_digits n = (if n < 10 then [char_of (48 + n)] else port_digits (n div 10) @ [char_of (48 + n mod 10)])"

definition grpc_address :: "ip_addr \<Rightarrow> port \<Rightarrow> string" where
  "grpc_address addr port = ''http://'' @ addr @ '':'' @ port_digits (unat port)"

text \<open>\<open>ne_bundler\<close> connects to the service of the bundler; \<open>ne_http\<close> and \<open>ne_ws\<close> make the client of the node.\<close>

record ('d, 't, 'n) node_env =
  ne_pool :: "('d, 't) launch_env"
  ne_bundling :: "'n bundling_env"
  ne_merge :: merge
  ne_parse_header :: "string \<Rightarrow> header_value option"
  ne_bundler :: "string \<Rightarrow> (string, unit) outcome"
  ne_install :: "exporter \<Rightarrow> bool"
  ne_http :: "string \<Rightarrow> u64 \<Rightarrow> (string, eth_client) outcome"
  ne_ws :: "string \<Rightarrow> (string, eth_client) outcome"

record ('d, 'n) launched_node =
  lnd_pool :: "'d launched_pool"
  lnd_p2p :: "p2p_config option"
  lnd_bundler :: "'n bundler_service"
  lnd_rpc :: json_rpc_server
  lnd_metrics :: "metric_call list"

definition launch_bundler ::
  "('d, 't, 'n) node_env \<Rightarrow> bundler_args \<Rightarrow> uopool_args \<Rightarrow> common_args \<Rightarrow> rpc_args \<Rightarrow> eth_client \<Rightarrow> 'b list \<Rightarrow>
   (string, ('d, 'n) launched_node) outcome" where
  "launch_bundler V bargs uargs common rargs E block_streams =
     (let margs = ca_metrics common;
          uopool_addr = grpc_address (ua_uopool_addr uargs) (ua_uopool_port uargs);
          bundler_addr = grpc_address (ba_bundler_addr bargs) (ba_bundler_port bargs) in
      bind_ok (launch_uopool (ne_pool V) uargs E block_streams (ca_chain common) (ca_entry_points common)) (\<lambda>(pool, p2p).
      bind_ok (launch_bundling (ne_bundling V) bargs E (ca_chain common) (ca_entry_points common) uopool_addr) (\<lambda>bundler.
      bind_ok (launch_rpc (ne_merge V) (ne_parse_header V) rargs
        (bind_ok (be_connect (ne_bundling V) uopool_addr) (\<lambda>_. Ok ())) (ne_bundler V bundler_addr)
        (ma_enable_metrics margs)) (\<lambda>rpc.
      bind_ok (if ma_enable_metrics margs
        then launch_metrics_exporter (ne_install V) (metrics_listen_addr margs) (ma_custom_label_value margs)
        else Ok []) (\<lambda>metrics.
      Ok \<lparr>lnd_pool = pool, lnd_p2p = p2p, lnd_bundler = bundler, lnd_rpc = rpc, lnd_metrics = metrics\<rparr>)))))"

text \<open>The clients of the node and the streams of block hashes, one for each entry point
  (\<open>primitives/src/provider.rs\<close>). A stream that cannot be opened yields one error.\<close>

datatype block_stream = HttpBlockStream | WsBlockStream

definition http_block_stream :: "(string, h256 list) outcome \<Rightarrow> (string, h256) outcome list" where
  "http_block_stream watch = (case watch of Ok hashes \<Rightarrow> map Ok hashes | Err e \<Rightarrow> [Err e] | Panic \<Rightarrow> [])"

definition ws_block_stream :: "(string, h256 option list) outcome \<Rightarrow> (string, h256) outcome list" where
  "ws_block_stream subscribe =
     (case subscribe of Ok blocks \<Rightarrow> map Ok (List.map_filter (\<lambda>h. h) blocks) | Err e \<Rightarrow> [Err e] | Panic \<Rightarrow> [])"

definition create_block_streams :: "block_stream \<Rightarrow> nat \<Rightarrow> block_stream list" where
  "create_block_streams stream n = replicate n stream"

definition provider ::
  "('d, 't, 'n) node_env \<Rightarrow> common_args \<Rightarrow> (string, eth_client \<times> block_stream) outcome" where
  "provider V common =
     (if take 4 (ca_eth_client_address common) = ''http''
      then bind_ok (ne_http V (ca_eth_client_address common) (ca_poll_interval common)) (\<lambda>E. Ok (E, HttpBlockStream))
      else bind_ok (ne_ws V (ca_eth_client_address common)) (\<lambda>E. Ok (E, WsBlockStream)))"

definition node_command ::
  "('d, 't, 'n) node_env \<Rightarrow> bundler_args \<Rightarrow> uopool_args \<Rightarrow> common_args \<Rightarrow> rpc_args \<Rightarrow>
   (string, ('d, 'n) launched_node) outcome" where
  "node_command V bargs uargs common rargs =
     bind_ok (provider V common) (\<lambda>(E, stream).
     launch_bundler V bargs uargs common rargs E (create_block_streams stream (length (ca_entry_points common))))"

definition bundler_command ::
  "('d, 't, 'n) node_env \<Rightarrow> bundler_args \<Rightarrow> common_args \<Rightarrow> string \<Rightarrow> (string, 'n bundler_service) outcome" where
  "bundler_command V bargs common uopool_grpc_listen_address =
     bind_ok (provider V common) (\<lambda>(E, stream).
     launch_bundling (ne_bundling V) bargs E (ca_chain common) (ca_entry_points common) uopool_grpc_listen_address)"

definition uopool_command ::
  "('d, 't, 'n) node_env \<Rightarrow> uopool_args \<Rightarrow> common_args \<Rightarrow> (string, 'd launched_pool \<times> p2p_config option) outcome" where
  "uopool_command V uargs common =
     bind_ok (provider V common) (\<lambda>(E, stream).
     launch_uopool (ne_pool V) uargs E (create_block_streams stream (length (ca_entry_points common)))
       (ca_chain common) (ca_entry_points common))"

definition rpc_command ::
  "('d, 't, 'n) node_env \<Rightarrow> rpc_args \<Rightarrow> string \<Rightarrow> string \<Rightarrow> metrics_args \<Rightarrow> (string, json_rpc_server) outcome" where
  "rpc_command V rargs uopool_addr bundler_addr margs =
     launch_rpc (ne_merge V) (ne_parse_header V) rargs
       (bind_ok (be_connect (ne_bundling V) uopool_addr) (\<lambda>_. Ok ())) (ne_bundler V bundler_addr) (ma_enable_metrics margs)"

definition create_wallet ::
  "wallet_lib \<Rightarrow> path option \<Rightarrow> string \<Rightarrow> (string \<times> string \<Rightarrow> directory \<Rightarrow> directory) \<Rightarrow> path option \<Rightarrow> u64 \<Rightarrow> bool \<Rightarrow>
   (path \<Rightarrow> directory, string, wallet) op" where
  "create_wallet L home_dir phrase place output_path chain_id flashbots_key fs =
     (case unwrap_path_or_home home_dir output_path of
        Ok path \<Rightarrow> (case build_random L phrase place chain_id flashbots_key (fs path) of
          (r, dir) \<Rightarrow> (r, fs(path := dir)))
      | Err e \<Rightarrow> (Err e, fs)
      | Panic \<Rightarrow> (Panic, fs))"

definition dump_user_operations ::
  "('d, 't) launch_env \<Rightarrow> path \<Rightarrow> (mempool_error_kind, user_operation list) outcome" where
  "dump_user_operations V data_dir =
     bind_ok (expect (ev_init V data_dir)) (db_get_all (ev_mdbx V) (ev_codec V))"

definition dump_user_operations_by_sender ::
  "('d, 't) launch_env \<Rightarrow> path \<Rightarrow> address \<Rightarrow> (mempool_error_kind, user_operation_hash list) outcome" where
  "dump_user_operations_by_sender V data_dir a =
     bind_ok (expect (ev_init V data_dir)) (\<lambda>env.
     Ok (db_get_all_by_address (ev_mdbx V) (ev_codec V) UserOperationsBySender a env @
         db_get_all_by_address (ev_mdbx V) (ev_codec V) UserOperationsByEntity a env))"

definition get_log_level :: "nat \<Rightarrow> string" where
  "get_log_level verbosity =
     (if verbosity = 0 then ''error'' else if verbosity = 1 then ''warn'' else if verbosity = 2 then ''info''
      else if verbosity = 3 then ''debug'' else ''trace'')"

section \<open>What a launched pool keeps\<close>

text \<open>The requests that may come to a pool: operations arrive under hashes that determine their entities.\<close>

fun call_ok :: "digest \<Rightarrow> service_call \<Rightarrow> bool" where
  "call_ok K (CallAdd req) = (\<forall>uo. parse_uo (ar_uo req) = Ok uo \<longrightarrow> digest_of K uo)"
| "call_ok K (CallAddMempool uos ep) =
     (\<forall>us. into_uos uos = (Ok us :: (tonic_status, _) outcome) \<longrightarrow> list_all (digest_of K) us)"
| "call_ok K (CallP2p i uo vc) = digest_of K uo"
| "call_ok K _ = True"

lemma serve_inv:
  assumes "service_inv K S" and "call_ok K c"
  shows "service_inv K (snd (serve c S))"
proof (cases c)
  case (CallAdd req)
  then show ?thesis using add_inv [OF assms(1)] assms(2) by (simp add: serve_def)
next
  case (CallAddMempool uos ep)
  then show ?thesis using keeps_app [OF add_mempool_inv assms(1)] assms(2) by (simp add: serve_def)
next
  case (CallP2p i uo vc)
  then show ?thesis using keeps_app [OF p2p_inv assms(1)] assms(2) by (simp add: serve_def)
qed (use assms keeps_app [OF requests_inv(1) assms(1)] keeps_app [OF requests_inv(2) assms(1)]
    keeps_app [OF requests_inv(3) assms(1)] keeps_app [OF get_sorted_inv assms(1)]
    keeps_app [OF clear_requests_inv(1) assms(1)] keeps_app [OF clear_requests_inv(2) assms(1)]
    keeps_app [OF clear_requests_inv(3) assms(1)] keeps_app [OF set_reputation_keeps assms(1)]
  in \<open>simp_all add: serve_def\<close>)

lemma serve_all_inv:
  "service_inv K S \<Longrightarrow> list_all (call_ok K) cs \<Longrightarrow> service_inv K (snd (serve_all cs S))"
  by (induction cs arbitrary: S) (simp_all add: serve_inv case_prod_unfold)

lemma run_pool_same:
  "same_service (run_pool V args chain eps streams M tables R rep)
     (uopool_service_run (ua_uopool_mode args) eps (ev_connect V) streams chain (ua_max_verification_gas args)
       (ev_abi V) (ev_text V) M tables R rep (launch_validator V args chain) (pa_enable_p2p (ua_p2p_opts args)))"
  by (simp add: run_pool_def uopool_service_run_def same_service_def same_store_def same_registry_def wrap_registry_def)

lemma launch_uopool_Ok:
  assumes "launch_uopool V args E streams chain eps = Ok (pool, cfg)"
  obtains c datadir where "chainid_u64 E = Ok c" "unwrap_path_or_home (ev_home_dir V) (ua_datadir args) = Ok datadir"
    and "(ua_storage_type args = MemoryStorage \<and>
        pool = MemoryPool (run_pool V args c eps streams memory_mempool empty_tables memory_entries_op
          (launch_reputation (ua_min_stake args) []))) \<or>
      (ua_storage_type args = DatabaseStorage \<and> (\<exists>env. ev_init V (join datadir DATABASE_FOLDER_NAME) = Some env \<and>
        pool = DatabasePool (run_pool V args c eps streams (database_mempool (ev_mdbx V) (ev_codec V)) env
          (database_entries (ev_mdbx V) (ev_codec V))
          (fold (\<lambda>a rep. snd (add_whitelist a rep)) (ua_whitelist args) (launch_reputation (ua_min_stake args) env)))))"
proof -
  let ?body = "\<lambda>c datadir. case ua_storage_type args of
      DatabaseStorage \<Rightarrow> bind_ok (expect (ev_init V (join datadir DATABASE_FOLDER_NAME))) (\<lambda>env.
        Ok (DatabasePool (run_pool V args c eps streams (database_mempool (ev_mdbx V) (ev_codec V)) env
          (database_entries (ev_mdbx V) (ev_codec V))
          (fold (\<lambda>a rep. snd (add_whitelist a rep)) (ua_whitelist args) (launch_reputation (ua_min_stake args) env)))))
    | MemoryStorage \<Rightarrow> Ok (MemoryPool (run_pool V args c eps streams memory_mempool empty_tables memory_entries_op
        (launch_reputation (ua_min_stake args) [])))"
  have "\<exists>c datadir. chainid_u64 E = Ok c \<and> unwrap_path_or_home (ev_home_dir V) (ua_datadir args) = Ok datadir \<and>
      ?body c datadir = (Ok pool :: (string, _) outcome)"
    using assms by (auto simp: launch_uopool_def bind_ok_eq_Ok Let_def)
  then obtain c datadir where c: "chainid_u64 E = Ok c"
      "unwrap_path_or_home (ev_home_dir V) (ua_datadir args) = Ok datadir" and body: "?body c datadir = (Ok pool :: (string, _) outcome)"
    by blast
  show thesis
  proof (cases "ua_storage_type args")
    case MemoryStorage
    with c body show ?thesis by (intro that) auto
  next
    case DatabaseStorage
    with c body show ?thesis
      by (cases "ev_init V (join datadir DATABASE_FOLDER_NAME)") (auto intro!: that simp: expect_def)
  qed
qed

text \<open>One operation per sender and nonce in the pool that is launched: the service over the memory
  stores, wrapped by the metrics as the launch wraps them, never holds two operations with the same
  sender and nonce, whatever requests, network messages, block updates and queries it serves one after the
  other, and its indices stay exact. The operations that enter the service come under hashes that
  determine their sender, factory and paymaster.\<close>

theorem launched_pool_keeps_slots:
  assumes "launch_uopool V args E streams chain eps = Ok (MemoryPool S, cfg)" and "list_all (call_ok K) cs"
  shows "slots_unique (mem_ops (fst (sv_tables (snd (serve_all cs S))))) \<and>
    mem_consistent (fst (sv_tables (snd (serve_all cs S))))"
proof -
  obtain c where S: "S = run_pool V args c eps streams memory_mempool empty_tables memory_entries_op
      (launch_reputation (ua_min_stake args) [])"
    by (rule launch_uopool_Ok [OF assms(1)]) auto
  let ?B = "uopool_service_run (ua_uopool_mode args) eps (ev_connect V) streams c (ua_max_verification_gas args)
    (ev_abi V) (ev_text V) memory_mempool empty_tables memory_entries_op (launch_reputation (ua_min_stake args) [])
    (launch_validator V args c) (pa_enable_p2p (ua_p2p_opts args))"
  have "service_inv K ?B"
    by (simp add: service_inv_def uopool_service_run_def ops_ok_def slots_unique_def)
  then have "service_inv K (snd (serve_all cs ?B))" using assms(2) by (rule serve_all_inv)
  moreover have "fst (sv_tables (snd (serve_all cs S))) = sv_tables (snd (serve_all cs ?B))"
  proof -
    have "same_service S ?B" unfolding S by (rule run_pool_same)
    from serve_all_metered [OF this, of cs] show ?thesis by (simp add: same_service_def same_store_def)
  qed
  ultimately show ?thesis by (simp add: service_inv_def ops_ok_def)
qed

section \<open>The pools of a command\<close>

fun pool_builders :: "'d launched_pool \<Rightarrow> (h256, pool_builder) hash_map" where
  "pool_builders (DatabasePool S) = sv_uopools S"
| "pool_builders (MemoryPool S) = sv_uopools S"

fun pool_whitelisted :: "'d launched_pool \<Rightarrow> address \<Rightarrow> bool" where
  "pool_whitelisted (DatabasePool S) a = is_whitelist (sv_reputation S) a"
| "pool_whitelisted (MemoryPool S) a = is_whitelist (sv_reputation S) a"

lemma fold_insert_get:
  "hm_get (fold (\<lambda>(k, v) m. hm_insert k v m) xs m) k = Some v \<Longrightarrow> (k, v) \<in> set xs \<or> hm_get m k = Some v"
proof (induction xs arbitrary: m)
  case (Cons p xs)
  obtain a b where p: "p = (a, b)" by fastforce
  from Cons.IH [of "hm_insert a b m"] Cons.prems show ?case by (auto simp: p split: if_splits)
qed simp

lemma collect_get: "hm_get (hm_collect xs) k = Some v \<Longrightarrow> (k, v) \<in> set xs"
  using fold_insert_get [of xs "[]" k v] by (simp add: hm_collect_def)

lemma run_pool_builders:
  assumes "length streams = length eps"
  shows "dom (hm_get (sv_uopools (run_pool V args chain eps streams M tables R rep))) =
      (\<lambda>ep. mempool_id (ev_abi V) ep chain) ` set eps"
    and "hm_get (sv_uopools (run_pool V args chain eps streams M tables R rep)) m = Some b \<Longrightarrow>
      \<exists>ep \<in> set eps. m = mempool_id (ev_abi V) ep chain \<and> bd_entry_point b = ev_connect V ep \<and>
        Validator.v_entry_point (bd_validator b) = ev_connect V ADDRESS"
proof -
  let ?f = "\<lambda>(ep, _). (mempool_id (ev_abi V) ep chain, \<lparr>bd_mode = ua_uopool_mode args,
    bd_entry_point = ev_connect V ep, bd_chain = chain, bd_max_verification_gas = ua_max_verification_gas args,
    bd_validator = launch_validator V args chain,
    bd_network = (if pa_enable_p2p (ua_p2p_opts args) then Some \<lparr>nc_open = True, nc_sent = []\<rparr> else None)\<rparr>)"
  have P: "sv_uopools (run_pool V args chain eps streams M tables R rep) = hm_collect (map ?f (zip eps streams))"
    by (simp add: run_pool_def uopool_service_run_def)
  have Z: "set eps = fst ` set (zip eps streams)"
    using map_fst_zip [of eps streams] assms by (metis set_map)
  show "dom (hm_get (sv_uopools (run_pool V args chain eps streams M tables R rep))) =
      (\<lambda>ep. mempool_id (ev_abi V) ep chain) ` set eps"
    unfolding P dom_collect Z by (force simp: image_iff)
  show "\<exists>ep \<in> set eps. m = mempool_id (ev_abi V) ep chain \<and> bd_entry_point b = ev_connect V ep \<and>
        Validator.v_entry_point (bd_validator b) = ev_connect V ADDRESS"
    if got: "hm_get (sv_uopools (run_pool V args chain eps streams M tables R rep)) m = Some b"
  proof -
    obtain ep s where "(ep, s) \<in> set (zip eps streams)" "(m, b) = ?f (ep, s)"
      using collect_get [OF got [unfolded P]] by auto
    moreover have "Validator.v_entry_point (launch_validator V args chain) = ev_connect V ADDRESS"
      by (simp add: launch_validator_def new_canonical_def new_canonical_unsafe_def split: uopool_mode.split)
    ultimately show ?thesis by (auto dest: set_zip_leftD)
  qed
qed

text \<open>The pool command serves every configured entry point and no other: the service has a pool under
  the id of each of them, connected to that entry point. The validator of every pool, though, is connected
  to the one address that is built in, so the operations of any other entry point are simulated against
  the wrong contract.\<close>

theorem command_serves_entry_points:
  assumes "uopool_command V args common = Ok (pool, cfg)" and "provider V common = Ok (E, stream)"
    and "chainid_u64 E = Ok chain"
  shows "dom (hm_get (pool_builders pool)) =
      (\<lambda>ep. mempool_id (ev_abi (ne_pool V)) ep chain) ` set (ca_entry_points common) \<and>
    (\<forall>m b. hm_get (pool_builders pool) m = Some b \<longrightarrow>
      (\<exists>ep \<in> set (ca_entry_points common). m = mempool_id (ev_abi (ne_pool V)) ep chain \<and>
        bd_entry_point b = ev_connect (ne_pool V) ep \<and>
        Validator.v_entry_point (bd_validator b) = ev_connect (ne_pool V) ADDRESS))"
proof -
  let ?eps = "ca_entry_points common" and ?streams = "create_block_streams stream (length (ca_entry_points common))"
  have len: "length ?streams = length ?eps" by (simp add: create_block_streams_def)
  have "launch_uopool (ne_pool V) args E ?streams (ca_chain common) ?eps = Ok (pool, cfg)"
    using assms(1,2) by (simp add: uopool_command_def)
  then show ?thesis
  proof (rule launch_uopool_Ok, goal_cases)
    case (1 c datadir)
    then have "c = chain" using assms(3) by simp
    with 1(3) show ?case
      by (elim disjE conjE exE)
        (simp only: pool_builders.simps, intro conjI allI impI run_pool_builders [OF len], assumption)+
  qed
qed

lemma whitelist_fold:
  "set (whitelist (fold (\<lambda>a rep. snd (add_whitelist a rep)) as rep)) = set as \<union> set (whitelist rep)"
  by (induction as arbitrary: rep) (auto simp: add_whitelist_def add_into_list_def hs_insert_def)

lemma run_pool_whitelist:
  "is_whitelist (sv_reputation (run_pool V args chain eps streams M tables R rep)) a \<longleftrightarrow> a \<in> set (whitelist rep)"
  by (simp add: run_pool_def uopool_service_run_def is_whitelist_def is_in_list_def wrap_registry_def)

text \<open>The whitelist of the command line has an effect only with database storage: there it is exactly
  the whitelist of the launched pool, but a pool over memory starts with an empty one.\<close>

theorem whitelist_needs_database:
  assumes "launch_uopool V args E streams chain eps = Ok (pool, cfg)"
  shows "pool_whitelisted pool a \<longleftrightarrow> ua_storage_type args = DatabaseStorage \<and> a \<in> set (ua_whitelist args)"
  by (rule launch_uopool_Ok [OF assms])
    (auto simp: run_pool_whitelist whitelist_fold launch_reputation_def)

section \<open>The launched bundler\<close>

lemma load_wallet_signers:
  assumes "load_wallet V args c = Ok w"
  shows "wl_flashbots_signer w \<noteq> None \<longleftrightarrow> ba_send_bundle_mode args = Flashbots" and "lw_chain_id (wl_signer w) = c"
  using assms
  by (auto simp: load_wallet_def Let_def from_file_def from_private_key_def bind_ok_eq_Ok with_chain_id_def
      split: option.splits if_splits)

lemma run_bundlers_fields:
  "bs_bundlers (run_bundlers V args w c eps upool send) = map (\<lambda>ep. \<lparr>bl_wallet = be_signer_address V (lw_key (wl_signer w)),
     bl_beneficiary = ba_beneficiary args, bl_entry_point = ep, bl_chain = c,
     bl_min_balance = ba_min_balance args, bl_node = be_node V w, bl_send = send,
     bl_enable_access_list = ba_enable_access_list args\<rparr>) eps"
  "bs_running (run_bundlers V args w c eps upool send)"
  "i < length eps \<Longrightarrow> loops_of i (run_bundlers V args w c eps upool send) = 1"
proof -
  show "loops_of i (run_bundlers V args w c eps upool send) = 1" if "i < length eps"
  proof -
    have "filter (\<lambda>j. j = i) [0..<length eps] = [i]" using that by (induction eps) (auto simp: less_Suc_eq)
    then show ?thesis
      by (simp add: run_bundlers_def bundler_service_run_def start_bundling_def loops_of_def filter_map comp_def)
  qed
qed (simp_all add: run_bundlers_def bundler_service_run_def start_bundling_def)

text \<open>A bundler that has been launched is on the chain it was meant for: the chain of the execution
  client, which is the requested one if one was requested. It has one bundler and one spawned bundling
  task for each entry point, all on that chain and with the address of the loaded key; the Flashbots relay is used
  only on Mainnet and Sepolia and with a key of its own, the Fastlane relay only on Polygon.\<close>

theorem launched_bundler_sound:
  assumes "launch_bundling V args E chain eps addr = Ok S"
  shows "\<exists>c w. chainid_u64 E = Ok c \<and> chain \<in> {None, Some c} \<and> load_wallet V args c = Ok w \<and>
    lw_chain_id (wl_signer w) = c \<and>
    map bl_entry_point (bs_bundlers S) = eps \<and>
    (\<forall>B \<in> set (bs_bundlers S). bl_chain B = c \<and> bl_wallet B = be_signer_address V (lw_key (wl_signer w)) \<and>
       bl_beneficiary B = ba_beneficiary args) \<and>
    bs_running S \<and> (\<forall>i < length eps. loops_of i S = 1) \<and>
    (ba_send_bundle_mode args = Flashbots \<longrightarrow> c \<in> {1, 11155111} \<and> wl_flashbots_signer w \<noteq> None) \<and>
    (ba_send_bundle_mode args = Fastlane \<longrightarrow> c = 137)"
proof -
  have "\<exists>c w upool send. chainid_u64 E = Ok c \<and> chain \<in> {None, Some c} \<and> load_wallet V args c = Ok w \<and>
      S = run_bundlers V args w c eps upool send \<and>
      (ba_send_bundle_mode args = Flashbots \<longrightarrow> c \<in> {1, 11155111}) \<and> (ba_send_bundle_mode args = Fastlane \<longrightarrow> c = 137)"
    using assms
    by (cases "ba_send_bundle_mode args"; cases chain)
      (auto simp: launch_bundling_def check_connected_chain_def bind_ok_eq_Ok Let_def flashbots_relays_def
        fastlane_relays_def split: if_splits)
  then obtain c w upool send where S: "chainid_u64 E = Ok c" "chain \<in> {None, Some c}" "load_wallet V args c = Ok w"
      "S = run_bundlers V args w c eps upool send"
      "ba_send_bundle_mode args = Flashbots \<longrightarrow> c \<in> {1, 11155111}" "ba_send_bundle_mode args = Fastlane \<longrightarrow> c = 137"
    by blast
  show ?thesis
    using S load_wallet_signers [OF S(3)]
    by (intro exI [of _ c] exI [of _ w]) (auto simp: comp_def run_bundlers_fields)
qed

text \<open>Libraries report failures as errors.\<close>

definition libraries_total :: "'n bundling_env \<Rightarrow> bool" where
  "libraries_total V \<longleftrightarrow>
     (\<forall>phrase path. wb_derive (be_wallet_lib V) phrase path \<noteq> Panic) \<and>
     (\<forall>key. wb_parse_key (be_wallet_lib V) key \<noteq> Panic) \<and>
     (\<forall>url. be_parse_url V url \<noteq> Panic) \<and> (\<forall>addr. be_connect V addr \<noteq> Panic)"

lemma bind_ok_Panic: "bind_ok r f = Panic \<longleftrightarrow> r = Panic \<or> (\<exists>x. r = Ok x \<and> f x = Panic)"
  by (cases r) simp_all

lemma load_wallet_panics:
  assumes "libraries_total V"
  shows "load_wallet V args c = Panic \<longleftrightarrow>
    ba_mnemonic_file args = None \<and>
    (case ba_private_key args of
       None \<Rightarrow> True
     | Some key \<Rightarrow> ba_send_bundle_mode args = Flashbots \<and> ba_flashbots_private_key args = None \<and>
         (\<exists>k. wb_parse_key (be_wallet_lib V) key = Ok k))"
proof -
  have P: "map_err g r = Panic \<longleftrightarrow> r = Panic" for g :: "string \<Rightarrow> string" and r :: "(string, wallet) outcome"
    by (cases r) (simp_all add: map_err_def)
  show ?thesis
    using assms
    by (auto simp: load_wallet_def Let_def P from_file_def from_private_key_def bind_ok_Panic libraries_total_def
        read_to_string_def ok_or_def expect_def split: option.splits if_splits)
qed

text \<open>Launching the bundler on a reachable client panics exactly in these cases: neither a mnemonic nor
  a private key is given; the Flashbots mode is used with a valid private key but without a Flashbots key;
  or everything else succeeds and the relay does not serve the chain.\<close>

theorem launch_bundling_panics_iff:
  assumes "libraries_total V" and "check_connected_chain E chain = Ok version" and "chainid_u64 E = Ok c"
  shows "launch_bundling V args E chain eps addr = Panic \<longleftrightarrow>
    ba_mnemonic_file args = None \<and> ba_private_key args = None \<or>
    (\<exists>key k. ba_mnemonic_file args = None \<and> ba_private_key args = Some key \<and> ba_send_bundle_mode args = Flashbots \<and>
       ba_flashbots_private_key args = None \<and> wb_parse_key (be_wallet_lib V) key = Ok k) \<or>
    (\<exists>w upool. load_wallet V args c = Ok w \<and> be_connect V addr = Ok upool \<and>
       (ba_send_bundle_mode args = Flashbots \<and> c \<notin> {1, 11155111} \<or> ba_send_bundle_mode args = Fastlane \<and> c \<noteq> 137))"
proof -
  have new: "new_flashbots (be_parse_url V) (Some es) signer \<noteq> Panic" if "flashbots_relays c = Ok es" for es and signer :: "local_wallet option"
    using that assms(1)
    by (auto simp: new_flashbots_def flashbots_relays_def bind_ok_Panic libraries_total_def ok_or_def expect_def
        split: if_splits option.splits)
  have relays: "flashbots_relays c = Panic \<longleftrightarrow> c \<notin> {1, 11155111}" "fastlane_relays c = Panic \<longleftrightarrow> c \<noteq> 137"
    by (simp_all add: flashbots_relays_def fastlane_relays_def)
  have "launch_bundling V args E chain eps addr = Panic \<longleftrightarrow> load_wallet V args c = Panic \<or>
      (\<exists>w upool. load_wallet V args c = Ok w \<and> be_connect V addr = Ok upool \<and>
        (ba_send_bundle_mode args = Flashbots \<and> c \<notin> {1, 11155111} \<or> ba_send_bundle_mode args = Fastlane \<and> c \<noteq> 137))"
    using assms(1) new
    by (cases "ba_send_bundle_mode args"; cases "load_wallet V args c"; cases "be_connect V addr")
      (auto simp: launch_bundling_def assms(2,3) bind_ok_Panic Let_def relays libraries_total_def)
  then show ?thesis unfolding load_wallet_panics [OF assms(1)] by (auto split: option.splits)
qed

section \<open>Sample launches\<close>

definition sample_env ::
  "(db_table \<Rightarrow> (bytes \<times> bytes) list, db_table \<Rightarrow> (bytes \<times> bytes) list) launch_env" where
  "sample_env = \<lparr>
     ev_connect = (\<lambda>_. sample_eth), ev_home_dir = Some ''/root'', ev_abi = sample_abi, ev_text = sample_text,
     ev_show = (\<lambda>_. []), ev_sha256 = (\<lambda>b. b), ev_mdbx = ref_mdbx, ev_codec = ref_codec,
     ev_init = (\<lambda>_. Some (\<lambda>_. []))\<rparr>"

definition sample_eth_client :: eth_client where
  "sample_eth_client = \<lparr>ec_chainid = Ok 1, ec_client_version = Ok ''geth''\<rparr>"

definition sample_uopool_args :: "storage_type \<Rightarrow> uopool_args" where
  "sample_uopool_args storage = \<lparr>
     ua_uopool_addr = ''127.0.0.1'', ua_uopool_port = 3002, ua_datadir = None, ua_storage_type = storage,
     ua_max_verification_gas = 5000000, ua_min_stake = 1, ua_min_priority_fee_per_gas = 0, ua_whitelist = [77],
     ua_uopool_mode = Unsafe,
     ua_p2p_opts = \<lparr>pa_enable_p2p = False, pa_p2p_listen_address = 0, pa_p2p_broadcast_address = None,
       pa_udp4_port = 9000, pa_tcp4_port = 9000, pa_bootnodes = [], pa_node_key = None, pa_node_enr = None\<rparr>\<rparr>"

definition sample_bundling_env :: "h256 list bundling_env" where
  "sample_bundling_env = \<lparr>
     be_wallet_lib = ref_wallet_lib, be_files = [(''phrase'', ''a b'')], be_signer_address = (\<lambda>_. 9),
     be_node = (\<lambda>_. sample_node), be_parse_url = Ok, be_connect = (\<lambda>_. Ok sample_pool_client)\<rparr>"

definition sample_bundler_args :: "string option \<Rightarrow> bundler_args" where
  "sample_bundler_args mnemonic = \<lparr>
     ba_bundler_addr = ''127.0.0.1'', ba_bundler_port = 3003, ba_mnemonic_file = mnemonic, ba_private_key = Some ''k'',
     ba_flashbots_private_key = None, ba_beneficiary = 10, ba_min_balance = 50, ba_bundle_interval = 10,
     ba_send_bundle_mode = Flashbots, ba_enable_access_list = False\<rparr>"

definition sample_node_env ::
  "(db_table \<Rightarrow> (bytes \<times> bytes) list, db_table \<Rightarrow> (bytes \<times> bytes) list, h256 list) node_env" where
  "sample_node_env = \<lparr>
     ne_pool = sample_env, ne_bundling = sample_bundling_env, ne_merge = ref_merge, ne_parse_header = Some,
     ne_bundler = (\<lambda>_. Ok ()), ne_install = (\<lambda>_. True), ne_http = (\<lambda>_ _. Ok sample_eth_client), ne_ws = (\<lambda>_. Err ''ws'')\<rparr>"

definition sample_common :: common_args where
  "sample_common = \<lparr>
     ca_eth_client_address = ''http://127.0.0.1:8545'', ca_chain = Some 1, ca_entry_points = [1000, 2000],
     ca_poll_interval = 500,
     ca_metrics = \<lparr>ma_enable_metrics = False, ma_custom_label_value = None, ma_listen_address = ''127.0.0.1'',
       ma_port = 3030\<rparr>\<rparr>"

lemma sample_chain: "chainid_u64 sample_eth_client = Ok 1" "check_connected_chain sample_eth_client None = Ok ''geth''"
  "check_connected_chain sample_eth_client (Some 1) = Ok ''geth''"
  by (simp_all add: chainid_u64_def sample_eth_client_def as_u64_def check_connected_chain_def)

lemma sample_launch_uopool:
  "chain \<in> {None, Some 1} \<Longrightarrow>
     \<exists>S cfg. launch_uopool sample_env (sample_uopool_args MemoryStorage) sample_eth_client streams chain eps = Ok (MemoryPool S, cfg)"
  "\<exists>S cfg. launch_uopool sample_env (sample_uopool_args DatabaseStorage) sample_eth_client streams None eps = Ok (DatabasePool S, cfg)"
  by (auto simp: launch_uopool_def sample_chain unwrap_path_or_home_def sample_env_def sample_uopool_args_def
      ok_or_def expect_def Let_def)

theorem launched_pool_keeps_slots_witness:
  "\<exists>S cfg. launch_uopool sample_env (sample_uopool_args MemoryStorage) sample_eth_client [()] None [1000] = Ok (MemoryPool S, cfg) \<and>
     slots_unique (mem_ops (fst (sv_tables (snd (serve_all
       [CallAdd (sample_request sample_uo), CallAdd (sample_request sample_bumped), CallGetSorted None] S)))))"
proof -
  obtain S cfg where S: "launch_uopool sample_env (sample_uopool_args MemoryStorage) sample_eth_client [()] None [1000] =
      Ok (MemoryPool S, cfg)"
    using sample_launch_uopool(1) [of None] by blast
  have "list_all (call_ok (\<lambda>_. get_entities (user_operation sample_uo)))
      [CallAdd (sample_request sample_uo), CallAdd (sample_request sample_bumped), CallGetSorted None]"
    by (simp add: sample_parse digest_of_def sample_bumped_def sample_uo_def get_entities_def)
  from launched_pool_keeps_slots [OF S this] S show ?thesis by blast
qed

theorem whitelist_needs_database_witness:
  "\<exists>P cfg Q cfg'. launch_uopool sample_env (sample_uopool_args MemoryStorage) sample_eth_client [()] None [1000] = Ok (P, cfg) \<and>
     launch_uopool sample_env (sample_uopool_args DatabaseStorage) sample_eth_client [()] None [1000] = Ok (Q, cfg') \<and>
     \<not> pool_whitelisted P 77 \<and> pool_whitelisted Q 77"
proof -
  obtain S cfg S' cfg' where
    m: "launch_uopool sample_env (sample_uopool_args MemoryStorage) sample_eth_client [()] None [1000] = Ok (MemoryPool S, cfg)" and
    d: "launch_uopool sample_env (sample_uopool_args DatabaseStorage) sample_eth_client [()] None [1000] = Ok (DatabasePool S', cfg')"
    using sample_launch_uopool(1) [of None] sample_launch_uopool(2) by blast
  then show ?thesis
    using whitelist_needs_database [OF m, of 77] whitelist_needs_database [OF d, of 77]
    by (auto simp: sample_uopool_args_def)
qed

theorem command_serves_entry_points_witness:
  "\<exists>pool cfg. uopool_command sample_node_env (sample_uopool_args MemoryStorage) sample_common = Ok (pool, cfg) \<and>
     dom (hm_get (pool_builders pool)) = {mempool_id sample_abi 1000 1, mempool_id sample_abi 2000 1}"
proof -
  have p: "provider sample_node_env sample_common = Ok (sample_eth_client, HttpBlockStream)"
    by (simp add: provider_def sample_common_def sample_node_env_def)
  have env: "ne_pool sample_node_env = sample_env" "ca_chain sample_common = Some 1"
      "ca_entry_points sample_common = [1000, 2000]" "ev_abi sample_env = sample_abi"
    by (simp_all add: sample_node_env_def sample_common_def sample_env_def)
  obtain S cfg where "uopool_command sample_node_env (sample_uopool_args MemoryStorage) sample_common = Ok (MemoryPool S, cfg)"
    using sample_launch_uopool(1) [of "Some 1" "create_block_streams HttpBlockStream (Suc (Suc 0))" "[1000, 2000]"]
    by (auto simp: uopool_command_def p env)
  from command_serves_entry_points [OF this p sample_chain(1)] this show ?thesis by (auto simp: env)
qed

theorem launched_bundler_sound_witness:
  "\<exists>S. launch_bundling sample_bundling_env (sample_bundler_args (Some ''phrase'')) sample_eth_client (Some 1) [1000] ''http://pool'' = Ok S \<and>
     map bl_entry_point (bs_bundlers S) = [1000] \<and> bs_running S \<and> loops_of 0 S = 1"
proof -
  obtain S where S: "launch_bundling sample_bundling_env (sample_bundler_args (Some ''phrase'')) sample_eth_client (Some 1)
      [1000] ''http://pool'' = Ok S"
    by (simp add: launch_bundling_def sample_chain load_wallet_def sample_bundling_env_def sample_bundler_args_def
        from_file_def read_to_string_def ok_or_def ref_wallet_lib_def flashbots_relays_def new_flashbots_def expect_def
        map_err_def Let_def)
  from launched_bundler_sound [OF S] S show ?thesis by auto
qed

theorem launch_bundling_panics_iff_witness:
  "launch_bundling sample_bundling_env (sample_bundler_args None) sample_eth_client (Some 1) [1000] ''http://pool'' = Panic"
proof -
  have "libraries_total sample_bundling_env"
    by (simp add: libraries_total_def sample_bundling_env_def ref_wallet_lib_def)
  from launch_bundling_panics_iff [OF this sample_chain(3,1)] show ?thesis
    by (simp add: sample_bundler_args_def sample_bundling_env_def ref_wallet_lib_def)
qed

section \<open>Arguments that are read back\<close>

text \<open>A label and its value are read back as long as neither contains the separator; what follows a second
  separator is lost.\<close>

lemma split_on_piece: "d \<notin> set s \<Longrightarrow> split_on d (s @ d # t) = s # split_on d t"
  by (induction s) auto

lemma split_on_last: "d \<notin> set s \<Longrightarrow> split_on d s = [s]"
  by (induction s) auto

lemma parse_label_value_splits:
  assumes "CHR ''='' \<notin> set label" and "CHR ''='' \<notin> set value"
  shows "parse_label_value (label @ ''='' @ value) = Ok (label, value)"
    and "parse_label_value (label @ ''='' @ value @ ''='' @ rest) = Ok (label, value)"
  using assms by (simp_all add: parse_label_value_def split_on_piece split_on_last)

end
