(* ===== verification/Spec2Isabelle.thy ===== *)
theory Spec2Isabelle
  imports Json_Rpc Rpc_Handler Node_Launch
begin

text \<open>
  A verification development for the Silius bundler, an ERC-4337 bundler in Rust
  (\<open>src/crates\<close>). A client submits a user operation over JSON-RPC (\<open>rpc\<close>) to the service of the pool
  (\<open>grpc/src/uopool.rs\<close>). The pool (\<open>mempool/src/uopool.rs\<close>) validates it with sanity checks, a simulation
  and a traced simulation (\<open>mempool/src/validate\<close>), consults the reputation of its entities, and stores it
  in memory or in a database. The service of the bundler (\<open>grpc/src/bundler.rs\<close>) takes operations from the
  pool and sends them as a transaction to the entry point contract (\<open>bundler\<close>). A new block takes the
  included operations out of the pool. With the p2p network (\<open>p2p\<close>) enabled, validated operations are
  gossiped to other nodes and operations from other nodes enter the pool.

  The binary (\<open>bin/silius\<close>) reads the configuration and launches these services.

  \<^bold>\<open>Conventions.\<close>
  A Rust \<open>Result\<close> is an \<open>outcome\<close>: \<open>Ok\<close>, \<open>Err\<close>, or \<open>Panic\<close> for a panic, an \<open>expect\<close> on an error, an
  index out of range or an overflow of \<open>U256\<close>. A method that changes state is an operation
  \<open>('s, 'e, 'a) op\<close> that returns the outcome and the new state. \<open>u64\<close> and \<open>usize\<close> arithmetic wraps, as in
  a release build; \<open>U256\<close> is a word of 256 bits whose operators panic on overflow, as in ethers. A
  \<open>HashMap\<close> is an association list with distinct keys, so that its iteration order is arbitrary but
  fixed; a \<open>HashSet\<close> is a distinct list. A trait object is a record of functions. Loops that may not end are
  \<open>partial_function (option)\<close> with \<open>None\<close> for not returning; no definition uses fuel, all others are total.
  Code of other packages (the execution client, the contract bindings, libmdbx, ssz_rs, snappy,
  libp2p, serde) is a parameter, and a predicate whose name ends in \<open>_documented\<close> states what is used of it;
  each such predicate is shown to hold of a concrete instance.

  \<^bold>\<open>Theories, in the order of the code.\<close>
  \<^item> \<open>Silius_Prelude\<close>: outcomes, operations, hash maps, bytes of words, and a small Hoare logic
    (\<open>ensures\<close>, \<open>keeps\<close>, with the collection \<open>keeps_intros\<close>).
  \<^item> \<open>Primitives\<close> (\<open>primitives\<close>): user operations and their hash, entities, statuses, constants.
    \<open>Ssz_Codec\<close>: the encoding of an operation on the network; it is canonical, and the messages on which
    the hand-written reader panics are characterised.
  \<^item> \<open>Entry_Point\<close> (\<open>contracts\<close>): the calls of the entry point and the decoding of their errors.
  \<^item> \<open>Mempool_Errors\<close>, \<open>Mempool_Store\<close>, \<open>Memory_Store\<close>, \<open>Database_Store\<close>, \<open>Reputation_Model\<close>
    (\<open>mempool/src/mempool.rs\<close>, \<open>memory\<close>, \<open>database\<close>, \<open>reputation.rs\<close>): the storage traits, the mempool
    over them, and both backends. The locales \<open>uo_store\<close>, \<open>growing_index\<close>, \<open>addr_index\<close>, \<open>growing_codes\<close>,
    \<open>code_store\<close>, \<open>growing_pool\<close>, \<open>mempool_contract\<close> and \<open>entry_store\<close> are the contracts of the traits and
    carry the refinement lemmas. The memory backend is an interpretation of all of them. The
    database satisfies those without removal: as long as nothing is removed both backends agree,
    and what a removal leaves behind is stated exactly.
  \<^item> \<open>Gas_Utils\<close>, \<open>Sanity_Checks\<close>, \<open>Simulation_Checks\<close>, \<open>Trace_Checks\<close>, \<open>Validator\<close>
    (\<open>mempool/src/utils.rs\<close>, \<open>mempool/src/validate\<close>): every check, what its acceptance implies, and their
    composition.
  \<^item> \<open>Uopool\<close>, \<open>Pool_Effects\<close>, \<open>Bundle_Selection\<close>, \<open>Gas_Estimate\<close>, \<open>Pool_Queries\<close>
    (\<open>mempool/src/uopool.rs\<close>, \<open>estimate.rs\<close>, \<open>builder.rs\<close>): adding and removing operations and their whole
    effect on tables, counters and the channel to the network; the choice of a bundle (solvent
    paymasters, reputation limits, no shared storage); the searches for gas limits, which find a
    limit in one case and never return in another; lookups of included operations.
  \<^item> \<open>Grpc_Proto\<close>, \<open>Pool_Service\<close>, \<open>Slot_Safety\<close> (\<open>grpc\<close>): the messages, the service of the pool as a state
    machine (\<open>service_step\<close>), and that requests served one after the other keep at most one operation per
    sender and nonce while overlapping requests do not.
  \<^item> \<open>Bundler_Core\<close>, \<open>Bundler_Service\<close> (\<open>bundler\<close>, \<open>grpc/src/bundler.rs\<close>): the transaction of a bundle, the four
    ways to send it, and the bundling loops as a state machine (\<open>bundler_step\<close>). A loop goes through the
    phases of its task (\<open>loop_phase\<close>): it is spawned, waits for a tick, fetches, and sends; requests and other
    tasks run in between. It reads the flag only after a tick, so a round under way is finished after a stop.
  \<^item> \<open>Json_Rpc\<close> (\<open>rpc\<close>): the methods of the eth and debug namespaces and the error codes; what
    eth_sendUserOperation answers is what happened to the pool. \<open>Rpc_Server\<close>: the server, its launch and its
    proxy; exactly the configured methods are exposed, and calls of other methods, and only these, go to the
    execution client.
  \<^item> \<open>Wire_Codec\<close>, \<open>Rpc_Handler\<close>, \<open>Rpc_Behaviour\<close>, \<open>Peer_Manager\<close>, \<open>P2p_Network\<close>, \<open>P2p_Setup\<close> (\<open>p2p\<close>): the
    messages between nodes and their codecs; the handler of a connection as a state machine
    (\<open>handler_step\<close>) whose polls drain its queues and account for every request; the request-response
    behaviour as a state machine under libp2p (\<open>rpc_step\<close>), in a build with debug assertions and in one without:
    without them it never panics, with them exactly when the peer is said not to support the protocol of a
    request that is not recorded as pending, and as long as no handler failure is mistracked it forgets no
    request; the database of peers, which follows the swarm (\<open>pm_step\<close>); and the network service, which carries an operation unchanged from one
    node to the pool of another; the set-up of a node, its key and record over restarts, and the cache of
    discovered peers (\<open>discovery_step\<close>).
  \<^item> \<open>Metrics\<close> (\<open>metrics\<close>): the wrappers around the stores, the services and the client. A compositional
    simulation (\<open>simulates\<close>, with the collection \<open>simulates_intros\<close>) shows that a pool over wrapped stores
    answers like the bare one; the gauge of the size of the pool drifts.
  \<^item> \<open>Wallet\<close> (\<open>primitives/src/wallet.rs\<close>) and \<open>Node_Launch\<close> (\<open>bin/silius\<close>): wallets that are made and loaded
    again; the arguments, the launch of the pool, of the bundler and of the node, and the commands. The
    invariants of the services hold of what is launched.

  \<^bold>\<open>Interleaving.\<close>
  An \<open>async\<close> method runs without interruption between the points where the code releases what it
  holds. The request to add an operation has such a point between validation and addition and is
  modelled in two parts; the tasks of the bundler and of the network are steps of their machines. A panic
  in a service ends the task that serves the request: its client gets a status (\<open>over_channel\<close>).

  \<^bold>\<open>Not modelled.\<close>
  The parsing of the command line by clap, signals and logging (\<open>cli/mod.rs\<close>), the transport of gRPC, and the
  building of the libp2p transport are left to their libraries. CORS layers are recorded but their effect
  is the library's. What the behaviours share (\<open>NetworkGlobals\<close>) is part of the state of the network.
  Code that the build generates (contract bindings, protobuf messages, the servers that the jsonrpsee macros
  make) is a parameter or a record with its fields. Opening a database file is a parameter, its transactions
  are modelled.
\<close>

end
